(* ===== verification/Prelude.thy ===== *)
theory Prelude
  imports Complex_Main "HOL-Library.AList" "HOL-Library.Word"
begin

text \<open>
  Shared vocabulary of the development: Python dictionaries as association lists in
  insertion order, Python slices and indexing, byte strings, big- and little-endian
  integers, text as code points, and the generic lemmas the component theories rest on.
\<close>

named_theorems dict_simps \<open>lookups in updated dictionaries\<close>
named_theorems slice_simps \<open>slices whose bounds are in range\<close>

subsection \<open>Dictionaries\<close>

text \<open>
  A Python \<open>dict\<close> iterates in insertion order, keeps the place of a key that is assigned
  again and appends a new key: \<open>AList.update\<close> does exactly that, \<open>AList.delete\<close> is \<open>pop\<close>.
\<close>

type_synonym ('k, 'v) dict = "('k \<times> 'v) list"

abbreviation dict_get :: "('k, 'v) dict \<Rightarrow> 'k \<Rightarrow> 'v option" where
  "dict_get d k \<equiv> map_of d k"

abbreviation dict_set :: "'k \<Rightarrow> 'v \<Rightarrow> ('k, 'v) dict \<Rightarrow> ('k, 'v) dict" where
  "dict_set k v d \<equiv> AList.update k v d"

abbreviation dict_pop :: "'k \<Rightarrow> ('k, 'v) dict \<Rightarrow> ('k, 'v) dict" where
  "dict_pop k d \<equiv> AList.delete k d"

abbreviation dict_keys :: "('k, 'v) dict \<Rightarrow> 'k list" where
  "dict_keys d \<equiv> map fst d"

definition dict_ok :: "('k, 'v) dict \<Rightarrow> bool" where
  "dict_ok d \<longleftrightarrow> distinct (dict_keys d)"

lemma dict_get_set [dict_simps]:
  "dict_get (dict_set k v d) j = (if j = k then Some v else dict_get d j)"
  by (simp add: update_conv')

lemma dict_get_pop [dict_simps]:
  "dict_get (dict_pop k d) j = (if j = k then None else dict_get d j)"
  by (simp add: delete_conv')

lemma dict_ok_Nil [simp]: "dict_ok []"
  by (simp add: dict_ok_def)

lemma dict_ok_set [simp]: "dict_ok d \<Longrightarrow> dict_ok (dict_set k v d)"
  by (simp add: dict_ok_def distinct_update)

lemma dict_ok_pop [simp]: "dict_ok d \<Longrightarrow> dict_ok (dict_pop k d)"
  by (simp add: dict_ok_def distinct_delete)

lemma dict_get_in: "dict_get d k = Some v \<Longrightarrow> (k, v) \<in> set d"
  by (rule map_of_SomeD)

lemma dict_in_get: "dict_ok d \<Longrightarrow> (k, v) \<in> set d \<Longrightarrow> dict_get d k = Some v"
  by (simp add: dict_ok_def)

lemma dict_get_iff: "dict_ok d \<Longrightarrow> dict_get d k = Some v \<longleftrightarrow> (k, v) \<in> set d"
  by (auto intro: dict_get_in dict_in_get)

lemma dict_set_new: "dict_get d k = None \<Longrightarrow> dict_set k v d = d @ [(k, v)]"
  by (induction d) (auto split: if_splits)

lemma length_dict_set:
  "length (dict_set k v d) = (if dict_get d k = None then Suc (length d) else length d)"
  by (induction d) (auto split: if_splits)

lemma length_dict_pop_le: "length (dict_pop k d) \<le> length d"
  by (rule length_delete_le)

lemma dict_pop_mem: "x \<in> set (dict_pop k d) \<longleftrightarrow> x \<in> set d \<and> fst x \<noteq> k"
  by (auto simp: AList.delete_eq)

lemma dict_set_mem:
  "dict_ok d \<Longrightarrow> x \<in> set (dict_set k v d) \<longleftrightarrow> x = (k, v) \<or> (x \<in> set d \<and> fst x \<noteq> k)"
  by (cases x) (auto simp: dict_get_iff [symmetric] dict_simps split: if_splits)

lemma dict_set_same_keys:
  "dict_get d k = Some v \<Longrightarrow> dict_keys (dict_set k w d) = dict_keys d"
  by (induction d) auto

lemma dict_get_filter:
  "dict_ok d \<Longrightarrow> dict_get (filter P d) k =
     (case dict_get d k of None \<Rightarrow> None | Some v \<Rightarrow> if P (k, v) then Some v else None)"
  by (induction d) (auto simp: dict_ok_def map_of_eq_None_iff split: option.splits dest: map_of_SomeD)

lemma dict_ok_filter [simp]: "dict_ok d \<Longrightarrow> dict_ok (filter P d)"
  by (simp add: dict_ok_def distinct_map_filter)

text \<open>The number of entries with a property, as \<open>sum(1 for s in d.values() if \<dots>)\<close> counts them.\<close>

definition dict_count :: "('v \<Rightarrow> bool) \<Rightarrow> ('k, 'v) dict \<Rightarrow> nat" where
  "dict_count P d = length (filter (\<lambda>(k, v). P v) d)"

lemma dict_count_set_new:
  "dict_get d k = None \<Longrightarrow> dict_count P (dict_set k v d) = dict_count P d + (if P v then 1 else 0)"
  by (simp add: dict_count_def dict_set_new)

lemma dict_count_set_same:
  "dict_get d k = Some w \<Longrightarrow> P v = P w \<Longrightarrow> dict_count P (dict_set k v d) = dict_count P d"
  by (induction d) (auto simp: dict_count_def split: if_splits)

lemma dict_count_set_le:
  "dict_count P (dict_set k v d) \<le> dict_count P d + (if P v then 1 else 0)"
  by (induction d) (auto simp: dict_count_def split: if_splits)

lemma dict_count_pop_le: "dict_count P (dict_pop k d) \<le> dict_count P d"
  unfolding dict_count_def AList.delete_eq
  by (induction d) auto

subsection \<open>Sequences: Python slices and indexing\<close>

text \<open>
  \<open>xs[i:j]\<close>: a negative bound counts from the end, both are clamped to the sequence.
\<close>

definition py_bound :: "nat \<Rightarrow> int \<Rightarrow> nat" where
  "py_bound n i = (if i < 0 then nat (int n + i) else min n (nat i))"

definition py_slice :: "'a list \<Rightarrow> int \<Rightarrow> int \<Rightarrow> 'a list" where
  "py_slice xs i j =
     (let n = length xs; lo = py_bound n i; hi = py_bound n j
      in take (hi - lo) (drop lo xs))"

lemma py_slice_nonneg [slice_simps]:
  "0 \<le> i \<Longrightarrow> 0 \<le> j \<Longrightarrow> py_slice xs i j = take (nat j - nat i) (drop (nat i) xs)"
  by (auto simp: py_slice_def py_bound_def Let_def min_def)

lemma length_py_slice_in [slice_simps]:
  "0 \<le> i \<Longrightarrow> i \<le> j \<Longrightarrow> j \<le> int (length xs) \<Longrightarrow> length (py_slice xs i j) = nat (j - i)"
  by (auto simp: py_slice_nonneg nat_diff_distrib)

lemma length_py_slice_le: "length (py_slice xs i j) \<le> length xs"
  by (simp add: py_slice_def Let_def)

lemma set_py_slice: "set (py_slice xs i j) \<subseteq> set xs"
  by (auto simp: py_slice_def Let_def dest: in_set_takeD in_set_dropD)

subsection \<open>Bytes and fixed-width integers\<close>

type_synonym byte = "8 word"
type_synonym bytes = "byte list"

text \<open>Text: a Python \<open>str\<close> is a sequence of code points.\<close>

type_synonym pystr = "nat list"

definition ascii :: "string \<Rightarrow> pystr" where
  "ascii s = map of_char s"

lemma length_ascii [simp]: "length (ascii s) = length s"
  by (simp add: ascii_def)

lemma ascii_eq_iff [simp]: "ascii s = ascii t \<longleftrightarrow> s = t"
proof
  assume "ascii s = ascii t"
  then have "map (char_of :: nat \<Rightarrow> char) (ascii s) = map char_of (ascii t)" by simp
  then show "s = t" by (simp add: ascii_def comp_def)
qed simp

lemma ascii_eq_Nil [simp]: "ascii s = [] \<longleftrightarrow> s = []"
  by (simp add: ascii_def)

text \<open>A bytes literal such as \<open>b"ANDROID!"\<close>.\<close>

definition byte_lit :: "string \<Rightarrow> bytes" where
  "byte_lit s = map (\<lambda>c. of_nat (of_char c)) s"

text \<open>\<open>int.from_bytes(bs, "big")\<close> and \<open>int.from_bytes(bs, "little")\<close>.\<close>

fun le_nat :: "bytes \<Rightarrow> nat" where
  "le_nat [] = 0"
| "le_nat (b # bs) = unat b + 256 * le_nat bs"

definition be_nat :: "bytes \<Rightarrow> nat" where
  "be_nat bs = le_nat (rev bs)"

lemma unat_byte_bound: "unat (b :: byte) < 256"
  using unsigned_less [of b] by simp

lemma le_nat_bound: "le_nat bs < 256 ^ length bs"
proof (induction bs)
  case (Cons b bs)
  have "unat b + 256 * le_nat bs < 256 * (le_nat bs + 1)"
    using unat_byte_bound [of b] by simp
  also have "\<dots> \<le> 256 * 256 ^ length bs"
    using Cons by simp
  finally show ?case by simp
qed simp

lemma be_nat_bound: "be_nat bs < 256 ^ length bs"
  using le_nat_bound [of "rev bs"] by (simp add: be_nat_def)

text \<open>The encoders, \<open>struct.pack("<I", n)\<close> and \<open>struct.pack(">I", n)\<close> for a given width.\<close>

fun le_bytes :: "nat \<Rightarrow> nat \<Rightarrow> bytes" where
  "le_bytes 0 n = []"
| "le_bytes (Suc w) n = of_nat (n mod 256) # le_bytes w (n div 256)"

definition be_bytes :: "nat \<Rightarrow> nat \<Rightarrow> bytes" where
  "be_bytes w n = rev (le_bytes w n)"

lemma length_le_bytes [simp]: "length (le_bytes w n) = w"
  by (induction w arbitrary: n) simp_all

lemma length_be_bytes [simp]: "length (be_bytes w n) = w"
  by (simp add: be_bytes_def)

lemma le_nat_le_bytes: "n < 256 ^ w \<Longrightarrow> le_nat (le_bytes w n) = n"
proof (induction w arbitrary: n)
  case (Suc w)
  then have "le_nat (le_bytes w (n div 256)) = n div 256"
    by (simp add: less_mult_imp_div_less mult.commute)
  moreover have "unat (of_nat (n mod 256) :: byte) = n mod 256"
    by (simp add: unat_of_nat)
  ultimately show ?case by simp
qed simp

lemma be_nat_be_bytes: "n < 256 ^ w \<Longrightarrow> be_nat (be_bytes w n) = n"
  by (simp add: be_nat_def be_bytes_def le_nat_le_bytes)

lemma le_bytes_le_nat: "le_bytes (length bs) (le_nat bs) = bs"
proof (induction bs)
  case (Cons b bs)
  have "(unat b + 256 * le_nat bs) mod 256 = unat b"
    using unat_byte_bound [of b] by simp
  moreover have "(unat b + 256 * le_nat bs) div 256 = le_nat bs"
    using unat_byte_bound [of b] by simp
  ultimately show ?case using Cons by simp
qed simp

lemma be_bytes_be_nat: "be_bytes (length bs) (be_nat bs) = bs"
  using le_bytes_le_nat [of "rev bs"] by (simp add: be_bytes_def be_nat_def)

text \<open>
  \<open>struct.unpack_from(fmt, data, off)\<close>: \<open>None\<close> is the \<open>struct.error\<close> of a read past the end.
\<close>

definition unpack_le :: "nat \<Rightarrow> bytes \<Rightarrow> nat \<Rightarrow> nat option" where
  "unpack_le w data off =
     (if off + w \<le> length data then Some (le_nat (take w (drop off data))) else None)"

definition unpack_be :: "nat \<Rightarrow> bytes \<Rightarrow> nat \<Rightarrow> nat option" where
  "unpack_be w data off =
     (if off + w \<le> length data then Some (be_nat (take w (drop off data))) else None)"

lemma unpack_le_bound: "unpack_le w data off = Some n \<Longrightarrow> n < 256 ^ w"
  using le_nat_bound [of "take w (drop off data)"]
  by (auto simp: unpack_le_def min_absorb2 split: if_splits)

lemma unpack_be_bound: "unpack_be w data off = Some n \<Longrightarrow> n < 256 ^ w"
  using be_nat_bound [of "take w (drop off data)"]
  by (auto simp: unpack_be_def min_absorb2 split: if_splits)

text \<open>\<open>str(n)\<close> of an integer: decimal digits, with a minus sign.\<close>

fun dec_nat :: "nat \<Rightarrow> pystr" where
  "dec_nat n = (if n < 10 then [48 + n] else dec_nat (n div 10) @ [48 + n mod 10])"

declare dec_nat.simps [simp del]

definition dec_int :: "int \<Rightarrow> pystr" where
  "dec_int i = (if i < 0 then 45 # dec_nat (nat (- i)) else dec_nat (nat i))"

lemma dec_nat_nonempty: "dec_nat n \<noteq> []"
  by (subst dec_nat.simps) simp

lemma length_dec_nat: "n < 10 ^ k \<Longrightarrow> 0 < k \<Longrightarrow> length (dec_nat n) \<le> k"
proof (induction n arbitrary: k rule: dec_nat.induct)
  case (1 n)
  show ?case
  proof (cases "n < 10")
    case True
    with "1.prems" show ?thesis by (subst dec_nat.simps) simp
  next
    case False
    then obtain j where k: "k = Suc j" and j: "0 < j"
      using "1.prems" by (cases k; cases "k = 1") auto
    have "n div 10 < 10 ^ j"
      using "1.prems"(1) by (simp add: k less_mult_imp_div_less mult.commute)
    then have "length (dec_nat (n div 10)) \<le> j"
      using "1.IH" False j by blast
    with False show ?thesis by (subst dec_nat.simps) (simp add: k)
  qed
qed

subsection \<open>Lists\<close>

text \<open>Order-preserving removal of duplicates, as the \<open>seen\<close>-set loops of the code do it.\<close>

fun dedup_acc :: "'a list \<Rightarrow> 'a list \<Rightarrow> 'a list" where
  "dedup_acc seen [] = []"
| "dedup_acc seen (x # xs) =
     (if x \<in> set seen then dedup_acc seen xs else x # dedup_acc (x # seen) xs)"

lemma set_dedup_acc: "set (dedup_acc seen xs) = set xs - set seen"
  by (induction seen xs rule: dedup_acc.induct) auto

lemma distinct_dedup_acc: "distinct (dedup_acc seen xs)"
  by (induction seen xs rule: dedup_acc.induct) (auto simp: set_dedup_acc)

lemma sum_list_nat_mem_le: "x \<in> set xs \<Longrightarrow> f x \<le> sum_list (map f xs)" for f :: "'a \<Rightarrow> nat"
  by (induction xs) auto

lemma map_sum_eq_Inr: "map_sum f g s = Inr y \<longleftrightarrow> (\<exists>x. s = Inr x \<and> y = g x)"
  by (cases s) auto

lemma map_sum_eq_Inl: "map_sum f g s = Inl y \<longleftrightarrow> (\<exists>x. s = Inl x \<and> y = f x)"
  by (cases s) auto

lemma upt_shift_tl: "a < b \<Longrightarrow> [a..<b] = a # [Suc a..<b]"
  by (rule upt_conv_Cons)

subsection \<open>Bounded windows\<close>

text \<open>
  The contract of a window that forgets its oldest entries: a trim by a count and a size bound keeps
  a suffix, keeps the newest entry, and leaves at most one entry or is within both bounds; it drops
  an entry only if the window with it would be over a bound.
\<close>

locale bounded_window =
  fixes sz :: "'a \<Rightarrow> int" and trim :: "int \<Rightarrow> int \<Rightarrow> 'a list \<Rightarrow> 'a list"
  assumes trim_suffix: "\<exists>pre. xs = pre @ trim n b xs"
    and trim_keeps: "xs \<noteq> [] \<Longrightarrow> trim n b xs \<noteq> []"
    and trim_bound: "length (trim n b xs) \<le> 1 \<or>
      int (length (trim n b xs)) \<le> n \<and> sum_list (map sz (trim n b xs)) \<le> b"
    and trim_lazy: "xs = pre @ x # trim n b xs \<Longrightarrow>
      int (length (trim n b xs)) + 1 > n \<or> sz x + sum_list (map sz (trim n b xs)) > b"
begin

definition push :: "int \<Rightarrow> int \<Rightarrow> 'a \<Rightarrow> 'a list \<Rightarrow> 'a list" where
  "push n b x w = trim n b (w @ [x])"

lemma last_push: "push n b x w \<noteq> [] \<and> last (push n b x w) = x"
proof -
  have ne: "trim n b (w @ [x]) \<noteq> []" by (rule trim_keeps) simp
  obtain pre where "w @ [x] = pre @ trim n b (w @ [x])" using trim_suffix by blast
  then have "last (w @ [x]) = last (trim n b (w @ [x]))" using ne by (metis last_appendR)
  with ne show ?thesis by (simp add: push_def)
qed

text \<open>After any pushes the window is the tail of what was pushed, within the bounds.\<close>

lemma pushes_window:
  "w = foldl (\<lambda>w x. push n b x w) [] xs \<Longrightarrow>
   (\<exists>pre. xs = pre @ w) \<and> int (length w) \<le> max 1 n \<and>
   (length w \<le> 1 \<or> sum_list (map sz w) \<le> b)"
proof (induction xs arbitrary: w rule: rev_induct)
  case (snoc x xs)
  let ?w = "foldl (\<lambda>w x. push n b x w) [] xs"
  obtain pre where pre: "xs = pre @ ?w" using snoc.IH [OF refl] by blast
  obtain pre' where "?w @ [x] = pre' @ push n b x ?w"
    using trim_suffix [of "?w @ [x]" n b] by (auto simp: push_def)
  then have "xs @ [x] = (pre @ pre') @ push n b x ?w" by (subst pre) simp
  then have "\<exists>pre. xs @ [x] = pre @ push n b x ?w" by blast
  moreover have "w = push n b x ?w" using snoc.prems by simp
  ultimately show ?case
    using trim_bound [of n b "?w @ [x]", folded push_def] by auto
qed simp

end

text \<open>The loop \<open>while len(w) > 1 and (too many or too big): drop the first\<close> meets the contract.\<close>

fun trim_front :: "('a \<Rightarrow> int) \<Rightarrow> int \<Rightarrow> int \<Rightarrow> 'a list \<Rightarrow> 'a list" where
  "trim_front sz n b (x # y # rest) =
     (if int (length (x # y # rest)) > n \<or> sum_list (map sz (x # y # rest)) > b
      then trim_front sz n b (y # rest) else x # y # rest)"
| "trim_front sz n b w = w"

lemma trim_front_suffix: "\<exists>pre. w = pre @ trim_front sz n b w"
proof (induction sz n b w rule: trim_front.induct)
  case (1 sz n b x y rest)
  then show ?case
    by (cases "int (length (x # y # rest)) > n \<or> sum_list (map sz (x # y # rest)) > b")
       (auto, (metis append_Cons)+)
qed auto

lemma trim_front_lazy:
  "w = pre @ x # trim_front sz n b w \<Longrightarrow>
   int (length (trim_front sz n b w)) + 1 > n \<or> sz x + sum_list (map sz (trim_front sz n b w)) > b"
proof (induction sz n b w arbitrary: pre rule: trim_front.induct)
  case (1 sz n b y z rest)
  show ?case
  proof (cases "int (length (y # z # rest)) > n \<or> sum_list (map sz (y # z # rest)) > b")
    case over: True
    then have eq: "trim_front sz n b (y # z # rest) = trim_front sz n b (z # rest)" by simp
    show ?thesis
    proof (cases pre)
      case Nil
      with "1.prems" eq have "trim_front sz n b (y # z # rest) = z # rest" "x = y" by auto
      with over show ?thesis by auto
    next
      case (Cons u pre')
      have "z # rest = pre' @ x # trim_front sz n b (z # rest)"
        using "1.prems" unfolding eq Cons by simp
      from "1.IH" [OF over this] show ?thesis by (simp only: eq)
    qed
  next
    case False
    with "1.prems" show ?thesis by (auto dest: arg_cong [where f = length])
  qed
qed (auto dest: arg_cong [where f = length])

lemma bounded_window_trim_front: "bounded_window sz (trim_front sz)"
proof
  fix xs :: "'a list" and n b pre x
  show "\<exists>pre. xs = pre @ trim_front sz n b xs" by (rule trim_front_suffix)
  show "xs \<noteq> [] \<Longrightarrow> trim_front sz n b xs \<noteq> []"
    by (induction sz n b xs rule: trim_front.induct) auto
  show "length (trim_front sz n b xs) \<le> 1 \<or>
      int (length (trim_front sz n b xs)) \<le> n \<and> sum_list (map sz (trim_front sz n b xs)) \<le> b"
    by (induction sz n b xs rule: trim_front.induct) auto
  show "xs = pre @ x # trim_front sz n b xs \<Longrightarrow> int (length (trim_front sz n b xs)) + 1 > n \<or>
      sz x + sum_list (map sz (trim_front sz n b xs)) > b" by (rule trim_front_lazy)
qed

end
