(* ===== verification/Errors.thy ===== *)
theory Errors
  imports Prelude
begin

text \<open>
  The error envelope (\<open>core/errors.py\<close>) and the safe error factories
  (\<open>ghidra/_errors.py\<close>) every other component raises through. An exception is a value of
  \<open>exc\<close>; \<open>raise make_error(\<dots>)\<close> is \<open>Inl (make_error \<dots>)\<close>. Constructing an envelope runs the
  pydantic field constraints: where they fail, the constructor itself raises, and that
  exception is what propagates.
\<close>

subsection \<open>Categories and envelopes\<close>

datatype ErrorType =
    VALIDATION | NOT_FOUND | SESSION_INVALID | FORBIDDEN | LIMIT_EXCEEDED | TIMEOUT
  | WORKER_UNAVAILABLE | FAILED_PRECONDITION | RESOURCE_EXHAUSTED | ANALYSIS_FAILED | INTERNAL

fun error_slug :: "ErrorType \<Rightarrow> string" where
  "error_slug VALIDATION = ''validation-error''"
| "error_slug NOT_FOUND = ''not-found''"
| "error_slug SESSION_INVALID = ''session-invalid''"
| "error_slug FORBIDDEN = ''forbidden''"
| "error_slug LIMIT_EXCEEDED = ''limit-exceeded''"
| "error_slug TIMEOUT = ''timeout''"
| "error_slug WORKER_UNAVAILABLE = ''worker-unavailable''"
| "error_slug FAILED_PRECONDITION = ''failed-precondition''"
| "error_slug RESOURCE_EXHAUSTED = ''resource-exhausted''"
| "error_slug ANALYSIS_FAILED = ''analysis-failed''"
| "error_slug INTERNAL = ''internal-error''"

record ErrorEnvelope =
  err_type :: ErrorType
  title :: pystr
  detail :: pystr
  status :: "int option"
  correlation_id :: "pystr option"
  retryable :: bool

text \<open>The \<open>Field\<close> constraints of the model.\<close>

definition envelope_fields_ok :: "ErrorEnvelope \<Rightarrow> bool" where
  "envelope_fields_ok e \<longleftrightarrow>
     1 \<le> length (title e) \<and> length (title e) \<le> 120 \<and>
     1 \<le> length (detail e) \<and> length (detail e) \<le> 2048 \<and>
     (case status e of None \<Rightarrow> True | Some s \<Rightarrow> 400 \<le> s \<and> s \<le> 599) \<and>
     (case correlation_id e of None \<Rightarrow> True | Some c \<Rightarrow> length c \<le> 64)"

datatype exc =
    GhidraMcpError ErrorEnvelope
  | PydanticError
  | ValueError pystr
  | RuntimeError pystr
  | KeyError
  | OtherException

text \<open>\<open>GhidraMcpError(ErrorEnvelope(\<dots>))\<close>.\<close>

definition new_error :: "ErrorEnvelope \<Rightarrow> exc" where
  "new_error e = (if envelope_fields_ok e then GhidraMcpError e else PydanticError)"

subsection \<open>The factories of \<open>_errors.py\<close>\<close>

fun STATUS :: "ErrorType \<Rightarrow> int" where
  "STATUS VALIDATION = 400"
| "STATUS NOT_FOUND = 404"
| "STATUS SESSION_INVALID = 404"
| "STATUS FORBIDDEN = 403"
| "STATUS LIMIT_EXCEEDED = 413"
| "STATUS TIMEOUT = 504"
| "STATUS WORKER_UNAVAILABLE = 503"
| "STATUS FAILED_PRECONDITION = 409"
| "STATUS RESOURCE_EXHAUSTED = 503"
| "STATUS ANALYSIS_FAILED = 422"
| "STATUS INTERNAL = 500"

fun TITLE :: "ErrorType \<Rightarrow> pystr" where
  "TITLE VALIDATION = ascii ''Invalid arguments''"
| "TITLE NOT_FOUND = ascii ''Not found''"
| "TITLE SESSION_INVALID = ascii ''Invalid session''"
| "TITLE FORBIDDEN = ascii ''Forbidden''"
| "TITLE LIMIT_EXCEEDED = ascii ''Limit exceeded''"
| "TITLE TIMEOUT = ascii ''Operation timed out''"
| "TITLE WORKER_UNAVAILABLE = ascii ''Worker unavailable''"
| "TITLE FAILED_PRECONDITION = ascii ''Precondition failed''"
| "TITLE RESOURCE_EXHAUSTED = ascii ''Worker out of resources''"
| "TITLE ANALYSIS_FAILED = ascii ''Analysis failed''"
| "TITLE INTERNAL = ascii ''Internal error''"

definition RETRYABLE :: "(ErrorType, bool) dict" where
  "RETRYABLE = [(LIMIT_EXCEEDED, True), (TIMEOUT, True), (WORKER_UNAVAILABLE, True)]"

definition make_error :: "ErrorType \<Rightarrow> pystr \<Rightarrow> pystr option \<Rightarrow> exc" where
  "make_error error_type d cid =
     new_error \<lparr> err_type = error_type, title = TITLE error_type, detail = d,
       status = Some (STATUS error_type), correlation_id = cid,
       retryable = (case dict_get RETRYABLE error_type of None \<Rightarrow> False | Some b \<Rightarrow> b) \<rparr>"

definition WORKER_SLUG_TO_TYPE :: "(string, ErrorType) dict" where
  "WORKER_SLUG_TO_TYPE =
     [(''invalid-params'', VALIDATION), (''not-found'', NOT_FOUND),
      (''limit-exceeded'', LIMIT_EXCEEDED), (''analysis-failed'', ANALYSIS_FAILED),
      (''internal-error'', INTERNAL), (''method-not-found'', NOT_FOUND),
      (''invalid-request'', VALIDATION)]"

definition map_worker_slug :: "pystr option \<Rightarrow> ErrorType" where
  "map_worker_slug slug =
     (case slug of
        None \<Rightarrow> INTERNAL
      | Some s \<Rightarrow>
          (case dict_get (map (\<lambda>(k, t). (ascii k, t)) WORKER_SLUG_TO_TYPE) s of
             None \<Rightarrow> INTERNAL | Some t \<Rightarrow> t))"

definition WORKER_METHOD_DETAIL :: "(ErrorType, pystr) dict" where
  "WORKER_METHOD_DETAIL =
     [(VALIDATION, ascii ''the worker rejected the request arguments''),
      (NOT_FOUND, ascii ''the requested item was not found in the program''),
      (LIMIT_EXCEEDED, ascii ''the request exceeded a worker limit''),
      (ANALYSIS_FAILED, ascii ''the worker could not analyze the program''),
      (INTERNAL, ascii ''the worker reported an internal error'')]"

definition worker_method_error :: "ErrorType \<Rightarrow> pystr option \<Rightarrow> exc" where
  "worker_method_error error_type cid =
     make_error error_type
       (case dict_get WORKER_METHOD_DETAIL error_type of
          None \<Rightarrow> ascii ''the worker reported an error'' | Some d \<Rightarrow> d) cid"

text \<open>Code point 8212 is the em dash of the source's literal.\<close>

definition method_not_found_detail :: pystr where
  "method_not_found_detail =
     ascii ''operation not supported by the running worker (the worker image may predate this tool ''
     @ 8212 # ascii '' rebuild or re-pin the worker image)''"

definition worker_method_error_from :: "int \<Rightarrow> pystr option \<Rightarrow> pystr option \<Rightarrow> exc" where
  "worker_method_error_from code slug cid =
     (if code = -32601 then make_error NOT_FOUND method_not_found_detail cid
      else if code = -32600 then
        make_error VALIDATION (the (dict_get WORKER_METHOD_DETAIL VALIDATION)) cid
      else worker_method_error (map_worker_slug slug) cid)"

definition session_invalid :: "pystr option \<Rightarrow> exc" where
  "session_invalid cid =
     make_error SESSION_INVALID (ascii ''session is unknown, expired, or no longer available'') cid"

text \<open>Code points 8230 and 8594 are the ellipsis and the arrow of the source's literal.\<close>

definition no_binary_imported :: "pystr option \<Rightarrow> exc" where
  "no_binary_imported cid =
     make_error FAILED_PRECONDITION
       (ascii ''no binary has been imported into this session yet '' @ 8212 #
        ascii '' call session_import(source_ref='' @ 8230 #
        ascii '') (then session_analyze) before this tool; the order is create '' @ 8594 #
        ascii '' import '' @ 8594 # ascii '' analyze'') cid"

definition resource_exhausted :: "int option \<Rightarrow> pystr option \<Rightarrow> exc" where
  "resource_exhausted mem_mib cid =
     make_error RESOURCE_EXHAUSTED
       (case mem_mib of
          Some m \<Rightarrow>
            ascii ''worker exhausted its memory limit ('' @ dec_int m @
            ascii '' MiB); increase VIVARIUM_WORKER_MEM_MIB (currently '' @ dec_int m @
            ascii '') or reduce input size''
        | None \<Rightarrow>
            ascii ''worker exhausted its memory limit; increase worker memory or reduce input size'')
       cid"

subsection \<open>Facts about the factories\<close>

definition exc_type :: "exc \<Rightarrow> ErrorType option" where
  "exc_type x = (case x of GhidraMcpError e \<Rightarrow> Some (err_type e) | _ \<Rightarrow> None)"

lemma length_TITLE: "1 \<le> length (TITLE t) \<and> length (TITLE t) \<le> 120"
  by (cases t) simp_all

lemma TITLE_nonempty [simp]: "TITLE t \<noteq> []"
  using length_TITLE [of t] by auto

lemma STATUS_range: "400 \<le> STATUS t \<and> STATUS t \<le> 599"
  by (cases t) simp_all

lemma make_error_ok:
  assumes "1 \<le> length d" "length d \<le> 2048" "\<forall>c. cid = Some c \<longrightarrow> length c \<le> 64"
  shows "make_error t d cid = GhidraMcpError \<lparr> err_type = t, title = TITLE t, detail = d,
     status = Some (STATUS t), correlation_id = cid,
     retryable = (t \<in> {LIMIT_EXCEEDED, TIMEOUT, WORKER_UNAVAILABLE}) \<rparr>"
  using assms length_TITLE [of t] STATUS_range [of t]
  by (cases t; cases cid) (auto simp: make_error_def new_error_def envelope_fields_ok_def RETRYABLE_def)

lemma make_error_None:
  "1 \<le> length d \<Longrightarrow> length d \<le> 2048 \<Longrightarrow> make_error t d None = GhidraMcpError
     \<lparr> err_type = t, title = TITLE t, detail = d, status = Some (STATUS t), correlation_id = None,
       retryable = (t \<in> {LIMIT_EXCEEDED, TIMEOUT, WORKER_UNAVAILABLE}) \<rparr>"
  by (rule make_error_ok) simp_all

lemma exc_type_make_error:
  "1 \<le> length d \<Longrightarrow> length d \<le> 2048 \<Longrightarrow> exc_type (make_error t d None) = Some t"
  by (simp add: make_error_None exc_type_def)

lemma exc_type_session_invalid [simp]: "exc_type (session_invalid None) = Some SESSION_INVALID"
  by (simp add: session_invalid_def exc_type_make_error)

lemma exc_type_no_binary_imported [simp]:
  "exc_type (no_binary_imported None) = Some FAILED_PRECONDITION"
  by (simp add: no_binary_imported_def exc_type_make_error)

subsection \<open>Sequencing\<close>

text \<open>Statements after one another, and \<open>for\<close> loops over statements that may raise.\<close>

definition chain :: "'e + 'a \<Rightarrow> ('a \<Rightarrow> 'e + 'b) \<Rightarrow> 'e + 'b" where
  "chain r f = (case r of Inl e \<Rightarrow> Inl e | Inr x \<Rightarrow> f x)"

fun for_each :: "('a \<Rightarrow> 'e + unit) \<Rightarrow> 'a list \<Rightarrow> 'e + unit" where
  "for_each f [] = Inr ()"
| "for_each f (x # xs) = chain (f x) (\<lambda>_. for_each f xs)"

lemma chain_Inr_iff [simp]: "chain r f = Inr y \<longleftrightarrow> (\<exists>x. r = Inr x \<and> f x = Inr y)"
  by (cases r) (simp_all add: chain_def)

lemma chain_Inl_iff: "chain r f = Inl e \<longleftrightarrow> r = Inl e \<or> (\<exists>x. r = Inr x \<and> f x = Inl e)"
  by (cases r) (simp_all add: chain_def)

lemma chain_simps [simp]: "chain (Inl e) f = Inl e" "chain (Inr x) f = f x"
  by (simp_all add: chain_def)

lemma for_each_Inr [simp]: "for_each f xs = Inr u \<longleftrightarrow> (\<forall>x \<in> set xs. f x = Inr ())"
  by (induction xs) auto

lemma for_each_Inl: "for_each f xs = Inl e \<Longrightarrow> \<exists>x \<in> set xs. f x = Inl e"
  by (induction xs) (auto simp: chain_Inl_iff)

end
