(* ===== verification/Pyval.thy ===== *)
theory Pyval
  imports Prelude
begin

text \<open>
  Dynamically typed Python values, for the places where the code checks \<open>isinstance\<close>: decoded
  JSON frames, limit overrides, tool arguments. A \<open>bool\<close> is an instance of \<open>int\<close> in Python,
  so \<open>is_int\<close> holds of both, and the code's extra \<open>isinstance(x, bool)\<close> test is \<open>is_bool\<close>.
\<close>

datatype pyval =
    PyNone
  | PyBool bool
  | PyInt int
  | PyFloat real
  | PyStr pystr
  | PyList "pyval list"
  | PyDict "(pystr \<times> pyval) list"

fun is_bool :: "pyval \<Rightarrow> bool" where
  "is_bool (PyBool b) = True"
| "is_bool _ = False"

fun is_int :: "pyval \<Rightarrow> bool" where
  "is_int (PyInt i) = True"
| "is_int (PyBool b) = True"
| "is_int _ = False"

fun is_str :: "pyval \<Rightarrow> bool" where
  "is_str (PyStr s) = True"
| "is_str _ = False"

fun is_dict :: "pyval \<Rightarrow> bool" where
  "is_dict (PyDict d) = True"
| "is_dict _ = False"

text \<open>The integer an \<open>int\<close> instance stands for (\<open>True\<close> is 1).\<close>

fun int_of :: "pyval \<Rightarrow> int" where
  "int_of (PyInt i) = i"
| "int_of (PyBool b) = (if b then 1 else 0)"
| "int_of _ = 0"

text \<open>A genuine integer: \<open>not isinstance(x, bool) and isinstance(x, int)\<close>.\<close>

definition strict_int :: "pyval \<Rightarrow> bool" where
  "strict_int v \<longleftrightarrow> \<not> (is_bool v \<or> \<not> is_int v)"

lemma strict_int_iff: "strict_int v \<longleftrightarrow> (\<exists>i. v = PyInt i)"
  by (cases v) (simp_all add: strict_int_def)

lemma strict_int_simps [simp]:
  "strict_int (PyInt i)" "\<not> strict_int (PyBool b)" "\<not> strict_int PyNone" "\<not> strict_int (PyStr s)"
  "\<not> strict_int (PyFloat r)" "\<not> strict_int (PyList l)" "\<not> strict_int (PyDict d)"
  by (simp_all add: strict_int_def)

lemma is_str_iff: "is_str v \<longleftrightarrow> (\<exists>s. v = PyStr s)"
  by (cases v) simp_all

lemma is_dict_iff: "is_dict v \<longleftrightarrow> (\<exists>d. v = PyDict d)"
  by (cases v) simp_all

text \<open>The truth value of a value.\<close>

fun truthy :: "pyval \<Rightarrow> bool" where
  "truthy PyNone = False"
| "truthy (PyBool b) = b"
| "truthy (PyInt i) = (i \<noteq> 0)"
| "truthy (PyFloat r) = (r \<noteq> 0)"
| "truthy (PyStr s) = (s \<noteq> [])"
| "truthy (PyList l) = (l \<noteq> [])"
| "truthy (PyDict d) = (d \<noteq> [])"

text \<open>\<open>d.get(k)\<close>: \<open>None\<close> when the key is missing.\<close>

definition py_get :: "(pystr, pyval) dict \<Rightarrow> pystr \<Rightarrow> pyval" where
  "py_get d k = (case dict_get d k of None \<Rightarrow> PyNone | Some v \<Rightarrow> v)"

end
