(* ===== verification/Resource_Limits.thy ===== *)
theory Resource_Limits
  imports Errors Pyval
begin

text \<open>
  Resource limits (\<open>security/limits.py\<close>): defaults, hard ceilings, the two fail-closed
  resolvers (\<open>resolve_limits\<close>, \<open>resolve_worker_resources\<close>), the pre-flight threshold and the
  binary size gate. Both resolvers run the same validate-and-clamp loop over their overrides;
  the locale \<open>clamped_config\<close> states what that loop guarantees once for both tables.
\<close>

subsection \<open>Limits and their defaults\<close>

record Limits =
  max_binary_bytes :: int
  analysis_timeout_s :: int
  tool_timeout_s :: int
  max_response_bytes :: int
  max_sessions :: int
  max_sessions_per_owner :: "int option"
  max_stream_buffer_chunks :: int
  max_stream_buffer_bytes :: int
  max_stream_replay_chunks :: int
  max_stream_replay_bytes :: int

definition default_limits :: Limits where
  "default_limits = \<lparr>
     max_binary_bytes = 128 * 1024 * 1024, analysis_timeout_s = 600, tool_timeout_s = 60,
     max_response_bytes = 4 * 1024 * 1024, max_sessions = 4, max_sessions_per_owner = None,
     max_stream_buffer_chunks = 256, max_stream_buffer_bytes = 4 * 1024 * 1024,
     max_stream_replay_chunks = 256, max_stream_replay_bytes = 4 * 1024 * 1024 \<rparr>"

definition HARD_CEILINGS :: "(pystr, int) dict" where
  "HARD_CEILINGS =
     [(ascii ''max_binary_bytes'', 1024 * 1024 * 1024),
      (ascii ''analysis_timeout_s'', 3600),
      (ascii ''tool_timeout_s'', 3600),
      (ascii ''max_response_bytes'', 4 * 1024 * 1024),
      (ascii ''max_sessions'', 32),
      (ascii ''max_sessions_per_owner'', 32),
      (ascii ''max_stream_buffer_chunks'', 4096),
      (ascii ''max_stream_buffer_bytes'', 64 * 1024 * 1024),
      (ascii ''max_stream_replay_chunks'', 4096),
      (ascii ''max_stream_replay_bytes'', 64 * 1024 * 1024)]"

text \<open>The names \<open>fields(Limits)\<close> lists.\<close>

definition limit_fields :: "pystr list" where
  "limit_fields = map ascii
     [''max_binary_bytes'', ''analysis_timeout_s'', ''tool_timeout_s'', ''max_response_bytes'',
      ''max_sessions'', ''max_sessions_per_owner'', ''max_stream_buffer_chunks'',
      ''max_stream_buffer_bytes'', ''max_stream_replay_chunks'', ''max_stream_replay_bytes'']"

subsection \<open>The resolvers\<close>

definition limits_validation_error :: "pystr \<Rightarrow> exc" where
  "limits_validation_error d =
     new_error \<lparr> err_type = VALIDATION, title = ascii ''Invalid limit configuration'', detail = d,
       status = Some 400, correlation_id = None, retryable = False \<rparr>"

definition quoted :: "pystr \<Rightarrow> pystr" where
  "quoted key = 39 # key @ [39]"

text \<open>
  The body of the loop over \<open>overrides.items()\<close>, for a noun (\<open>limit\<close>, \<open>worker resource\<close>), the
  known names and the ceiling of each: unknown key, wrong type, below 1, then the clamp.
\<close>

fun clamp_overrides ::
  "pystr \<Rightarrow> pystr list \<Rightarrow> (pystr \<Rightarrow> int) \<Rightarrow> (pystr, pyval) dict \<Rightarrow> (pystr, int) dict \<Rightarrow>
   exc + (pystr, int) dict" where
  "clamp_overrides noun known ceil [] resolved = Inr resolved"
| "clamp_overrides noun known ceil ((key, value) # rest) resolved =
     (if key \<notin> set known then
        Inl (limits_validation_error (ascii ''unknown '' @ noun @ 32 # quoted key))
      else if is_bool value \<or> \<not> is_int value then
        Inl (limits_validation_error
          (noun @ 32 # quoted key @ ascii '' must be a positive integer''))
      else if int_of value < 1 then
        Inl (limits_validation_error (noun @ 32 # quoted key @ ascii '' must be >= 1''))
      else clamp_overrides noun known ceil rest
             (dict_set key (min (int_of value) (ceil key)) resolved))"

definition dflt :: "(pystr, int) dict \<Rightarrow> string \<Rightarrow> int \<Rightarrow> int" where
  "dflt resolved key d = (case dict_get resolved (ascii key) of None \<Rightarrow> d | Some v \<Rightarrow> v)"

text \<open>\<open>Limits(**resolved)\<close>: the resolved fields over the defaults.\<close>

definition limits_of :: "(pystr, int) dict \<Rightarrow> Limits" where
  "limits_of r = \<lparr>
     max_binary_bytes = dflt r ''max_binary_bytes'' (max_binary_bytes default_limits),
     analysis_timeout_s = dflt r ''analysis_timeout_s'' (analysis_timeout_s default_limits),
     tool_timeout_s = dflt r ''tool_timeout_s'' (tool_timeout_s default_limits),
     max_response_bytes = dflt r ''max_response_bytes'' (max_response_bytes default_limits),
     max_sessions = dflt r ''max_sessions'' (max_sessions default_limits),
     max_sessions_per_owner = dict_get r (ascii ''max_sessions_per_owner''),
     max_stream_buffer_chunks =
       dflt r ''max_stream_buffer_chunks'' (max_stream_buffer_chunks default_limits),
     max_stream_buffer_bytes =
       dflt r ''max_stream_buffer_bytes'' (max_stream_buffer_bytes default_limits),
     max_stream_replay_chunks =
       dflt r ''max_stream_replay_chunks'' (max_stream_replay_chunks default_limits),
     max_stream_replay_bytes =
       dflt r ''max_stream_replay_bytes'' (max_stream_replay_bytes default_limits) \<rparr>"

text \<open>
  \<open>_HARD_CEILINGS.get(key, getattr(Limits(), key))\<close>: every field of \<open>Limits\<close> has an entry, so
  the fallback to the field's own default is never taken (lemma \<open>limit_ceiling_known\<close>); it is 0
  here for a name that is no field.
\<close>

definition limit_ceiling :: "pystr \<Rightarrow> int" where
  "limit_ceiling key = (case dict_get HARD_CEILINGS key of Some c \<Rightarrow> c | None \<Rightarrow> 0)"

definition resolve_limits :: "(pystr, pyval) dict option \<Rightarrow> exc + Limits" where
  "resolve_limits overrides =
     (case overrides of
        None \<Rightarrow> Inr default_limits
      | Some ov \<Rightarrow>
          if ov = [] then Inr default_limits
          else map_sum id limits_of
                 (clamp_overrides (ascii ''limit'') limit_fields limit_ceiling ov []))"

record WorkerResources =
  mem_mib :: int
  cpus :: int
  pids :: int
  tmpfs_scratch_mib :: int
  tmpfs_project_mib :: int

definition default_worker_resources :: WorkerResources where
  "default_worker_resources = \<lparr> mem_mib = 4096, cpus = 2, pids = 512,
     tmpfs_scratch_mib = 2048, tmpfs_project_mib = 4096 \<rparr>"

definition WORKER_HARD_CEILINGS :: "(pystr, int) dict" where
  "WORKER_HARD_CEILINGS =
     [(ascii ''mem_mib'', 32768), (ascii ''cpus'', 16), (ascii ''pids'', 4096),
      (ascii ''tmpfs_scratch_mib'', 16384), (ascii ''tmpfs_project_mib'', 32768)]"

definition worker_fields :: "pystr list" where
  "worker_fields = map ascii
     [''mem_mib'', ''cpus'', ''pids'', ''tmpfs_scratch_mib'', ''tmpfs_project_mib'']"

text \<open>\<open>_WORKER_HARD_CEILINGS[key]\<close>, read only for a known name, which has an entry.\<close>

definition worker_ceiling :: "pystr \<Rightarrow> int" where
  "worker_ceiling key = (case dict_get WORKER_HARD_CEILINGS key of Some c \<Rightarrow> c | None \<Rightarrow> 0)"

definition worker_resources_of :: "(pystr, int) dict \<Rightarrow> WorkerResources" where
  "worker_resources_of r = \<lparr>
     mem_mib = dflt r ''mem_mib'' (mem_mib default_worker_resources),
     cpus = dflt r ''cpus'' (cpus default_worker_resources),
     pids = dflt r ''pids'' (pids default_worker_resources),
     tmpfs_scratch_mib = dflt r ''tmpfs_scratch_mib'' (tmpfs_scratch_mib default_worker_resources),
     tmpfs_project_mib = dflt r ''tmpfs_project_mib'' (tmpfs_project_mib default_worker_resources) \<rparr>"

definition resolve_worker_resources :: "(pystr, pyval) dict option \<Rightarrow> exc + WorkerResources" where
  "resolve_worker_resources overrides =
     (case overrides of
        None \<Rightarrow> Inr default_worker_resources
      | Some ov \<Rightarrow>
          if ov = [] then Inr default_worker_resources
          else map_sum id worker_resources_of
                 (clamp_overrides (ascii ''worker resource'') worker_fields worker_ceiling ov []))"

subsection \<open>The pre-flight threshold and the size gate\<close>

text \<open>\<open>int(x)\<close> truncates toward zero; the float product is taken exactly.\<close>

definition py_trunc :: "real \<Rightarrow> int" where
  "py_trunc x = (if 0 \<le> x then \<lfloor>x\<rfloor> else \<lceil>x\<rceil>)"

definition plausible_max_bytes :: "int \<Rightarrow> real \<Rightarrow> int" where
  "plausible_max_bytes mem ratio = py_trunc (real_of_int (mem * 1024 * 1024) * ratio)"

definition check_binary_size :: "pyval \<Rightarrow> Limits \<Rightarrow> exc + unit" where
  "check_binary_size size_bytes limits =
     (if is_bool size_bytes \<or> \<not> is_int size_bytes then
        Inl (limits_validation_error (ascii ''binary size must be a non-negative integer''))
      else if int_of size_bytes < 0 then
        Inl (limits_validation_error (ascii ''binary size must be a non-negative integer''))
      else if int_of size_bytes > max_binary_bytes limits then
        Inl (new_error \<lparr> err_type = LIMIT_EXCEEDED, title = ascii ''Binary too large'',
          detail = ascii ''input size '' @ dec_int (int_of size_bytes) @
            ascii '' bytes exceeds the maximum '' @ dec_int (max_binary_bytes limits) @
            ascii '' bytes'',
          status = Some 413, correlation_id = None, retryable = False \<rparr>)
      else Inr ())"

subsection \<open>What the clamping loop guarantees\<close>

definition override_valid :: "pystr list \<Rightarrow> pystr \<times> pyval \<Rightarrow> bool" where
  "override_valid known kv \<longleftrightarrow> fst kv \<in> set known \<and> strict_int (snd kv) \<and> 1 \<le> int_of (snd kv)"

text \<open>The contract of a table of ceilings: every known name has a positive one.\<close>

locale clamped_config =
  fixes known :: "pystr list"
    and ceil :: "pystr \<Rightarrow> int"
  assumes ceil_pos: "k \<in> set known \<Longrightarrow> 1 \<le> ceil k"
begin

lemma clamp_succeeds_iff:
  "(\<exists>r. clamp_overrides noun known ceil ov acc = Inr r) \<longleftrightarrow> list_all (override_valid known) ov"
  by (induction noun known ceil ov acc rule: clamp_overrides.induct)
     (auto simp: override_valid_def strict_int_def)

lemma clamp_lookup:
  "clamp_overrides noun known ceil ov acc = Inr r \<Longrightarrow> dict_ok ov \<Longrightarrow>
   dict_get r k = (case dict_get ov k of None \<Rightarrow> dict_get acc k
                   | Some v \<Rightarrow> Some (min (int_of v) (ceil k)))"
proof (induction noun known ceil ov acc rule: clamp_overrides.induct)
  case (2 noun known ceil key val rest resolved)
  then have "dict_ok rest" and "key \<notin> set (dict_keys rest)"
    by (auto simp: dict_ok_def)
  moreover from this have "dict_get rest key = None"
    by (simp add: map_of_eq_None_iff)
  ultimately show ?case
    using 2 by (auto simp: dict_simps split: if_splits option.splits)
qed simp

lemma clamp_in_range:
  "clamp_overrides noun known ceil ov acc = Inr r \<Longrightarrow>
   (\<And>k v. dict_get acc k = Some v \<Longrightarrow> 1 \<le> v \<and> v \<le> ceil k) \<Longrightarrow>
   dict_get r k = Some v \<Longrightarrow> 1 \<le> v \<and> v \<le> ceil k"
  using ceil_pos
proof (induction noun known ceil ov acc rule: clamp_overrides.induct)
  case (2 noun known ceil key val rest resolved)
  from "2.prems"(1) have rec:
    "clamp_overrides noun known ceil rest (dict_set key (min (int_of val) (ceil key)) resolved) = Inr r"
    and g: "key \<in> set known" "\<not> (is_bool val \<or> \<not> is_int val)" "\<not> int_of val < 1"
    by (auto split: if_splits)
  show ?case
    using g "2.prems" by (intro "2.IH" [OF _ _ _ rec]) (auto simp: dict_simps split: if_splits)
qed simp

lemma dflt_in_range:
  assumes "clamp_overrides noun known ceil ov [] = Inr r" and "1 \<le> d" and "d \<le> ceil (ascii k)"
  shows "1 \<le> dflt r k d \<and> dflt r k d \<le> ceil (ascii k)"
  using clamp_in_range [OF assms(1)] assms(2,3)
  by (auto simp: dflt_def split: option.splits)

end

interpretation lim: clamped_config limit_fields limit_ceiling
proof
  fix k assume "k \<in> set limit_fields"
  then show "1 \<le> limit_ceiling k"
    by (auto simp: limit_fields_def limit_ceiling_def HARD_CEILINGS_def ascii_def)
qed

interpretation wrk: clamped_config worker_fields worker_ceiling
proof
  fix k assume "k \<in> set worker_fields"
  then show "1 \<le> worker_ceiling k"
    by (auto simp: worker_fields_def worker_ceiling_def WORKER_HARD_CEILINGS_def ascii_def)
qed

lemma limit_ceiling_known: "k \<in> set limit_fields \<Longrightarrow> dict_get HARD_CEILINGS k \<noteq> None"
  by (auto simp: limit_fields_def HARD_CEILINGS_def ascii_def)

subsection \<open>Resolved limits\<close>

text \<open>Every field positive and at most its hard ceiling.\<close>

definition within_ceilings :: "Limits \<Rightarrow> bool" where
  "within_ceilings l \<longleftrightarrow>
     (1 \<le> max_binary_bytes l \<and> max_binary_bytes l \<le> 1073741824) \<and>
     (1 \<le> analysis_timeout_s l \<and> analysis_timeout_s l \<le> 3600) \<and>
     (1 \<le> tool_timeout_s l \<and> tool_timeout_s l \<le> 3600) \<and>
     (1 \<le> max_response_bytes l \<and> max_response_bytes l \<le> 4194304) \<and>
     (1 \<le> max_sessions l \<and> max_sessions l \<le> 32) \<and>
     (case max_sessions_per_owner l of None \<Rightarrow> True | Some n \<Rightarrow> 1 \<le> n \<and> n \<le> 32) \<and>
     (1 \<le> max_stream_buffer_chunks l \<and> max_stream_buffer_chunks l \<le> 4096) \<and>
     (1 \<le> max_stream_buffer_bytes l \<and> max_stream_buffer_bytes l \<le> 67108864) \<and>
     (1 \<le> max_stream_replay_chunks l \<and> max_stream_replay_chunks l \<le> 4096) \<and>
     (1 \<le> max_stream_replay_bytes l \<and> max_stream_replay_bytes l \<le> 67108864)"

lemmas limit_ceiling_eqs =
  limit_ceiling_def HARD_CEILINGS_def ascii_def

lemma limit_ceiling_values:
  "limit_ceiling (ascii ''max_binary_bytes'') = 1073741824"
  "limit_ceiling (ascii ''analysis_timeout_s'') = 3600"
  "limit_ceiling (ascii ''tool_timeout_s'') = 3600"
  "limit_ceiling (ascii ''max_response_bytes'') = 4194304"
  "limit_ceiling (ascii ''max_sessions'') = 32"
  "limit_ceiling (ascii ''max_sessions_per_owner'') = 32"
  "limit_ceiling (ascii ''max_stream_buffer_chunks'') = 4096"
  "limit_ceiling (ascii ''max_stream_buffer_bytes'') = 67108864"
  "limit_ceiling (ascii ''max_stream_replay_chunks'') = 4096"
  "limit_ceiling (ascii ''max_stream_replay_bytes'') = 67108864"
  by (simp_all add: limit_ceiling_eqs)

lemma within_ceilings_default: "within_ceilings default_limits"
  by (simp add: within_ceilings_def default_limits_def)

lemma within_ceilings_limits_of:
  assumes r: "clamp_overrides noun limit_fields limit_ceiling ov [] = Inr r"
  shows "within_ceilings (limits_of r)"
proof -
  have "1 \<le> dflt r k d \<and> dflt r k d \<le> limit_ceiling (ascii k)"
    if "1 \<le> d" "d \<le> limit_ceiling (ascii k)" for k d
    using r that by (rule lim.dflt_in_range)
  note f = this [where k = "''max_binary_bytes''"] this [where k = "''analysis_timeout_s''"]
    this [where k = "''tool_timeout_s''"] this [where k = "''max_response_bytes''"]
    this [where k = "''max_sessions''"] this [where k = "''max_stream_buffer_chunks''"]
    this [where k = "''max_stream_buffer_bytes''"] this [where k = "''max_stream_replay_chunks''"]
    this [where k = "''max_stream_replay_bytes''"]
  have o: "1 \<le> v \<and> v \<le> 32" if "dict_get r (ascii ''max_sessions_per_owner'') = Some v" for v
    using lim.clamp_in_range [OF r _ that] by (simp add: limit_ceiling_values)
  show ?thesis
    using f o unfolding within_ceilings_def limits_of_def default_limits_def
    by (simp add: limit_ceiling_values split: option.splits)
qed

lemma clamp_error_kind:
  "clamp_overrides noun known ceil ov acc = Inl e \<Longrightarrow> e = PydanticError \<or> exc_type e = Some VALIDATION"
  by (induction noun known ceil ov acc rule: clamp_overrides.induct)
     (auto simp: limits_validation_error_def new_error_def exc_type_def split: if_splits)

lemma within_ceilings_resolve: "resolve_limits ov = Inr l \<Longrightarrow> within_ceilings l"
  by (auto simp: resolve_limits_def within_ceilings_default within_ceilings_limits_of map_sum_eq_Inr
        split: option.splits if_splits)

text \<open>
  C21: resolving limit overrides either succeeds, and then every override named a known limit with
  a genuine integer of at least 1 and every resolved limit lies between 1 and its hard ceiling,
  or fails closed, and then some override was invalid and the error is a validation error (or
  the envelope constructor's own error when the echoed key makes the detail too long).
\<close>

theorem resolve_limits_fail_closed:
  "case resolve_limits (Some ov) of
     Inr l \<Rightarrow> list_all (override_valid limit_fields) ov \<and> within_ceilings l
   | Inl e \<Rightarrow> \<not> list_all (override_valid limit_fields) ov \<and>
              (e = PydanticError \<or> exc_type e = Some VALIDATION)"
proof (cases "ov = []")
  case True
  then show ?thesis by (simp add: resolve_limits_def within_ceilings_default)
next
  case False
  let ?c = "clamp_overrides (ascii ''limit'') limit_fields limit_ceiling ov []"
  have r: "resolve_limits (Some ov) = map_sum id limits_of ?c"
    using False by (simp add: resolve_limits_def)
  have ok: "(\<exists>r. ?c = Inr r) \<longleftrightarrow> list_all (override_valid limit_fields) ov"
    by (rule lim.clamp_succeeds_iff)
  show ?thesis
  proof (cases ?c)
    case (Inl e)
    with ok r clamp_error_kind [OF Inl] show ?thesis by simp
  next
    case (Inr d)
    with ok r within_ceilings_limits_of [OF Inr] show ?thesis by simp
  qed
qed

text \<open>
  An override is honoured exactly up to its ceiling: a worker resource that is set resolves to
  the smaller of the requested value and the hard ceiling, one that is not set keeps its default.
\<close>

theorem resolve_worker_resources_exact:
  assumes "dict_ok ov" and "list_all (override_valid worker_fields) ov"
  shows "resolve_worker_resources (Some ov) = Inr (worker_resources_of
           (map (\<lambda>(k, v). (k, min (int_of v) (worker_ceiling k))) ov))"
proof (cases "ov = []")
  case True
  then show ?thesis
    by (simp add: resolve_worker_resources_def worker_resources_of_def dflt_def
        default_worker_resources_def)
next
  case False
  let ?m = "map (\<lambda>(k, v). (k, min (int_of v) (worker_ceiling k))) ov"
  obtain r where r: "clamp_overrides (ascii ''worker resource'') worker_fields worker_ceiling ov [] = Inr r"
    using wrk.clamp_succeeds_iff assms(2) by blast
  have m: "dict_get ?m k = map_option (\<lambda>v. min (int_of v) (worker_ceiling k)) (dict_get ov k)" for k
    by (induction ov) auto
  have "dict_get r k = dict_get ?m k" for k
    unfolding m wrk.clamp_lookup [OF r assms(1)] by (simp split: option.splits)
  then have "worker_resources_of r = worker_resources_of ?m"
    by (simp add: worker_resources_of_def dflt_def)
  with False r show ?thesis by (simp add: resolve_worker_resources_def)
qed

theorem resolve_worker_resources_exact_witness:
  "resolve_worker_resources (Some [(ascii ''cpus'', PyInt 64), (ascii ''pids'', PyInt 100)]) =
   Inr \<lparr> mem_mib = 4096, cpus = 16, pids = 100, tmpfs_scratch_mib = 2048, tmpfs_project_mib = 4096 \<rparr>"
  using resolve_worker_resources_exact
    [of "[(ascii ''cpus'', PyInt 64), (ascii ''pids'', PyInt 100)]"]
  by (simp add: dict_ok_def override_valid_def worker_fields_def worker_resources_of_def dflt_def
      default_worker_resources_def worker_ceiling_def WORKER_HARD_CEILINGS_def ascii_def)

end
