(* ===== verification/Envelope.thy ===== *)
theory Envelope
  imports Pyval
begin

text \<open>
  The untrusted-data envelope (\<open>core/envelope.py\<close>): the classes of dangerous characters, the
  normalisation that replaces each by an inert token, and \<open>wrap\<close>, the one function through which
  binary-derived content leaves the core.
\<close>

datatype DataOrigin = BINARY | GHIDRA

record 'a Untrusted =
  u_value :: 'a
  u_origin :: DataOrigin
  u_truncated :: bool
  u_encoding :: "pystr option"
  u_notes :: "pystr list"

subsection \<open>Classification\<close>

definition BIDI_CODEPOINTS :: "nat list" where
  "BIDI_CODEPOINTS = [0x202A, 0x202B, 0x202C, 0x202D, 0x202E, 0x2066, 0x2067, 0x2068, 0x2069,
                      0x200E, 0x200F]"

definition ZERO_WIDTH_CODEPOINTS :: "nat list" where
  "ZERO_WIDTH_CODEPOINTS = [0x200B, 0x200C, 0x200D, 0x2060, 0xFEFF]"

definition ALLOWED_CONTROL_CHARS :: "nat list" where
  "ALLOWED_CONTROL_CHARS = [9, 10, 13]"

definition NOTE_CONTROL :: pystr where
  "NOTE_CONTROL = ascii ''control characters neutralized''"

definition NOTE_BIDI :: pystr where
  "NOTE_BIDI = ascii ''bidirectional/override formatting neutralized''"

definition NOTE_ZERO_WIDTH :: pystr where
  "NOTE_ZERO_WIDTH = ascii ''zero-width/invisible characters neutralized''"

definition NOTE_ORDER :: "pystr list" where
  "NOTE_ORDER = [NOTE_CONTROL, NOTE_BIDI, NOTE_ZERO_WIDTH]"

definition MAX_NOTES :: nat where
  "MAX_NOTES = 16"

definition neutralization_note :: "nat \<Rightarrow> pystr option" where
  "neutralization_note code =
     (if code \<in> set BIDI_CODEPOINTS then Some NOTE_BIDI
      else if code \<in> set ZERO_WIDTH_CODEPOINTS then Some NOTE_ZERO_WIDTH
      else if code \<in> set ALLOWED_CONTROL_CHARS then None
      else if code \<le> 0x1F \<or> code = 0x7F \<or> (0x80 \<le> code \<and> code \<le> 0x9F) then Some NOTE_CONTROL
      else None)"

subsection \<open>Normalisation\<close>

text \<open>\<open>format(n, "04X")\<close>: upper-case hexadecimal, padded with zeros to four digits.\<close>

definition hex_digit :: "nat \<Rightarrow> nat" where
  "hex_digit d = (if d < 10 then 48 + d else 55 + d)"

fun hex_upper :: "nat \<Rightarrow> pystr" where
  "hex_upper n = (if n < 16 then [hex_digit n] else hex_upper (n div 16) @ [hex_digit (n mod 16)])"

declare hex_upper.simps [simp del]

definition pad4 :: "pystr \<Rightarrow> pystr" where
  "pad4 s = replicate (4 - length s) 48 @ s"

definition inert_token :: "nat \<Rightarrow> pystr" where
  "inert_token code = ascii ''<U+'' @ pad4 (hex_upper code) @ ascii ''>''"

fun normalize_loop :: "pystr \<Rightarrow> pystr \<times> pystr list" where
  "normalize_loop [] = ([], [])"
| "normalize_loop (ch # text) =
     (case normalize_loop text of
        (out, flagged) \<Rightarrow>
          (case neutralization_note ch of
             Some note \<Rightarrow> (inert_token ch @ out, note # flagged)
           | None \<Rightarrow> (ch # out, flagged)))"

definition normalize_text :: "pystr \<Rightarrow> pystr \<times> pystr list" where
  "normalize_text text =
     (case normalize_loop text of
        (out, flagged) \<Rightarrow> (out, filter (\<lambda>n. n \<in> set flagged) NOTE_ORDER))"

definition str_of :: "pyval \<Rightarrow> pystr" where
  "str_of v = (case v of PyStr s \<Rightarrow> s | _ \<Rightarrow> [])"

definition normalize_value :: "pyval \<Rightarrow> pyval \<times> pystr list" where
  "normalize_value v =
     (case v of
        PyStr s \<Rightarrow> (case normalize_text s of (nt, ns) \<Rightarrow> (PyStr nt, ns))
      | PyList items \<Rightarrow>
          if list_all is_str items then
            (let rs = map (\<lambda>i. normalize_text (str_of i)) items;
                 flagged = concat (map snd rs)
             in (PyList (map (\<lambda>r. PyStr (fst r)) rs), filter (\<lambda>n. n \<in> set flagged) NOTE_ORDER))
          else (v, [])
      | _ \<Rightarrow> (v, []))"

definition wrap ::
  "pyval \<Rightarrow> DataOrigin \<Rightarrow> bool \<Rightarrow> pystr option \<Rightarrow> pystr list \<Rightarrow> pyval Untrusted" where
  "wrap v origin truncated encoding caller_notes =
     (case normalize_value v of
        (normalized, derived) \<Rightarrow>
          (let merged = dedup_acc [] (caller_notes @ derived);
               bounded = (if length merged > MAX_NOTES then take MAX_NOTES merged else merged)
           in \<lparr> u_value = normalized, u_origin = origin, u_truncated = truncated,
                u_encoding = encoding, u_notes = bounded \<rparr>))"

subsection \<open>Facts\<close>

text \<open>A printable ASCII code point is in no dangerous class.\<close>

lemma printable_safe: "0x20 \<le> c \<Longrightarrow> c < 0x7F \<Longrightarrow> neutralization_note c = None"
  by (auto simp: neutralization_note_def BIDI_CODEPOINTS_def ZERO_WIDTH_CODEPOINTS_def)

lemma hex_digit_printable: "d < 16 \<Longrightarrow> 0x20 \<le> hex_digit d \<and> hex_digit d < 0x7F"
  by (simp add: hex_digit_def)

lemma hex_upper_printable: "c \<in> set (hex_upper n) \<Longrightarrow> 0x20 \<le> c \<and> c < 0x7F"
proof (induction n rule: hex_upper.induct)
  case (1 n)
  show ?case
  proof (cases "n < 16")
    case True
    with "1.prems" show ?thesis
      by (subst (asm) hex_upper.simps) (simp add: hex_digit_printable)
  next
    case False
    with "1.prems" have "c \<in> set (hex_upper (n div 16)) \<or> c = hex_digit (n mod 16)"
      by (subst (asm) hex_upper.simps) auto
    with "1.IH" [OF False] hex_digit_printable [of "n mod 16"] show ?thesis by auto
  qed
qed

lemma inert_token_safe: "c \<in> set (inert_token n) \<Longrightarrow> neutralization_note c = None"
  using hex_upper_printable [of c n]
  by (auto intro!: printable_safe simp: inert_token_def pad4_def ascii_def split: if_splits)

lemma normalize_loop_safe: "c \<in> set (fst (normalize_loop t)) \<Longrightarrow> neutralization_note c = None"
  by (induction t) (auto simp: inert_token_safe split: prod.splits option.splits)

lemma normalize_loop_notes: "set (snd (normalize_loop t)) = {n. \<exists>c \<in> set t. neutralization_note c = Some n}"
  by (induction t) (auto split: prod.splits option.splits)

lemma normalize_loop_id: "\<forall>c \<in> set t. neutralization_note c = None \<Longrightarrow> normalize_loop t = (t, [])"
  by (induction t) simp_all

lemma normalize_text_fst: "fst (normalize_text t) = fst (normalize_loop t)"
  by (simp add: normalize_text_def case_prod_beta)

lemma normalize_text_safe: "c \<in> set (fst (normalize_text t)) \<Longrightarrow> neutralization_note c = None"
  by (simp add: normalize_text_fst normalize_loop_safe)

lemma note_in_order: "neutralization_note c = Some n \<Longrightarrow> n \<in> set NOTE_ORDER"
  by (auto simp: neutralization_note_def NOTE_ORDER_def split: if_splits)

lemma normalize_text_notes:
  "set (snd (normalize_text t)) = {n. \<exists>c \<in> set t. neutralization_note c = Some n}"
  using note_in_order normalize_loop_notes [of t] by (auto simp: normalize_text_def case_prod_beta)

text \<open>Every string inside a payload of the kinds \<open>wrap\<close> normalises.\<close>

fun texts :: "pyval \<Rightarrow> pystr list" where
  "texts (PyStr s) = [s]"
| "texts (PyList items) = (if list_all is_str items then map str_of items else [])"
| "texts _ = []"

lemma normalize_value_texts: "texts (fst (normalize_value v)) = map (fst \<circ> normalize_text) (texts v)"
  by (cases v) (auto simp: normalize_value_def case_prod_beta Let_def list_all_length str_of_def)

lemma normalize_value_notes:
  "set (snd (normalize_value v)) = {n. \<exists>t \<in> set (texts v). \<exists>c \<in> set t. neutralization_note c = Some n}"
proof (cases v)
  case (PyStr s)
  then show ?thesis using normalize_text_notes [of s] by (simp add: normalize_value_def case_prod_beta)
next
  case (PyList items)
  then show ?thesis
    using normalize_text_notes note_in_order
    by (auto simp: normalize_value_def Let_def case_prod_beta)
qed (simp_all add: normalize_value_def)

lemma length_dedup_acc: "length (dedup_acc seen xs) \<le> length xs"
  by (induction seen xs rule: dedup_acc.induct) auto

text \<open>
  C19: What \<open>wrap\<close> hands to a client. No text of the payload (the string, or each string of a flat
  list) contains a control, bidirectional or zero-width character; the payload keeps its shape;
  text without such characters is unchanged; the notes are distinct and at most 16; and, when the
  caller's notes leave room, the note of a class is present exactly if the caller gave it or the
  class occurred.
\<close>

theorem wrap_neutralizes:
  "(let u = wrap v origin truncated encoding ns in
     (\<forall>t c. t \<in> set (texts (u_value u)) \<and> c \<in> set t \<longrightarrow> neutralization_note c = None) \<and>
     length (texts (u_value u)) = length (texts v) \<and>
     (\<forall>i < length (texts v). (\<forall>c. c \<in> set (texts v ! i) \<longrightarrow> neutralization_note c = None) \<longrightarrow>
        texts (u_value u) ! i = texts v ! i) \<and>
     distinct (u_notes u) \<and> length (u_notes u) \<le> MAX_NOTES \<and>
     (length ns + 3 \<le> MAX_NOTES \<longrightarrow>
        set (u_notes u) = set ns \<union> {n. \<exists>t c. t \<in> set (texts v) \<and> c \<in> set t \<and> neutralization_note c = Some n}))"
proof -
  let ?u = "wrap v origin truncated encoding ns" and ?d = "snd (normalize_value v)"
  let ?merged = "dedup_acc [] (ns @ ?d)"
  have uv: "u_value ?u = fst (normalize_value v)"
    and un: "u_notes ?u = (if length ?merged > MAX_NOTES then take MAX_NOTES ?merged else ?merged)"
    by (simp_all add: wrap_def case_prod_beta Let_def)
  have "length ?d \<le> length NOTE_ORDER"
    by (auto simp: normalize_value_def normalize_text_def case_prod_beta Let_def
        intro: length_filter_le order_trans [OF length_filter_le] split: pyval.split)
  then have len: "length ?merged \<le> length ns + 3"
    using length_dedup_acc [of "[]" "ns @ ?d"] by (simp add: NOTE_ORDER_def)
  have "set ?merged = set ns \<union> {n. \<exists>t c. t \<in> set (texts v) \<and> c \<in> set t \<and> neutralization_note c = Some n}"
    by (auto simp: set_dedup_acc normalize_value_notes)
  moreover have "fst (normalize_text t) = t" if "\<And>c. c \<in> set t \<Longrightarrow> neutralization_note c = None" for t
    using that by (simp add: normalize_text_fst normalize_loop_id)
  ultimately show ?thesis
    using len unfolding Let_def uv un normalize_value_texts
    by (auto simp: distinct_dedup_acc normalize_text_safe)
qed

lemma note_of_override: "neutralization_note 0x202E = Some NOTE_BIDI"
  by (simp add: neutralization_note_def BIDI_CODEPOINTS_def)

theorem wrap_neutralizes_witness:
  "NOTE_BIDI \<in> set (u_notes (wrap (PyStr [65, 0x202E, 66]) BINARY False None [])) \<and>
   u_value (wrap (PyStr [65, 0x202E, 66]) BINARY False None []) =
     PyStr (65 # ascii ''<U+202E>'' @ [66])"
proof -
  let ?u = "wrap (PyStr [65, 0x202E, 66]) BINARY False None []"
  have "set (u_notes ?u) = set [] \<union> {n. \<exists>t c. t \<in> set (texts (PyStr [65, 0x202E, 66])) \<and> c \<in> set t \<and>
      neutralization_note c = Some n}"
    using wrap_neutralizes [of "PyStr [65, 0x202E, 66]" BINARY False None "[]"]
    unfolding Let_def MAX_NOTES_def by simp
  then have "NOTE_BIDI \<in> set (u_notes ?u)" using note_of_override by auto
  moreover have "neutralization_note 65 = None" "neutralization_note 66 = None"
    by (simp_all add: printable_safe)
  then have "u_value ?u = PyStr (65 # ascii ''<U+202E>'' @ [66])"
    by (simp add: wrap_def normalize_value_def normalize_text_def case_prod_beta Let_def
        note_of_override inert_token_def pad4_def hex_upper.simps hex_digit_def ascii_def)
  ultimately show ?thesis by simp
qed

end
