(* ===== verification/Streaming.thy ===== *)
theory Streaming
  imports Errors Resource_Limits Envelope
begin

text \<open>
  Streaming jobs (\<open>jobs/streaming.py\<close>): a producer of decompiled functions feeds a bounded
  buffer, clients pull batches by cursor, already delivered chunks stay in a bounded replay
  window. A producer is an iterator whose next answer may be a function, the end of the stream
  (having filled the shared \<open>StreamTerminal\<close> or not) or an exception; it is a codatatype, so a
  stream may be infinite. As with Python generators, after its end or an exception it only
  answers the end. A clock reading is an argument; the drawn job id too. Logging is left out.
  Each manager operation is one atomic function: the table part runs under the manager lock, the
  job part under the job's lock.
\<close>

subsection \<open>Data\<close>

datatype JobState = RUNNING | PAUSED | DONE | ERROR | CANCELLED

definition TERMINAL_STATES :: "JobState list" where
  "TERMINAL_STATES = [DONE, ERROR, CANCELLED]"

definition MAX_FETCH_BATCH :: int where
  "MAX_FETCH_BATCH = 256"

record StreamTerminal =
  term_total :: "int option"
  term_truncated :: bool

record DecompiledFunction =
  fn_address :: pystr
  fn_name :: "pystr Untrusted"
  fn_c_code :: "pystr Untrusted"
  fn_signature :: "pystr Untrusted"

record StreamChunk =
  seq :: nat
  chunk_function :: DecompiledFunction

codatatype producer =
    Yield DecompiledFunction producer
  | Stop "StreamTerminal option"
  | RaiseMcp ErrorEnvelope
  | RaiseOther

record StreamFetchResult =
  fr_job_id :: pystr
  fr_chunks :: "StreamChunk list"
  fr_cursor :: int
  fr_state :: JobState
  fr_done :: bool
  fr_truncated :: bool
  fr_error :: "ErrorEnvelope option"

record StreamJobStatus =
  js_job_id :: pystr
  js_session_id :: pystr
  js_state :: JobState
  js_produced :: nat
  js_total :: "int option"
  js_buffered :: nat
  js_cursor :: nat
  js_elapsed :: real
  js_eta :: "real option"
  js_truncated :: bool
  js_error :: "ErrorEnvelope option"

definition chunk_size_bytes :: "StreamChunk \<Rightarrow> int" where
  "chunk_size_bytes c =
     (let fn = chunk_function c
      in int (length (u_value (fn_name fn))) + int (length (u_value (fn_c_code fn))) +
         int (length (u_value (fn_signature fn))) + int (length (fn_address fn)))"

subsection \<open>One job\<close>

record StreamingJob =
  job_id :: pystr
  job_session_id :: pystr
  job_owner :: pystr
  job_producer :: producer
  job_total :: "int option"
  job_terminal :: StreamTerminal
  max_buffer_chunks :: int
  max_buffer_bytes :: int
  max_replay_chunks :: int
  max_replay_bytes :: int
  started_mono :: real
  buffer :: "StreamChunk list"
  buffered_bytes :: int
  replay_window :: "StreamChunk list"
  replay_bytes :: int
  next_seq :: nat
  job_cursor :: nat
  job_state :: JobState
  job_error :: "ErrorEnvelope option"

definition new_job ::
  "pystr \<Rightarrow> pystr \<Rightarrow> pystr \<Rightarrow> producer \<Rightarrow> int option \<Rightarrow> Limits \<Rightarrow> real \<Rightarrow> StreamTerminal option \<Rightarrow>
   StreamingJob" where
  "new_job jid sid own p tot lims t term =
     \<lparr> job_id = jid, job_session_id = sid, job_owner = own, job_producer = p, job_total = tot,
       job_terminal = (case term of
          Some x \<Rightarrow> x | None \<Rightarrow> \<lparr> term_total = None, term_truncated = False \<rparr>),
       max_buffer_chunks = max_stream_buffer_chunks lims,
       max_buffer_bytes = max_stream_buffer_bytes lims,
       max_replay_chunks = max_stream_replay_chunks lims,
       max_replay_bytes = max_stream_replay_bytes lims,
       started_mono = t, buffer = [], buffered_bytes = 0, replay_window = [], replay_bytes = 0,
       next_seq = 0, job_cursor = 0, job_state = RUNNING, job_error = None \<rparr>"

definition is_terminal :: "StreamingJob \<Rightarrow> bool" where
  "is_terminal j \<longleftrightarrow> job_state j \<in> set TERMINAL_STATES"

definition effective_state :: "StreamingJob \<Rightarrow> JobState" where
  "effective_state j =
     (if buffer j \<noteq> [] \<and> job_state j \<in> {DONE, ERROR} then RUNNING else job_state j)"

definition effective_done :: "StreamingJob \<Rightarrow> bool" where
  "effective_done j \<longleftrightarrow> effective_state j \<in> set TERMINAL_STATES"

definition buffer_full :: "StreamingJob \<Rightarrow> bool" where
  "buffer_full j \<longleftrightarrow>
     int (length (buffer j)) \<ge> max_buffer_chunks j \<or> buffered_bytes j \<ge> max_buffer_bytes j"

definition append_chunk :: "DecompiledFunction \<Rightarrow> StreamingJob \<Rightarrow> StreamingJob" where
  "append_chunk fn j =
     (let chunk = \<lparr> seq = next_seq j, chunk_function = fn \<rparr>
      in j\<lparr>next_seq := next_seq j + 1, buffer := buffer j @ [chunk],
           buffered_bytes := buffered_bytes j + chunk_size_bytes chunk\<rparr>)"

definition producer_fault :: ErrorEnvelope where
  "producer_fault = \<lparr> err_type = INTERNAL, title = ascii ''Internal error'',
     detail = ascii ''the streaming producer failed unexpectedly'', status = Some 500,
     correlation_id = None, retryable = False \<rparr>"

function pump_loop :: "StreamingJob \<Rightarrow> StreamingJob" where
  "pump_loop j =
     (if buffer_full j then j\<lparr>job_state := PAUSED\<rparr>
      else
        (case job_producer j of
           Stop t \<Rightarrow> j\<lparr>job_state := DONE, job_producer := Stop None,
                        job_terminal := (case t of None \<Rightarrow> job_terminal j | Some x \<Rightarrow> x)\<rparr>
         | RaiseMcp e \<Rightarrow> j\<lparr>job_state := ERROR, job_error := Some e, job_producer := Stop None\<rparr>
         | RaiseOther \<Rightarrow>
             j\<lparr>job_state := ERROR, job_error := Some producer_fault, job_producer := Stop None\<rparr>
         | Yield fn p \<Rightarrow> pump_loop (append_chunk fn (j\<lparr>job_producer := p\<rparr>))))"
  by pat_completeness auto
termination
  by (relation "measure (\<lambda>j. nat (max_buffer_chunks j - int (length (buffer j))))")
     (auto simp: buffer_full_def append_chunk_def Let_def)

declare pump_loop.simps [simp del]

definition pump :: "StreamingJob \<Rightarrow> StreamingJob" where
  "pump j = (if is_terminal j then j else pump_loop j)"

text \<open>Eviction from the front of the replay window, which always keeps its newest chunk.\<close>

fun evict_replay :: "int \<Rightarrow> int \<Rightarrow> StreamChunk list \<Rightarrow> int \<Rightarrow> StreamChunk list \<times> int" where
  "evict_replay max_chunks max_bytes (c # d # rest) bytes =
     (if int (length (c # d # rest)) > max_chunks \<or> bytes > max_bytes
      then evict_replay max_chunks max_bytes (d # rest) (bytes - chunk_size_bytes c)
      else (c # d # rest, bytes))"
| "evict_replay max_chunks max_bytes win bytes = (win, bytes)"

definition retain_for_replay :: "StreamChunk \<Rightarrow> StreamingJob \<Rightarrow> StreamingJob" where
  "retain_for_replay chunk j =
     (case evict_replay (max_replay_chunks j) (max_replay_bytes j)
             (replay_window j @ [chunk]) (replay_bytes j + chunk_size_bytes chunk) of
        (win, bytes) \<Rightarrow> j\<lparr>replay_window := win, replay_bytes := bytes\<rparr>)"

fun drain_loop :: "nat \<Rightarrow> StreamingJob \<Rightarrow> StreamChunk list \<times> StreamingJob" where
  "drain_loop 0 j = ([], j)"
| "drain_loop (Suc n) j =
     (case buffer j of
        [] \<Rightarrow> ([], j)
      | chunk # rest \<Rightarrow>
          (case drain_loop n (retain_for_replay chunk
                  (j\<lparr>buffer := rest, buffered_bytes := buffered_bytes j - chunk_size_bytes chunk,
                     job_cursor := seq chunk + 1\<rparr>)) of
             (out, j') \<Rightarrow> (chunk # out, j')))"

definition drain :: "int \<Rightarrow> StreamingJob \<Rightarrow> StreamChunk list \<times> StreamingJob" where
  "drain max_chunks j =
     (case drain_loop (nat max_chunks) j of
        (out, j') \<Rightarrow> (out, if job_state j' = PAUSED then j'\<lparr>job_state := RUNNING\<rparr> else j'))"

definition replay_floor :: "StreamingJob \<Rightarrow> nat" where
  "replay_floor j = (case replay_window j of [] \<Rightarrow> job_cursor j | c # _ \<Rightarrow> seq c)"

fun replay_loop :: "int \<Rightarrow> nat \<Rightarrow> StreamChunk list \<Rightarrow> StreamChunk list" where
  "replay_loop from_seq n [] = []"
| "replay_loop from_seq n (chunk # rest) =
     (if int (seq chunk) < from_seq then replay_loop from_seq n rest
      else if n = 0 then []
      else chunk # replay_loop from_seq (n - 1) rest)"

definition replay :: "int \<Rightarrow> int \<Rightarrow> StreamingJob \<Rightarrow> exc + StreamChunk list" where
  "replay from_seq max_chunks j =
     (if from_seq < int (replay_floor j) then
        Inl (make_error VALIDATION
          (ascii ''resume cursor is older than the bounded replay window; restart the stream'') None)
      else Inr (replay_loop from_seq (nat max_chunks) (replay_window j)))"

definition job_cancel :: "StreamingJob \<Rightarrow> StreamingJob" where
  "job_cancel j =
     (if effective_done j then j
      else j\<lparr>job_state := CANCELLED, buffer := [], buffered_bytes := 0, replay_window := [],
             replay_bytes := 0\<rparr>)"

text \<open>
  \<open>drain_producer\<close> runs the producer to its end; \<open>None\<close> is a producer that never ends. An
  exception is swallowed.
\<close>

partial_function (option) exhaust :: "producer \<Rightarrow> StreamTerminal option option" where
  "exhaust p =
     (case p of
        Yield fn p' \<Rightarrow> exhaust p'
      | Stop t \<Rightarrow> Some t
      | RaiseMcp e \<Rightarrow> Some None
      | RaiseOther \<Rightarrow> Some None)"

definition drain_producer :: "StreamingJob \<Rightarrow> StreamingJob option" where
  "drain_producer j =
     (case exhaust (job_producer j) of
        None \<Rightarrow> None
      | Some t \<Rightarrow> Some (j\<lparr>job_producer := Stop None,
          job_terminal := (case t of None \<Rightarrow> job_terminal j | Some x \<Rightarrow> x)\<rparr>))"

definition job_status :: "real \<Rightarrow> StreamingJob \<Rightarrow> StreamJobStatus" where
  "job_status t j =
     (let elapsed = max 0 (t - started_mono j);
          eta = (case job_total j of
             None \<Rightarrow> None
           | Some tot \<Rightarrow>
               if \<not> is_terminal j \<and> next_seq j > 0 \<and> int (next_seq j) < tot \<and> elapsed > 0
               then Some (real_of_int (tot - int (next_seq j)) / (real (next_seq j) / elapsed))
               else None)
      in \<lparr> js_job_id = job_id j, js_session_id = job_session_id j, js_state = effective_state j,
           js_produced = next_seq j, js_total = job_total j, js_buffered = length (buffer j),
           js_cursor = job_cursor j, js_elapsed = elapsed, js_eta = eta,
           js_truncated = term_truncated (job_terminal j),
           js_error = (if effective_state j = ERROR then job_error j else None) \<rparr>)"

subsection \<open>The manager\<close>

text \<open>
  The injected authorizer is seen through its outcome: \<open>None\<close> when it returns, the exception when
  it raises. Every operation that the source authorizes takes that outcome as its argument.
\<close>

record StreamingJobManager =
  jm_limits :: Limits
  jobs :: "(pystr, StreamingJob) dict"
  active_by_session :: "(pystr, pystr) dict"

definition new_job_manager :: "Limits option \<Rightarrow> StreamingJobManager" where
  "new_job_manager lims =
     \<lparr> jm_limits = (case lims of None \<Rightarrow> default_limits | Some l \<Rightarrow> l), jobs = [],
       active_by_session = [] \<rparr>"

definition start_job ::
  "exc option \<Rightarrow> pystr \<Rightarrow> real \<Rightarrow> pystr \<Rightarrow> producer \<Rightarrow> int option \<Rightarrow> pystr \<Rightarrow>
   StreamTerminal option \<Rightarrow> StreamingJobManager \<Rightarrow> (exc + pystr) \<times> StreamingJobManager" where
  "start_job auth fresh t sid p tot caller term jm =
     (case auth of
        Some e \<Rightarrow> (Inl e, jm)
      | None \<Rightarrow>
          (let install = (\<lambda>jm. (Inr fresh,
                 jm\<lparr>jobs := dict_set fresh
                       (pump (new_job fresh sid caller p tot (jm_limits jm) t term)) (jobs jm),
                    active_by_session := dict_set sid fresh (active_by_session jm)\<rparr>))
           in case dict_get (active_by_session jm) sid of
                None \<Rightarrow> install jm
              | Some existing \<Rightarrow>
                  if (case dict_get (jobs jm) existing of
                        None \<Rightarrow> False | Some j \<Rightarrow> \<not> is_terminal j) then
                    (Inl (make_error LIMIT_EXCEEDED
                       (ascii ''session already has an active streaming job'') None), jm)
                  else
                    install (jm\<lparr>jobs := dict_pop existing (jobs jm),
                               active_by_session := dict_pop sid (active_by_session jm)\<rparr>)))"

definition authorized_job ::
  "exc option \<Rightarrow> pystr \<Rightarrow> pystr \<Rightarrow> StreamingJobManager \<Rightarrow> exc + StreamingJob" where
  "authorized_job auth sid jid jm =
     (case auth of
        Some e \<Rightarrow> Inl e
      | None \<Rightarrow>
          (case dict_get (jobs jm) jid of
             None \<Rightarrow> Inl (session_invalid None)
           | Some j \<Rightarrow> if job_session_id j \<noteq> sid then Inl (session_invalid None) else Inr j))"

definition put_job :: "pystr \<Rightarrow> StreamingJob \<Rightarrow> StreamingJobManager \<Rightarrow> StreamingJobManager" where
  "put_job jid j jm = jm\<lparr>jobs := dict_set jid j (jobs jm)\<rparr>"

text \<open>The part of \<open>fetch\<close> under the job's lock.\<close>

definition job_fetch ::
  "int option \<Rightarrow> int \<Rightarrow> StreamingJob \<Rightarrow> (exc + StreamFetchResult) \<times> StreamingJob" where
  "job_fetch cursor limit j =
     (let forward =
        (case drain limit j of (chunks, j1) \<Rightarrow>
           (let j2 = pump j1 in
              (Inr \<lparr> fr_job_id = job_id j2, fr_chunks = chunks, fr_cursor = int (job_cursor j2),
                     fr_state = effective_state j2, fr_done = effective_done j2,
                     fr_truncated = term_truncated (job_terminal j2),
                     fr_error = (if effective_state j2 = ERROR then job_error j2 else None) \<rparr>, j2)))
      in case cursor of
           None \<Rightarrow> forward
         | Some c \<Rightarrow>
             if c > int (job_cursor j) then
               (Inl (make_error VALIDATION (ascii ''resume cursor is ahead of the stream'') None), j)
             else if c < int (job_cursor j) then
               (case replay c limit j of
                  Inl e \<Rightarrow> (Inl e, j)
                | Inr replayed \<Rightarrow>
                    (let next_cursor = (if replayed = [] then c else int (seq (last replayed)) + 1);
                         caught_up = (next_cursor \<ge> int (job_cursor j))
                     in (Inr \<lparr> fr_job_id = job_id j, fr_chunks = replayed, fr_cursor = next_cursor,
                               fr_state = (if caught_up then effective_state j else RUNNING),
                               fr_done = (effective_done j \<and> caught_up),
                               fr_truncated =
                                 (if caught_up then term_truncated (job_terminal j) else False),
                               fr_error = (if caught_up \<and> effective_state j = ERROR
                                           then job_error j else None) \<rparr>, j)))
             else forward)"

definition fetch ::
  "exc option \<Rightarrow> pystr \<Rightarrow> pystr \<Rightarrow> int option \<Rightarrow> int \<Rightarrow> StreamingJobManager \<Rightarrow>
   (exc + StreamFetchResult) \<times> StreamingJobManager" where
  "fetch auth sid jid cursor limit jm =
     (if limit < 1 \<or> limit > MAX_FETCH_BATCH then
        (Inl (make_error VALIDATION
           (ascii ''fetch limit must be between 1 and '' @ dec_int MAX_FETCH_BATCH) None), jm)
      else
        (case authorized_job auth sid jid jm of
           Inl e \<Rightarrow> (Inl e, jm)
         | Inr j \<Rightarrow> (case job_fetch cursor limit j of (r, j') \<Rightarrow> (r, put_job jid j' jm))))"

definition status_of ::
  "exc option \<Rightarrow> real \<Rightarrow> pystr \<Rightarrow> pystr \<Rightarrow> StreamingJobManager \<Rightarrow> exc + StreamJobStatus" where
  "status_of auth t sid jid jm = map_sum id (job_status t) (authorized_job auth sid jid jm)"

definition cancel ::
  "exc option \<Rightarrow> real \<Rightarrow> pystr \<Rightarrow> pystr \<Rightarrow> StreamingJobManager \<Rightarrow>
   (exc + StreamJobStatus) \<times> StreamingJobManager" where
  "cancel auth t sid jid jm =
     (case authorized_job auth sid jid jm of
        Inl e \<Rightarrow> (Inl e, jm)
      | Inr j \<Rightarrow>
          (Inr (job_status t (job_cancel j)),
           put_job jid (job_cancel j)
             (jm\<lparr>active_by_session := dict_pop sid (active_by_session jm)\<rparr>)))"

text \<open>\<open>None\<close>: the producer never ends (its deadline is outside this component).\<close>

definition reap_cancelled ::
  "exc option \<Rightarrow> pystr \<Rightarrow> pystr \<Rightarrow> StreamingJobManager \<Rightarrow>
   ((exc + unit) \<times> StreamingJobManager) option" where
  "reap_cancelled auth sid jid jm =
     (case authorized_job auth sid jid jm of
        Inl e \<Rightarrow> Some (Inl e, jm)
      | Inr j \<Rightarrow>
          (case drain_producer j of
             None \<Rightarrow> None
           | Some j' \<Rightarrow> Some (Inr (), put_job jid j' jm)))"

text \<open>
  \<open>discard_session\<close>: the doomed jobs leave the table; they are also cancelled, which empties the
  buffers of the objects a concurrent fetch may still hold. The cancelled objects are the result.
\<close>

definition discard_session ::
  "pystr \<Rightarrow> StreamingJobManager \<Rightarrow> StreamingJob list \<times> StreamingJobManager" where
  "discard_session sid jm =
     (map (job_cancel \<circ> snd) (filter (\<lambda>(jid, j). job_session_id j = sid) (jobs jm)),
      jm\<lparr>jobs := filter (\<lambda>(jid, j). job_session_id j \<noteq> sid) (jobs jm),
         active_by_session := dict_pop sid (active_by_session jm)\<rparr>)"

end
