(* ===== verification/Streaming_Props.thy ===== *)
theory Streaming_Props
  imports Streaming
begin

text \<open>
  Facts about one streaming job. The ghost arguments \<open>p0\<close> (the producer the job started with) and
  \<open>out\<close> (every chunk handed to the client so far by forward fetches) state what the job's fields
  mean: the delivered chunks, then the buffer, are the producer's answers in order, numbered
  without a gap; the replay window is the tail of what was delivered.
\<close>

subsection \<open>Producers\<close>

fun take_fns :: "nat \<Rightarrow> producer \<Rightarrow> DecompiledFunction list" where
  "take_fns 0 p = []"
| "take_fns (Suc n) p = (case p of Yield f p' \<Rightarrow> f # take_fns n p' | _ \<Rightarrow> [])"

fun after :: "nat \<Rightarrow> producer \<Rightarrow> producer" where
  "after 0 p = p"
| "after (Suc n) p = (case p of Yield f p' \<Rightarrow> after n p' | _ \<Rightarrow> p)"

lemma after_stuck [simp]:
  "after n (Stop t) = Stop t" "after n (RaiseMcp e) = RaiseMcp e" "after n RaiseOther = RaiseOther"
  by (cases n; simp)+

lemma after_Yield:
  "after n p = Yield f p' \<Longrightarrow> take_fns (Suc n) p = take_fns n p @ [f] \<and> after (Suc n) p = p'"
proof (induction n arbitrary: p)
  case (Suc n)
  then obtain g q where p: "p = Yield g q" by (cases p) simp_all
  with Suc.prems have "after n q = Yield f p'" by simp
  from Suc.IH [OF this] show ?case by (simp add: p)
qed (simp split: producer.splits)

lemma take_take_fns: "take m (take_fns n p) = take_fns (min m n) p"
proof (induction n arbitrary: m p)
  case (Suc n)
  then show ?case by (cases m) (simp_all split: producer.splits)
qed simp

subsection \<open>The invariant of a job\<close>

definition sizes :: "StreamChunk list \<Rightarrow> int" where
  "sizes cs = sum_list (map chunk_size_bytes cs)"

lemma chunk_size_nonneg: "0 \<le> chunk_size_bytes c"
  by (simp add: chunk_size_bytes_def Let_def)

lemma sizes_simps [simp]:
  "sizes [] = 0" "sizes (c # cs) = chunk_size_bytes c + sizes cs" "sizes (cs @ ds) = sizes cs + sizes ds"
  by (simp_all add: sizes_def)

lemma sizes_nonneg: "0 \<le> sizes cs"
  by (induction cs) (simp_all add: chunk_size_nonneg)

definition seq_inv :: "StreamingJob \<Rightarrow> bool" where
  "seq_inv j \<longleftrightarrow>
     job_cursor j \<le> next_seq j \<and>
     (if job_state j = CANCELLED then buffer j = [] \<and> replay_window j = []
      else map seq (buffer j) = [job_cursor j..<next_seq j]) \<and>
     length (replay_window j) \<le> job_cursor j \<and>
     map seq (replay_window j) = [job_cursor j - length (replay_window j)..<job_cursor j]"

definition bytes_inv :: "StreamingJob \<Rightarrow> bool" where
  "bytes_inv j \<longleftrightarrow>
     buffered_bytes j = sizes (buffer j) \<and> replay_bytes j = sizes (replay_window j) \<and>
     (buffer j = [] \<or>
        int (length (buffer j)) \<le> max_buffer_chunks j \<and> sizes (butlast (buffer j)) < max_buffer_bytes j) \<and>
     (length (replay_window j) \<le> 1 \<or>
        int (length (replay_window j)) \<le> max_replay_chunks j \<and>
        sizes (replay_window j) \<le> max_replay_bytes j)"

text \<open>How the terminal states reflect the way the producer ended.\<close>

definition end_inv :: "producer \<Rightarrow> StreamingJob \<Rightarrow> bool" where
  "end_inv p0 j \<longleftrightarrow>
     (case job_state j of
        DONE \<Rightarrow> (\<exists>t. after (next_seq j) p0 = Stop t)
      | ERROR \<Rightarrow> after (next_seq j) p0 = RaiseOther \<and> job_error j = Some producer_fault \<or>
          (\<exists>e. after (next_seq j) p0 = RaiseMcp e \<and> job_error j = Some e)
      | CANCELLED \<Rightarrow> True
      | _ \<Rightarrow> job_producer j = after (next_seq j) p0)"

definition content_inv :: "producer \<Rightarrow> StreamChunk list \<Rightarrow> StreamingJob \<Rightarrow> bool" where
  "content_inv p0 out j \<longleftrightarrow>
     map seq out = [0..<job_cursor j] \<and>
     map chunk_function out = take_fns (job_cursor j) p0 \<and>
     (\<exists>pre. out = pre @ replay_window j \<or> job_state j = CANCELLED) \<and>
     (job_state j = CANCELLED \<or>
        map chunk_function (out @ buffer j) = take_fns (next_seq j) p0)"

definition job_inv :: "producer \<Rightarrow> StreamChunk list \<Rightarrow> StreamingJob \<Rightarrow> bool" where
  "job_inv p0 out j \<longleftrightarrow> seq_inv j \<and> bytes_inv j \<and> end_inv p0 j \<and> content_inv p0 out j"

lemmas job_inv_defs = job_inv_def seq_inv_def bytes_inv_def end_inv_def content_inv_def

lemma job_inv_new: "job_inv p [] (new_job jid sid own p tot lims t term)"
  by (simp add: job_inv_defs new_job_def)

lemma terminal_iff: "is_terminal j \<longleftrightarrow> job_state j = DONE \<or> job_state j = ERROR \<or> job_state j = CANCELLED"
  by (auto simp: is_terminal_def TERMINAL_STATES_def)

subsection \<open>Pumping\<close>

lemma job_inv_append:
  assumes inv: "job_inv p0 out j" and live: "\<not> is_terminal j" and room: "\<not> buffer_full j"
    and p: "job_producer j = Yield fn p"
  shows "job_inv p0 out (append_chunk fn (j\<lparr>job_producer := p\<rparr>))" (is "job_inv p0 out ?j")
proof -
  have st: "job_state j \<noteq> CANCELLED" "job_state j \<noteq> DONE" "job_state j \<noteq> ERROR"
    using live by (auto simp: terminal_iff)
  then have "after (next_seq j) p0 = Yield fn p"
    using inv p by (auto simp: job_inv_def end_inv_def split: JobState.splits)
  note nxt = after_Yield [OF this]
  have "seq_inv ?j"
    using inv st by (simp add: job_inv_def seq_inv_def append_chunk_def Let_def)
  moreover have "bytes_inv ?j"
    using inv room by (auto simp: job_inv_def bytes_inv_def append_chunk_def Let_def buffer_full_def)
  moreover have "end_inv p0 ?j"
    using nxt st by (auto simp: end_inv_def append_chunk_def Let_def split: JobState.splits)
  moreover have "content_inv p0 out ?j"
    using inv nxt st by (auto simp: job_inv_def content_inv_def append_chunk_def Let_def)
  ultimately show ?thesis by (simp add: job_inv_def)
qed

lemma append_terminal [simp]: "is_terminal (append_chunk fn (j\<lparr>job_producer := p\<rparr>)) = is_terminal j"
  by (simp add: is_terminal_def append_chunk_def Let_def)

lemma job_inv_settle:
  assumes inv: "job_inv p0 out j" and live: "\<not> is_terminal j"
  shows "job_inv p0 out (j\<lparr>job_state := PAUSED\<rparr>)" "job_inv p0 out (j\<lparr>job_state := RUNNING\<rparr>)"
    and "job_producer j = Stop t \<Longrightarrow>
      job_inv p0 out (j\<lparr>job_state := DONE, job_producer := Stop None, job_terminal := tm\<rparr>)"
    and "job_producer j = RaiseMcp e \<Longrightarrow>
      job_inv p0 out (j\<lparr>job_state := ERROR, job_error := Some e, job_producer := Stop None\<rparr>)"
    and "job_producer j = RaiseOther \<Longrightarrow>
      job_inv p0 out (j\<lparr>job_state := ERROR, job_error := Some producer_fault, job_producer := Stop None\<rparr>)"
  using assms by (auto simp: job_inv_defs terminal_iff split: JobState.splits)

lemma job_inv_pump_loop: "job_inv p0 out j \<Longrightarrow> \<not> is_terminal j \<Longrightarrow> job_inv p0 out (pump_loop j)"
proof (induction j rule: pump_loop.induct)
  case (1 j)
  show ?case
  proof (cases "buffer_full j")
    case True
    then show ?thesis using 1 by (simp add: pump_loop.simps [of j] job_inv_settle)
  next
    case False
    with 1 job_inv_append [OF "1.prems" False] show ?thesis
      by (cases "job_producer j") (simp_all add: pump_loop.simps [of j] job_inv_settle)
  qed
qed

lemma job_inv_pump: "job_inv p0 out j \<Longrightarrow> job_inv p0 out (pump j)"
  by (simp add: pump_def job_inv_pump_loop)

subsection \<open>Delivering\<close>

text \<open>The replay window is a bounded window too; the byte count it carries is the size of its content.\<close>

interpretation replay_win: bounded_window chunk_size_bytes "trim_front chunk_size_bytes"
  by (rule bounded_window_trim_front)

lemma evict_replay_trim:
  "bytes = sizes win \<Longrightarrow>
   evict_replay n b win bytes = (trim_front chunk_size_bytes n b win, sizes (trim_front chunk_size_bytes n b win))"
  by (induction n b win bytes rule: evict_replay.induct) (simp_all add: sizes_def)

lemma evict_replay_props:
  assumes "evict_replay mc mb win bytes = (w, b)" and "bytes = sizes win"
  shows "(\<exists>pre. win = pre @ w) \<and> b = sizes w \<and>
    (length w \<le> 1 \<or> int (length w) \<le> mc \<and> sizes w \<le> mb)"
  using assms replay_win.trim_suffix [of win mc mb] replay_win.trim_bound [of mc mb win]
  by (auto simp: evict_replay_trim sizes_def)

lemma seq_suffix:
  assumes "map seq (pre @ w) = [a..<b]"
  shows "length w \<le> b \<and> map seq w = [b - length w..<b]"
proof -
  have w: "map seq w = [a + length pre..<b]"
    using arg_cong [OF assms, of "drop (length pre)"] by simp
  from arg_cong [OF this, of length] have "length w = b - (a + length pre)" by simp
  with w show ?thesis by (cases "a + length pre \<le> b") auto
qed

lemma seq_inv_window:
  "seq_inv j \<Longrightarrow> seq c = job_cursor j \<Longrightarrow>
   map seq (replay_window j @ [c]) = [job_cursor j - length (replay_window j)..<Suc (job_cursor j)]"
  by (simp add: seq_inv_def)

lemma retain_simps [simp]:
  "buffer (retain_for_replay c j) = buffer j" "job_state (retain_for_replay c j) = job_state j"
  by (simp_all add: retain_for_replay_def case_prod_beta)

lemma job_inv_deliver:
  assumes inv: "job_inv p0 out j" and b: "buffer j = c # rest"
  defines "j1 \<equiv> j\<lparr>buffer := rest, buffered_bytes := buffered_bytes j - chunk_size_bytes c,
                     job_cursor := seq c + 1\<rparr>"
  shows "job_inv p0 (out @ [c]) (retain_for_replay c j1)" (is "job_inv _ _ ?j")
proof -
  obtain w bs where e: "evict_replay (max_replay_chunks j) (max_replay_bytes j)
      (replay_window j @ [c]) (replay_bytes j + chunk_size_bytes c) = (w, bs)" by fastforce
  have j: "?j = j1\<lparr>replay_window := w, replay_bytes := bs\<rparr>"
    by (simp add: retain_for_replay_def j1_def e)
  have live: "job_state j \<noteq> CANCELLED" using inv b by (auto simp: job_inv_def seq_inv_def)
  have sb: "seq c # map seq rest = [job_cursor j..<next_seq j]"
    using inv live b by (simp add: job_inv_def seq_inv_def)
  then have lt: "job_cursor j < next_seq j" by (metis upt_eq_Nil_conv list.distinct(1) not_le_imp_less)
  with sb have c: "seq c = job_cursor j" and rest: "map seq rest = [Suc (job_cursor j)..<next_seq j]"
    by (simp_all add: upt_shift_tl)
  have "replay_bytes j + chunk_size_bytes c = sizes (replay_window j @ [c])"
    using inv by (simp add: job_inv_def bytes_inv_def)
  from evict_replay_props [OF e this] obtain pre where
    pre: "replay_window j @ [c] = pre @ w" and bs: "bs = sizes w"
    and bound: "length w \<le> 1 \<or> int (length w) \<le> max_replay_chunks j \<and> sizes w \<le> max_replay_bytes j"
    by blast
  have sw: "length w \<le> Suc (job_cursor j) \<and> map seq w = [Suc (job_cursor j) - length w..<Suc (job_cursor j)]"
    using seq_suffix [of pre w] seq_inv_window [OF _ c] inv unfolding pre job_inv_def by blast
  have "seq_inv ?j"
    unfolding seq_inv_def j unfolding j1_def using sw lt live rest by (simp add: c)
  moreover have "sizes (butlast rest) \<le> sizes (butlast (c # rest))"
    using chunk_size_nonneg [of c] by simp
  then have "bytes_inv ?j"
    using inv bs bound unfolding job_inv_def bytes_inv_def j unfolding j1_def by (auto simp: b split: if_splits)
  moreover have "end_inv p0 ?j"
    using inv unfolding job_inv_def end_inv_def j unfolding j1_def by (auto split: JobState.splits)
  moreover have "content_inv p0 (out @ [c]) ?j"
  proof -
    have cont: "map seq out = [0..<job_cursor j]"
      "map chunk_function (out @ c # rest) = take_fns (next_seq j) p0"
      using inv live by (auto simp: job_inv_def content_inv_def b)
    from arg_cong [OF cont(1), of length] have len: "length out = job_cursor j" by simp
    have "map chunk_function (out @ [c]) = take (Suc (job_cursor j)) (take_fns (next_seq j) p0)"
      unfolding cont(2) [symmetric] by (simp add: len take_map [symmetric])
    also have "\<dots> = take_fns (Suc (job_cursor j)) p0" using lt by (simp add: take_take_fns min_absorb1)
    finally have "map chunk_function (out @ [c]) = take_fns (Suc (job_cursor j)) p0" .
    moreover obtain pre' where "out = pre' @ replay_window j"
      using inv live by (auto simp: job_inv_def content_inv_def)
    then have "out @ [c] = (pre' @ pre) @ w" using pre by simp
    then have "\<exists>pre. out @ [c] = pre @ w" by blast
    moreover have "map seq (out @ [c]) = [0..<Suc (job_cursor j)]" using cont(1) c by simp
    moreover have "map chunk_function ((out @ [c]) @ rest) = take_fns (next_seq j) p0"
      using cont(2) by simp
    ultimately show ?thesis
      using live unfolding content_inv_def j unfolding j1_def
      by (simp add: c del: map_append take_fns.simps append_assoc upt_Suc)
  qed
  ultimately show "job_inv p0 (out @ [c]) ?j" by (simp add: job_inv_def)
qed

lemma job_inv_drain_loop:
  "job_inv p0 out j \<Longrightarrow> drain_loop n j = (cs, j') \<Longrightarrow>
   job_inv p0 (out @ cs) j' \<and> cs = take n (buffer j) \<and> buffer j' = drop n (buffer j) \<and>
   job_state j' = job_state j"
proof (induction n j arbitrary: out cs j' rule: drain_loop.induct)
  case (2 n j)
  show ?case
  proof (cases "buffer j")
    case (Cons c rest)
    let ?j = "retain_for_replay c (j\<lparr>buffer := rest, buffered_bytes := buffered_bytes j - chunk_size_bytes c,
                     job_cursor := seq c + 1\<rparr>)"
    obtain cs' where d: "drain_loop n ?j = (cs', j')" and cs: "cs = c # cs'"
      using "2.prems"(2) Cons by (auto split: prod.splits)
    from "2.IH" [OF Cons job_inv_deliver [OF "2.prems"(1) Cons] d] cs
    show ?thesis by (auto simp: Cons)
  qed (use 2 in simp)
qed simp

lemma job_inv_drain:
  assumes "job_inv p0 out j" and "drain limit j = (cs, j')"
  shows "job_inv p0 (out @ cs) j'" and "cs = take (nat limit) (buffer j)"
    and "buffer j' = drop (nat limit) (buffer j)"
    and "job_state j' = (if job_state j = PAUSED then RUNNING else job_state j)"
proof -
  obtain j1 where d: "drain_loop (nat limit) j = (cs, j1)"
    and j': "j' = (if job_state j1 = PAUSED then j1\<lparr>job_state := RUNNING\<rparr> else j1)"
    using assms(2) by (auto simp: drain_def split: prod.splits)
  note p = job_inv_drain_loop [OF assms(1) d]
  then show "cs = take (nat limit) (buffer j)" "buffer j' = drop (nat limit) (buffer j)"
    "job_state j' = (if job_state j = PAUSED then RUNNING else job_state j)"
    by (simp_all add: j')
  show "job_inv p0 (out @ cs) j'"
    using p job_inv_settle(2) [of p0 "out @ cs" j1] by (auto simp: j' terminal_iff)
qed

subsection \<open>Cancelling and replaying\<close>

lemma job_inv_cancel: "job_inv p0 out j \<Longrightarrow> job_inv p0 out (job_cancel j)"
  by (auto simp: job_cancel_def job_inv_defs)

lemma job_inv_drained:
  "job_inv p0 out j \<Longrightarrow> is_terminal j \<Longrightarrow>
   job_inv p0 out (j\<lparr>job_producer := q, job_terminal := tm\<rparr>)"
  by (auto simp: job_inv_defs terminal_iff split: JobState.splits)

lemma replay_loop_take: "sorted_wrt (<) (map seq cs) \<Longrightarrow>
   replay_loop from_seq n cs = take n (filter (\<lambda>c. from_seq \<le> int (seq c)) cs)"
proof (induction from_seq n cs rule: replay_loop.induct)
  case (2 from_seq n chunk rest)
  show ?case
  proof (cases "int (seq chunk) < from_seq")
    case False
    with 2 show ?thesis by (cases n) auto
  qed (use 2 in auto)
qed simp

lemma filter_seq_drop:
  assumes "map seq cs = [a..<b]" and "a \<le> k" "k \<le> b"
  shows "filter (\<lambda>c. int k \<le> int (seq c)) cs = drop (k - a) cs"
  using assms
proof (induction cs arbitrary: a)
  case (Cons c cs)
  then have ab: "a < b" by (metis list.simps(9) list.distinct(1) upt_eq_Nil_conv not_le_imp_less)
  with Cons.prems have c: "seq c = a" and cs: "map seq cs = [Suc a..<b]" by (simp_all add: upt_shift_tl)
  show ?case
  proof (cases "k = a")
    case True
    have "\<forall>d \<in> set cs. int k \<le> int (seq d)"
    proof
      fix d assume "d \<in> set cs"
      then have "seq d \<in> set (map seq cs)" by simp
      with cs True show "int k \<le> int (seq d)" by auto
    qed
    then show ?thesis using True c by simp
  next
    case False
    with Cons.IH [OF cs] Cons.prems c show ?thesis by (auto simp: drop_Cons' Suc_diff_le)
  qed
qed simp

lemma length_delivered: "job_inv p0 out j \<Longrightarrow> length out = job_cursor j"
  unfolding job_inv_def content_inv_def by (metis length_map length_upt diff_zero)

lemma next_seq_eq:
  "job_inv p0 out j \<Longrightarrow> job_state j \<noteq> CANCELLED \<Longrightarrow> next_seq j = job_cursor j + length (buffer j)"
  unfolding job_inv_def seq_inv_def by (metis length_map length_upt le_add_diff_inverse)

lemma replay_exact:
  assumes inv: "job_inv p0 out j" and live: "job_state j \<noteq> CANCELLED"
    and k: "replay_floor j \<le> k" "k \<le> job_cursor j"
  shows "replay_loop (int k) n (replay_window j) = take n (drop k out)"
proof -
  let ?w = "replay_window j" and ?c = "job_cursor j"
  have w: "map seq ?w = [?c - length ?w..<?c]" "length ?w \<le> ?c"
    using inv by (simp_all add: job_inv_def seq_inv_def)
  have floor: "replay_floor j = ?c - length ?w"
  proof (cases ?w)
    case (Cons c rest)
    have "?c - length ?w < ?c" using w(2) Cons by auto
    with w(1) Cons show ?thesis by (simp add: replay_floor_def upt_shift_tl)
  qed (simp add: replay_floor_def)
  obtain pre where out: "out = pre @ ?w" using inv live by (auto simp: job_inv_def content_inv_def)
  then have pre: "length pre = ?c - length ?w" using length_delivered [OF inv] by simp
  have "sorted_wrt (<) (map seq ?w)" by (simp add: w)
  then have "replay_loop (int k) n ?w = take n (filter (\<lambda>c. int k \<le> int (seq c)) ?w)"
    by (rule replay_loop_take)
  also have "filter (\<lambda>c. int k \<le> int (seq c)) ?w = drop k out"
    using filter_seq_drop [OF w(1)] k floor pre by (simp add: out)
  finally show ?thesis .
qed

subsection \<open>Runs of a job\<close>

definition forward_fetch :: "int option \<Rightarrow> StreamingJob \<Rightarrow> bool" where
  "forward_fetch cursor j \<longleftrightarrow> cursor = None \<or> cursor = Some (int (job_cursor j))"

definition delivered :: "int option \<Rightarrow> StreamingJob \<Rightarrow> exc + StreamFetchResult \<Rightarrow> StreamChunk list" where
  "delivered cursor j r =
     (case r of Inl e \<Rightarrow> [] | Inr f \<Rightarrow> if forward_fetch cursor j then fr_chunks f else [])"

text \<open>
  A job's life as the manager drives it: the first pump, then fetches, cancels, and the draining
  of the producer, which the adapter runs only after a cancel.
\<close>

inductive stream_run :: "producer \<Rightarrow> Limits \<Rightarrow> StreamChunk list \<Rightarrow> StreamingJob \<Rightarrow> bool"
  for p0 lims where
  run_start: "stream_run p0 lims [] (pump (new_job jid sid own p0 tot lims t term))"
| run_fetch: "stream_run p0 lims out j \<Longrightarrow> job_fetch cursor limit j = (r, j') \<Longrightarrow>
    stream_run p0 lims (out @ delivered cursor j r) j'"
| run_cancel: "stream_run p0 lims out j \<Longrightarrow> stream_run p0 lims out (job_cancel j)"
| run_reap: "stream_run p0 lims out j \<Longrightarrow> is_terminal j \<Longrightarrow> drain_producer j = Some j' \<Longrightarrow>
    stream_run p0 lims out j'"

definition job_limits :: "StreamingJob \<Rightarrow> int \<times> int \<times> int \<times> int" where
  "job_limits j = (max_buffer_chunks j, max_buffer_bytes j, max_replay_chunks j, max_replay_bytes j)"

lemma job_limits_pump_loop: "job_limits (pump_loop j) = job_limits j"
proof (induction j rule: pump_loop.induct)
  case (1 j)
  then show ?case
    by (subst pump_loop.simps)
       (auto simp: job_limits_def append_chunk_def Let_def split: producer.splits)
qed

lemma job_limits_drain_loop: "job_limits (snd (drain_loop n j)) = job_limits j"
  by (induction n j rule: drain_loop.induct)
     (auto simp: job_limits_def retain_for_replay_def case_prod_beta split: list.splits)

lemma job_limits_simps [simp]:
  "job_limits (pump j) = job_limits j" "job_limits (snd (drain n j)) = job_limits j"
  "job_limits (job_cancel j) = job_limits j"
  using job_limits_pump_loop job_limits_drain_loop [of "nat n" j]
  by (auto simp: pump_def drain_def job_cancel_def case_prod_beta job_limits_def)

lemma forward_job_fetch:
  "forward_fetch cursor j \<Longrightarrow> job_fetch cursor limit j = job_fetch None limit j"
  by (auto simp: forward_fetch_def job_fetch_def)

lemma backward_job_fetch: "\<not> forward_fetch cursor j \<Longrightarrow> snd (job_fetch cursor limit j) = j"
  by (auto simp: forward_fetch_def job_fetch_def Let_def split: option.splits sum.splits)

lemma job_fetch_None:
  assumes "drain limit j = (cs, j1)"
  shows "job_fetch None limit j = (let j2 = pump j1 in
    (Inr \<lparr> fr_job_id = job_id j2, fr_chunks = cs, fr_cursor = int (job_cursor j2),
           fr_state = effective_state j2, fr_done = effective_done j2,
           fr_truncated = term_truncated (job_terminal j2),
           fr_error = (if effective_state j2 = ERROR then job_error j2 else None) \<rparr>, j2))"
  using assms by (simp add: job_fetch_def Let_def)

lemma job_inv_fetch:
  assumes inv: "job_inv p0 out j" and f: "job_fetch cursor limit j = (r, j')"
  shows "job_inv p0 (out @ delivered cursor j r) j'" and "job_limits j' = job_limits j"
proof -
  obtain cs j1 where d: "drain limit j = (cs, j1)" by fastforce
  have "job_inv p0 (out @ delivered cursor j r) j' \<and> job_limits j' = job_limits j"
  proof (cases "forward_fetch cursor j")
    case True
    with f have "r = fst (job_fetch None limit j)" "j' = snd (job_fetch None limit j)"
      by (simp_all add: forward_job_fetch)
    then have "delivered cursor j r = cs" "j' = pump j1"
      using True by (simp_all add: job_fetch_None [OF d] delivered_def Let_def)
    moreover have "job_inv p0 (out @ cs) (pump j1)"
      by (rule job_inv_pump, rule job_inv_drain [OF inv d])
    ultimately show ?thesis using job_limits_simps(2) [of limit j] d by simp
  next
    case False
    with backward_job_fetch [of cursor j limit] f inv show ?thesis
      by (auto simp: delivered_def split: sum.splits)
  qed
  then show "job_inv p0 (out @ delivered cursor j r) j'" "job_limits j' = job_limits j" by simp_all
qed

lemma job_inv_drain_producer:
  "job_inv p0 out j \<Longrightarrow> is_terminal j \<Longrightarrow> drain_producer j = Some j' \<Longrightarrow>
   job_inv p0 out j' \<and> job_limits j' = job_limits j"
  using job_inv_drained [where j = j and q = "Stop None" and tm = "job_terminal j"]
    job_inv_drained [where q = "Stop None"]
  by (auto simp: drain_producer_def job_limits_def split: option.splits)

lemma stream_run_inv: "stream_run p0 lims out j \<Longrightarrow> job_inv p0 out j"
  by (induction rule: stream_run.induct)
     (auto simp: job_inv_pump job_inv_new job_inv_cancel job_inv_fetch dest: job_inv_drain_producer)

lemma stream_run_limits:
  "stream_run p0 lims out j \<Longrightarrow>
   job_limits j = (max_stream_buffer_chunks lims, max_stream_buffer_bytes lims,
     max_stream_replay_chunks lims, max_stream_replay_bytes lims)"
proof (induction rule: stream_run.induct)
  case (run_fetch out j cursor limit r j')
  then show ?case using job_inv_fetch(2) [OF stream_run_inv] by metis
next
  case (run_reap out j j')
  then show ?case using job_inv_drain_producer [OF stream_run_inv] by metis
qed (simp_all, simp add: job_limits_def new_job_def)


text \<open>A two-function stream, for the instances.\<close>

definition demo_text :: "string \<Rightarrow> pystr Untrusted" where
  "demo_text t = \<lparr> u_value = ascii t, u_origin = GHIDRA, u_truncated = False, u_encoding = None, u_notes = [] \<rparr>"

definition demo_fn :: "string \<Rightarrow> DecompiledFunction" where
  "demo_fn a = \<lparr> fn_address = ascii a, fn_name = demo_text ''f'', fn_c_code = demo_text ''{}'',
     fn_signature = demo_text ''void'' \<rparr>"

definition demo_producer :: producer where
  "demo_producer = Yield (demo_fn ''10'') (Yield (demo_fn ''20'') (Stop None))"

definition demo_job :: StreamingJob where
  "demo_job = pump (new_job (ascii ''j1'') (ascii ''s1'') (ascii ''alice'') demo_producer None
     default_limits 0 None)"

definition demo_chunk :: "nat \<Rightarrow> string \<Rightarrow> StreamChunk" where
  "demo_chunk n a = \<lparr> seq = n, chunk_function = demo_fn a \<rparr>"

lemma demo_size: "chunk_size_bytes (demo_chunk n [a, b]) = 9"
  by (simp add: chunk_size_bytes_def demo_chunk_def demo_fn_def demo_text_def Let_def)

lemmas demo_job_simps = pump_def is_terminal_def TERMINAL_STATES_def buffer_full_def append_chunk_def
  Let_def default_limits_def

lemma demo_job_state: "demo_job =
  (new_job (ascii ''j1'') (ascii ''s1'') (ascii ''alice'') (Stop None) None default_limits 0 None)
    \<lparr>buffer := [demo_chunk 0 ''10'', demo_chunk 1 ''20''], buffered_bytes := 18, next_seq := 2,
     job_state := DONE\<rparr>"
  using demo_size [of 0 "CHR ''1''" "CHR ''0''"] demo_size [of 1 "CHR ''2''" "CHR ''0''"]
  by (simp add: demo_job_def demo_producer_def demo_chunk_def new_job_def pump_loop.simps
      demo_job_simps numeral_2_eq_2)

lemma demo_job_run: "stream_run demo_producer default_limits [] demo_job"
  unfolding demo_job_def by (rule run_start)

lemma demo_fetch:
  "fst (job_fetch None 1 demo_job) =
     Inr \<lparr> fr_job_id = ascii ''j1'', fr_chunks = [demo_chunk 0 ''10''], fr_cursor = 1,
           fr_state = RUNNING, fr_done = False, fr_truncated = False, fr_error = None \<rparr>"
  "snd (job_fetch None 1 demo_job) =
     (new_job (ascii ''j1'') (ascii ''s1'') (ascii ''alice'') (Stop None) None default_limits 0 None)
    \<lparr>buffer := [demo_chunk 1 ''20''], buffered_bytes := 9, next_seq := 2, job_cursor := 1,
     replay_window := [demo_chunk 0 ''10''], replay_bytes := 9, job_state := DONE\<rparr>"
  using demo_size [of 0 "CHR ''1''" "CHR ''0''"]
  by (simp_all add: demo_job_state job_fetch_def drain_def retain_for_replay_def demo_job_simps
      new_job_def effective_state_def effective_done_def demo_chunk_def)

lemma demo_fetch_run:
  "stream_run demo_producer default_limits [demo_chunk 0 ''10''] (snd (job_fetch None 1 demo_job))"
proof -
  have "job_fetch None 1 demo_job = (fst (job_fetch None 1 demo_job), snd (job_fetch None 1 demo_job))"
    by simp
  from run_fetch [OF demo_job_run this] show ?thesis
    by (simp only: demo_fetch(1) delivered_def forward_fetch_def) simp
qed


subsection \<open>Resuming from an earlier cursor\<close>

lemma effective_terminal:
  "effective_done j \<Longrightarrow> is_terminal j \<and> (job_state j = CANCELLED \<or> buffer j = []) \<and> effective_state j = job_state j"
  by (auto simp: effective_done_def effective_state_def TERMINAL_STATES_def terminal_iff split: if_splits)

text \<open>
  Resume. A re-fetch from an earlier cursor never changes the job. It fails with a validation
  error exactly when the cursor is older than the replay window; otherwise it returns again, without
  a gap, the very chunks delivered before from that cursor on, up to the limit, and a resume cursor
  that points just behind them; and it reports the end of the stream only once the client has caught
  up with everything delivered.
\<close>

theorem replay_returns_delivered:
  assumes "stream_run p0 lims out j" and "k < job_cursor j" and "1 \<le> limit"
  shows "snd (job_fetch (Some (int k)) limit j) = j \<and>
    (case fst (job_fetch (Some (int k)) limit j) of
       Inl e \<Rightarrow> k < replay_floor j \<and> exc_type e = Some VALIDATION
     | Inr r \<Rightarrow> replay_floor j \<le> k \<and> fr_chunks r = take (nat limit) (drop k out) \<and>
         fr_cursor r = min (int k + limit) (int (length out)) \<and>
         (fr_done r \<longrightarrow> fr_cursor r = int (length out)))"
proof -
  have inv: "job_inv p0 out j" using stream_run_inv [OF assms(1)] .
  have len: "length out = job_cursor j" using length_delivered [OF inv] .
  have bwd: "\<not> forward_fetch (Some (int k)) j" using assms(2) by (simp add: forward_fetch_def)
  show ?thesis
  proof (cases "k < replay_floor j")
    case True
    then show ?thesis using backward_job_fetch [OF bwd] assms(2)
      by (simp add: job_fetch_def Let_def replay_def exc_type_make_error)
  next
    case False
    have live: "job_state j \<noteq> CANCELLED"
      using inv False assms(2) by (auto simp: job_inv_def seq_inv_def replay_floor_def split: if_splits)
    have rep: "replay_loop (int k) (nat limit) (replay_window j) = take (nat limit) (drop k out)"
      using replay_exact [OF inv live] False assms(2) by simp
    let ?cs = "take (nat limit) (drop k out)"
    have ne: "?cs \<noteq> []" using assms(2,3) len by simp
    have "map seq ?cs = take (nat limit) (drop k [0..<job_cursor j])"
      using inv by (simp add: job_inv_def content_inv_def take_map [symmetric] drop_map [symmetric])
    also have "\<dots> = [k..<min (k + nat limit) (job_cursor j)]"
      using assms(2) by (simp add: take_upt min_def)
    finally have seqs: "map seq ?cs = [k..<min (k + nat limit) (job_cursor j)]" .
    then have "seq (last ?cs) = last [k..<min (k + nat limit) (job_cursor j)]"
      using ne by (metis last_map)
    also have "\<dots> = min (k + nat limit) (job_cursor j) - 1"
      using assms(2,3) by simp
    finally have "int (seq (last ?cs)) + 1 = int (min (k + nat limit) (job_cursor j))"
      using assms(2,3) by simp
    also have "\<dots> = min (int k + limit) (int (length out))"
      using assms(3) len by (simp add: of_nat_min)
    finally have "int (seq (last ?cs)) + 1 = min (int k + limit) (int (length out))" .
    then show ?thesis
      using False backward_job_fetch [OF bwd] assms(2) ne len
      by (auto simp: job_fetch_def Let_def replay_def rep)
  qed
qed

theorem replay_returns_delivered_witness:
  "fst (job_fetch (Some 0) 5 (snd (job_fetch None 1 demo_job))) =
     Inr \<lparr> fr_job_id = ascii ''j1'', fr_chunks = take 5 (drop 0 [demo_chunk 0 ''10'']), fr_cursor = 1,
           fr_state = RUNNING, fr_done = False, fr_truncated = False, fr_error = None \<rparr>"
proof -
  let ?j = "snd (job_fetch None 1 demo_job)"
  have "fst (job_fetch (Some 0) 5 ?j) =
     Inr \<lparr> fr_job_id = ascii ''j1'', fr_chunks = [demo_chunk 0 ''10''], fr_cursor = 1,
           fr_state = RUNNING, fr_done = False, fr_truncated = False, fr_error = None \<rparr>"
    unfolding demo_fetch(2)
    by (simp add: job_fetch_def replay_def replay_floor_def demo_chunk_def new_job_def
        effective_state_def effective_done_def TERMINAL_STATES_def Let_def)
  then show ?thesis
    using replay_returns_delivered [OF demo_fetch_run, of 0 5]
    by (simp add: demo_fetch(2) new_job_def)
qed

subsection \<open>The end of a stream\<close>


lemma demo_fetch_all:
  "job_fetch None 5 demo_job =
     (Inr \<lparr> fr_job_id = ascii ''j1'', fr_chunks = [demo_chunk 0 ''10'', demo_chunk 1 ''20''], fr_cursor = 2,
           fr_state = DONE, fr_done = True, fr_truncated = False, fr_error = None \<rparr>,
      (new_job (ascii ''j1'') (ascii ''s1'') (ascii ''alice'') (Stop None) None default_limits 0 None)
       \<lparr>next_seq := 2, job_cursor := 2, replay_window := [demo_chunk 0 ''10'', demo_chunk 1 ''20''],
        replay_bytes := 18, job_state := DONE\<rparr>)"
  using demo_size [of 0 "CHR ''1''" "CHR ''0''"] demo_size [of 1 "CHR ''2''" "CHR ''0''"]
  unfolding demo_job_state
  by (simp add: job_fetch_def drain_def retain_for_replay_def demo_job_simps numeral_eq_Suc
      new_job_def effective_state_def effective_done_def demo_chunk_def)


subsection \<open>Complete delivery\<close>

primrec finite_producer :: "DecompiledFunction list \<Rightarrow> producer \<Rightarrow> producer" where
  "finite_producer [] fin = fin"
| "finite_producer (f # fns) fin = Yield f (finite_producer fns fin)"

fun is_yield :: "producer \<Rightarrow> bool" where
  "is_yield p = (case p of Yield f q \<Rightarrow> True | _ \<Rightarrow> False)"

lemma after_finite: "after n (finite_producer fns fin) = (if n \<le> length fns then finite_producer (drop n fns) fin
    else after (n - length fns) fin)"
proof (induction n arbitrary: fns)
  case (Suc n)
  then show ?case by (cases fns) auto
qed simp

lemma take_fns_finite: "\<not> is_yield fin \<Longrightarrow> take_fns n (finite_producer fns fin) = take n fns"
proof (induction n arbitrary: fns)
  case (Suc n)
  then show ?case by (cases fns) (auto split: producer.splits)
qed simp

lemma finite_not_yield: "\<not> is_yield fin \<Longrightarrow> \<not> is_yield (finite_producer fns fin) \<longleftrightarrow> fns = []"
  by (cases fns) auto

text \<open>A client that pulls forward with a sequence of batch sizes.\<close>

fun deliver :: "int list \<Rightarrow> StreamingJob \<Rightarrow> StreamChunk list \<times> StreamingJob" where
  "deliver [] j = ([], j)"
| "deliver (l # ls) j =
     (case job_fetch None l j of
        (Inl e, j') \<Rightarrow> ([], j')
      | (Inr r, j') \<Rightarrow> (case deliver ls j' of (cs, j'') \<Rightarrow> (fr_chunks r @ cs, j'')))"

text \<open>After a pump a job has something to deliver, or its stream has ended.\<close>

definition productive :: "StreamingJob \<Rightarrow> bool" where
  "productive j \<longleftrightarrow> job_state j \<noteq> CANCELLED \<and> (is_terminal j \<or> buffer j \<noteq> []) \<and>
     1 \<le> max_buffer_chunks j \<and> 1 \<le> max_buffer_bytes j"

lemma pump_loop_productive:
  "1 \<le> max_buffer_chunks j \<Longrightarrow> 1 \<le> max_buffer_bytes j \<Longrightarrow> bytes_inv j \<Longrightarrow> \<not> is_terminal j \<Longrightarrow>
   job_inv p0 out j \<Longrightarrow> productive (pump_loop j)"
proof (induction j rule: pump_loop.induct)
  case (1 j)
  show ?case
  proof (cases "buffer_full j")
    case True
    with 1 show ?thesis
      by (auto simp: pump_loop.simps [of j] productive_def terminal_iff buffer_full_def bytes_inv_def)
  next
    case False
    show ?thesis
    proof (cases "job_producer j")
      case (Yield fn p)
      let ?j = "append_chunk fn (j\<lparr>job_producer := p\<rparr>)"
      have inv: "job_inv p0 out ?j" by (rule job_inv_append [OF "1.prems"(5,4) False Yield])
      moreover have "1 \<le> max_buffer_chunks ?j" "1 \<le> max_buffer_bytes ?j"
        using "1.prems" by (simp_all add: append_chunk_def Let_def)
      ultimately have "productive (pump_loop ?j)"
        using "1.IH" [OF False Yield] "1.prems"(4) by (simp add: job_inv_def)
      with False Yield show ?thesis by (simp add: pump_loop.simps [of j])
    qed (use 1 False in \<open>simp_all add: pump_loop.simps [of j] productive_def terminal_iff\<close>)
  qed
qed

lemma pump_productive:
  "job_inv p0 out j \<Longrightarrow> job_state j \<noteq> CANCELLED \<Longrightarrow> 1 \<le> max_buffer_chunks j \<Longrightarrow> 1 \<le> max_buffer_bytes j \<Longrightarrow>
   productive (pump j)"
  using pump_loop_productive [of j] by (auto simp: pump_def productive_def job_inv_def)

lemma deliver_complete:
  assumes fin: "\<not> is_yield fin" and p0: "p0 = finite_producer fns fin"
  shows "job_inv p0 out j \<Longrightarrow> productive j \<Longrightarrow> \<forall>l \<in> set ls. 1 \<le> l \<Longrightarrow>
    length fns \<le> length ls + job_cursor j \<Longrightarrow> deliver ls j = (cs, j') \<Longrightarrow>
    job_inv p0 (out @ cs) j' \<and> productive j' \<and> job_cursor j' = length fns"
proof (induction ls arbitrary: out j cs)
  case Nil
  have "map chunk_function out = take (job_cursor j) fns"
    using Nil.prems(1) by (simp add: job_inv_def content_inv_def p0 take_fns_finite [OF fin])
  from arg_cong [OF this, of length] have "job_cursor j \<le> length fns"
    using length_delivered [OF Nil.prems(1)] by simp
  then show ?case using Nil by simp
next
  case (Cons l ls)
  obtain ds j1 where d: "drain l j = (ds, j1)" by fastforce
  note dr = job_inv_drain [OF Cons.prems(1) d]
  let ?j = "pump j1"
  have lims: "job_limits j1 = job_limits j" using job_limits_simps(2) [of l j] d by simp
  have st: "job_state j1 \<noteq> CANCELLED" using dr(4) Cons.prems(2) by (auto simp: productive_def)
  have inv: "job_inv p0 (out @ ds) ?j" using dr(1) by (rule job_inv_pump)
  have prod: "productive ?j"
    using Cons.prems(2) lims pump_productive [OF dr(1) st] by (simp add: productive_def job_limits_def)
  obtain cs1 where rec: "deliver ls ?j = (cs1, j')" and cs: "cs = ds @ cs1"
    using Cons.prems(5) by (auto simp: job_fetch_None [OF d] Let_def split: prod.splits)
  have "length fns \<le> length ls + job_cursor ?j"
  proof (cases "buffer j = []")
    case True
    then have "is_terminal j" "job_state j \<noteq> CANCELLED" using Cons.prems(2) by (auto simp: productive_def)
    then have "\<not> is_yield (after (next_seq j) p0)"
      using Cons.prems(1) by (auto simp: job_inv_def end_inv_def terminal_iff)
    then have "length fns \<le> next_seq j"
      by (auto simp: p0 after_finite finite_not_yield [OF fin] simp del: is_yield.simps split: if_splits)
    moreover have "next_seq j = job_cursor j"
      using next_seq_eq [OF Cons.prems(1)] True \<open>job_state j \<noteq> CANCELLED\<close> by simp
    moreover have "job_cursor ?j = job_cursor j"
      using length_delivered [OF inv] length_delivered [OF Cons.prems(1)] dr(2) True by simp
    ultimately show ?thesis by simp
  next
    case False
    then have "ds \<noteq> []" using dr(2) Cons.prems(3) by simp
    then have "0 < length ds" by simp
    moreover have "job_cursor ?j = job_cursor j + length ds"
      using length_delivered [OF inv] length_delivered [OF Cons.prems(1)] by simp
    ultimately have "job_cursor j < job_cursor ?j" by linarith
    then show ?thesis using Cons.prems(4) by simp
  qed
  from Cons.IH [OF inv prod _ this rec] Cons.prems(3) show ?case by (simp add: cs)
qed

text \<open>
  C14: Complete delivery. If the producer gives the functions \<open>fns\<close> and then ends (normally or by an
  exception), and the buffer caps are at least 1, then a client that pulls forward with any batch
  sizes, at least as many times as there are functions, receives every function exactly once, in
  order, numbered from 0; after that the job reports its end, and reports it as \<open>done\<close> exactly when
  the producer did not raise.
\<close>

theorem stream_complete_delivery:
  assumes "\<not> is_yield fin" and "1 \<le> max_stream_buffer_chunks lims" and "1 \<le> max_stream_buffer_bytes lims"
    and "\<forall>l \<in> set ls. 1 \<le> l" and "length fns \<le> length ls"
    and "deliver ls (pump (new_job jid sid own (finite_producer fns fin) tot lims t term)) = (cs, j)"
  shows "map seq cs = [0..<length fns] \<and> map chunk_function cs = fns \<and> effective_done j \<and>
    effective_state j = (case fin of Stop tm \<Rightarrow> DONE | _ \<Rightarrow> ERROR)"
proof -
  let ?p = "finite_producer fns fin" and ?n = "new_job jid sid own (finite_producer fns fin) tot lims t term"
  have "job_inv ?p [] (pump ?n)" by (simp add: job_inv_pump job_inv_new)
  moreover have "productive (pump ?n)"
    by (rule pump_productive [OF job_inv_new]) (use assms in \<open>simp_all add: new_job_def\<close>)
  ultimately have inv: "job_inv ?p cs j" and prod: "productive j" and c: "job_cursor j = length fns"
    using deliver_complete [OF assms(1) refl, of fns "[]" "pump ?n" ls cs j] assms(4-6) by simp_all
  have fns: "map chunk_function cs = fns" and seqs: "map seq cs = [0..<length fns]"
    using inv c by (simp_all add: job_inv_def content_inv_def take_fns_finite [OF assms(1)])
  have st: "job_state j \<noteq> CANCELLED" using prod by (simp add: productive_def)
  have "map chunk_function (cs @ buffer j) = take (next_seq j) fns"
    using inv st by (auto simp: job_inv_def content_inv_def take_fns_finite [OF assms(1)])
  from arg_cong [OF this, of length] have b: "buffer j = []"
    using next_seq_eq [OF inv st] c length_delivered [OF inv] by simp
  then have "is_terminal j" using prod by (simp add: productive_def)
  then have t: "effective_done j" "effective_state j = job_state j" "job_state j \<in> {DONE, ERROR}"
    using b st by (auto simp: effective_done_def effective_state_def TERMINAL_STATES_def terminal_iff)
  have "next_seq j = length fns" using next_seq_eq [OF inv st] b c by simp
  then have "end_inv ?p j" "after (next_seq j) ?p = fin"
    using inv by (simp_all add: job_inv_def after_finite)
  then show ?thesis
    using t fns seqs by (auto simp: end_inv_def split: producer.splits)
qed

theorem stream_complete_delivery_witness:
  "map chunk_function (fst (deliver [5, 5] demo_job)) = [demo_fn ''10'', demo_fn ''20'']"
proof -
  have "deliver [5, 5] (pump (new_job (ascii ''j1'') (ascii ''s1'') (ascii ''alice'')
      (finite_producer [demo_fn ''10'', demo_fn ''20''] (Stop None)) None default_limits 0 None)) =
      (fst (deliver [5, 5] demo_job), snd (deliver [5, 5] demo_job))"
    by (simp add: demo_job_def demo_producer_def)
  from stream_complete_delivery [OF _ _ _ _ _ this] show ?thesis
    by (simp add: default_limits_def)
qed

end
