(* ===== verification/Sessions.thy ===== *)
theory Sessions
  imports Errors "HOL-Library.List_Lexorder" "HOL-Library.Product_Lexorder"
begin

text \<open>
  The session manager (\<open>sessions/manager.py\<close>): the table of live sessions, their ownership,
  TTL and idle expiry, write consent, the one worker per session, the change log, and
  eviction. Every method of the source runs under one re-entrant lock, so an operation is one
  atomic function on the manager's state; what it does outside the process (start or kill a
  worker, remove a store, call the eviction hook, count a metric) is appended to a trace of
  effects. Clock readings, the random id, the outcome of starting a worker and of the
  existence check after a wipe are inputs, in the record \<open>sm_env\<close>. Logging is left out.
\<close>

subsection \<open>State\<close>

datatype session_state = OPEN | READY | EVICTED

datatype analysis_profile = Profile_default | Profile_light | Profile_deep

record session =
  session_id :: pystr
  owner :: pystr
  state :: session_state
  created_at :: int
  created_mono :: real
  last_used_mono :: real
  ttl_s :: int
  idle_s :: int
  in_flight :: int
  binary_sha256 :: "pystr option"
  binary_size :: "int option"
  binary_name :: "pystr option"
  analysis_profile :: "analysis_profile option"
  store_path :: "pystr option"
  worker_started :: bool
  writes_enabled :: bool
  allow_structural :: bool
  session_notes :: "pystr list"
  comment_targets :: "(pystr \<times> pystr) set"
  composite_targets :: "pystr set"

datatype effect =
    StartWorker pystr
  | KillWorker pystr
  | RmTree pystr
  | OnEvict pystr
  | MetricCreated
  | MetricEvicted pystr

record SessionManager =
  has_port :: bool
  evict_bound :: bool
  store_root :: "pystr option"
  cfg_ttl_s :: int
  cfg_idle_s :: int
  cfg_max_sessions :: int
  cfg_max_sessions_per_owner :: "int option"
  sessions :: "(pystr, session) dict"
  pending_evicted :: "pystr list"
  effects :: "effect list"

text \<open>
  The inputs of one operation: the monotonic and the wall clock, the drawn session id, the
  exception \<open>start_worker\<close> raises (if any), and whether a path still exists after the attempt
  to remove it. A failing \<open>kill_worker\<close> is swallowed by the source and changes no state.
\<close>

record sm_env =
  now :: real
  wall :: int
  fresh_id :: pystr
  start_raises :: "exc option"
  path_exists :: "pystr \<Rightarrow> bool"

record pending_eviction =
  pe_session_id :: pystr
  pe_store_path :: "pystr option"
  pe_worker_started :: bool
  pe_reason :: pystr

record SessionInfo =
  info_session_id :: pystr
  info_state :: session_state
  info_created_at :: int
  info_expires_at :: int
  info_binary_sha256 :: "pystr option"
  info_binary_size :: "int option"
  info_analysis_profile :: "analysis_profile option"
  info_writes_enabled :: bool
  info_allow_structural :: bool

definition MAX_CHANGE_LOG_TARGETS :: nat where
  "MAX_CHANGE_LOG_TARGETS = 10000"

definition new_manager ::
  "bool \<Rightarrow> pystr option \<Rightarrow> int \<Rightarrow> int \<Rightarrow> int \<Rightarrow> int option \<Rightarrow> bool \<Rightarrow> SessionManager" where
  "new_manager port rootp ttl idle max_s max_owner on_evict =
     \<lparr> has_port = port, evict_bound = on_evict, store_root = rootp, cfg_ttl_s = ttl,
       cfg_idle_s = idle, cfg_max_sessions = max_s, cfg_max_sessions_per_owner = max_owner,
       sessions = [], pending_evicted = [], effects = [] \<rparr>"

definition set_evict_callback :: "SessionManager \<Rightarrow> (exc + unit) \<times> SessionManager" where
  "set_evict_callback m =
     (if evict_bound m then
        (Inl (RuntimeError (ascii ''evict callback already bound '' @ 8212 #
           ascii '' set_evict_callback is a call-once composition-root seam'')), m)
      else (Inr (), m\<lparr>evict_bound := True\<rparr>))"

subsection \<open>Internals: expiry, projection, eviction\<close>

definition ttl_expired :: "session \<Rightarrow> real \<Rightarrow> bool" where
  "ttl_expired s t \<longleftrightarrow> t - created_mono s \<ge> real_of_int (ttl_s s)"

definition is_expired :: "session \<Rightarrow> real \<Rightarrow> bool" where
  "is_expired s t =
     (if ttl_expired s t then True
      else if in_flight s > 0 then False
      else t - last_used_mono s \<ge> real_of_int (idle_s s))"

definition to_info :: "session \<Rightarrow> SessionInfo" where
  "to_info s = \<lparr> info_session_id = session_id s, info_state = state s,
     info_created_at = created_at s, info_expires_at = created_at s + ttl_s s,
     info_binary_sha256 = binary_sha256 s, info_binary_size = binary_size s,
     info_analysis_profile = analysis_profile s, info_writes_enabled = writes_enabled s,
     info_allow_structural = allow_structural s \<rparr>"

text \<open>
  \<open>str(Path(root) / session_id)\<close> for a root in the normal form \<open>str(Path(root))\<close> and an id without
  separators.
\<close>

definition path_join :: "pystr \<Rightarrow> pystr \<Rightarrow> pystr" where
  "path_join rt p =
     (if rt = ascii ''/'' then 47 # p else if rt = ascii ''.'' then p else rt @ 47 # p)"

definition store_path_for :: "SessionManager \<Rightarrow> pystr \<Rightarrow> pystr option" where
  "store_path_for m sid =
     (case store_root m of None \<Rightarrow> None | Some rt \<Rightarrow> Some (path_join rt sid))"

text \<open>\<open>_wipe_store\<close>: the result is the existence check, not the attempt.\<close>

definition wipe_store :: "sm_env \<Rightarrow> pystr option \<Rightarrow> bool" where
  "wipe_store env p = (case p of None \<Rightarrow> True | Some path \<Rightarrow> \<not> path_exists env path)"

definition detach_for_eviction_locked ::
  "pystr \<Rightarrow> pystr \<Rightarrow> SessionManager \<Rightarrow> pending_eviction option \<times> SessionManager" where
  "detach_for_eviction_locked sid reason m =
     (case dict_get (sessions m) sid of
        None \<Rightarrow> (None, m)
      | Some s \<Rightarrow>
          (Some \<lparr> pe_session_id = sid, pe_store_path = store_path s,
                  pe_worker_started = worker_started s, pe_reason = reason \<rparr>,
           m\<lparr>sessions := dict_pop sid (sessions m),
             effects := effects m @ [MetricEvicted reason],
             pending_evicted := (if evict_bound m then pending_evicted m @ [sid]
                                 else pending_evicted m)\<rparr>))"

definition run_eviction_io ::
  "sm_env \<Rightarrow> pending_eviction \<Rightarrow> SessionManager \<Rightarrow> bool \<times> SessionManager" where
  "run_eviction_io env work m =
     (wipe_store env (pe_store_path work),
      m\<lparr>effects := effects m @
          (if pe_worker_started work \<and> has_port m then [KillWorker (pe_session_id work)] else []) @
          (case pe_store_path work of None \<Rightarrow> [] | Some p \<Rightarrow> [RmTree p])\<rparr>)"

definition evict_locked ::
  "sm_env \<Rightarrow> pystr \<Rightarrow> pystr \<Rightarrow> SessionManager \<Rightarrow> bool \<times> SessionManager" where
  "evict_locked env sid reason m =
     (case detach_for_eviction_locked sid reason m of
        (None, m') \<Rightarrow> (True, m')
      | (Some work, m') \<Rightarrow> run_eviction_io env work m')"

definition flush_evicted :: "SessionManager \<Rightarrow> SessionManager" where
  "flush_evicted m =
     (if \<not> evict_bound m then m
      else m\<lparr>pending_evicted := [], effects := effects m @ map OnEvict (pending_evicted m)\<rparr>)"

text \<open>The ownership chokepoint: unknown, evicted, foreign and expired ids all raise the same error.\<close>

definition get_live_locked ::
  "sm_env \<Rightarrow> pystr \<Rightarrow> pystr \<Rightarrow> SessionManager \<Rightarrow> (exc + session) \<times> SessionManager" where
  "get_live_locked env sid caller m =
     (case dict_get (sessions m) sid of
        None \<Rightarrow> (Inl (session_invalid None), m)
      | Some s \<Rightarrow>
          if state s = EVICTED then (Inl (session_invalid None), m)
          else if owner s \<noteq> caller then (Inl (session_invalid None), m)
          else if is_expired s (now env) then
            (Inl (session_invalid None), snd (evict_locked env sid (ascii ''expired-on-authorize'') m))
          else
            (let s' = s\<lparr>last_used_mono := now env\<rparr>
             in (Inr s', m\<lparr>sessions := dict_set sid s' (sessions m)\<rparr>)))"

subsection \<open>Creation and capacity\<close>

definition new_session :: "sm_env \<Rightarrow> pystr \<Rightarrow> SessionManager \<Rightarrow> session" where
  "new_session env own m =
     \<lparr> session_id = fresh_id env, owner = own, state = OPEN, created_at = wall env,
       created_mono = now env, last_used_mono = now env, ttl_s = cfg_ttl_s m,
       idle_s = cfg_idle_s m, in_flight = 0, binary_sha256 = None, binary_size = None,
       binary_name = None, analysis_profile = None, store_path = store_path_for m (fresh_id env),
       worker_started = False, writes_enabled = False, allow_structural = False,
       session_notes = [], comment_targets = {}, composite_targets = {} \<rparr>"

definition create ::
  "sm_env \<Rightarrow> pystr \<Rightarrow> SessionManager \<Rightarrow> (exc + SessionInfo) \<times> SessionManager" where
  "create env own m =
     (if int (length (sessions m)) \<ge> cfg_max_sessions m then
        (Inl (make_error LIMIT_EXCEEDED (ascii ''session capacity reached; retry later'') None), m)
      else if (case cfg_max_sessions_per_owner m of
                 None \<Rightarrow> False
               | Some cap \<Rightarrow> int (dict_count (\<lambda>s. owner s = own) (sessions m)) \<ge> cap) then
        (Inl (make_error LIMIT_EXCEEDED
               (ascii ''per-principal session capacity reached; retry later'') None), m)
      else
        (let s = new_session env own m
         in (Inr (to_info s),
             m\<lparr>sessions := dict_set (fresh_id env) s (sessions m),
               effects := effects m @ [MetricCreated]\<rparr>)))"

definition active_count :: "SessionManager \<Rightarrow> nat" where
  "active_count m = length (sessions m)"

definition has_capacity :: "SessionManager \<Rightarrow> bool" where
  "has_capacity m \<longleftrightarrow> int (length (sessions m)) < cfg_max_sessions m"

subsection \<open>In-flight marks\<close>

definition begin_call :: "sm_env \<Rightarrow> pystr \<Rightarrow> pystr option \<Rightarrow> SessionManager \<Rightarrow> SessionManager" where
  "begin_call env sid caller m =
     (case dict_get (sessions m) sid of
        None \<Rightarrow> m
      | Some s \<Rightarrow>
          if state s = EVICTED then m
          else if caller \<noteq> None \<and> Some (owner s) \<noteq> caller then m
          else m\<lparr>sessions := dict_set sid
                   (s\<lparr>in_flight := in_flight s + 1, last_used_mono := now env\<rparr>) (sessions m)\<rparr>)"

definition end_call :: "sm_env \<Rightarrow> pystr \<Rightarrow> pystr option \<Rightarrow> SessionManager \<Rightarrow> SessionManager" where
  "end_call env sid caller m =
     (case dict_get (sessions m) sid of
        None \<Rightarrow> m
      | Some s \<Rightarrow>
          if state s = EVICTED then m
          else if caller \<noteq> None \<and> Some (owner s) \<noteq> caller then m
          else m\<lparr>sessions := dict_set sid
                   (s\<lparr>in_flight := max 0 (in_flight s - 1), last_used_mono := now env\<rparr>) (sessions m)\<rparr>)"

subsection \<open>Owner-scoped operations\<close>

text \<open>
  The shape of every owner-scoped method: the chokepoint, then a body that may raise and that
  mutates the session in place, and the flush of queued eviction callbacks in a \<open>finally\<close>.
\<close>

definition with_live ::
  "(session \<Rightarrow> (exc + 'r) \<times> session) \<Rightarrow> sm_env \<Rightarrow> pystr \<Rightarrow> pystr \<Rightarrow> SessionManager \<Rightarrow>
   (exc + 'r) \<times> SessionManager" where
  "with_live body env sid caller m =
     (case get_live_locked env sid caller m of
        (Inl e, m') \<Rightarrow> (Inl e, flush_evicted m')
      | (Inr s, m') \<Rightarrow>
          (case body s of (r, s') \<Rightarrow>
             (r, flush_evicted (m'\<lparr>sessions := dict_set sid s' (sessions m')\<rparr>))))"

definition authorize ::
  "sm_env \<Rightarrow> pystr \<Rightarrow> pystr \<Rightarrow> SessionManager \<Rightarrow> (exc + SessionInfo) \<times> SessionManager" where
  "authorize = with_live (\<lambda>s. (Inr (to_info s), s))"

definition enable_writes ::
  "bool \<Rightarrow> sm_env \<Rightarrow> pystr \<Rightarrow> pystr \<Rightarrow> SessionManager \<Rightarrow> (exc + SessionInfo) \<times> SessionManager" where
  "enable_writes structural = with_live
     (\<lambda>s. let s' = s\<lparr>writes_enabled := True, allow_structural := structural\<rparr>
          in (Inr (to_info s'), s'))"

definition disable_writes ::
  "sm_env \<Rightarrow> pystr \<Rightarrow> pystr \<Rightarrow> SessionManager \<Rightarrow> (exc + SessionInfo) \<times> SessionManager" where
  "disable_writes = with_live
     (\<lambda>s. let s' = s\<lparr>writes_enabled := False, allow_structural := False\<rparr>
          in (Inr (to_info s'), s'))"

definition require_write_consent ::
  "bool \<Rightarrow> sm_env \<Rightarrow> pystr \<Rightarrow> pystr \<Rightarrow> SessionManager \<Rightarrow> (exc + SessionInfo) \<times> SessionManager" where
  "require_write_consent structural = with_live
     (\<lambda>s. if \<not> writes_enabled s then
            (Inl (make_error FORBIDDEN
                    (ascii ''session is read-only; write consent not granted'') None), s)
          else if structural \<and> \<not> allow_structural s then
            (Inl (make_error FORBIDDEN
                    (ascii ''structural writes not permitted for this session'') None), s)
          else (Inr (to_info s), s))"

definition require_worker_started ::
  "sm_env \<Rightarrow> pystr \<Rightarrow> pystr \<Rightarrow> SessionManager \<Rightarrow> (exc + unit) \<times> SessionManager" where
  "require_worker_started = with_live
     (\<lambda>s. if \<not> worker_started s then (Inl (no_binary_imported None), s) else (Inr (), s))"

definition record_binary_hash ::
  "pystr \<Rightarrow> int option \<Rightarrow> pystr option \<Rightarrow> sm_env \<Rightarrow> pystr \<Rightarrow> pystr \<Rightarrow> SessionManager \<Rightarrow>
   (exc + unit) \<times> SessionManager" where
  "record_binary_hash sha256 sz name = with_live
     (\<lambda>s. (Inr (), s\<lparr>binary_sha256 := Some sha256,
                     binary_size := (if sz = None then binary_size s else sz),
                     binary_name := (if name = None then binary_name s else name)\<rparr>))"

definition get_binary_name ::
  "sm_env \<Rightarrow> pystr \<Rightarrow> pystr \<Rightarrow> SessionManager \<Rightarrow> (exc + pystr option) \<times> SessionManager" where
  "get_binary_name = with_live (\<lambda>s. (Inr (binary_name s), s))"

definition record_analysis_profile ::
  "analysis_profile \<Rightarrow> sm_env \<Rightarrow> pystr \<Rightarrow> pystr \<Rightarrow> SessionManager \<Rightarrow>
   (exc + unit) \<times> SessionManager" where
  "record_analysis_profile p = with_live (\<lambda>s. (Inr (), s\<lparr>analysis_profile := Some p\<rparr>))"

definition record_comment_target ::
  "pystr \<Rightarrow> pystr \<Rightarrow> bool \<Rightarrow> sm_env \<Rightarrow> pystr \<Rightarrow> pystr \<Rightarrow> SessionManager \<Rightarrow>
   (exc + unit) \<times> SessionManager" where
  "record_comment_target address comment_type cleared = with_live
     (\<lambda>s. let key = (address, comment_type) in
          if cleared then (Inr (), s\<lparr>comment_targets := comment_targets s - {key}\<rparr>)
          else if key \<in> comment_targets s then (Inr (), s)
          else if card (comment_targets s) \<ge> MAX_CHANGE_LOG_TARGETS then (Inr (), s)
          else (Inr (), s\<lparr>comment_targets := insert key (comment_targets s)\<rparr>))"

definition record_composite_target ::
  "pystr \<Rightarrow> sm_env \<Rightarrow> pystr \<Rightarrow> pystr \<Rightarrow> SessionManager \<Rightarrow> (exc + unit) \<times> SessionManager" where
  "record_composite_target name = with_live
     (\<lambda>s. if name \<in> composite_targets s then (Inr (), s)
          else if card (composite_targets s) \<ge> MAX_CHANGE_LOG_TARGETS then (Inr (), s)
          else (Inr (), s\<lparr>composite_targets := insert name (composite_targets s)\<rparr>))"

definition is_composite_target ::
  "pystr \<Rightarrow> sm_env \<Rightarrow> pystr \<Rightarrow> pystr \<Rightarrow> SessionManager \<Rightarrow> (exc + bool) \<times> SessionManager" where
  "is_composite_target name = with_live (\<lambda>s. (Inr (name \<in> composite_targets s), s))"

definition forget_composite_target ::
  "pystr \<Rightarrow> sm_env \<Rightarrow> pystr \<Rightarrow> pystr \<Rightarrow> SessionManager \<Rightarrow> (exc + unit) \<times> SessionManager" where
  "forget_composite_target name = with_live
     (\<lambda>s. (Inr (), s\<lparr>composite_targets := composite_targets s - {name}\<rparr>))"

definition export_targets ::
  "sm_env \<Rightarrow> pystr \<Rightarrow> pystr \<Rightarrow> SessionManager \<Rightarrow>
   (exc + (pystr \<times> pystr) list \<times> pystr list) \<times> SessionManager" where
  "export_targets = with_live
     (\<lambda>s. (Inr (sorted_list_of_set (comment_targets s), sorted_list_of_set (composite_targets s)), s))"

text \<open>
  \<open>ensure_worker\<close> is the one owner-scoped method with an outside call: the worker is started
  before the flag is set, so a failing start leaves the session without a worker.
\<close>

definition ensure_worker ::
  "sm_env \<Rightarrow> pystr \<Rightarrow> pystr \<Rightarrow> SessionManager \<Rightarrow> (exc + unit) \<times> SessionManager" where
  "ensure_worker env sid caller m =
     (case get_live_locked env sid caller m of
        (Inl e, m') \<Rightarrow> (Inl e, flush_evicted m')
      | (Inr s, m') \<Rightarrow>
          if worker_started s \<or> \<not> has_port m' then (Inr (), flush_evicted m')
          else
            (case start_raises env of
               Some e \<Rightarrow> (Inl e, flush_evicted m')
             | None \<Rightarrow>
                 (Inr (), flush_evicted (m'\<lparr>sessions := dict_set sid (s\<lparr>worker_started := True\<rparr>) (sessions m'),
                                             effects := effects m' @ [StartWorker sid]\<rparr>))))"

subsection \<open>Eviction, reaping, shutdown\<close>

definition evict ::
  "sm_env \<Rightarrow> pystr \<Rightarrow> pystr \<Rightarrow> pystr option \<Rightarrow> SessionManager \<Rightarrow> (exc + bool) \<times> SessionManager" where
  "evict env sid reason caller m =
     (case caller of
        None \<Rightarrow> (case evict_locked env sid reason m of (w, m') \<Rightarrow> (Inr w, flush_evicted m'))
      | Some c \<Rightarrow>
          (case get_live_locked env sid c m of
             (Inl e, m') \<Rightarrow> (Inl e, flush_evicted m')
           | (Inr s, m') \<Rightarrow>
               (case evict_locked env sid reason m' of (w, m'') \<Rightarrow> (Inr w, flush_evicted m''))))"

text \<open>
  \<open>reap_expired\<close>: the expired, idle-in-flight-free sessions are detached in table order under the
  lock, then their workers are killed and their stores wiped in the same order after it is
  released.
\<close>

definition expired_ids :: "sm_env \<Rightarrow> SessionManager \<Rightarrow> pystr list" where
  "expired_ids env m =
     map fst (filter (\<lambda>(sid, s). state s \<noteq> EVICTED \<and> in_flight s = 0 \<and> is_expired s (now env))
               (sessions m))"

definition reap_reason :: "sm_env \<Rightarrow> SessionManager \<Rightarrow> pystr \<Rightarrow> pystr" where
  "reap_reason env m sid =
     (case dict_get (sessions m) sid of
        None \<Rightarrow> ascii ''idle''
      | Some s \<Rightarrow> if ttl_expired s (now env) then ascii ''ttl'' else ascii ''idle'')"

fun detach_all ::
  "sm_env \<Rightarrow> pystr list \<Rightarrow> SessionManager \<Rightarrow> pending_eviction list \<times> SessionManager" where
  "detach_all env [] m = ([], m)"
| "detach_all env (sid # sids) m =
     (case detach_for_eviction_locked sid (reap_reason env m sid) m of
        (None, m') \<Rightarrow> detach_all env sids m'
      | (Some work, m') \<Rightarrow>
          (case detach_all env sids m' of (works, m'') \<Rightarrow> (work # works, m'')))"

fun run_all_io :: "sm_env \<Rightarrow> pending_eviction list \<Rightarrow> SessionManager \<Rightarrow> SessionManager" where
  "run_all_io env [] m = m"
| "run_all_io env (work # works) m = run_all_io env works (snd (run_eviction_io env work m))"

definition reap_expired :: "sm_env \<Rightarrow> SessionManager \<Rightarrow> nat \<times> SessionManager" where
  "reap_expired env m =
     (case detach_all env (expired_ids env m) m of
        (works, m') \<Rightarrow> (length works, flush_evicted (run_all_io env works m')))"

fun evict_each :: "sm_env \<Rightarrow> pystr list \<Rightarrow> SessionManager \<Rightarrow> SessionManager" where
  "evict_each env [] m = m"
| "evict_each env (sid # sids) m =
     (case dict_get (sessions m) sid of
        None \<Rightarrow> evict_each env sids m
      | Some s \<Rightarrow>
          if state s \<noteq> EVICTED
          then evict_each env sids (snd (evict_locked env sid (ascii ''shutdown'') m))
          else evict_each env sids m)"

definition shutdown :: "sm_env \<Rightarrow> SessionManager \<Rightarrow> SessionManager" where
  "shutdown env m =
     flush_evicted ((evict_each env (dict_keys (sessions m)) m)\<lparr>sessions := []\<rparr>)"

end
