(* ===== verification/Session_Props.thy ===== *)
theory Session_Props
  imports Sessions
begin

text \<open>
  Facts about the session manager: the invariant of the session table, the balance of started
  and killed workers, the contract of the owner-scoped operations as a locale, and the
  operations as steps of one state machine with its reachable states.
\<close>

subsection \<open>The invariant\<close>

definition session_ok :: "SessionManager \<Rightarrow> pystr \<Rightarrow> session \<Rightarrow> bool" where
  "session_ok m k s \<longleftrightarrow>
     session_id s = k \<and> state s = OPEN \<and> 0 \<le> in_flight s \<and>
     (allow_structural s \<longrightarrow> writes_enabled s) \<and>
     finite (comment_targets s) \<and> card (comment_targets s) \<le> MAX_CHANGE_LOG_TARGETS \<and>
     finite (composite_targets s) \<and> card (composite_targets s) \<le> MAX_CHANGE_LOG_TARGETS \<and>
     store_path s = store_path_for m k \<and> (worker_started s \<longrightarrow> has_port m)"

definition owned_count :: "SessionManager \<Rightarrow> pystr \<Rightarrow> nat" where
  "owned_count m own = dict_count (\<lambda>s. owner s = own) (sessions m)"

definition table_inv :: "SessionManager \<Rightarrow> bool" where
  "table_inv m \<longleftrightarrow>
     dict_ok (sessions m) \<and> (\<forall>k s. dict_get (sessions m) k = Some s \<longrightarrow> session_ok m k s) \<and>
     int (length (sessions m)) \<le> max 0 (cfg_max_sessions m) \<and>
     (\<forall>own cap. cfg_max_sessions_per_owner m = Some cap \<longrightarrow> int (owned_count m own) \<le> max 0 cap)"

text \<open>The workers running after a trace of effects: started and not killed since.\<close>

fun effect_workers :: "effect \<Rightarrow> pystr set \<Rightarrow> pystr set" where
  "effect_workers (StartWorker sid) W = insert sid W"
| "effect_workers (KillWorker sid) W = W - {sid}"
| "effect_workers _ W = W"

definition live_workers :: "effect list \<Rightarrow> pystr set" where
  "live_workers es = fold effect_workers es {}"

lemma live_workers_append: "live_workers (es @ fs) = fold effect_workers fs (live_workers es)"
  by (simp add: live_workers_def)

definition started :: "SessionManager \<Rightarrow> pystr set" where
  "started m = {sid. \<exists>s. dict_get (sessions m) sid = Some s \<and> worker_started s}"

text \<open>
  Between detaching sessions and running their eviction I/O, the detached workers still run:
  \<open>workers_match works m\<close> accounts for them.
\<close>

definition doomed :: "pending_eviction list \<Rightarrow> pystr set" where
  "doomed works = {pe_session_id w | w. w \<in> set works \<and> pe_worker_started w}"

definition workers_match :: "pending_eviction list \<Rightarrow> SessionManager \<Rightarrow> bool" where
  "workers_match works m \<longleftrightarrow>
     live_workers (effects m) = started m \<union> doomed works \<and>
     distinct (map pe_session_id works) \<and>
     (\<forall>w \<in> set works. dict_get (sessions m) (pe_session_id w) = None \<and>
        (pe_worker_started w \<longrightarrow> has_port m))"

definition sm_inv :: "SessionManager \<Rightarrow> bool" where
  "sm_inv m \<longleftrightarrow> table_inv m \<and> workers_match [] m \<and> pending_evicted m = []"

text \<open>The fields no operation changes once the manager serves.\<close>

definition same_config :: "SessionManager \<Rightarrow> SessionManager \<Rightarrow> bool" where
  "same_config m m' \<longleftrightarrow>
     has_port m' = has_port m \<and> evict_bound m' = evict_bound m \<and> store_root m' = store_root m \<and>
     cfg_ttl_s m' = cfg_ttl_s m \<and> cfg_idle_s m' = cfg_idle_s m \<and>
     cfg_max_sessions m' = cfg_max_sessions m \<and>
     cfg_max_sessions_per_owner m' = cfg_max_sessions_per_owner m"

lemma session_ok_config: "same_config m m' \<Longrightarrow> session_ok m' k s = session_ok m k s"
  by (simp add: session_ok_def same_config_def store_path_for_def)

lemma config_caps:
  assumes "same_config m m'"
  shows "cfg_max_sessions m' = cfg_max_sessions m"
    and "cfg_max_sessions_per_owner m' = cfg_max_sessions_per_owner m"
    and "has_port m' = has_port m"
  using assms by (simp_all add: same_config_def)

lemma table_invI:
  assumes "table_inv m" and "same_config m m'" and "dict_ok (sessions m')"
    and "\<And>k s. dict_get (sessions m') k = Some s \<Longrightarrow> session_ok m k s"
    and "length (sessions m') \<le> length (sessions m)"
    and "\<And>own. owned_count m' own \<le> owned_count m own"
  shows "table_inv m'"
proof -
  have "int (length (sessions m')) \<le> max 0 (cfg_max_sessions m)"
    using assms(1,5) unfolding table_inv_def by linarith
  moreover have "int (owned_count m' own) \<le> max 0 cap"
    if "cfg_max_sessions_per_owner m = Some cap" for own cap
  proof -
    have "int (owned_count m own) \<le> max 0 cap"
      using assms(1) that unfolding table_inv_def by blast
    with assms(6) [of own] show ?thesis by linarith
  qed
  ultimately show ?thesis
    using assms(3,4) unfolding table_inv_def
    by (simp add: config_caps [OF assms(2)] session_ok_config [OF assms(2)])
qed

lemma table_inv_ok: "table_inv m \<Longrightarrow> dict_ok (sessions m)"
  by (simp add: table_inv_def)

lemma table_inv_session: "table_inv m \<Longrightarrow> dict_get (sessions m) k = Some s \<Longrightarrow> session_ok m k s"
  by (simp add: table_inv_def)

subsection \<open>Table updates\<close>

lemma table_inv_pop:
  assumes "table_inv m" and "same_config m m'" and ss: "sessions m' = dict_pop sid (sessions m)"
  shows "table_inv m'"
proof (rule table_invI [OF assms(1,2)])
  show "length (sessions m') \<le> length (sessions m)"
    by (simp add: ss length_dict_pop_le)
  show "owned_count m' own \<le> owned_count m own" for own
    by (simp add: ss owned_count_def dict_count_pop_le)
qed (use assms in \<open>auto simp: table_inv_ok table_inv_session dict_simps split: if_splits\<close>)

lemma table_inv_update:
  assumes "table_inv m" and "same_config m m'" and ss: "sessions m' = dict_set sid s' (sessions m)"
    and "dict_get (sessions m) sid = Some s" and "owner s' = owner s" and "session_ok m sid s'"
  shows "table_inv m'"
proof (rule table_invI [OF assms(1,2)])
  show "length (sessions m') \<le> length (sessions m)"
    using assms(4) by (simp add: ss length_dict_set)
  show "owned_count m' own \<le> owned_count m own" for own
    using assms(4,5) by (simp add: ss owned_count_def dict_count_set_same)
qed (use assms in \<open>auto simp: table_inv_ok table_inv_session dict_simps split: if_splits\<close>)

lemma started_update:
  "sessions m' = dict_set sid s' (sessions m) \<Longrightarrow>
   started m' = (if worker_started s' then insert sid (started m) else started m - {sid})"
  by (auto simp: started_def dict_simps split: if_splits)

lemma started_pop: "sessions m' = dict_pop sid (sessions m) \<Longrightarrow> started m' = started m - {sid}"
  by (auto simp: started_def dict_simps split: if_splits)

subsection \<open>Eviction steps\<close>

lemma detach_config: "same_config m (snd (detach_for_eviction_locked sid reason m))"
  by (auto simp: same_config_def detach_for_eviction_locked_def split: option.splits)

lemma detach_sessions:
  "sessions (snd (detach_for_eviction_locked sid reason m)) = dict_pop sid (sessions m)"
  by (auto simp: detach_for_eviction_locked_def dest: delete_id [OF map_of_eq_None_iff [THEN iffD1]]
      split: option.splits)

lemma detach_table: "table_inv m \<Longrightarrow> table_inv (snd (detach_for_eviction_locked sid reason m))"
  by (rule table_inv_pop [OF _ detach_config detach_sessions])

lemma io_config: "same_config m (snd (run_eviction_io env w m))"
  by (simp add: same_config_def run_eviction_io_def)

lemma io_sessions [simp]: "sessions (snd (run_eviction_io env w m)) = sessions m"
  by (simp add: run_eviction_io_def)

lemma table_inv_same:
  assumes "table_inv m" and "same_config m m'" and "sessions m' = sessions m"
  shows "table_inv m'"
  using assms(1) by (intro table_invI [OF assms(1,2)])
    (simp_all add: assms(3) owned_count_def table_inv_ok table_inv_session)

lemma io_table: "table_inv m \<Longrightarrow> table_inv (snd (run_eviction_io env w m))"
  by (rule table_inv_same [OF _ io_config io_sessions])

lemma detach_workers:
  assumes "workers_match works m" and "table_inv m"
    and "detach_for_eviction_locked sid reason m = (Some w, m')"
  shows "workers_match (works @ [w]) m'"
proof -
  from assms(3) obtain s where s: "dict_get (sessions m) sid = Some s"
    and w: "pe_session_id w = sid" "pe_worker_started w = worker_started s"
    and m': "effects m' = effects m @ [MetricEvicted reason]" "has_port m' = has_port m"
    by (auto simp: detach_for_eviction_locked_def split: option.splits)
  have ss: "sessions m' = dict_pop sid (sessions m)"
    using detach_sessions [of sid reason m] assms(3) by simp
  have "session_ok m sid s"
    using assms(2) s by (simp add: table_inv_def)
  moreover have "sid \<in> started m \<longleftrightarrow> worker_started s"
    using s by (simp add: started_def)
  ultimately show ?thesis
    using assms(1) w m' s
    by (auto simp: workers_match_def started_pop [OF ss] ss dict_simps doomed_def
        live_workers_append session_ok_def)
qed

lemma io_workers:
  assumes "workers_match (w # works) m"
  shows "workers_match works (snd (run_eviction_io env w m))"
proof -
  have "started (snd (run_eviction_io env w m)) = started m"
    by (simp add: started_def)
  moreover have "pe_session_id w \<notin> started m"
    using assms by (auto simp: workers_match_def started_def)
  ultimately show ?thesis
    using assms
    by (auto simp: workers_match_def run_eviction_io_def live_workers_append doomed_def
        split: option.splits)
qed

lemma evict_locked_gone: "dict_get (sessions m) sid = None \<Longrightarrow> evict_locked env sid reason m = (True, m)"
  by (simp add: evict_locked_def detach_for_eviction_locked_def)

lemma evict_locked_config: "same_config m (snd (evict_locked env sid reason m))"
  by (auto simp: same_config_def evict_locked_def detach_for_eviction_locked_def run_eviction_io_def
      split: option.splits)

lemma evict_locked_sessions: "sessions (snd (evict_locked env sid reason m)) = dict_pop sid (sessions m)"
  using detach_sessions [of sid reason m]
  by (auto simp: evict_locked_def run_eviction_io_def split: option.splits prod.splits)

lemma evict_locked_table: "table_inv m \<Longrightarrow> table_inv (snd (evict_locked env sid reason m))"
  by (rule table_inv_pop [OF _ evict_locked_config evict_locked_sessions])

lemma evict_locked_workers:
  assumes "workers_match [] m" and "table_inv m"
  shows "workers_match [] (snd (evict_locked env sid reason m))"
proof (cases "detach_for_eviction_locked sid reason m")
  case (Pair w m')
  show ?thesis
  proof (cases w)
    case None
    then have "m' = m"
      using Pair by (auto simp: detach_for_eviction_locked_def split: option.splits)
    with assms(1) Pair None show ?thesis by (simp add: evict_locked_def)
  next
    case (Some work)
    with detach_workers [OF assms] Pair have "workers_match [work] m'" by simp
    then show ?thesis
      using Pair Some io_workers by (simp add: evict_locked_def)
  qed
qed

lemma evict_locked_pending:
  "pending_evicted m = [] \<Longrightarrow>
   pending_evicted (snd (evict_locked env sid reason m)) =
     (if evict_bound m \<and> dict_get (sessions m) sid \<noteq> None then [sid] else [])"
  by (auto simp: evict_locked_def detach_for_eviction_locked_def run_eviction_io_def
      split: option.splits)

lemma flush_config: "same_config m (flush_evicted m)"
  by (simp add: same_config_def flush_evicted_def)

lemma flush_sessions [simp]: "sessions (flush_evicted m) = sessions m"
  by (simp add: flush_evicted_def)

lemma flush_table: "table_inv m \<Longrightarrow> table_inv (flush_evicted m)"
  by (rule table_inv_same [OF _ flush_config flush_sessions])

lemma fold_OnEvict [simp]: "fold effect_workers (map OnEvict sids) W = W"
  by (induction sids) simp_all

lemma flush_workers: "workers_match works m \<Longrightarrow> workers_match works (flush_evicted m)"
  by (auto simp: workers_match_def flush_evicted_def live_workers_append started_def)

lemma flush_pending:
  "(\<not> evict_bound m \<Longrightarrow> pending_evicted m = []) \<Longrightarrow> pending_evicted (flush_evicted m) = []"
  by (simp add: flush_evicted_def)

subsection \<open>The chokepoint\<close>

definition live_owned :: "sm_env \<Rightarrow> pystr \<Rightarrow> pystr \<Rightarrow> SessionManager \<Rightarrow> bool" where
  "live_owned env sid caller m \<longleftrightarrow>
     (case dict_get (sessions m) sid of
        None \<Rightarrow> False
      | Some s \<Rightarrow> state s \<noteq> EVICTED \<and> owner s = caller \<and> \<not> is_expired s (now env))"

lemma get_live_denied:
  "\<not> live_owned env sid caller m \<Longrightarrow> fst (get_live_locked env sid caller m) = Inl (session_invalid None)"
  by (auto simp: live_owned_def get_live_locked_def split: option.splits)

lemma get_live_granted:
  assumes "live_owned env sid caller m"
  obtains s where "dict_get (sessions m) sid = Some s" and "owner s = caller"
    and "get_live_locked env sid caller m =
      (Inr (s\<lparr>last_used_mono := now env\<rparr>),
       m\<lparr>sessions := dict_set sid (s\<lparr>last_used_mono := now env\<rparr>) (sessions m)\<rparr>)"
  using assms by (auto simp: live_owned_def get_live_locked_def Let_def split: option.splits)

lemma get_live_cases:
  assumes "\<not> live_owned env sid caller m"
  shows "snd (get_live_locked env sid caller m) = m \<or>
    snd (get_live_locked env sid caller m) =
      snd (evict_locked env sid (ascii ''expired-on-authorize'') m) \<and>
      (\<exists>s. dict_get (sessions m) sid = Some s \<and> owner s = caller)"
  using assms by (auto simp: live_owned_def get_live_locked_def split: option.splits)

text \<open>What a body may do to the session it is handed.\<close>

definition body_ok :: "(session \<Rightarrow> (exc + 'r) \<times> session) \<Rightarrow> bool" where
  "body_ok body \<longleftrightarrow>
     (\<forall>m k s. session_ok m k s \<longrightarrow>
        session_ok m k (snd (body s)) \<and> owner (snd (body s)) = owner s \<and>
        worker_started (snd (body s)) = worker_started s)"

lemma with_live_denied:
  "\<not> live_owned env sid caller m \<Longrightarrow> fst (with_live body env sid caller m) = Inl (session_invalid None)"
  using get_live_denied [of env sid caller m] by (auto simp: with_live_def split: prod.splits)

lemma with_live_denied_state:
  "\<not> live_owned env sid caller m \<Longrightarrow>
   snd (with_live body env sid caller m) = flush_evicted (snd (get_live_locked env sid caller m))"
  using get_live_denied [of env sid caller m] by (auto simp: with_live_def split: prod.splits)

lemma sm_inv_update:
  assumes inv: "sm_inv m" and s: "dict_get (sessions m) sid = Some s"
    and s': "owner s' = owner s" "worker_started s' = worker_started s" "session_ok m sid s'"
  shows "sm_inv (m\<lparr>sessions := dict_set sid s' (sessions m)\<rparr>)"
proof -
  let ?m = "m\<lparr>sessions := dict_set sid s' (sessions m)\<rparr>"
  have "table_inv ?m"
    using inv s s' by (intro table_inv_update [where m = m and m' = ?m and s = s])
      (simp_all add: sm_inv_def same_config_def)
  moreover have "started ?m = started m"
    using s s'(2) by (subst started_update [where m = m and sid = sid and s' = s'])
      (auto simp: started_def)
  ultimately show ?thesis
    using inv by (simp add: sm_inv_def workers_match_def)
qed

lemma sm_inv_flush: "sm_inv m \<Longrightarrow> sm_inv (flush_evicted m)"
  by (simp add: sm_inv_def flush_table flush_workers flush_pending)

lemma sm_inv_evict_flush: "sm_inv m \<Longrightarrow> sm_inv (flush_evicted (snd (evict_locked env sid reason m)))"
  using evict_locked_config [of m env sid reason]
  by (auto simp: sm_inv_def evict_locked_table evict_locked_workers flush_table flush_workers
      evict_locked_pending same_config_def intro!: flush_pending)

lemma sm_inv_denied:
  assumes "sm_inv m" and "\<not> live_owned env sid caller m"
  shows "sm_inv (flush_evicted (snd (get_live_locked env sid caller m)))"
  using get_live_cases [OF assms(2)] assms(1) by (auto simp: sm_inv_flush sm_inv_evict_flush)

lemma session_ok_touch: "session_ok m k s \<Longrightarrow> session_ok m k (s\<lparr>last_used_mono := t\<rparr>)"
  by (simp add: session_ok_def)

lemma sm_inv_get_live:
  assumes "sm_inv m" and "live_owned env sid caller m"
  shows "sm_inv (snd (get_live_locked env sid caller m))"
proof -
  from assms(2) obtain s where s: "dict_get (sessions m) sid = Some s"
    and g: "get_live_locked env sid caller m =
      (Inr (s\<lparr>last_used_mono := now env\<rparr>),
       m\<lparr>sessions := dict_set sid (s\<lparr>last_used_mono := now env\<rparr>) (sessions m)\<rparr>)"
    by (rule get_live_granted)
  have "session_ok m sid s"
    using assms(1) s by (simp add: sm_inv_def table_inv_session)
  with assms(1) s show ?thesis
    by (simp add: g sm_inv_update session_ok_touch)
qed

lemma with_live_granted:
  assumes "live_owned env sid caller m"
  obtains s where "dict_get (sessions m) sid = Some s" and "owner s = caller"
    and "with_live body env sid caller m =
      (fst (body (s\<lparr>last_used_mono := now env\<rparr>)),
       flush_evicted (m\<lparr>sessions := dict_set sid (snd (body (s\<lparr>last_used_mono := now env\<rparr>))) (sessions m)\<rparr>))"
proof -
  from assms obtain s where s: "dict_get (sessions m) sid = Some s" "owner s = caller"
    and g: "get_live_locked env sid caller m =
      (Inr (s\<lparr>last_used_mono := now env\<rparr>),
       m\<lparr>sessions := dict_set sid (s\<lparr>last_used_mono := now env\<rparr>) (sessions m)\<rparr>)"
    by (rule get_live_granted)
  show thesis
    by (rule that [OF s]) (auto simp: with_live_def g split: prod.splits)
qed

lemma sm_inv_with_live:
  assumes "sm_inv m" and "body_ok body"
  shows "sm_inv (snd (with_live body env sid caller m))"
proof (cases "live_owned env sid caller m")
  case False
  with assms(1) show ?thesis by (simp add: with_live_denied_state sm_inv_denied)
next
  case True
  then obtain s where s: "dict_get (sessions m) sid = Some s"
    and w: "with_live body env sid caller m =
      (fst (body (s\<lparr>last_used_mono := now env\<rparr>)),
       flush_evicted (m\<lparr>sessions := dict_set sid (snd (body (s\<lparr>last_used_mono := now env\<rparr>))) (sessions m)\<rparr>))"
    by (rule with_live_granted)
  have "session_ok m sid (s\<lparr>last_used_mono := now env\<rparr>)"
    using assms(1) s by (simp add: sm_inv_def table_inv_session session_ok_touch)
  then show ?thesis
    using assms s unfolding w body_ok_def by (simp add: sm_inv_flush sm_inv_update)
qed

subsection \<open>The contract of an owner-scoped operation\<close>

text \<open>
  What every session-scoped entry point promises its callers: without a live session of their
  own they get one fixed error, sessions other than the named one are left alone, and so is the
  named one when it belongs to someone else; the manager's invariant is kept.
\<close>

locale owner_scoped =
  fixes op :: "sm_env \<Rightarrow> pystr \<Rightarrow> pystr \<Rightarrow> SessionManager \<Rightarrow> (exc + 'r) \<times> SessionManager"
  assumes denied: "\<not> live_owned env sid caller m \<Longrightarrow>
      fst (op env sid caller m) = Inl (session_invalid None)"
    and frame: "sid' \<noteq> sid \<Longrightarrow>
      dict_get (sessions (snd (op env sid caller m))) sid' = dict_get (sessions m) sid'"
    and foreign: "dict_get (sessions m) sid = Some s \<Longrightarrow> owner s \<noteq> caller \<Longrightarrow>
      dict_get (sessions (snd (op env sid caller m))) sid = Some s"
    and keeps_inv: "sm_inv m \<Longrightarrow> sm_inv (snd (op env sid caller m))"
begin

text \<open>No oracle: any two denied calls are answered alike.\<close>

lemma no_oracle:
  "\<not> live_owned env sid c m \<Longrightarrow> \<not> live_owned env' sid' c' m' \<Longrightarrow>
   fst (op env sid c m) = fst (op env' sid' c' m')"
  by (simp add: denied)

lemma victim_untouched:
  assumes "dict_get (sessions m) victim = Some s" and "owner s \<noteq> caller"
  shows "dict_get (sessions (snd (op env sid caller m))) victim = Some s"
  using assms frame foreign by (cases "victim = sid") auto

lemma success_needs_owner:
  assumes "fst (op env sid caller m) = Inr r"
  shows "\<exists>s. dict_get (sessions m) sid = Some s \<and> owner s = caller \<and> \<not> is_expired s (now env)"
proof -
  have "live_owned env sid caller m"
    using assms denied [of env sid caller m] by (cases "live_owned env sid caller m") simp_all
  then show ?thesis by (auto simp: live_owned_def split: option.splits)
qed

end

lemma denied_sessions:
  assumes "\<not> live_owned env sid caller m"
  shows "sid' \<noteq> sid \<Longrightarrow> dict_get (sessions (snd (get_live_locked env sid caller m))) sid' =
      dict_get (sessions m) sid'"
    and "dict_get (sessions m) sid = Some s \<Longrightarrow> owner s \<noteq> caller \<Longrightarrow>
      dict_get (sessions (snd (get_live_locked env sid caller m))) sid = Some s"
  using get_live_cases [OF assms] by (auto simp: evict_locked_sessions dict_simps)

lemma not_live_foreign: "dict_get (sessions m) sid = Some s \<Longrightarrow> owner s \<noteq> caller \<Longrightarrow> \<not> live_owned env sid caller m"
  by (simp add: live_owned_def)

lemma owner_scoped_with_live:
  assumes "body_ok body"
  shows "owner_scoped (with_live body)"
proof
  fix env sid caller m sid' s
  show "\<not> live_owned env sid caller m \<Longrightarrow> fst (with_live body env sid caller m) = Inl (session_invalid None)"
    by (rule with_live_denied)
  show "sm_inv m \<Longrightarrow> sm_inv (snd (with_live body env sid caller m))"
    using assms by (simp add: sm_inv_with_live)
  show "dict_get (sessions (snd (with_live body env sid caller m))) sid' = dict_get (sessions m) sid'"
    if "sid' \<noteq> sid"
  proof (cases "live_owned env sid caller m")
    case True
    then obtain s where "snd (with_live body env sid caller m) =
        flush_evicted (m\<lparr>sessions := dict_set sid (snd (body (s\<lparr>last_used_mono := now env\<rparr>))) (sessions m)\<rparr>)"
      by (metis with_live_granted snd_conv)
    then show ?thesis using that by (simp add: dict_simps)
  qed (use that in \<open>simp add: with_live_denied_state denied_sessions\<close>)
  show "dict_get (sessions (snd (with_live body env sid caller m))) sid = Some s"
    if "dict_get (sessions m) sid = Some s" "owner s \<noteq> caller"
    using that not_live_foreign [OF that] by (simp add: with_live_denied_state denied_sessions)
qed

lemmas body_simps = body_ok_def session_ok_def Let_def

interpretation authorize: owner_scoped authorize
  unfolding authorize_def by (rule owner_scoped_with_live) (auto simp: body_simps)

interpretation enable_writes: owner_scoped "enable_writes b" for b
  unfolding enable_writes_def by (rule owner_scoped_with_live) (auto simp: body_simps)

interpretation disable_writes: owner_scoped disable_writes
  unfolding disable_writes_def by (rule owner_scoped_with_live) (auto simp: body_simps)

interpretation require_write_consent: owner_scoped "require_write_consent b" for b
  unfolding require_write_consent_def by (rule owner_scoped_with_live) (auto simp: body_simps)

interpretation require_worker_started: owner_scoped require_worker_started
  unfolding require_worker_started_def by (rule owner_scoped_with_live) (auto simp: body_simps)

interpretation record_binary_hash: owner_scoped "record_binary_hash sha sz nm" for sha sz nm
  unfolding record_binary_hash_def by (rule owner_scoped_with_live) (auto simp: body_simps)

interpretation get_binary_name: owner_scoped get_binary_name
  unfolding get_binary_name_def by (rule owner_scoped_with_live) (auto simp: body_simps)

interpretation record_analysis_profile: owner_scoped "record_analysis_profile p" for p
  unfolding record_analysis_profile_def by (rule owner_scoped_with_live) (auto simp: body_simps)

interpretation record_comment_target: owner_scoped "record_comment_target a t cl" for a t cl
  unfolding record_comment_target_def
  by (rule owner_scoped_with_live)
     (auto simp: body_simps card_insert_if intro: order_trans [OF card_Diff1_le])

interpretation record_composite_target: owner_scoped "record_composite_target nm" for nm
  unfolding record_composite_target_def
  by (rule owner_scoped_with_live) (auto simp: body_simps card_insert_if)

interpretation is_composite_target: owner_scoped "is_composite_target nm" for nm
  unfolding is_composite_target_def by (rule owner_scoped_with_live) (auto simp: body_simps)

interpretation forget_composite_target: owner_scoped "forget_composite_target nm" for nm
  unfolding forget_composite_target_def
  by (rule owner_scoped_with_live) (auto simp: body_simps intro: order_trans [OF card_Diff1_le])

interpretation export_targets: owner_scoped export_targets
  unfolding export_targets_def by (rule owner_scoped_with_live) (auto simp: body_simps)

lemma get_live_frame:
  "sid' \<noteq> sid \<Longrightarrow> dict_get (sessions (snd (get_live_locked env sid caller m))) sid' = dict_get (sessions m) sid'"
  by (cases "live_owned env sid caller m")
     (auto simp: denied_sessions dict_simps elim!: get_live_granted)

lemma denied_pair: "\<not> live_owned env sid caller m \<Longrightarrow>
  get_live_locked env sid caller m =
    (Inl (session_invalid None), snd (get_live_locked env sid caller m))"
  using get_live_denied by (metis prod.collapse)

lemma ensure_worker_denied:
  "\<not> live_owned env sid caller m \<Longrightarrow> ensure_worker env sid caller m =
     (Inl (session_invalid None), flush_evicted (snd (get_live_locked env sid caller m)))"
  unfolding ensure_worker_def by (subst denied_pair) simp_all

lemma sm_inv_start:
  assumes "sm_inv m" and "dict_get (sessions m) sid = Some s" and "has_port m"
  shows "sm_inv (m\<lparr>sessions := dict_set sid (s\<lparr>worker_started := True\<rparr>) (sessions m),
                    effects := effects m @ [StartWorker sid]\<rparr>)" (is "sm_inv ?m")
proof -
  have "session_ok m sid (s\<lparr>worker_started := True\<rparr>)"
    using assms table_inv_session [of m sid s] by (simp add: sm_inv_def session_ok_def)
  then have "table_inv ?m"
    using assms by (intro table_inv_update [where m = m and m' = ?m and s = s])
      (simp_all add: sm_inv_def same_config_def)
  moreover have "started ?m = insert sid (started m)"
    by (subst started_update [where m = m and sid = sid and s' = "s\<lparr>worker_started := True\<rparr>"]) simp_all
  ultimately show ?thesis
    using assms(1) by (simp add: sm_inv_def workers_match_def live_workers_append)
qed

lemma sm_inv_ensure_worker:
  assumes "sm_inv m"
  shows "sm_inv (snd (ensure_worker env sid caller m))"
proof (cases "live_owned env sid caller m")
  case False
  with assms show ?thesis by (simp add: ensure_worker_denied sm_inv_denied)
next
  case True
  let ?m = "snd (get_live_locked env sid caller m)"
  have inv: "sm_inv ?m" using assms True by (rule sm_inv_get_live)
  from True obtain s where g: "get_live_locked env sid caller m = (Inr s, ?m)"
      and s: "dict_get (sessions ?m) sid = Some s"
    by (auto simp: dict_simps elim!: get_live_granted)
  show ?thesis
    unfolding ensure_worker_def using inv s
    by (subst g) (auto simp: sm_inv_flush sm_inv_start split: option.splits)
qed

lemma ensure_worker_frame:
  "sid' \<noteq> sid \<Longrightarrow> dict_get (sessions (snd (ensure_worker env sid caller m))) sid' = dict_get (sessions m) sid'"
  using get_live_frame [of sid' sid env caller m]
  by (auto simp: ensure_worker_def dict_simps split: prod.splits sum.splits option.splits)

interpretation ensure_worker: owner_scoped ensure_worker
proof
  fix env sid caller m s
  show "dict_get (sessions (snd (ensure_worker env sid caller m))) sid = Some s"
    if "dict_get (sessions m) sid = Some s" "owner s \<noteq> caller"
    using that not_live_foreign [OF that] by (simp add: ensure_worker_denied denied_sessions)
qed (simp_all add: ensure_worker_denied ensure_worker_frame sm_inv_ensure_worker)

text \<open>A tool-initiated eviction (\<open>session_close\<close>) is owner-scoped too.\<close>

abbreviation close_session ::
  "pystr \<Rightarrow> sm_env \<Rightarrow> pystr \<Rightarrow> pystr \<Rightarrow> SessionManager \<Rightarrow> (exc + bool) \<times> SessionManager" where
  "close_session reason env sid caller m \<equiv> evict env sid reason (Some caller) m"

lemma close_denied:
  "\<not> live_owned env sid caller m \<Longrightarrow> close_session reason env sid caller m =
     (Inl (session_invalid None), flush_evicted (snd (get_live_locked env sid caller m)))"
  unfolding evict_def option.case by (subst denied_pair) simp_all

lemma sm_inv_close:
  assumes "sm_inv m"
  shows "sm_inv (snd (close_session reason env sid caller m))"
proof (cases "live_owned env sid caller m")
  case False
  with assms show ?thesis by (simp add: close_denied sm_inv_denied)
next
  case True
  let ?m = "snd (get_live_locked env sid caller m)"
  have inv: "sm_inv ?m" using assms True by (rule sm_inv_get_live)
  from True obtain s where g: "get_live_locked env sid caller m = (Inr s, ?m)"
    by (auto elim!: get_live_granted)
  have "snd (close_session reason env sid caller m) = flush_evicted (snd (evict_locked env sid reason ?m))"
    unfolding evict_def option.case by (subst g) (simp split: prod.splits)
  with inv show ?thesis by (simp add: sm_inv_evict_flush)
qed

lemma close_frame:
  "sid' \<noteq> sid \<Longrightarrow>
   dict_get (sessions (snd (close_session reason env sid caller m))) sid' = dict_get (sessions m) sid'"
  using get_live_frame [of sid' sid env caller m] evict_locked_sessions [of env sid reason]
  by (auto simp: evict_def dict_simps split: prod.splits sum.splits)
     (metis snd_conv dict_get_pop)

interpretation close: owner_scoped "close_session reason" for reason
proof
  fix env sid caller m s
  show "dict_get (sessions (snd (close_session reason env sid caller m))) sid = Some s"
    if "dict_get (sessions m) sid = Some s" "owner s \<noteq> caller"
    using that not_live_foreign [OF that] by (simp add: close_denied denied_sessions)
qed (simp_all add: close_denied close_frame sm_inv_close)

subsection \<open>Creation, in-flight marks, reaping, shutdown\<close>

lemma table_inv_insert:
  assumes "table_inv m" and "same_config m m'" and ss: "sessions m' = dict_set sid s (sessions m)"
    and "session_ok m sid s" and "int (length (sessions m)) < cfg_max_sessions m"
    and "\<And>cap. cfg_max_sessions_per_owner m = Some cap \<Longrightarrow> int (owned_count m (owner s)) < cap"
  shows "table_inv m'"
proof -
  have "int (owned_count m' own) \<le> max 0 cap"
    if "cfg_max_sessions_per_owner m = Some cap" for own cap
  proof -
    have "int (owned_count m own) \<le> max 0 cap"
      using assms(1) that unfolding table_inv_def by blast
    then show ?thesis
      using assms(6) [OF that] dict_count_set_le [of "\<lambda>s. owner s = own" sid s "sessions m"]
      by (auto simp: ss owned_count_def split: if_splits)
  qed
  moreover have "int (length (sessions m')) \<le> max 0 (cfg_max_sessions m)"
    using assms(5) by (auto simp: ss length_dict_set)
  ultimately show ?thesis
    using assms(1,4) unfolding table_inv_def config_caps [OF assms(2)] session_ok_config [OF assms(2)]
    by (simp add: ss dict_simps)
qed

lemma owner_new_session [simp]: "owner (new_session env own m) = own"
  by (simp add: new_session_def)

definition create_admits :: "SessionManager \<Rightarrow> pystr \<Rightarrow> bool" where
  "create_admits m own \<longleftrightarrow> int (length (sessions m)) < cfg_max_sessions m \<and>
     (case cfg_max_sessions_per_owner m of None \<Rightarrow> True | Some cap \<Rightarrow> int (owned_count m own) < cap)"

lemma create_denied: "\<not> create_admits m own \<Longrightarrow> snd (create env own m) = m \<and> isl (fst (create env own m))"
  by (auto simp: create_def create_admits_def owned_count_def make_error_def split: option.splits)

lemma create_admitted:
  "create_admits m own \<Longrightarrow> create env own m =
     (Inr (to_info (new_session env own m)),
      m\<lparr>sessions := dict_set (fresh_id env) (new_session env own m) (sessions m),
        effects := effects m @ [MetricCreated]\<rparr>)"
  by (simp add: create_def create_admits_def owned_count_def Let_def split: option.splits)

lemma sm_inv_create:
  assumes "sm_inv m" and "dict_get (sessions m) (fresh_id env) = None"
  shows "sm_inv (snd (create env own m))"
proof (cases "create_admits m own")
  case False
  with assms show ?thesis by (simp add: create_denied)
next
  case True
  let ?s = "new_session env own m" and ?m' = "snd (create env own m)"
  have ok: "session_ok m (fresh_id env) ?s" and ws: "\<not> worker_started ?s"
    by (simp_all add: new_session_def session_ok_def)
  have "table_inv ?m'"
  proof (rule table_inv_insert [OF _ _ _ ok])
    show "table_inv m" using assms(1) by (simp add: sm_inv_def)
    show "same_config m ?m'" by (simp add: create_admitted [OF True] same_config_def)
    show "sessions ?m' = dict_set (fresh_id env) ?s (sessions m)"
      by (simp add: create_admitted [OF True])
    show "int (length (sessions m)) < cfg_max_sessions m"
      using True by (simp only: create_admits_def)
    show "int (owned_count m (owner ?s)) < cap" if "cfg_max_sessions_per_owner m = Some cap" for cap
      using True that by (simp only: create_admits_def option.case owner_new_session)
  qed
  moreover have "started ?m' = started m"
    using assms(2) ws True by (subst started_update [where m = m and sid = "fresh_id env" and s' = ?s])
      (auto simp: create_admitted started_def)
  ultimately show ?thesis
    using assms(1) True by (simp add: sm_inv_def workers_match_def create_admitted live_workers_append)
qed

lemma sm_inv_begin_call: "sm_inv m \<Longrightarrow> sm_inv (begin_call env sid caller m)"
proof -
  have "session_ok m sid (s\<lparr>in_flight := in_flight s + 1, last_used_mono := t\<rparr>)"
    if "session_ok m sid s" for s t using that by (simp add: session_ok_def)
  then show "sm_inv m \<Longrightarrow> ?thesis"
    by (auto simp: begin_call_def sm_inv_update sm_inv_def [of m] table_inv_session
        intro!: sm_inv_update split: option.splits)
qed

lemma sm_inv_end_call: "sm_inv m \<Longrightarrow> sm_inv (end_call env sid caller m)"
proof -
  have "session_ok m sid (s\<lparr>in_flight := max 0 (in_flight s - 1), last_used_mono := t\<rparr>)"
    if "session_ok m sid s" for s t using that by (simp add: session_ok_def)
  then show "sm_inv m \<Longrightarrow> ?thesis"
    by (auto simp: end_call_def sm_inv_def [of m] table_inv_session
        intro!: sm_inv_update split: option.splits)
qed

text \<open>The two phases of a reap: detached sessions accumulate as pending work, then the work runs.\<close>

lemma detach_all_props:
  "table_inv m \<Longrightarrow> workers_match acc m \<Longrightarrow> detach_all env sids m = (works, m') \<Longrightarrow>
   table_inv m' \<and> workers_match (acc @ works) m' \<and> same_config m m' \<and>
   (\<not> evict_bound m \<longrightarrow> pending_evicted m' = pending_evicted m) \<and>
   sessions m' = filter (\<lambda>kv. fst kv \<notin> set sids) (sessions m)"
proof (induction env sids m arbitrary: acc works m' rule: detach_all.induct)
  case (1 env m)
  then show ?case by (simp add: same_config_def)
next
  case (2 env sid sids m)
  let ?d = "detach_for_eviction_locked sid (reap_reason env m sid) m"
  obtain w m1 where d: "?d = (w, m1)" by (cases ?d)
  have t1: "table_inv m1" and c1: "same_config m m1" and s1: "sessions m1 = dict_pop sid (sessions m)"
    using detach_table [OF "2.prems"(1), of sid] detach_config [of m sid] detach_sessions [of sid _ m] d
    by (metis snd_conv)+
  have p1: "\<not> evict_bound m \<longrightarrow> pending_evicted m1 = pending_evicted m"
    using d by (auto simp: detach_for_eviction_locked_def split: option.splits)
  have flt: "filter (\<lambda>kv. fst kv \<notin> set sids) (sessions m1) =
      filter (\<lambda>kv. fst kv \<notin> set (sid # sids)) (sessions m)"
    by (auto simp: s1 AList.delete_eq intro!: filter_cong)
  show ?case
  proof (cases w)
    case None
    then have w1: "workers_match acc m1"
      using d "2.prems"(2) by (auto simp: detach_for_eviction_locked_def split: option.splits)
    have r: "detach_all env sids m1 = (works, m')"
      using "2.prems"(3) d None by simp
    from "2.IH"(1) [OF d [symmetric] None t1 w1 r] c1 p1 flt show ?thesis
      by (simp add: same_config_def)
  next
    case (Some work)
    have w1: "workers_match (acc @ [work]) m1"
      using "2.prems"(1,2) d Some by (intro detach_workers) simp_all
    obtain works2 where r: "detach_all env sids m1 = (works2, m')" and ws: "works = work # works2"
      using "2.prems"(3) d Some by (auto split: prod.splits)
    from "2.IH"(2) [OF d [symmetric] Some t1 w1 r] c1 p1 flt ws show ?thesis
      by (simp add: same_config_def)
  qed
qed

lemma run_all_io_props:
  "table_inv m \<Longrightarrow> workers_match works m \<Longrightarrow>
   table_inv (run_all_io env works m) \<and> workers_match [] (run_all_io env works m) \<and>
   same_config m (run_all_io env works m) \<and> sessions (run_all_io env works m) = sessions m \<and>
   pending_evicted (run_all_io env works m) = pending_evicted m"
proof (induction env works m rule: run_all_io.induct)
  case (2 env work works m)
  from "2.IH" [OF io_table [OF "2.prems"(1)] io_workers [OF "2.prems"(2)]] io_config [of m env work]
  show ?case by (simp add: same_config_def run_eviction_io_def)
qed (simp add: same_config_def)

lemma reap_expired_props:
  assumes "sm_inv m"
  shows "sm_inv (snd (reap_expired env m))"
    and "sessions (snd (reap_expired env m)) =
      filter (\<lambda>kv. fst kv \<notin> set (expired_ids env m)) (sessions m)"
    and "same_config m (snd (reap_expired env m))"
proof -
  obtain works m1 where d: "detach_all env (expired_ids env m) m = (works, m1)"
    by (cases "detach_all env (expired_ids env m) m")
  have p: "table_inv m1 \<and> workers_match works m1 \<and> same_config m m1 \<and>
     (\<not> evict_bound m \<longrightarrow> pending_evicted m1 = pending_evicted m) \<and>
     sessions m1 = filter (\<lambda>kv. fst kv \<notin> set (expired_ids env m)) (sessions m)"
    using detach_all_props [OF _ _ d, of "[]"] assms by (simp add: sm_inv_def)
  let ?m2 = "run_all_io env works m1"
  have q: "table_inv ?m2 \<and> workers_match [] ?m2 \<and> same_config m1 ?m2 \<and> sessions ?m2 = sessions m1 \<and>
     pending_evicted ?m2 = pending_evicted m1"
    using p by (intro run_all_io_props) simp_all
  have r: "snd (reap_expired env m) = flush_evicted ?m2"
    by (simp add: reap_expired_def d)
  show "same_config m (snd (reap_expired env m))"
    using p q flush_config [of ?m2] by (simp add: r same_config_def)
  have "pending_evicted (flush_evicted ?m2) = []"
    using assms p q by (intro flush_pending) (simp add: sm_inv_def same_config_def)
  then show "sm_inv (snd (reap_expired env m))"
    using q by (simp add: r sm_inv_def flush_table flush_workers)
  show "sessions (snd (reap_expired env m)) =
      filter (\<lambda>kv. fst kv \<notin> set (expired_ids env m)) (sessions m)"
    using p q by (simp add: r)
qed

end
