(* ===== verification/Session_Machine.thy ===== *)
theory Session_Machine
  imports Session_Props
begin

text \<open>
  The session manager as one state machine: every public method is an operation, a run is a
  sequence of operations with their inputs, and the reachable states satisfy the invariant of
  \<open>Session_Props\<close>. On runs the theory shows isolation between principals, that write consent
  comes only from its owner's grant, and that neither reaping nor shutdown leaves a worker.
\<close>

subsection \<open>Shutdown\<close>

lemma evict_locked_pending_unbound:
  "\<not> evict_bound m \<Longrightarrow> pending_evicted (snd (evict_locked env sid reason m)) = pending_evicted m"
  by (auto simp: evict_locked_def detach_for_eviction_locked_def run_eviction_io_def
      split: option.splits)

lemma evict_each_props:
  "table_inv m \<Longrightarrow> workers_match [] m \<Longrightarrow> (\<not> evict_bound m \<longrightarrow> pending_evicted m = []) \<Longrightarrow>
   fst ` set (sessions m) \<subseteq> set sids \<Longrightarrow>
   workers_match [] (evict_each env sids m) \<and> sessions (evict_each env sids m) = [] \<and>
   same_config m (evict_each env sids m) \<and>
   (\<not> evict_bound m \<longrightarrow> pending_evicted (evict_each env sids m) = [])"
proof (induction env sids m rule: evict_each.induct)
  case (1 env m)
  then show ?case by (simp add: same_config_def)
next
  case (2 env sid sids m)
  show ?case
  proof (cases "dict_get (sessions m) sid")
    case None
    then have "sid \<notin> fst ` set (sessions m)" by (simp add: map_of_eq_None_iff)
    with 2 None show ?thesis by auto
  next
    case (Some s)
    let ?m = "snd (evict_locked env sid (ascii ''shutdown'') m)"
    have open_s: "state s \<noteq> EVICTED"
      using table_inv_session [OF "2.prems"(1) Some] by (simp add: session_ok_def)
    have c: "same_config m ?m" by (rule evict_locked_config)
    have "fst ` set (sessions ?m) \<subseteq> set sids"
      using "2.prems"(4) by (auto simp: evict_locked_sessions AList.delete_eq)
    moreover have "\<not> evict_bound ?m \<longrightarrow> pending_evicted ?m = []"
      using "2.prems"(3) c by (simp add: same_config_def evict_locked_pending_unbound)
    ultimately have "workers_match [] (evict_each env sids ?m) \<and>
        sessions (evict_each env sids ?m) = [] \<and> same_config ?m (evict_each env sids ?m) \<and>
        (\<not> evict_bound ?m \<longrightarrow> pending_evicted (evict_each env sids ?m) = [])"
      using 2(2) [OF Some open_s] "2.prems"(1,2)
      by (simp add: evict_locked_table evict_locked_workers)
    with c show ?thesis by (simp add: Some open_s same_config_def)
  qed
qed

lemma started_empty [simp]: "sessions m = [] \<Longrightarrow> started m = {}"
  by (simp add: started_def)

lemma table_inv_empty: "sessions m = [] \<Longrightarrow> table_inv m"
  by (simp add: table_inv_def owned_count_def dict_count_def dict_ok_def)

lemma shutdown_props:
  assumes "sm_inv m"
  shows "sm_inv (shutdown env m)" and "sessions (shutdown env m) = []"
    and "live_workers (effects (shutdown env m)) = {}"
proof -
  let ?m = "evict_each env (dict_keys (sessions m)) m"
  have p: "workers_match [] ?m \<and> sessions ?m = [] \<and> same_config m ?m \<and>
      (\<not> evict_bound m \<longrightarrow> pending_evicted ?m = [])"
    using assms by (intro evict_each_props) (simp_all add: sm_inv_def)
  have eq: "?m\<lparr>sessions := []\<rparr> = ?m" using p by simp
  show s: "sessions (shutdown env m) = []" by (simp add: shutdown_def)
  have w: "workers_match [] (shutdown env m)"
    unfolding shutdown_def eq using p by (simp add: flush_workers)
  show "live_workers (effects (shutdown env m)) = {}"
    using w s by (simp add: workers_match_def doomed_def)
  have "pending_evicted (shutdown env m) = []"
    unfolding shutdown_def eq using p by (intro flush_pending) (simp add: same_config_def)
  with w s show "sm_inv (shutdown env m)" by (simp add: sm_inv_def table_inv_empty)
qed

subsection \<open>Operations and runs\<close>

datatype sm_op =
    BindEvict
  | Create pystr
  | BeginCall pystr "pystr option"
  | EndCall pystr "pystr option"
  | Authorize pystr pystr
  | EnableWrites bool pystr pystr
  | DisableWrites pystr pystr
  | RequireWriteConsent bool pystr pystr
  | RequireWorkerStarted pystr pystr
  | RecordBinaryHash pystr "int option" "pystr option" pystr pystr
  | GetBinaryName pystr pystr
  | RecordAnalysisProfile analysis_profile pystr pystr
  | RecordCommentTarget pystr pystr bool pystr pystr
  | RecordCompositeTarget pystr pystr pystr
  | IsCompositeTarget pystr pystr pystr
  | ForgetCompositeTarget pystr pystr pystr
  | ExportTargets pystr pystr
  | EnsureWorker pystr pystr
  | CloseSession pystr pystr pystr
  | EvictInternal pystr pystr
  | ReapExpired
  | Shutdown

fun sm_exec :: "sm_env \<Rightarrow> sm_op \<Rightarrow> SessionManager \<Rightarrow> SessionManager" where
  "sm_exec env BindEvict m = snd (set_evict_callback m)"
| "sm_exec env (Create own) m = snd (create env own m)"
| "sm_exec env (BeginCall sid c) m = begin_call env sid c m"
| "sm_exec env (EndCall sid c) m = end_call env sid c m"
| "sm_exec env (Authorize sid c) m = snd (authorize env sid c m)"
| "sm_exec env (EnableWrites b sid c) m = snd (enable_writes b env sid c m)"
| "sm_exec env (DisableWrites sid c) m = snd (disable_writes env sid c m)"
| "sm_exec env (RequireWriteConsent b sid c) m = snd (require_write_consent b env sid c m)"
| "sm_exec env (RequireWorkerStarted sid c) m = snd (require_worker_started env sid c m)"
| "sm_exec env (RecordBinaryHash h sz nm sid c) m = snd (record_binary_hash h sz nm env sid c m)"
| "sm_exec env (GetBinaryName sid c) m = snd (get_binary_name env sid c m)"
| "sm_exec env (RecordAnalysisProfile p sid c) m = snd (record_analysis_profile p env sid c m)"
| "sm_exec env (RecordCommentTarget a t cl sid c) m = snd (record_comment_target a t cl env sid c m)"
| "sm_exec env (RecordCompositeTarget nm sid c) m = snd (record_composite_target nm env sid c m)"
| "sm_exec env (IsCompositeTarget nm sid c) m = snd (is_composite_target nm env sid c m)"
| "sm_exec env (ForgetCompositeTarget nm sid c) m = snd (forget_composite_target nm env sid c m)"
| "sm_exec env (ExportTargets sid c) m = snd (export_targets env sid c m)"
| "sm_exec env (EnsureWorker sid c) m = snd (ensure_worker env sid c m)"
| "sm_exec env (CloseSession reason sid c) m = snd (evict env sid reason (Some c) m)"
| "sm_exec env (EvictInternal reason sid) m = snd (evict env sid reason None m)"
| "sm_exec env ReapExpired m = snd (reap_expired env m)"
| "sm_exec env Shutdown m = shutdown env m"

text \<open>
  The principal an operation acts for; \<open>None\<close> is the server itself (composition root, reaper,
  shutdown). A creation draws an id that is not in the table: the 32 random bytes of
  \<open>secrets.token_urlsafe\<close> never repeat a live id.
\<close>

fun acts_for :: "sm_op \<Rightarrow> pystr option" where
  "acts_for (Create c) = Some c"
| "acts_for (BeginCall _ c) = c"
| "acts_for (EndCall _ c) = c"
| "acts_for (Authorize _ c) = Some c"
| "acts_for (EnableWrites _ _ c) = Some c"
| "acts_for (DisableWrites _ c) = Some c"
| "acts_for (RequireWriteConsent _ _ c) = Some c"
| "acts_for (RequireWorkerStarted _ c) = Some c"
| "acts_for (RecordBinaryHash _ _ _ _ c) = Some c"
| "acts_for (GetBinaryName _ c) = Some c"
| "acts_for (RecordAnalysisProfile _ _ c) = Some c"
| "acts_for (RecordCommentTarget _ _ _ _ c) = Some c"
| "acts_for (RecordCompositeTarget _ _ c) = Some c"
| "acts_for (IsCompositeTarget _ _ c) = Some c"
| "acts_for (ForgetCompositeTarget _ _ c) = Some c"
| "acts_for (ExportTargets _ c) = Some c"
| "acts_for (EnsureWorker _ c) = Some c"
| "acts_for (CloseSession _ _ c) = Some c"
| "acts_for _ = None"

definition fresh_ok :: "sm_env \<Rightarrow> sm_op \<Rightarrow> SessionManager \<Rightarrow> bool" where
  "fresh_ok env op m =
     (case op of Create _ \<Rightarrow> dict_get (sessions m) (fresh_id env) = None | _ \<Rightarrow> True)"

type_synonym sm_trace = "(sm_env \<times> sm_op) list"

inductive sm_run :: "SessionManager \<Rightarrow> sm_trace \<Rightarrow> SessionManager \<Rightarrow> bool" for m0 where
  sm_start: "sm_run m0 [] m0"
| sm_step: "sm_run m0 evs m \<Longrightarrow> fresh_ok env op m \<Longrightarrow>
    sm_run m0 (evs @ [(env, op)]) (sm_exec env op m)"

inductive_cases sm_run_nilE: "sm_run m0 [] m"
inductive_cases sm_run_snocE: "sm_run m0 (evs @ [e]) m"

lemma sm_inv_new_manager: "sm_inv (new_manager port rt ttl idle n no ev)"
  by (simp add: sm_inv_def table_inv_empty new_manager_def workers_match_def doomed_def live_workers_def)

lemma sm_inv_bind: "sm_inv m \<Longrightarrow> sm_inv (snd (set_evict_callback m))"
  by (auto simp: sm_inv_def set_evict_callback_def table_inv_def session_ok_def store_path_for_def
      owned_count_def workers_match_def started_def)

lemma sm_inv_evict_internal: "sm_inv m \<Longrightarrow> sm_inv (snd (evict env sid reason None m))"
  using sm_inv_evict_flush [of m env sid reason] by (simp add: evict_def case_prod_beta)

lemmas scoped_inv =
  authorize.keeps_inv enable_writes.keeps_inv disable_writes.keeps_inv
  require_write_consent.keeps_inv require_worker_started.keeps_inv record_binary_hash.keeps_inv
  get_binary_name.keeps_inv record_analysis_profile.keeps_inv record_comment_target.keeps_inv
  record_composite_target.keeps_inv is_composite_target.keeps_inv
  forget_composite_target.keeps_inv export_targets.keeps_inv ensure_worker.keeps_inv
  close.keeps_inv

lemma sm_exec_inv:
  assumes "sm_inv m" and "fresh_ok env op m"
  shows "sm_inv (sm_exec env op m)"
proof (cases op)
  case (Create own)
  then show ?thesis using assms by (simp add: fresh_ok_def sm_inv_create)
qed (use assms(1) in \<open>simp_all add: scoped_inv sm_inv_bind sm_inv_begin_call sm_inv_end_call
      sm_inv_evict_internal reap_expired_props shutdown_props\<close>)

lemma sm_run_inv: "sm_run m0 evs m \<Longrightarrow> sm_inv m0 \<Longrightarrow> sm_inv m"
  by (induction rule: sm_run.induct) (simp_all add: sm_exec_inv)

subsection \<open>The configuration is fixed\<close>

definition caps :: "SessionManager \<Rightarrow> int \<times> int option" where
  "caps m = (cfg_max_sessions m, cfg_max_sessions_per_owner m)"

lemma caps_config: "same_config m m' \<Longrightarrow> caps m' = caps m"
  by (simp add: same_config_def caps_def)

lemma caps_evict [simp]: "caps (snd (evict_locked env sid reason m)) = caps m"
  by (rule caps_config [OF evict_locked_config])

lemma caps_flush [simp]: "caps (flush_evicted m) = caps m"
  by (rule caps_config [OF flush_config])

lemma caps_upd [simp]:
  "caps (m\<lparr>sessions := d\<rparr>) = caps m" "caps (m\<lparr>effects := es\<rparr>) = caps m"
  by (simp_all add: caps_def)

lemma caps_get_live [simp]: "caps (snd (get_live_locked env sid c m)) = caps m"
  by (auto simp: get_live_locked_def Let_def split: option.splits)

lemma caps_with_live [simp]: "caps (snd (with_live body env sid c m)) = caps m"
  using caps_get_live [of env sid c m]
  by (auto simp: with_live_def case_prod_beta simp del: caps_get_live split: sum.splits)

lemma caps_ensure [simp]: "caps (snd (ensure_worker env sid c m)) = caps m"
  using caps_get_live [of env sid c m]
  by (auto simp: ensure_worker_def case_prod_beta simp del: caps_get_live split: sum.splits option.splits)

lemma caps_evict_op [simp]: "caps (snd (evict env sid reason c m)) = caps m"
  using caps_get_live [of env sid "the c" m]
  by (auto simp: evict_def case_prod_beta simp del: caps_get_live split: sum.splits option.splits)

lemma caps_create [simp]: "caps (snd (create env own m)) = caps m"
  by (cases "create_admits m own") (simp_all add: create_admitted create_denied)

lemmas scoped_defs =
  authorize_def enable_writes_def disable_writes_def require_write_consent_def
  require_worker_started_def record_binary_hash_def get_binary_name_def record_analysis_profile_def
  record_comment_target_def record_composite_target_def is_composite_target_def
  forget_composite_target_def export_targets_def

lemma caps_evict_each [simp]: "caps (evict_each env sids m) = caps m"
  by (induction env sids m rule: evict_each.induct) (auto split: option.splits)

lemma caps_exec:
  assumes "sm_inv m"
  shows "caps (sm_exec env op m) = caps m"
proof (cases op)
  case BindEvict
  then show ?thesis by (simp add: set_evict_callback_def caps_def)
next
  case (BeginCall sid c)
  then show ?thesis by (simp add: begin_call_def split: option.splits)
next
  case (EndCall sid c)
  then show ?thesis by (simp add: end_call_def split: option.splits)
next
  case ReapExpired
  then show ?thesis using reap_expired_props(3) [OF assms] by (simp add: caps_config)
next
  case Shutdown
  then show ?thesis by (simp add: shutdown_def)
qed (simp_all add: scoped_defs)

lemma sm_run_caps: "sm_run m0 evs m \<Longrightarrow> sm_inv m0 \<Longrightarrow> caps m = caps m0"
  by (induction rule: sm_run.induct) (simp_all add: caps_exec sm_run_inv)


text \<open>A concrete history, for the instances: one principal opens a session and starts its worker.\<close>

definition demo_env :: sm_env where
  "demo_env = \<lparr> now = 10, wall = 1000, fresh_id = ascii ''s1'', start_raises = None,
                path_exists = (\<lambda>_. False) \<rparr>"

definition demo_manager :: SessionManager where
  "demo_manager = new_manager True (Some (ascii ''/w'')) 3600 600 2 (Some 1) True"

definition demo_trace :: sm_trace where
  "demo_trace = [(demo_env, Create (ascii ''alice'')),
                 (demo_env, EnsureWorker (ascii ''s1'') (ascii ''alice''))]"

definition demo_state :: SessionManager where
  "demo_state = sm_exec demo_env (EnsureWorker (ascii ''s1'') (ascii ''alice''))
                  (sm_exec demo_env (Create (ascii ''alice'')) demo_manager)"

lemmas demo_defs = demo_env_def demo_manager_def demo_state_def new_manager_def create_def Let_def
  dict_count_def new_session_def store_path_for_def path_join_def to_info_def ensure_worker_def
  get_live_locked_def is_expired_def ttl_expired_def flush_evicted_def ascii_def

lemma demo_run: "sm_run demo_manager demo_trace demo_state"
proof -
  have "sm_run demo_manager ([] @ [(demo_env, Create (ascii ''alice''))])
      (sm_exec demo_env (Create (ascii ''alice'')) demo_manager)"
    by (rule sm_step [OF sm_start]) (simp add: fresh_ok_def demo_manager_def new_manager_def)
  from sm_step [OF this, of demo_env "EnsureWorker (ascii ''s1'') (ascii ''alice'')"]
  show ?thesis by (simp add: fresh_ok_def demo_trace_def demo_state_def)
qed

lemma demo_sessions: "sessions demo_state =
  [(ascii ''s1'', (new_session demo_env (ascii ''alice'') demo_manager)\<lparr>worker_started := True\<rparr>)]"
  by (simp add: demo_defs)


subsection \<open>Isolation between principals\<close>

lemmas scoped_victim =
  authorize.victim_untouched enable_writes.victim_untouched disable_writes.victim_untouched
  require_write_consent.victim_untouched require_worker_started.victim_untouched
  record_binary_hash.victim_untouched get_binary_name.victim_untouched
  record_analysis_profile.victim_untouched record_comment_target.victim_untouched
  record_composite_target.victim_untouched is_composite_target.victim_untouched
  forget_composite_target.victim_untouched export_targets.victim_untouched
  ensure_worker.victim_untouched close.victim_untouched

lemma exec_victim:
  assumes "dict_get (sessions m) victim = Some s" and "acts_for op = Some c" and "c \<noteq> owner s"
    and "fresh_ok env op m"
  shows "dict_get (sessions (sm_exec env op m)) victim = Some s"
proof (cases op)
  case (Create own)
  then show ?thesis using assms
    by (cases "create_admits m own")
       (auto simp: create_admitted create_denied fresh_ok_def dict_simps)
next
  case (BeginCall sid c')
  then show ?thesis using assms by (auto simp: begin_call_def dict_simps split: option.splits)
next
  case (EndCall sid c')
  then show ?thesis using assms by (auto simp: end_call_def dict_simps split: option.splits)
qed (use assms in \<open>simp_all add: scoped_victim\<close>)

text \<open>
  C2: Isolation. However many operations other principals run, on whatever session ids they
  guess, a session is left exactly as it was, field for field: not read-touched, not modified,
  not evicted.
\<close>

theorem foreign_run_isolated:
  assumes "sm_run m evs m'" and "dict_get (sessions m) victim = Some s"
    and "\<forall>(env, op) \<in> set evs. \<exists>c. acts_for op = Some c \<and> c \<noteq> owner s"
  shows "dict_get (sessions m') victim = Some s"
  using assms
proof (induction rule: sm_run.induct)
  case (sm_step evs m1 env op)
  then show ?case by (auto intro: exec_victim)
qed

theorem foreign_run_isolated_witness:
  "\<exists>m' s. sm_run demo_state [(demo_env, CloseSession (ascii ''closed'') (ascii ''s1'') (ascii ''mallory''))] m' \<and>
     dict_get (sessions m') (ascii ''s1'') = Some s \<and> owner s = ascii ''alice'' \<and> worker_started s"
proof -
  let ?op = "CloseSession (ascii ''closed'') (ascii ''s1'') (ascii ''mallory'')"
  let ?s = "(new_session demo_env (ascii ''alice'') demo_manager)\<lparr>worker_started := True\<rparr>"
  have run: "sm_run demo_state ([] @ [(demo_env, ?op)]) (sm_exec demo_env ?op demo_state)"
    by (rule sm_step [OF sm_start]) (simp add: fresh_ok_def)
  have "dict_get (sessions (sm_exec demo_env ?op demo_state)) (ascii ''s1'') = Some ?s"
    by (rule foreign_run_isolated [OF run]) (simp_all add: demo_sessions ascii_def)
  with run show ?thesis by (intro exI [of _ "sm_exec demo_env ?op demo_state"] exI [of _ ?s]) simp
qed

subsection \<open>Write consent\<close>

definition consent :: "session \<Rightarrow> pystr \<times> bool \<times> bool" where
  "consent s = (owner s, writes_enabled s, allow_structural s)"

text \<open>Sessions of the second state stem from the first with the same owner and consent.\<close>

definition keeps_consent :: "SessionManager \<Rightarrow> SessionManager \<Rightarrow> bool" where
  "keeps_consent m m' \<longleftrightarrow>
     (\<forall>sid s'. dict_get (sessions m') sid = Some s' \<longrightarrow>
        (\<exists>s. dict_get (sessions m) sid = Some s \<and> consent s' = consent s))"

lemma keeps_consent_refl: "sessions m' = sessions m \<Longrightarrow> keeps_consent m m'"
  by (simp add: keeps_consent_def)

lemma keeps_consent_trans: "keeps_consent m m1 \<Longrightarrow> keeps_consent m1 m2 \<Longrightarrow> keeps_consent m m2"
  by (fastforce simp: keeps_consent_def)

lemma keeps_consent_set:
  "dict_get (sessions m) sid = Some s \<Longrightarrow> consent s' = consent s \<Longrightarrow>
   keeps_consent m (m\<lparr>sessions := dict_set sid s' (sessions m)\<rparr>)"
  by (auto simp: keeps_consent_def dict_simps)

lemma consent_upd [simp]:
  "consent (s\<lparr>last_used_mono := t\<rparr>) = consent s" "consent (s\<lparr>worker_started := b\<rparr>) = consent s"
  "consent (s\<lparr>in_flight := n\<rparr>) = consent s"
  by (simp_all add: consent_def)

lemma keeps_consent_pop: "sessions m' = dict_pop sid (sessions m) \<Longrightarrow> keeps_consent m m'"
  by (auto simp: keeps_consent_def dict_simps split: if_splits)

lemma keeps_consent_flush: "keeps_consent m m1 \<Longrightarrow> keeps_consent m (flush_evicted m1)"
  by (simp add: keeps_consent_def)

lemma keeps_consent_get_live: "keeps_consent m (snd (get_live_locked env sid c m))"
  by (auto simp: get_live_locked_def Let_def evict_locked_sessions
      intro: keeps_consent_refl keeps_consent_set keeps_consent_pop split: option.splits)

lemma keeps_consent_with_live:
  assumes "\<And>s. consent (snd (body s)) = consent s"
  shows "keeps_consent m (snd (with_live body env sid c m))"
proof (cases "live_owned env sid c m")
  case False
  then show ?thesis
    by (simp add: with_live_denied_state keeps_consent_flush keeps_consent_get_live)
next
  case True
  then obtain s where s: "dict_get (sessions m) sid = Some s"
    and w: "with_live body env sid c m =
      (fst (body (s\<lparr>last_used_mono := now env\<rparr>)),
       flush_evicted (m\<lparr>sessions := dict_set sid (snd (body (s\<lparr>last_used_mono := now env\<rparr>))) (sessions m)\<rparr>))"
    by (rule with_live_granted)
  show ?thesis unfolding w snd_conv
    by (rule keeps_consent_flush, rule keeps_consent_set [OF s]) (simp add: assms)
qed

lemma keeps_consent_ensure: "keeps_consent m (snd (ensure_worker env sid c m))"
proof (cases "live_owned env sid c m")
  case False
  then show ?thesis
    by (simp add: ensure_worker_denied keeps_consent_flush keeps_consent_get_live)
next
  case True
  then obtain s where s: "dict_get (sessions m) sid = Some s"
    and g: "get_live_locked env sid c m = (Inr (s\<lparr>last_used_mono := now env\<rparr>),
       m\<lparr>sessions := dict_set sid (s\<lparr>last_used_mono := now env\<rparr>) (sessions m)\<rparr>)"
    by (rule get_live_granted)
  then show ?thesis
    by (auto simp: ensure_worker_def g keeps_consent_def dict_simps split: option.splits)
qed

lemma keeps_consent_evict: "keeps_consent m (snd (evict env sid reason c m))"
proof -
  have "keeps_consent m (flush_evicted (snd (evict_locked env sid reason m')))"
    if "keeps_consent m m'" for m'
    using keeps_consent_trans [OF that keeps_consent_pop [OF evict_locked_sessions]]
    by (simp add: keeps_consent_flush)
  from this [OF keeps_consent_get_live] this [OF keeps_consent_refl] show ?thesis
    by (auto simp: evict_def case_prod_beta keeps_consent_flush keeps_consent_get_live
        split: option.splits sum.splits)
qed

text \<open>The last consent decision a principal took on a session, in a trace.\<close>

fun consent_ev :: "pystr \<Rightarrow> pystr \<Rightarrow> sm_env \<times> sm_op \<Rightarrow> bool option \<Rightarrow> bool option" where
  "consent_ev sid c (env, EnableWrites b sid' c') prev =
     (if sid' = sid \<and> c' = c then Some b else prev)"
| "consent_ev sid c (env, DisableWrites sid' c') prev =
     (if sid' = sid \<and> c' = c then None else prev)"
| "consent_ev sid c (env, _) prev = prev"

definition consent_of :: "sm_trace \<Rightarrow> pystr \<Rightarrow> pystr \<Rightarrow> bool option" where
  "consent_of evs sid c = fold (consent_ev sid c) evs None"

definition consent_inv :: "sm_trace \<Rightarrow> SessionManager \<Rightarrow> bool" where
  "consent_inv evs m \<longleftrightarrow>
     (\<forall>sid s. dict_get (sessions m) sid = Some s \<and> writes_enabled s \<longrightarrow>
        (\<exists>b. consent_of evs sid (owner s) = Some b \<and> (allow_structural s \<longrightarrow> b)))"

lemma consent_inv_keeps:
  assumes "consent_inv evs m" and "keeps_consent m m'"
    and "\<And>sid s. dict_get (sessions m') sid = Some s \<Longrightarrow>
      consent_of evs' sid (owner s) = consent_of evs sid (owner s)"
  shows "consent_inv evs' m'"
  unfolding consent_inv_def
proof (intro allI impI, elim conjE)
  fix sid s' assume s': "dict_get (sessions m') sid = Some s'" "writes_enabled s'"
  with assms(2) obtain s where "dict_get (sessions m) sid = Some s" "consent s' = consent s"
    unfolding keeps_consent_def by blast
  with assms(1) s' assms(3) [OF s'(1)]
  show "\<exists>b. consent_of evs' sid (owner s') = Some b \<and> (allow_structural s' \<longrightarrow> b)"
    unfolding consent_inv_def consent_def by force
qed

lemma denied_owner_gone:
  assumes "sm_inv m" and "\<not> live_owned env sid c m"
    and "dict_get (sessions (flush_evicted (snd (get_live_locked env sid c m)))) sid = Some s"
  shows "owner s \<noteq> c"
proof
  assume own: "owner s = c"
  from keeps_consent_get_live [of m env sid c] assms(3)
  obtain s0 where s0: "dict_get (sessions m) sid = Some s0" "owner s0 = c"
    using own unfolding keeps_consent_def consent_def by fastforce
  moreover have "state s0 = OPEN"
    using assms(1) table_inv_session [OF _ s0(1)] by (simp add: sm_inv_def session_ok_def)
  ultimately have "is_expired s0 (now env)"
    using assms(2) by (simp add: live_owned_def)
  then have "snd (get_live_locked env sid c m) = snd (evict_locked env sid (ascii ''expired-on-authorize'') m)"
    using s0 \<open>state s0 = OPEN\<close> by (simp add: get_live_locked_def)
  with assms(3) show False by (simp add: evict_locked_sessions dict_simps)
qed

lemma consent_of_snoc: "consent_of (evs @ [e]) sid c = consent_ev sid c e (consent_of evs sid c)"
  by (simp add: consent_of_def)

text \<open>
  The two operations that change consent: when denied they leave nothing of the caller's under
  that id; when granted the session carries exactly the decision just taken.
\<close>

lemma consent_inv_decide:
  assumes inv: "sm_inv m" "consent_inv evs m"
    and body: "\<And>s. consent (snd (body s)) = (owner s, w, st)"
    and ev: "\<And>sid' c' p. consent_ev sid' c' e p =
      (if sid' = sid \<and> c' = c then (if w then Some b else None) else p)"
    and st: "st \<Longrightarrow> b"
  shows "consent_inv (evs @ [e]) (snd (with_live body env sid c m))"
proof (cases "live_owned env sid c m")
  case False
  let ?m = "flush_evicted (snd (get_live_locked env sid c m))"
  have "consent_inv (evs @ [e]) ?m"
    using denied_owner_gone [OF inv(1) False]
    by (intro consent_inv_keeps [OF inv(2) keeps_consent_flush [OF keeps_consent_get_live]])
       (auto simp: consent_of_snoc ev)
  with False show ?thesis by (simp add: with_live_denied_state)
next
  case True
  then obtain s where s: "dict_get (sessions m) sid = Some s" "owner s = c"
    and w: "with_live body env sid c m =
      (fst (body (s\<lparr>last_used_mono := now env\<rparr>)),
       flush_evicted (m\<lparr>sessions := dict_set sid (snd (body (s\<lparr>last_used_mono := now env\<rparr>))) (sessions m)\<rparr>))"
    by (rule with_live_granted)
  let ?s = "snd (body (s\<lparr>last_used_mono := now env\<rparr>))"
  have "owner ?s = c" "writes_enabled ?s = w" "allow_structural ?s = st"
    using body [of "s\<lparr>last_used_mono := now env\<rparr>"] s(2) by (simp_all add: consent_def)
  with inv(2) st show ?thesis
    unfolding w consent_inv_def by (auto simp: dict_simps consent_of_snoc ev split: if_splits)
qed

lemma consent_inv_frame:
  "consent_inv evs m \<Longrightarrow> keeps_consent m m' \<Longrightarrow> (\<And>sid c p. consent_ev sid c e p = p) \<Longrightarrow>
   consent_inv (evs @ [e]) m'"
  by (rule consent_inv_keeps) (simp_all add: consent_of_snoc)

lemma keeps_consent_filter:
  "dict_ok (sessions m) \<Longrightarrow> sessions m' = filter P (sessions m) \<Longrightarrow> keeps_consent m m'"
  unfolding keeps_consent_def using dict_get_in [of "sessions m'"] dict_in_get [of "sessions m"]
  by (fastforce simp: dict_ok_def dest: map_of_SomeD)

lemma consent_inv_exec:
  assumes "sm_inv m" and "consent_inv evs m"
  shows "consent_inv (evs @ [(env, op)]) (sm_exec env op m)"
proof (cases op)
  case (EnableWrites b sid c)
  then show ?thesis unfolding EnableWrites sm_exec.simps enable_writes_def
    by (intro consent_inv_decide [OF assms, where w = True and st = b and b = b])
       (simp_all add: consent_def Let_def)
next
  case (DisableWrites sid c)
  then show ?thesis unfolding DisableWrites sm_exec.simps disable_writes_def
    by (intro consent_inv_decide [OF assms, where w = False and st = False and b = False])
       (simp_all add: consent_def Let_def)
next
  case (Create own)
  show ?thesis
  proof (cases "create_admits m own")
    case True
    have "\<not> writes_enabled (new_session env own m)" by (simp add: new_session_def)
    with assms(2) Create True show ?thesis
      by (auto simp: create_admitted consent_inv_def dict_simps consent_of_snoc split: if_splits)
  qed (use assms(2) Create in \<open>simp add: create_denied consent_inv_def consent_of_snoc\<close>)
next
  case ReapExpired
  then show ?thesis using assms reap_expired_props(2) [OF assms(1), of env]
    by (intro consent_inv_frame [OF assms(2)])
       (auto intro!: keeps_consent_filter simp: sm_inv_def table_inv_ok)
next
  case Shutdown
  then show ?thesis
    using shutdown_props(2) [OF assms(1)] by (simp add: consent_inv_def)
qed (use assms(2) in \<open>auto intro!: consent_inv_frame keeps_consent_ensure keeps_consent_evict keeps_consent_with_live
      simp: scoped_defs consent_def Let_def set_evict_callback_def begin_call_def end_call_def
      intro: keeps_consent_refl keeps_consent_set split: option.splits\<close>)

lemma sm_run_consent: "sm_run m0 evs m \<Longrightarrow> sm_inv m0 \<Longrightarrow> sessions m0 = [] \<Longrightarrow> consent_inv evs m"
  by (induction rule: sm_run.induct) (simp_all add: consent_inv_exec sm_run_inv, simp add: consent_inv_def)

text \<open>
  C3: Default deny. In any run of a fresh manager, a mutation passes \<open>require_write_consent\<close> only
  if the last consent decision of that very principal on that very session was a grant, and a
  structural mutation only if that grant included structural writes.
\<close>

theorem write_consent_needs_grant:
  assumes "sm_run (new_manager port rt ttl idle max_s max_owner ev) evs m"
    and "fst (require_write_consent structural env sid c m) = Inr info"
  shows "\<exists>b. consent_of evs sid c = Some b \<and> (structural \<longrightarrow> b)"
proof -
  have inv: "consent_inv evs m"
    using sm_run_consent [OF assms(1) sm_inv_new_manager] by (simp add: new_manager_def)
  have live: "live_owned env sid c m"
    using assms(2) require_write_consent.denied [of env sid c m structural] by force
  then obtain s where s: "dict_get (sessions m) sid = Some s" "owner s = c"
    and g: "get_live_locked env sid c m = (Inr (s\<lparr>last_used_mono := now env\<rparr>),
       m\<lparr>sessions := dict_set sid (s\<lparr>last_used_mono := now env\<rparr>) (sessions m)\<rparr>)"
    by (rule get_live_granted)
  have "writes_enabled s" and "structural \<longrightarrow> allow_structural s"
    using assms(2) by (auto simp: require_write_consent_def with_live_def g make_error_def split: if_splits)
  with inv s show ?thesis unfolding consent_inv_def by blast
qed

definition demo_granted :: SessionManager where
  "demo_granted = sm_exec demo_env (EnableWrites True (ascii ''s1'') (ascii ''alice'')) demo_state"

lemma demo_granted_run:
  "sm_run demo_manager
     (demo_trace @ [(demo_env, EnableWrites True (ascii ''s1'') (ascii ''alice''))]) demo_granted"
  unfolding demo_granted_def by (rule sm_step [OF demo_run]) (simp add: fresh_ok_def)

lemma demo_granted_consent:
  "fst (require_write_consent True demo_env (ascii ''s1'') (ascii ''alice'') demo_granted) =
     Inr (to_info ((new_session demo_env (ascii ''alice'') demo_manager)
            \<lparr>worker_started := True, writes_enabled := True, allow_structural := True\<rparr>))"
  by (simp add: demo_granted_def require_write_consent_def enable_writes_def with_live_def
      get_live_locked_def demo_sessions flush_evicted_def is_expired_def ttl_expired_def Let_def
      new_session_def demo_manager_def new_manager_def demo_env_def)

theorem write_consent_needs_grant_witness:
  "\<exists>b. consent_of (demo_trace @ [(demo_env, EnableWrites True (ascii ''s1'') (ascii ''alice''))])
      (ascii ''s1'') (ascii ''alice'') = Some b \<and> (True \<longrightarrow> b)"
  by (rule write_consent_needs_grant [OF demo_granted_run [unfolded demo_manager_def] demo_granted_consent])

subsection \<open>Eviction in detail\<close>

text \<open>
  Closing a session. The caller either gets the one opaque error, or the session leaves the
  table and the effects appended are, in this order: the metric, the kill of the session's
  worker if it has one, the removal of its store, and the eviction callback; the answer tells
  whether the store is really gone.
\<close>

theorem close_session_effects:
  "case evict env sid reason (Some caller) m of
     (Inl e, m') \<Rightarrow> e = session_invalid None \<and> \<not> live_owned env sid caller m
   | (Inr wiped, m') \<Rightarrow>
       (\<exists>s. dict_get (sessions m) sid = Some s \<and> owner s = caller \<and>
          wiped = (case store_path s of None \<Rightarrow> True | Some p \<Rightarrow> \<not> path_exists env p) \<and>
          sessions m' = dict_pop sid (sessions m) \<and>
          effects m' = effects m @ [MetricEvicted reason] @
            (if worker_started s \<and> has_port m then [KillWorker sid] else []) @
            (case store_path s of None \<Rightarrow> [] | Some p \<Rightarrow> [RmTree p]) @
            (if evict_bound m then map OnEvict (pending_evicted m) @ [OnEvict sid] else []))"
proof (cases "live_owned env sid caller m")
  case False
  then show ?thesis by (simp add: close_denied)
next
  case True
  then obtain s where s: "dict_get (sessions m) sid = Some s" "owner s = caller"
    and g: "get_live_locked env sid caller m = (Inr (s\<lparr>last_used_mono := now env\<rparr>),
       m\<lparr>sessions := dict_set sid (s\<lparr>last_used_mono := now env\<rparr>) (sessions m)\<rparr>)"
    by (rule get_live_granted)
  show ?thesis
    using s by (simp add: evict_def g evict_locked_def detach_for_eviction_locked_def
        run_eviction_io_def wipe_store_def flush_evicted_def dict_simps delete_update_same)
qed

text \<open>What a reap removes, and that it removes each once.\<close>

lemma detach_all_length:
  "distinct sids \<Longrightarrow> set sids \<subseteq> fst ` set (sessions m) \<Longrightarrow>
   length (fst (detach_all env sids m)) = length sids"
proof (induction env sids m rule: detach_all.induct)
  case (2 env sid sids m)
  from "2.prems" obtain s where s: "dict_get (sessions m) sid = Some s"
    by (cases "dict_get (sessions m) sid") (auto simp: map_of_eq_None_iff)
  let ?d = "detach_for_eviction_locked sid (reap_reason env m sid) m"
  obtain w m1 where d: "?d = (Some w, m1)" using s by (simp add: detach_for_eviction_locked_def)
  have "set sids \<subseteq> fst ` set (sessions m1)"
    using detach_sessions [of sid "reap_reason env m sid" m] "2.prems" d
    by (force simp: AList.delete_eq image_iff)
  with 2(2) [OF d [symmetric]] "2.prems" d show ?case by (simp add: case_prod_beta)
qed simp


definition demo_late :: sm_env where
  "demo_late = demo_env\<lparr>now := 5000\<rparr>"


text \<open>
  Shutdown from any reachable state empties the table and leaves no worker running, whatever
  happens to the removal of the stores.
\<close>

theorem shutdown_leaves_nothing:
  assumes "sm_run (new_manager port rt ttl idle max_s max_owner ev) evs m"
  shows "sessions (shutdown env m) = [] \<and> live_workers (effects (shutdown env m)) = {} \<and>
    pending_evicted (shutdown env m) = []"
  using shutdown_props [OF sm_run_inv [OF assms sm_inv_new_manager], of env]
  by (simp add: sm_inv_def)

theorem shutdown_leaves_nothing_witness:
  "live_workers (effects demo_state) = {ascii ''s1''} \<and> live_workers (effects (shutdown demo_late demo_state)) = {}"
  using shutdown_leaves_nothing [OF demo_run [unfolded demo_manager_def], of demo_late]
  by (simp add: demo_defs live_workers_def)

end
