(* ===== verification/Streaming_Manager.thy ===== *)
theory Streaming_Manager
  imports Streaming_Props Session_Machine
begin

text \<open>
  Facts about the table of streaming jobs: what the manager relies on from the injected
  authorizer, as a locale, interpreted on the session manager's \<open>authorize\<close>; the invariant of the
  table and its slots; the one-active-job cap and the limits of that cap.
\<close>

subsection \<open>The authorizer interface\<close>

lemma authorized_job_Inr:
  "authorized_job auth sid jid jm = Inr j \<longleftrightarrow>
   auth = None \<and> dict_get (jobs jm) jid = Some j \<and> job_session_id j = sid"
  by (auto simp: authorized_job_def split: option.splits)

lemma authorized_job_Inl:
  "authorized_job auth sid jid jm = Inl e \<Longrightarrow> auth = Some e \<or> auth = None \<and> e = session_invalid None"
  by (auto simp: authorized_job_def split: option.splits if_splits)

text \<open>
  The three job-scoped operations share their mediation; \<open>job_op\<close> is any function of the outcome of
  the authorizer that goes through \<open>authorized_job\<close>.
\<close>

locale job_authorizer =
  fixes auth :: "'s \<Rightarrow> pystr \<Rightarrow> pystr \<Rightarrow> exc option"
  assumes opaque: "auth s sid c = Some e \<Longrightarrow> e = session_invalid None"
    and exclusive: "auth s sid c = None \<Longrightarrow> auth s sid c' = None \<Longrightarrow> c = c'"
begin

lemma lookup_opaque: "authorized_job (auth s sid c) sid jid jm = Inl e \<Longrightarrow> e = session_invalid None"
  by (auto dest!: authorized_job_Inl opaque)

lemma lookup_single_principal:
  assumes "authorized_job (auth s sid c) sid jid jm = Inr j"
    and "authorized_job (auth s sid' c') sid' jid jm = Inr j'"
  shows "c = c' \<and> sid = sid'"
  using assms exclusive [of s sid c c'] by (auto simp: authorized_job_Inr)

lemma fetch_denied:
  assumes "auth s sid c \<noteq> None \<or> (\<forall>j. dict_get (jobs jm) jid = Some j \<longrightarrow> job_session_id j \<noteq> sid)"
    and "1 \<le> limit" "limit \<le> MAX_FETCH_BATCH"
  shows "fetch (auth s sid c) sid jid cursor limit jm = (Inl (session_invalid None), jm)"
proof -
  obtain e where "authorized_job (auth s sid c) sid jid jm = Inl e"
    using assms(1) by (cases "authorized_job (auth s sid c) sid jid jm") (auto simp: authorized_job_Inr)
  with lookup_opaque [OF this] assms(2,3) show ?thesis by (simp add: fetch_def)
qed

lemma fetch_single_principal:
  assumes "fst (fetch (auth s sid c) sid jid cur limit jm) = Inr r"
    and "fst (fetch (auth s sid' c') sid' jid cur' limit' jm) = Inr r'"
  shows "c = c' \<and> sid = sid'"
proof -
  have "\<exists>j. authorized_job (auth s sid c) sid jid jm = Inr j"
    and "\<exists>j. authorized_job (auth s sid' c') sid' jid jm = Inr j"
    using assms by (auto simp: fetch_def make_error_def split: if_splits sum.splits)
  then show ?thesis using lookup_single_principal by blast
qed

end

text \<open>The session manager's \<open>authorize\<close>, seen through its outcome.\<close>

definition authorize_outcome :: "sm_env \<times> SessionManager \<Rightarrow> pystr \<Rightarrow> pystr \<Rightarrow> exc option" where
  "authorize_outcome s sid c =
     (case fst (authorize (fst s) sid c (snd s)) of Inl e \<Rightarrow> Some e | Inr info \<Rightarrow> None)"

lemma authorize_live: "live_owned env sid c m \<Longrightarrow> \<exists>i. fst (authorize env sid c m) = Inr i"
  unfolding authorize_def with_live_def by (erule get_live_granted) simp

lemma outcome_None: "authorize_outcome (env, m) sid c = None \<longleftrightarrow> live_owned env sid c m"
  using authorize_live [of env sid c m] authorize.denied [of env sid c m]
  by (cases "live_owned env sid c m") (auto simp: authorize_outcome_def)

interpretation session_auth: job_authorizer authorize_outcome
proof
  fix s :: "sm_env \<times> SessionManager" and sid c c' e
  obtain env m where s: "s = (env, m)" by (cases s)
  show "authorize_outcome s sid c = Some e \<Longrightarrow> e = session_invalid None"
    using authorize.denied [of env sid c m] outcome_None [of env m sid c]
    by (cases "live_owned env sid c m") (auto simp: s authorize_outcome_def)
  show "authorize_outcome s sid c = None \<Longrightarrow> authorize_outcome s sid c' = None \<Longrightarrow> c = c'"
    unfolding s outcome_None by (auto simp: live_owned_def split: option.splits)
qed

text \<open>
  C17: Nobody pulls another principal's stream. With the session manager's \<open>authorize\<close> as the
  authorizer, a fetch whose session is unknown, expired or foreign, or whose job is unknown or bound
  to another session, changes nothing and answers with the one error \<open>session_invalid\<close>; so two
  principals can never both fetch from the same job.
\<close>

theorem job_fetch_mediated:
  assumes "1 \<le> limit" "limit \<le> MAX_FETCH_BATCH"
  shows "(case fetch (authorize_outcome (env, m) sid c) sid jid cursor limit jm of
       (Inl e, jm') \<Rightarrow> live_owned env sid c m \<and> (\<exists>j. dict_get (jobs jm) jid = Some j \<and> job_session_id j = sid) \<or>
          e = session_invalid None \<and> jm' = jm
     | (Inr r, jm') \<Rightarrow> live_owned env sid c m \<and> (\<exists>j. dict_get (jobs jm) jid = Some j \<and> job_session_id j = sid) \<and>
          (\<forall>sid' c' cur' limit' r'. fst (fetch (authorize_outcome (env, m) sid' c') sid' jid cur' limit' jm) = Inr r' \<longrightarrow>
             c' = c \<and> sid' = sid))"
proof (cases "live_owned env sid c m \<and> (\<exists>j. dict_get (jobs jm) jid = Some j \<and> job_session_id j = sid)")
  case True
  obtain r jm' where f: "fetch (authorize_outcome (env, m) sid c) sid jid cursor limit jm = (r, jm')"
    by fastforce
  have "c' = c \<and> sid' = sid"
    if "r = Inr r0" "fst (fetch (authorize_outcome (env, m) sid' c') sid' jid cur' limit' jm) = Inr r'"
    for sid' c' cur' limit' r' r0
    using session_auth.fetch_single_principal [of "(env, m)" sid c jid cursor limit jm r0] that f by force
  with True f show ?thesis by (auto split: sum.splits)
next
  case False
  then have "authorize_outcome (env, m) sid c \<noteq> None \<or>
      (\<forall>j. dict_get (jobs jm) jid = Some j \<longrightarrow> job_session_id j \<noteq> sid)"
    unfolding outcome_None by blast
  from session_auth.fetch_denied [OF this assms] show ?thesis by simp
qed

definition demo_jobs :: StreamingJobManager where
  "demo_jobs = snd (start_job None (ascii ''j1'') 0 (ascii ''s1'') demo_producer None (ascii ''alice'') None
     (new_job_manager None))"

lemma demo_jobs_lookup: "dict_get (jobs demo_jobs) (ascii ''j1'') = Some demo_job"
  "job_session_id demo_job = ascii ''s1''"
  by (simp_all add: demo_jobs_def start_job_def new_job_manager_def demo_job_def [symmetric] Let_def)
     (simp add: demo_job_state new_job_def)

lemma demo_live: "live_owned demo_env (ascii ''s1'') (ascii ''alice'') demo_state"
  "\<not> live_owned demo_env (ascii ''s1'') (ascii ''mallory'') demo_state"
  by (simp_all add: live_owned_def demo_sessions new_session_def is_expired_def ttl_expired_def
      demo_env_def demo_manager_def new_manager_def ascii_def)

theorem job_fetch_mediated_witness:
  "fetch (authorize_outcome (demo_env, demo_state) (ascii ''s1'') (ascii ''mallory'')) (ascii ''s1'')
     (ascii ''j1'') None 5 demo_jobs = (Inl (session_invalid None), demo_jobs)"
  using job_fetch_mediated [where limit = 5 and env = demo_env and m = demo_state and sid = "ascii ''s1''"
      and c = "ascii ''mallory''" and jid = "ascii ''j1''" and cursor = None and jm = demo_jobs]
    demo_live(2)
  by (auto simp: MAX_FETCH_BATCH_def split: prod.splits sum.splits)

subsection \<open>The table of jobs\<close>

text \<open>
  The state of the table: jobs stand under their own id, a slot names a job of its session, and
  every job is in a state its stream can reach.
\<close>

definition job_entry_ok :: "Limits \<Rightarrow> pystr \<Rightarrow> StreamingJob \<Rightarrow> bool" where
  "job_entry_ok lims jid j \<longleftrightarrow> job_id j = jid \<and> (\<exists>p0 out. stream_run p0 lims out j)"

definition slots_ok :: "(pystr, StreamingJob) dict \<Rightarrow> (pystr, pystr) dict \<Rightarrow> bool" where
  "slots_ok js slots \<longleftrightarrow>
     (\<forall>sid jid. dict_get slots sid = Some jid \<longrightarrow>
        (\<exists>j. dict_get js jid = Some j \<and> job_session_id j = sid))"

definition jm_inv :: "StreamingJobManager \<Rightarrow> bool" where
  "jm_inv jm \<longleftrightarrow>
     dict_ok (jobs jm) \<and> dict_ok (active_by_session jm) \<and>
     (\<forall>jid j. dict_get (jobs jm) jid = Some j \<longrightarrow> job_entry_ok (jm_limits jm) jid j) \<and>
     slots_ok (jobs jm) (active_by_session jm)"

definition job_key :: "StreamingJob \<Rightarrow> pystr \<times> pystr \<times> pystr" where
  "job_key j = (job_id j, job_session_id j, job_owner j)"

lemma job_key_pump_loop: "job_key (pump_loop j) = job_key j"
proof (induction j rule: pump_loop.induct)
  case (1 j)
  then show ?case
    by (subst pump_loop.simps)
       (auto simp: job_key_def append_chunk_def Let_def split: producer.splits)
qed

lemma job_key_drain_loop: "job_key (snd (drain_loop n j)) = job_key j"
  by (induction n j rule: drain_loop.induct)
     (auto simp: job_key_def retain_for_replay_def case_prod_beta split: list.splits)

lemma job_key_simps [simp]:
  "job_key (pump j) = job_key j" "job_key (snd (drain n j)) = job_key j"
  "job_key (job_cancel j) = job_key j"
  using job_key_pump_loop job_key_drain_loop [of "nat n" j]
  by (auto simp: pump_def drain_def job_cancel_def case_prod_beta job_key_def)

lemma job_key_fetch: "job_key (snd (job_fetch cursor limit j)) = job_key j"
proof (cases "forward_fetch cursor j")
  case True
  obtain cs j1 where d: "drain limit j = (cs, j1)" by fastforce
  then have "job_key j1 = job_key j" using job_key_simps(2) [of limit j] by simp
  with True show ?thesis by (simp add: forward_job_fetch job_fetch_None [OF d] Let_def)
qed (simp add: backward_job_fetch)

lemma slots_ok_put:
  "slots_ok js slots \<Longrightarrow> dict_get js jid = Some j \<Longrightarrow> job_session_id j' = job_session_id j \<Longrightarrow>
   slots_ok (dict_set jid j' js) slots"
  unfolding slots_ok_def dict_get_set by force

lemma slots_ok_pop: "slots_ok js slots \<Longrightarrow> slots_ok js (dict_pop sid slots)"
  by (simp add: slots_ok_def dict_simps)

lemma slots_ok_insert:
  "slots_ok js slots \<Longrightarrow> dict_get js jid = None \<Longrightarrow>
   slots_ok (dict_set jid j js) (dict_set (job_session_id j) jid slots)"
  unfolding slots_ok_def dict_get_set
  by (intro allI impI) (metis option.discI option.inject)

lemma slots_ok_pop_both:
  assumes ok: "slots_ok js slots" and s: "dict_get slots sid = Some jid"
  shows "slots_ok (dict_pop jid js) (dict_pop sid slots)"
  unfolding slots_ok_def
proof (intro allI impI)
  fix sid' jid' assume "dict_get (dict_pop sid slots) sid' = Some jid'"
  then have s': "sid' \<noteq> sid" "dict_get slots sid' = Some jid'" by (simp_all add: dict_simps split: if_splits)
  then obtain j' where j': "dict_get js jid' = Some j'" "job_session_id j' = sid'"
    using ok unfolding slots_ok_def by blast
  have "jid' \<noteq> jid" using ok s s' j' unfolding slots_ok_def by fastforce
  with j' show "\<exists>j. dict_get (dict_pop jid js) jid' = Some j \<and> job_session_id j = sid'"
    by (simp add: dict_simps)
qed

lemma slots_ok_discard:
  assumes ok: "slots_ok js slots" and "dict_ok js"
  shows "slots_ok (filter (\<lambda>(jid, j). job_session_id j \<noteq> sid) js) (dict_pop sid slots)"
  unfolding slots_ok_def
proof (intro allI impI)
  fix sid' jid' assume "dict_get (dict_pop sid slots) sid' = Some jid'"
  then have s': "sid' \<noteq> sid" "dict_get slots sid' = Some jid'" by (simp_all add: dict_simps split: if_splits)
  then obtain j' where "dict_get js jid' = Some j'" "job_session_id j' = sid'"
    using ok unfolding slots_ok_def by blast
  with s' assms(2) show "\<exists>j. dict_get (filter (\<lambda>(jid, j). job_session_id j \<noteq> sid) js) jid' = Some j \<and>
      job_session_id j = sid'" by (simp add: dict_get_filter)
qed

lemma jm_inv_put:
  assumes inv: "jm_inv jm" and j: "dict_get (jobs jm) jid = Some j" and k: "job_key j' = job_key j"
    and run: "\<And>p0 out. stream_run p0 (jm_limits jm) out j \<Longrightarrow> \<exists>out'. stream_run p0 (jm_limits jm) out' j'"
  shows "jm_inv (put_job jid j' jm)"
proof -
  have "job_entry_ok (jm_limits jm) jid j" using inv j by (simp add: jm_inv_def)
  then have "job_entry_ok (jm_limits jm) jid j'"
    using k run unfolding job_entry_ok_def job_key_def by (simp, blast)
  with inv slots_ok_put [OF _ j, of _ j'] k show ?thesis
    by (simp add: jm_inv_def put_job_def dict_simps job_key_def)
qed

lemma jm_inv_pop_slot: "jm_inv jm \<Longrightarrow> jm_inv (jm\<lparr>active_by_session := dict_pop sid (active_by_session jm)\<rparr>)"
  by (simp add: jm_inv_def slots_ok_pop)

lemma jm_inv_fetch: "jm_inv jm \<Longrightarrow> jm_inv (snd (fetch auth sid jid cursor limit jm))"
proof -
  assume inv: "jm_inv jm"
  have "jm_inv (put_job jid (snd (job_fetch cursor limit j)) jm)"
    if "authorized_job auth sid jid jm = Inr j" for j
    using that by (intro jm_inv_put [OF inv]) (auto simp: authorized_job_Inr job_key_fetch
        intro: run_fetch [OF _ prod.collapse [symmetric]])
  with inv show ?thesis by (auto simp: fetch_def case_prod_beta split: sum.splits)
qed

lemma jm_inv_cancel: "jm_inv jm \<Longrightarrow> jm_inv (snd (cancel auth t sid jid jm))"
proof -
  assume inv: "jm_inv jm"
  have "jm_inv (put_job jid (job_cancel j) (jm\<lparr>active_by_session := dict_pop sid (active_by_session jm)\<rparr>))"
    if "authorized_job auth sid jid jm = Inr j" for j
    using that by (intro jm_inv_put [OF jm_inv_pop_slot [OF inv]]) (auto simp: authorized_job_Inr intro: run_cancel)
  with inv show ?thesis by (auto simp: cancel_def split: sum.splits)
qed

lemma jm_inv_discard: "jm_inv jm \<Longrightarrow> jm_inv (snd (discard_session sid jm))"
  by (auto simp: jm_inv_def discard_session_def slots_ok_discard dict_get_filter split: option.splits if_splits)

lemma jm_inv_reap:
  assumes inv: "jm_inv jm" and "reap_cancelled auth sid jid jm = Some (r, jm')"
    and ended: "\<And>j. dict_get (jobs jm) jid = Some j \<Longrightarrow> is_terminal j"
  shows "jm_inv jm'"
proof (cases "authorized_job auth sid jid jm")
  case (Inr j)
  with assms(2) obtain j' where d: "drain_producer j = Some j'" and jm': "jm' = put_job jid j' jm"
    by (auto simp: reap_cancelled_def split: option.splits)
  have "job_key j' = job_key j" using d by (auto simp: drain_producer_def job_key_def split: option.splits)
  then show ?thesis unfolding jm' using Inr ended d
    by (intro jm_inv_put [OF inv]) (auto simp: authorized_job_Inr intro: run_reap)
qed (use assms in \<open>auto simp: reap_cancelled_def\<close>)

text \<open>The new job of \<open>start_job\<close>, and the table it is installed in.\<close>

abbreviation fresh_job ::
  "pystr \<Rightarrow> real \<Rightarrow> pystr \<Rightarrow> producer \<Rightarrow> int option \<Rightarrow> pystr \<Rightarrow> StreamTerminal option \<Rightarrow> Limits \<Rightarrow> StreamingJob" where
  "fresh_job jid t sid p tot c term lims \<equiv> pump (new_job jid sid c p tot lims t term)"

lemma fresh_job_key: "job_key (fresh_job jid t sid p tot c term lims) = (jid, sid, c)"
  unfolding job_key_simps by (simp add: job_key_def new_job_def)

lemma jm_inv_install:
  assumes "jm_inv jm" and "dict_get (jobs jm) jid = None"
  shows "jm_inv (jm\<lparr>jobs := dict_set jid (fresh_job jid t sid p tot c term (jm_limits jm)) (jobs jm),
                    active_by_session := dict_set sid jid (active_by_session jm)\<rparr>)"
proof -
  let ?j = "fresh_job jid t sid p tot c term (jm_limits jm)"
  have k: "job_id ?j = jid" "job_session_id ?j = sid"
    using fresh_job_key [where jid = jid and sid = sid] unfolding job_key_def by blast+
  have "job_entry_ok (jm_limits jm) jid ?j"
    unfolding job_entry_ok_def using k(1) run_start by blast
  moreover have "slots_ok (dict_set jid ?j (jobs jm)) (dict_set sid jid (active_by_session jm))"
    using slots_ok_insert [of "jobs jm" "active_by_session jm" jid ?j] assms by (simp add: jm_inv_def k)
  ultimately show ?thesis using assms by (simp add: jm_inv_def dict_simps)
qed

lemma jm_inv_start:
  assumes inv: "jm_inv jm" and fresh: "dict_get (jobs jm) jid = None"
  shows "jm_inv (snd (start_job auth jid t sid p tot c term jm))"
proof -
  have "jm_inv (jm\<lparr>jobs := dict_pop ex (jobs jm), active_by_session := dict_pop sid (active_by_session jm)\<rparr>)"
    if "dict_get (active_by_session jm) sid = Some ex" for ex
    using inv that by (auto simp: jm_inv_def slots_ok_pop_both dict_simps split: if_splits)
  from jm_inv_install [OF this] jm_inv_install [OF inv fresh] inv fresh show ?thesis
    by (auto simp: start_job_def Let_def dict_simps split: option.splits)
qed

subsection \<open>Runs of the manager and the one-active-job cap\<close>

text \<open>
  The operations as steps, with whatever outcome the authorizer gives. \<open>strict\<close> restricts the
  cancels to the job in the session's slot (or a session without one); a drawn job id is fresh, and
  the adapter drains a producer only after its job has ended.
\<close>

inductive jm_reach :: "bool \<Rightarrow> Limits option \<Rightarrow> StreamingJobManager \<Rightarrow> bool" for strict lims where
  jm_start: "jm_reach strict lims (new_job_manager lims)"
| jm_start_job: "jm_reach strict lims jm \<Longrightarrow> dict_get (jobs jm) jid = None \<Longrightarrow>
    jm_reach strict lims (snd (start_job auth jid t sid p tot c term jm))"
| jm_fetch: "jm_reach strict lims jm \<Longrightarrow> jm_reach strict lims (snd (fetch auth sid jid cursor limit jm))"
| jm_cancel: "jm_reach strict lims jm \<Longrightarrow>
    (strict \<longrightarrow> dict_get (active_by_session jm) sid \<in> {None, Some jid}) \<Longrightarrow>
    jm_reach strict lims (snd (cancel auth t sid jid jm))"
| jm_reap: "jm_reach strict lims jm \<Longrightarrow> (\<forall>j. dict_get (jobs jm) jid = Some j \<longrightarrow> is_terminal j) \<Longrightarrow>
    reap_cancelled auth sid jid jm = Some (r, jm') \<Longrightarrow> jm_reach strict lims jm'"
| jm_discard: "jm_reach strict lims jm \<Longrightarrow> jm_reach strict lims (snd (discard_session sid jm))"

lemma jm_inv_new: "jm_inv (new_job_manager lims)"
  by (simp add: jm_inv_def new_job_manager_def slots_ok_def)

lemma jm_reach_inv: "jm_reach strict lims jm \<Longrightarrow> jm_inv jm"
  by (induction rule: jm_reach.induct)
     (auto intro: jm_inv_new jm_inv_start jm_inv_fetch jm_inv_cancel jm_inv_reap jm_inv_discard)

text \<open>Every unfinished job sits in its session's slot.\<close>

definition cap_ok :: "StreamingJobManager \<Rightarrow> bool" where
  "cap_ok jm \<longleftrightarrow>
     (\<forall>jid j. dict_get (jobs jm) jid = Some j \<and> \<not> is_terminal j \<longrightarrow>
        dict_get (active_by_session jm) (job_session_id j) = Some jid)"

lemma cap_ok_put:
  "cap_ok jm \<Longrightarrow> dict_get (jobs jm) jid = Some j \<Longrightarrow> job_session_id j' = job_session_id j \<Longrightarrow>
   (is_terminal j \<Longrightarrow> is_terminal j') \<Longrightarrow> cap_ok (put_job jid j' jm)"
  unfolding cap_ok_def put_job_def by (auto simp: dict_simps)

lemma job_cancel_terminal: "is_terminal (job_cancel j)"
  using effective_terminal [of j] by (auto simp: job_cancel_def terminal_iff)

lemma job_fetch_terminal: "is_terminal j \<Longrightarrow> is_terminal (snd (job_fetch cursor limit j))"
proof -
  assume t: "is_terminal j"
  have "job_state (snd (drain_loop n j)) = job_state j" for n
    by (induction n j rule: drain_loop.induct) (auto simp: case_prod_beta split: list.splits)
  then have "is_terminal (snd (drain limit j))"
    using t by (auto simp: drain_def case_prod_beta terminal_iff)
  then show ?thesis
    using t by (auto simp: job_fetch_def Let_def case_prod_beta pump_def split: option.splits sum.splits)
qed

lemma cap_ok_start:
  assumes "jm_inv jm" and cap: "cap_ok jm" and fresh: "dict_get (jobs jm) jid = None"
  shows "cap_ok (snd (start_job auth jid t sid p tot c term jm))"
proof -
  let ?j = "fresh_job jid t sid p tot c term (jm_limits jm)"
  have sess: "job_session_id ?j = sid" using fresh_job_key [where sid = sid] unfolding job_key_def by blast
  have none: "is_terminal j" if "dict_get (active_by_session jm) sid = None"
    "dict_get (jobs jm) jid' = Some j" "job_session_id j = sid" for jid' j
    using cap that unfolding cap_ok_def by force
  have gone: "is_terminal j" if "dict_get (active_by_session jm) sid = Some ex" "jid' \<noteq> ex"
    "dict_get (jobs jm) jid' = Some j" "job_session_id j = sid" for jid' j ex
    using cap that unfolding cap_ok_def by force
  show ?thesis
  proof (cases "dict_get (active_by_session jm) sid")
    case None
    then show ?thesis
      using cap none sess
      by (auto simp: start_job_def Let_def cap_ok_def dict_simps split: option.splits if_splits)
  next
    case (Some ex)
    then show ?thesis
      using cap gone sess
      by (auto simp: start_job_def Let_def cap_ok_def dict_simps split: option.splits if_splits)
  qed
qed

lemma cap_ok_cancel:
  assumes "cap_ok jm" and "dict_get (active_by_session jm) sid \<in> {None, Some jid}"
  shows "cap_ok (snd (cancel auth t sid jid jm))"
proof (cases "authorized_job auth sid jid jm")
  case (Inr j)
  then have j: "dict_get (jobs jm) jid = Some j" "job_session_id j = sid"
    by (simp_all add: authorized_job_Inr)
  have "job_session_id j' \<noteq> sid" if "dict_get (jobs jm) jid' = Some j'" "jid' \<noteq> jid" "\<not> is_terminal j'" for jid' j'
    using assms that unfolding cap_ok_def by force
  with assms(1) Inr j job_cancel_terminal [of j] show ?thesis
    by (auto simp: cancel_def put_job_def cap_ok_def dict_simps split: if_splits)
qed (use assms in \<open>simp add: cancel_def\<close>)

lemma job_key_session: "job_key j' = job_key j \<Longrightarrow> job_session_id j' = job_session_id j"
  by (simp add: job_key_def)

lemma jm_reach_cap: "jm_reach True lims jm \<Longrightarrow> cap_ok jm"
proof (induction rule: jm_reach.induct)
  case jm_start
  then show ?case by (simp add: cap_ok_def new_job_manager_def)
next
  case (jm_start_job jm jid auth t sid p tot c "term")
  then show ?case by (simp add: cap_ok_start jm_reach_inv)
next
  case (jm_fetch jm auth sid jid cursor limit)
  have "cap_ok (put_job jid (snd (job_fetch cursor limit j)) jm)"
    if "authorized_job auth sid jid jm = Inr j" for j
    using that by (intro cap_ok_put [OF jm_fetch.IH, of _ j])
      (auto simp: authorized_job_Inr job_fetch_terminal intro!: job_key_session job_key_fetch)
  with jm_fetch.IH show ?case by (auto simp: fetch_def case_prod_beta split: sum.splits)
next
  case (jm_cancel jm sid jid auth t)
  then show ?case by (intro cap_ok_cancel) auto
next
  case (jm_reap jm jid auth sid r jm')
  have "cap_ok (put_job jid j' jm)"
    if "authorized_job auth sid jid jm = Inr j" "drain_producer j = Some j'" for j j'
    using that by (intro cap_ok_put [OF jm_reap.IH, of _ j])
      (auto simp: authorized_job_Inr drain_producer_def is_terminal_def split: option.splits)
  with jm_reap show ?case by (auto simp: reap_cancelled_def split: sum.splits option.splits)
next
  case (jm_discard jm sid)
  have "dict_ok (jobs jm)" using jm_reach_inv [OF jm_discard.hyps] by (simp add: jm_inv_def)
  with jm_discard.IH show ?case
    by (auto simp: discard_session_def cap_ok_def dict_simps dict_get_filter split: option.splits if_splits)
qed

text \<open>
  One active stream per session. As long as clients cancel only the job that currently holds
  their session's slot, two unfinished jobs of one session are the same job, whatever else happens.
\<close>

theorem one_active_job_per_session:
  assumes "jm_reach True lims jm"
    and "dict_get (jobs jm) jid = Some j" "\<not> is_terminal j"
    and "dict_get (jobs jm) jid' = Some j'" "\<not> is_terminal j'"
    and "job_session_id j = job_session_id j'"
  shows "jid = jid'"
  using jm_reach_cap [OF assms(1)] assms(2-) unfolding cap_ok_def by (metis option.inject)

text \<open>An unfinished job for the instances: a buffer of one chunk is full after the first function.\<close>

definition small_limits :: Limits where
  "small_limits = default_limits\<lparr>max_stream_buffer_chunks := 1\<rparr>"

definition paused_job :: "pystr \<Rightarrow> StreamingJob" where
  "paused_job jid = fresh_job jid 0 (ascii ''s1'') demo_producer None (ascii ''alice'') None small_limits"

abbreviation demo_start :: "string \<Rightarrow> StreamingJobManager \<Rightarrow> StreamingJobManager" where
  "demo_start jid jm \<equiv>
     snd (start_job None (ascii jid) 0 (ascii ''s1'') demo_producer None (ascii ''alice'') None jm)"

lemma paused_job_state: "job_state (paused_job jid) = PAUSED" "job_session_id (paused_job jid) = ascii ''s1''"
  using demo_size [of 0 "CHR ''1''" "CHR ''0''"]
  by (simp_all add: paused_job_def demo_producer_def demo_chunk_def new_job_def pump_loop.simps
      demo_job_simps small_limits_def)

lemma paused_job_live: "\<not> is_terminal (paused_job jid)"
  by (simp add: terminal_iff paused_job_state)

lemma demo_started: "demo_start ''j1'' (new_job_manager (Some small_limits)) =
  \<lparr> jm_limits = small_limits, jobs = [(ascii ''j1'', paused_job (ascii ''j1''))],
    active_by_session = [(ascii ''s1'', ascii ''j1'')] \<rparr>"
  by (simp add: start_job_def new_job_manager_def paused_job_def)

theorem one_active_job_per_session_witness:
  "\<exists>j. dict_get (jobs (demo_start ''j1'' (new_job_manager (Some small_limits)))) (ascii ''j1'') = Some j \<and>
     \<not> is_terminal j \<and> ascii ''j1'' = ascii ''j1''"
proof -
  have "jm_reach True (Some small_limits) (demo_start ''j1'' (new_job_manager (Some small_limits)))"
    by (rule jm_start_job [OF jm_start]) (simp add: new_job_manager_def)
  from one_active_job_per_session [OF this, of "ascii ''j1''" "paused_job (ascii ''j1'')" "ascii ''j1''"]
  show ?thesis by (simp add: demo_started paused_job_live)
qed

subsection \<open>Where the cap stops holding\<close>

text \<open>
  \<open>cancel\<close> clears the slot of the session whichever job it is given, and a cancelled job stays in the
  table: cancelling an already cancelled job a second time frees the slot of its running successor.
\<close>

abbreviation demo_cancel :: "string \<Rightarrow> StreamingJobManager \<Rightarrow> StreamingJobManager" where
  "demo_cancel jid jm \<equiv> snd (cancel None 0 (ascii ''s1'') (ascii jid) jm)"

definition stale_cancel_run :: StreamingJobManager where
  "stale_cancel_run =
     demo_start ''j3'' (demo_cancel ''j1'' (demo_start ''j2'' (demo_cancel ''j1''
       (demo_start ''j1'' (new_job_manager (Some small_limits))))))"

lemma paused_job_fold:
  "fresh_job jid 0 (ascii ''s1'') demo_producer None (ascii ''alice'') None small_limits = paused_job jid"
  by (simp add: paused_job_def)

lemma cancel_cancel: "job_cancel (job_cancel j) = job_cancel j"
  by (simp add: job_cancel_def effective_done_def effective_state_def TERMINAL_STATES_def)

lemma cancelled_session [simp]: "job_session_id (job_cancel j) = job_session_id j"
  by (simp add: job_cancel_def)

lemma stale_cancel_jobs: "jobs stale_cancel_run =
  [(ascii ''j1'', job_cancel (paused_job (ascii ''j1''))), (ascii ''j2'', paused_job (ascii ''j2'')),
   (ascii ''j3'', paused_job (ascii ''j3''))]"
  by (simp add: stale_cancel_run_def start_job_def cancel_def authorized_job_def new_job_manager_def
      put_job_def paused_job_fold paused_job_state cancel_cancel)

text \<open>
  The cap is not enforced. A client that starts a stream, cancels it, starts a second one, and
  cancels the first again, can start a third stream on the same session while the second is still
  running: two unfinished jobs share one session (and one worker connection).
\<close>

theorem stale_cancel_breaks_cap:
  "jm_reach False (Some small_limits) stale_cancel_run \<and>
   (\<exists>j j'. dict_get (jobs stale_cancel_run) (ascii ''j2'') = Some j \<and> \<not> is_terminal j \<and>
      dict_get (jobs stale_cancel_run) (ascii ''j3'') = Some j' \<and> \<not> is_terminal j' \<and>
      job_session_id j = job_session_id j')"
proof
  let ?m0 = "new_job_manager (Some small_limits)"
  have "jm_reach False (Some small_limits) (demo_start ''j1'' ?m0)"
    by (rule jm_start_job [OF jm_start]) (simp add: new_job_manager_def)
  then have "jm_reach False (Some small_limits) (demo_cancel ''j1'' (demo_start ''j1'' ?m0))"
    by (rule jm_cancel) simp
  then have "jm_reach False (Some small_limits) (demo_start ''j2'' (demo_cancel ''j1'' (demo_start ''j1'' ?m0)))"
    by (rule jm_start_job)
       (simp add: demo_started cancel_def authorized_job_def put_job_def paused_job_state, (simp add: ascii_def)?)
  then have "jm_reach False (Some small_limits)
      (demo_cancel ''j1'' (demo_start ''j2'' (demo_cancel ''j1'' (demo_start ''j1'' ?m0))))"
    by (rule jm_cancel) simp
  then show "jm_reach False (Some small_limits) stale_cancel_run"
    unfolding stale_cancel_run_def
    by (rule jm_start_job)
       (simp add: new_job_manager_def start_job_def cancel_def authorized_job_def put_job_def
         paused_job_state paused_job_fold cancel_cancel, (simp add: ascii_def)?)
qed (simp add: stale_cancel_jobs paused_job_live paused_job_state, (simp add: ascii_def)?)

text \<open>
  Cancelled jobs are never collected. For every \<open>n\<close> there is a run of one client on one session
  that leaves \<open>n\<close> jobs of that session in the table, all of them finished: reuse of the slot prunes
  only a job that still holds it.
\<close>

theorem cancelled_jobs_accumulate:
  "\<exists>jm. jm_reach True lims jm \<and> length (jobs jm) = n \<and>
     (\<forall>jid. dict_get (jobs jm) jid = None \<or>
        (\<exists>j. dict_get (jobs jm) jid = Some j \<and> is_terminal j \<and> job_session_id j = ascii ''s1''))"
proof -
  have "\<exists>jm. jm_reach True lims jm \<and> length (jobs jm) = n \<and> dict_get (active_by_session jm) (ascii ''s1'') = None \<and>
     (\<forall>jid j. dict_get (jobs jm) jid = Some j \<longrightarrow> is_terminal j \<and> job_session_id j = ascii ''s1'')"
  proof (induction n)
    case 0
    show ?case by (rule exI [of _ "new_job_manager lims"]) (simp add: jm_start, simp add: new_job_manager_def)
  next
    case (Suc n)
    then obtain jm where r: "jm_reach True lims jm" and len: "length (jobs jm) = n"
      and slot: "dict_get (active_by_session jm) (ascii ''s1'') = None"
      and all: "\<And>jid j. dict_get (jobs jm) jid = Some j \<Longrightarrow> is_terminal j \<and> job_session_id j = ascii ''s1''"
      by blast
    obtain jid where fresh: "dict_get (jobs jm) jid = None"
      using ex_new_if_finite [of "fst ` set (jobs jm)"] infinite_UNIV_listI
      by (auto simp: map_of_eq_None_iff)
    let ?j = "fresh_job jid 0 (ascii ''s1'') demo_producer None (ascii ''alice'') None (jm_limits jm)"
    let ?m1 = "snd (start_job None jid 0 (ascii ''s1'') demo_producer None (ascii ''alice'') None jm)"
    let ?m2 = "snd (cancel None 0 (ascii ''s1'') jid ?m1)"
    have m1: "?m1 = jm\<lparr>jobs := dict_set jid ?j (jobs jm), active_by_session := dict_set (ascii ''s1'') jid (active_by_session jm)\<rparr>"
      by (simp add: start_job_def slot Let_def)
    have sess: "job_session_id ?j = ascii ''s1''"
      using fresh_job_key [where sid = "ascii ''s1''"] unfolding job_key_def by blast
    then have m2: "jobs ?m2 = dict_set jid (job_cancel ?j) (jobs ?m1)"
      "active_by_session ?m2 = dict_pop (ascii ''s1'') (active_by_session ?m1)"
      by (simp_all add: cancel_def authorized_job_def m1 dict_simps put_job_def)
    have "jm_reach True lims ?m1" using jm_start_job [OF r fresh] .
    then have "jm_reach True lims ?m2" by (rule jm_cancel) (simp add: m1 dict_simps)
    moreover have "length (jobs ?m2) = Suc n"
      using len fresh unfolding m2 length_dict_set by (simp add: m1 length_dict_set dict_simps)
    moreover have "dict_get (active_by_session ?m2) (ascii ''s1'') = None"
      unfolding m2 by (simp add: dict_simps)
    moreover have "\<forall>jid' j. dict_get (jobs ?m2) jid' = Some j \<longrightarrow> is_terminal j \<and> job_session_id j = ascii ''s1''"
      using all sess job_cancel_terminal [of ?j] unfolding m2 by (simp add: m1 dict_simps)
    ultimately show ?case by blast
  qed
  then obtain jm where "jm_reach True lims jm" "length (jobs jm) = n"
    "\<And>jid j. dict_get (jobs jm) jid = Some j \<Longrightarrow> is_terminal j \<and> job_session_id j = ascii ''s1''" by blast
  then show ?thesis by (metis option.exhaust)
qed

end
