(* ===== verification/Report_Store.thy ===== *)
theory Report_Store
  imports Errors Pyval
begin

text \<open>
  The in-memory report store (\<open>report/store.py\<close>): per session a bucket of reports bounded by a
  count and a byte budget, oldest dropped first; a session's bucket goes when the session is
  evicted. The drawn report id and the clock reading are arguments; manifest, findings and the rows
  of an atlas are opaque values of which only the number counts.
\<close>

definition MAX_REPORTS_PER_SESSION :: int where
  "MAX_REPORTS_PER_SESSION = 32"

definition MAX_REPORT_BYTES_PER_SESSION :: int where
  "MAX_REPORT_BYTES_PER_SESSION = 32 * 1024 * 1024"

record AtlasData =
  atlas_nodes :: "pyval list"
  atlas_edges :: "pyval list"
  atlas_functions :: "pyval list"

record StoredReport =
  report_id :: pystr
  manifest :: pyval
  findings :: "pyval list"
  atlas :: "AtlasData option"
  html :: "pystr option"
  created_monotonic :: real
  approx_bytes :: int

record ReportStore =
  max_per_session :: int
  max_bytes_per_session :: int
  by_session :: "(pystr, StoredReport list) dict"

definition estimate_bytes :: "pystr option \<Rightarrow> pyval list \<Rightarrow> AtlasData option \<Rightarrow> int" where
  "estimate_bytes h fs a =
     (case h of None \<Rightarrow> 0 | Some s \<Rightarrow> int (length s)) + int (length fs) * 256 +
     (case a of None \<Rightarrow> 0
      | Some al \<Rightarrow> int (length (atlas_nodes al)) * 96 + int (length (atlas_edges al)) * 48 +
                   int (length (atlas_functions al)) * 96)"

definition new_report_store :: ReportStore where
  "new_report_store = \<lparr> max_per_session = MAX_REPORTS_PER_SESSION,
     max_bytes_per_session = MAX_REPORT_BYTES_PER_SESSION, by_session = [] \<rparr>"

fun drop_oldest :: "int \<Rightarrow> int \<Rightarrow> StoredReport list \<Rightarrow> StoredReport list" where
  "drop_oldest max_n max_b (r # r' # rest) =
     (if int (length (r # r' # rest)) > max_n \<or>
         sum_list (map approx_bytes (r # r' # rest)) > max_b
      then drop_oldest max_n max_b (r' # rest) else r # r' # rest)"
| "drop_oldest max_n max_b bucket = bucket"

definition put_report ::
  "pystr \<Rightarrow> real \<Rightarrow> pystr \<Rightarrow> pyval \<Rightarrow> pyval list \<Rightarrow> pystr option \<Rightarrow> AtlasData option \<Rightarrow>
   ReportStore \<Rightarrow> StoredReport \<times> ReportStore" where
  "put_report rid t sid man fs h a st =
     (let report = \<lparr> report_id = rid, manifest = man, findings = fs, atlas = a, html = h,
                     created_monotonic = t, approx_bytes = estimate_bytes h fs a \<rparr>;
          bucket = (case dict_get (by_session st) sid of None \<Rightarrow> [] | Some b \<Rightarrow> b)
      in (report,
          st\<lparr>by_session := dict_set sid
               (drop_oldest (max_per_session st) (max_bytes_per_session st) (bucket @ [report]))
               (by_session st)\<rparr>))"

text \<open>
  \<open>get\<close>: \<open>secrets.compare_digest\<close> of two strings raises \<open>TypeError\<close> when one of them is not ASCII.
\<close>

fun find_report :: "pystr \<Rightarrow> StoredReport list \<Rightarrow> exc + StoredReport option" where
  "find_report rid [] = Inr None"
| "find_report rid (r # rest) =
     (if (\<exists>c \<in> set (report_id r) \<union> set rid. c \<ge> 128) then Inl OtherException
      else if report_id r = rid then Inr (Some r)
      else find_report rid rest)"

definition get_report :: "pystr \<Rightarrow> pystr \<Rightarrow> ReportStore \<Rightarrow> exc + StoredReport option" where
  "get_report sid rid st =
     find_report rid (case dict_get (by_session st) sid of None \<Rightarrow> [] | Some b \<Rightarrow> b)"

definition report_count :: "pystr \<Rightarrow> ReportStore \<Rightarrow> nat" where
  "report_count sid st = length (case dict_get (by_session st) sid of None \<Rightarrow> [] | Some b \<Rightarrow> b)"

definition discard_reports :: "pystr \<Rightarrow> ReportStore \<Rightarrow> ReportStore" where
  "discard_reports sid st = st\<lparr>by_session := dict_pop sid (by_session st)\<rparr>"

subsection \<open>The bucket as a bounded window\<close>

lemma drop_oldest_trim: "drop_oldest = trim_front approx_bytes"
proof (intro ext)
  show "drop_oldest n b w = trim_front approx_bytes n b w" for n b w
    by (induction n b w rule: drop_oldest.induct) simp_all
qed

interpretation report_window: bounded_window approx_bytes drop_oldest
  unfolding drop_oldest_trim by (rule bounded_window_trim_front)

subsection \<open>Facts\<close>

abbreviation bucket_of :: "pystr \<Rightarrow> ReportStore \<Rightarrow> StoredReport list" where
  "bucket_of sid st \<equiv> (case dict_get (by_session st) sid of None \<Rightarrow> [] | Some b \<Rightarrow> b)"

lemma bucket_put:
  "bucket_of sid' (snd (put_report rid t sid man fs h a st)) =
     (if sid' = sid
      then report_window.push (max_per_session st) (max_bytes_per_session st)
             (fst (put_report rid t sid man fs h a st)) (bucket_of sid st)
      else bucket_of sid' st)"
  by (simp add: put_report_def Let_def dict_simps report_window.push_def)

lemma find_report_last:
  "\<forall>r \<in> set bucket. \<forall>c \<in> set (report_id r). c < 128 \<Longrightarrow> bucket \<noteq> [] \<Longrightarrow>
   (\<forall>r \<in> set (butlast bucket). report_id r \<noteq> report_id (last bucket)) \<Longrightarrow>
   find_report (report_id (last bucket)) bucket = Inr (Some (last bucket))"
proof (induction bucket)
  case (Cons r rest)
  have "\<forall>c \<in> set (report_id r) \<union> set (report_id (last (r # rest))). \<not> c \<ge> 128"
    using Cons.prems(1) last_in_set [of "r # rest"] by fastforce
  with Cons show ?case by (cases "rest = []") auto
qed simp


definition demo_report :: "StoredReport \<times> ReportStore" where
  "demo_report = put_report (ascii ''r1'') 1 (ascii ''s1'') PyNone [] None None new_report_store"


end
