(* ===== verification/Composition.thy ===== *)
theory Composition
  imports Streaming_Manager Report_Store
begin

text \<open>
  The composition root (\<open>server/app.py\<close>, \<open>build_app\<close>): one session manager, one streaming-job manager
  whose authorizer is the session manager's, one report store, and the eviction hook that discards a
  session's jobs and reports. A system state is the three components; after every session-manager
  operation the hook has run for each eviction callback the operation fired, in order.
\<close>

record System =
  sys_sm :: SessionManager
  sys_jm :: StreamingJobManager
  sys_rs :: ReportStore

definition discard_session_artifacts :: "pystr \<Rightarrow> System \<Rightarrow> System" where
  "discard_session_artifacts sid sys =
     sys\<lparr>sys_jm := snd (discard_session sid (sys_jm sys)), sys_rs := discard_reports sid (sys_rs sys)\<rparr>"

fun evict_ids :: "effect list \<Rightarrow> pystr list" where
  "evict_ids [] = []"
| "evict_ids (OnEvict sid # es) = sid # evict_ids es"
| "evict_ids (e # es) = evict_ids es"

text \<open>The new session-manager state, with the callbacks its new effects contain.\<close>

definition run_hooks :: "SessionManager \<Rightarrow> System \<Rightarrow> System" where
  "run_hooks m' sys =
     fold discard_session_artifacts
       (evict_ids (drop (length (effects (sys_sm sys))) (effects m'))) (sys\<lparr>sys_sm := m'\<rparr>)"

definition build_app :: "SessionManager \<Rightarrow> Limits \<Rightarrow> (exc + unit) \<times> System" where
  "build_app m lims =
     (case set_evict_callback m of
        (r, m') \<Rightarrow> (r, \<lparr> sys_sm = m', sys_jm = new_job_manager (Some lims), sys_rs = new_report_store \<rparr>))"

definition sys_session :: "sm_env \<Rightarrow> sm_op \<Rightarrow> System \<Rightarrow> System" where
  "sys_session env op sys = run_hooks (sm_exec env op (sys_sm sys)) sys"

text \<open>The jobs' authorizer: the outcome, and the system after the hooks it fired.\<close>

definition sys_authorize :: "sm_env \<Rightarrow> pystr \<Rightarrow> pystr \<Rightarrow> System \<Rightarrow> exc option \<times> System" where
  "sys_authorize env sid c sys =
     (authorize_outcome (env, sys_sm sys) sid c, sys_session env (Authorize sid c) sys)"

definition on_jobs :: "(StreamingJobManager \<Rightarrow> 'r \<times> StreamingJobManager) \<Rightarrow> System \<Rightarrow> 'r \<times> System" where
  "on_jobs f sys = (case f (sys_jm sys) of (r, jm) \<Rightarrow> (r, sys\<lparr>sys_jm := jm\<rparr>))"

definition sys_start_job ::
  "sm_env \<Rightarrow> pystr \<Rightarrow> producer \<Rightarrow> int option \<Rightarrow> pystr \<Rightarrow> pystr \<Rightarrow> StreamTerminal option \<Rightarrow> System \<Rightarrow>
   (exc + pystr) \<times> System" where
  "sys_start_job env jid p tot sid c term sys =
     (case sys_authorize env sid c sys of
        (auth, sys') \<Rightarrow> on_jobs (start_job auth jid (now env) sid p tot c term) sys')"

definition sys_fetch ::
  "sm_env \<Rightarrow> pystr \<Rightarrow> pystr \<Rightarrow> int option \<Rightarrow> int \<Rightarrow> pystr \<Rightarrow> System \<Rightarrow> (exc + StreamFetchResult) \<times> System" where
  "sys_fetch env sid jid cursor limit c sys =
     (if limit < 1 \<or> limit > MAX_FETCH_BATCH then on_jobs (fetch None sid jid cursor limit) sys
      else case sys_authorize env sid c sys of
        (auth, sys') \<Rightarrow> on_jobs (fetch auth sid jid cursor limit) sys')"

definition sys_cancel ::
  "sm_env \<Rightarrow> pystr \<Rightarrow> pystr \<Rightarrow> pystr \<Rightarrow> System \<Rightarrow> (exc + StreamJobStatus) \<times> System" where
  "sys_cancel env sid jid c sys =
     (case sys_authorize env sid c sys of
        (auth, sys') \<Rightarrow> on_jobs (cancel auth (now env) sid jid) sys')"

text \<open>
  Storing a report: the handler authorizes first and stores after composing the document, so the two
  are separate steps of the system.
\<close>

definition sys_put_report ::
  "pystr \<Rightarrow> real \<Rightarrow> pystr \<Rightarrow> pyval \<Rightarrow> pyval list \<Rightarrow> pystr option \<Rightarrow> AtlasData option \<Rightarrow> System \<Rightarrow> System" where
  "sys_put_report rid t sid man fs h a sys =
     sys\<lparr>sys_rs := snd (put_report rid t sid man fs h a (sys_rs sys))\<rparr>"

subsection \<open>Every eviction is announced\<close>

text \<open>
  \<open>accounted m m'\<close>: the effects of \<open>m'\<close> extend those of \<open>m\<close>, and a session that left the table, or
  was waiting for its callback, is still waiting or has had its callback.
\<close>

definition in_table :: "SessionManager \<Rightarrow> pystr \<Rightarrow> bool" where
  "in_table m sid \<longleftrightarrow> dict_get (sessions m) sid \<noteq> None"

definition accounted :: "SessionManager \<Rightarrow> SessionManager \<Rightarrow> bool" where
  "accounted m m' \<longleftrightarrow> evict_bound m' = evict_bound m \<and>
     (evict_bound m \<longrightarrow>
       (\<exists>es. effects m' = effects m @ es \<and>
          (\<forall>sid. in_table m sid \<or> sid \<in> set (pending_evicted m) \<longrightarrow>
             in_table m' sid \<or> sid \<in> set (pending_evicted m') \<or> OnEvict sid \<in> set es)))"

lemma accounted_refl [simp]: "accounted m m"
  by (simp add: accounted_def)

lemma accounted_trans: "accounted m m1 \<Longrightarrow> accounted m1 m2 \<Longrightarrow> accounted m m2"
  unfolding accounted_def by (auto 0 4 simp: set_append)

lemma accounted_detach: "accounted m (snd (detach_for_eviction_locked sid reason m))"
  by (auto simp: accounted_def detach_for_eviction_locked_def in_table_def dict_simps split: option.splits)

lemma accounted_io: "accounted m (snd (run_eviction_io env w m))"
  by (auto simp: accounted_def run_eviction_io_def in_table_def)

lemma accounted_flush: "accounted m (flush_evicted m)"
  by (auto simp: accounted_def flush_evicted_def in_table_def)

lemma accounted_set: "accounted m (m\<lparr>sessions := dict_set sid s (sessions m)\<rparr>)"
  by (auto simp: accounted_def in_table_def dict_simps)

lemma accounted_effects: "accounted m (m\<lparr>effects := effects m @ es\<rparr>)"
  by (auto simp: accounted_def in_table_def)

lemma accounted_evict: "accounted m (snd (evict_locked env sid reason m))"
proof (cases "detach_for_eviction_locked sid reason m")
  case (Pair w m1)
  with accounted_detach [of m sid reason] accounted_io accounted_trans show ?thesis
    by (auto simp: evict_locked_def split: option.splits)
qed

lemma accounted_get_live: "accounted m (snd (get_live_locked env sid c m))"
  by (auto simp: get_live_locked_def Let_def accounted_evict accounted_set split: option.splits)

lemma accounted_with_live: "accounted m (snd (with_live body env sid c m))"
proof (cases "get_live_locked env sid c m")
  case (Pair r m1)
  have a: "accounted m m1" using accounted_get_live [of m env sid c] Pair by simp
  have "accounted m (flush_evicted (m1\<lparr>sessions := dict_set sid s (sessions m1)\<rparr>))" for s
    using accounted_trans [OF accounted_trans [OF a accounted_set] accounted_flush] .
  with accounted_trans [OF a accounted_flush] Pair show ?thesis
    by (auto simp: with_live_def case_prod_beta split: sum.splits)
qed

lemma accounted_ensure: "accounted m (snd (ensure_worker env sid c m))"
proof (cases "get_live_locked env sid c m")
  case (Pair r m1)
  have a: "accounted m m1" using accounted_get_live [of m env sid c] Pair by simp
  have "accounted m (flush_evicted (m1\<lparr>sessions := dict_set sid s (sessions m1), effects := effects m1 @ es\<rparr>))" for s es
    using accounted_trans [OF accounted_trans [OF accounted_trans [OF a accounted_set] accounted_effects] accounted_flush]
    by simp
  with accounted_trans [OF a accounted_flush] Pair show ?thesis
    by (auto simp: ensure_worker_def split: sum.splits option.splits)
qed

lemma accounted_evict_op: "accounted m (snd (evict env sid reason c m))"
proof -
  have e: "accounted m (flush_evicted (snd (evict_locked env sid reason m1)))" if "accounted m m1" for m1
    using accounted_trans [OF accounted_trans [OF that accounted_evict] accounted_flush] .
  have g: "accounted m (flush_evicted (snd (get_live_locked env sid c' m)))" for c'
    using accounted_trans [OF accounted_get_live accounted_flush] .
  from e [OF accounted_refl] e [OF accounted_get_live] g show ?thesis
    by (auto simp: evict_def case_prod_beta split: option.splits sum.splits)
qed

lemma accounted_detach_all: "accounted m (snd (detach_all env sids m))"
proof (induction env sids m rule: detach_all.induct)
  case (2 env sid sids m)
  obtain w m1 where d: "detach_for_eviction_locked sid (reap_reason env m sid) m = (w, m1)" by fastforce
  have a: "accounted m m1" using accounted_detach [of m sid "reap_reason env m sid"] d by simp
  show ?case
  proof (cases w)
    case None
    with accounted_trans [OF a "2.IH"(1) [OF d [symmetric] None]] d show ?thesis by simp
  next
    case (Some work)
    with accounted_trans [OF a "2.IH"(2) [OF d [symmetric] Some]] d show ?thesis
      by (simp add: case_prod_beta)
  qed
qed simp

lemma accounted_run_all_io: "accounted m (run_all_io env works m)"
  by (induction env works m rule: run_all_io.induct) (auto intro: accounted_trans [OF accounted_io])

lemma accounted_reap: "accounted m (snd (reap_expired env m))"
  using accounted_trans [OF accounted_trans [OF accounted_detach_all [of m env "expired_ids env m"]
      accounted_run_all_io] accounted_flush]
  by (simp add: reap_expired_def case_prod_beta)

lemma accounted_evict_each: "accounted m (evict_each env sids m)"
  by (induction env sids m rule: evict_each.induct)
     (auto intro: accounted_trans [OF accounted_evict] split: option.splits)

lemma accounted_shutdown:
  assumes "sm_inv m"
  shows "accounted m (shutdown env m)"
proof -
  have "sessions (evict_each env (dict_keys (sessions m)) m) = []"
    using evict_each_props [of m "dict_keys (sessions m)" env] assms by (simp add: sm_inv_def)
  then have "(evict_each env (dict_keys (sessions m)) m)\<lparr>sessions := []\<rparr> =
      evict_each env (dict_keys (sessions m)) m" by simp
  then show ?thesis
    using accounted_trans [OF accounted_evict_each accounted_flush] unfolding shutdown_def by metis
qed

lemma accounted_exec:
  assumes "sm_inv m" and "evict_bound m"
  shows "accounted m (sm_exec env op m)"
proof (cases op)
  case BindEvict
  then show ?thesis using assms(2) by (simp add: set_evict_callback_def)
next
  case (Create own)
  have "accounted m (m\<lparr>sessions := dict_set k s (sessions m), effects := effects m @ es\<rparr>)" for k s es
    using accounted_trans [OF accounted_set accounted_effects] by simp
  with Create show ?thesis
    by (cases "create_admits m own") (simp_all add: create_admitted create_denied)
next
  case (BeginCall sid c)
  then show ?thesis by (auto simp: begin_call_def accounted_set split: option.splits)
next
  case (EndCall sid c)
  then show ?thesis by (auto simp: end_call_def accounted_set split: option.splits)
qed (use assms in \<open>simp_all add: scoped_defs accounted_with_live accounted_ensure accounted_evict_op
      accounted_reap accounted_shutdown\<close>)

subsection \<open>Nothing outlives its session\<close>

definition jobs_alive :: "System \<Rightarrow> bool" where
  "jobs_alive sys \<longleftrightarrow>
     (\<forall>jid j. dict_get (jobs (sys_jm sys)) jid = Some j \<longrightarrow> in_table (sys_sm sys) (job_session_id j))"

definition reports_alive :: "System \<Rightarrow> bool" where
  "reports_alive sys \<longleftrightarrow> (\<forall>sid. dict_get (by_session (sys_rs sys)) sid \<noteq> None \<longrightarrow> in_table (sys_sm sys) sid)"

definition sys_inv :: "System \<Rightarrow> bool" where
  "sys_inv sys \<longleftrightarrow> sm_inv (sys_sm sys) \<and> evict_bound (sys_sm sys) \<and> jm_inv (sys_jm sys) \<and> jobs_alive sys"

lemma evict_ids_mem: "sid \<in> set (evict_ids es) \<longleftrightarrow> OnEvict sid \<in> set es"
  by (induction es rule: evict_ids.induct) auto

lemma discard_artifacts_sm [simp]: "sys_sm (discard_session_artifacts sid sys) = sys_sm sys"
  by (simp add: discard_session_artifacts_def)

lemma discard_fold_props:
  assumes "jm_inv (sys_jm sys)"
  shows "let sys' = fold discard_session_artifacts sids sys in
    sys_sm sys' = sys_sm sys \<and> jm_inv (sys_jm sys') \<and>
    (\<forall>jid j. dict_get (jobs (sys_jm sys')) jid = Some j \<longrightarrow>
       dict_get (jobs (sys_jm sys)) jid = Some j \<and> job_session_id j \<notin> set sids) \<and>
    (\<forall>sid. dict_get (by_session (sys_rs sys')) sid \<noteq> None \<longrightarrow>
       dict_get (by_session (sys_rs sys)) sid \<noteq> None \<and> sid \<notin> set sids)"
  using assms
proof (induction sids arbitrary: sys)
  case (Cons sid sids)
  let ?s1 = "discard_session_artifacts sid sys"
  have inv: "jm_inv (sys_jm ?s1)" using Cons.prems by (simp add: discard_session_artifacts_def jm_inv_discard)
  have "dict_ok (jobs (sys_jm sys))" using Cons.prems by (simp add: jm_inv_def)
  then have "dict_get (jobs (sys_jm ?s1)) jid = Some j \<Longrightarrow>
      dict_get (jobs (sys_jm sys)) jid = Some j \<and> job_session_id j \<noteq> sid" for jid j
    by (auto simp: discard_session_artifacts_def discard_session_def dict_get_filter split: option.splits if_splits)
  moreover have "dict_get (by_session (sys_rs ?s1)) k \<noteq> None \<Longrightarrow>
      dict_get (by_session (sys_rs sys)) k \<noteq> None \<and> k \<noteq> sid" for k
    by (auto simp: discard_session_artifacts_def discard_reports_def dict_simps split: if_splits)
  ultimately show ?case using Cons.IH [OF inv] by (fastforce simp: Let_def)
qed simp

lemma run_hooks_alive:
  assumes "accounted (sys_sm sys) m'" and "evict_bound (sys_sm sys)" and "pending_evicted m' = []"
    and "jm_inv (sys_jm sys)"
  shows "sys_sm (run_hooks m' sys) = m'" and "jm_inv (sys_jm (run_hooks m' sys))"
    and "jobs_alive sys \<Longrightarrow> jobs_alive (run_hooks m' sys)"
    and "reports_alive sys \<Longrightarrow> reports_alive (run_hooks m' sys)"
    and "dict_get (jobs (sys_jm (run_hooks m' sys))) jid \<noteq> None \<Longrightarrow> dict_get (jobs (sys_jm sys)) jid \<noteq> None"
proof -
  obtain es where es: "effects m' = effects (sys_sm sys) @ es"
    and gone: "\<And>sid. in_table (sys_sm sys) sid \<Longrightarrow> in_table m' sid \<or> OnEvict sid \<in> set es"
    using assms(1-3) unfolding accounted_def by auto
  have eq: "run_hooks m' sys = fold discard_session_artifacts (evict_ids es) (sys\<lparr>sys_sm := m'\<rparr>)"
    by (simp add: run_hooks_def es)
  note p = discard_fold_props [of "sys\<lparr>sys_sm := m'\<rparr>" "evict_ids es", folded eq, unfolded Let_def evict_ids_mem]
  from p assms(4) show sm: "sys_sm (run_hooks m' sys) = m'" and "jm_inv (sys_jm (run_hooks m' sys))" by simp_all
  from p assms(4) gone sm show "jobs_alive sys \<Longrightarrow> jobs_alive (run_hooks m' sys)"
    unfolding jobs_alive_def by simp blast
  from p assms(4) gone sm show "reports_alive sys \<Longrightarrow> reports_alive (run_hooks m' sys)"
    unfolding reports_alive_def by simp blast
  from p assms(4) show "dict_get (jobs (sys_jm (run_hooks m' sys))) jid \<noteq> None \<Longrightarrow> dict_get (jobs (sys_jm sys)) jid \<noteq> None"
    by force
qed

subsection \<open>Runs of the system\<close>

text \<open>
  Any interleaving of session operations, streaming operations and stored reports. \<open>timely\<close> demands
  that the session of a report is still in the table when the report is stored.
\<close>

inductive sys_reach :: "bool \<Rightarrow> System \<Rightarrow> System \<Rightarrow> bool" for timely sys0 where
  sys_start: "sys_reach timely sys0 sys0"
| sys_session: "sys_reach timely sys0 sys \<Longrightarrow> fresh_ok env op (sys_sm sys) \<Longrightarrow>
    sys_reach timely sys0 (sys_session env op sys)"
| sys_start_job: "sys_reach timely sys0 sys \<Longrightarrow> dict_get (jobs (sys_jm sys)) jid = None \<Longrightarrow>
    sys_reach timely sys0 (snd (sys_start_job env jid p tot sid c term sys))"
| sys_fetch: "sys_reach timely sys0 sys \<Longrightarrow>
    sys_reach timely sys0 (snd (sys_fetch env sid jid cursor limit c sys))"
| sys_cancel: "sys_reach timely sys0 sys \<Longrightarrow> sys_reach timely sys0 (snd (sys_cancel env sid jid c sys))"
| sys_put: "sys_reach timely sys0 sys \<Longrightarrow> (timely \<longrightarrow> in_table (sys_sm sys) sid) \<Longrightarrow>
    sys_reach timely sys0 (sys_put_report rid t sid man fs h a sys)"

lemma sys_inv_session:
  assumes "sys_inv sys" and "fresh_ok env op (sys_sm sys)"
  shows "sys_inv (sys_session env op sys)" and "reports_alive sys \<Longrightarrow> reports_alive (sys_session env op sys)"
    and "sys_sm (sys_session env op sys) = sm_exec env op (sys_sm sys)"
    and "dict_get (jobs (sys_jm (sys_session env op sys))) jid \<noteq> None \<Longrightarrow> dict_get (jobs (sys_jm sys)) jid \<noteq> None"
proof -
  let ?m = "sys_sm sys" and ?m' = "sm_exec env op (sys_sm sys)"
  have inv: "sm_inv ?m" "evict_bound ?m" using assms(1) by (simp_all add: sys_inv_def)
  have acc: "accounted ?m ?m'" using accounted_exec [OF inv] .
  have inv': "sm_inv ?m'" using sm_exec_inv [OF inv(1) assms(2)] .
  note h = run_hooks_alive [OF acc inv(2) _ , unfolded sys_session_def [symmetric]]
  have pend: "pending_evicted ?m' = []" using inv' by (simp add: sm_inv_def)
  have jm: "jm_inv (sys_jm sys)" using assms(1) by (simp add: sys_inv_def)
  have "evict_bound ?m'" using acc inv(2) by (simp add: accounted_def)
  then show "sys_inv (sys_session env op sys)"
    using h(1-3) [OF pend jm] inv' assms(1) by (simp add: sys_inv_def)
  show "reports_alive sys \<Longrightarrow> reports_alive (sys_session env op sys)" using h(4) [OF pend jm] .
  show "sys_sm (sys_session env op sys) = ?m'" using h(1) [OF pend jm] .
  show "dict_get (jobs (sys_jm (sys_session env op sys))) jid \<noteq> None \<Longrightarrow> dict_get (jobs (sys_jm sys)) jid \<noteq> None"
    using h(5) [OF pend jm] .
qed

text \<open>A job operation may add jobs only of a given session, and keeps the sessions of the others.\<close>

lemma sys_inv_jobs:
  assumes "sys_inv sys" and "jm_inv jm"
    and "\<And>jid j. dict_get (jobs jm) jid = Some j \<Longrightarrow>
      in_table (sys_sm sys) (job_session_id j) \<or>
      (\<exists>j0. dict_get (jobs (sys_jm sys)) jid = Some j0 \<and> job_session_id j = job_session_id j0)"
  shows "sys_inv (sys\<lparr>sys_jm := jm\<rparr>)"
  using assms unfolding sys_inv_def jobs_alive_def by (fastforce simp: in_table_def)

lemma put_job_sessions:
  assumes "authorized_job auth sid jid jm = Inr j" and "job_key j' = job_key j"
    and "dict_get (jobs (put_job jid j' jm)) jid' = Some k"
  shows "\<exists>k0. dict_get (jobs jm) jid' = Some k0 \<and> job_session_id k = job_session_id k0"
  using assms by (auto simp: put_job_def dict_simps authorized_job_Inr job_key_def split: if_splits)

lemma fetch_sessions:
  "dict_get (jobs (snd (fetch auth sid jid cursor limit jm))) jid' = Some k \<Longrightarrow>
   \<exists>k0. dict_get (jobs jm) jid' = Some k0 \<and> job_session_id k = job_session_id k0"
  using put_job_sessions [OF _ job_key_fetch]
  by (auto simp: fetch_def case_prod_beta split: sum.splits if_splits)

lemma cancel_sessions:
  "dict_get (jobs (snd (cancel auth t sid jid jm))) jid' = Some k \<Longrightarrow>
   \<exists>k0. dict_get (jobs jm) jid' = Some k0 \<and> job_session_id k = job_session_id k0"
  using put_job_sessions [of auth sid jid jm _ "job_cancel _" jid' k]
  by (auto simp: cancel_def put_job_def split: sum.splits)

lemma start_sessions:
  assumes "dict_get (jobs (snd (start_job auth jid t sid p tot c term jm))) jid' = Some k"
  shows "auth = None \<and> job_session_id k = sid \<or> dict_get (jobs jm) jid' = Some k"
proof -
  have "job_session_id (fresh_job jid t sid p tot c term lims) = sid" for lims
    using fresh_job_key [where sid = sid] unfolding job_key_def by blast
  with assms show ?thesis
    by (auto simp: start_job_def Let_def dict_simps split: option.splits if_splits)
qed

lemma sys_authorize_live:
  assumes "sys_inv sys" and "sys_authorize env sid c sys = (None, sys')"
  shows "in_table (sys_sm sys') sid"
proof -
  have live: "live_owned env sid c (sys_sm sys)"
    using assms(2) by (auto simp: sys_authorize_def outcome_None)
  have "sys_sm sys' = snd (authorize env sid c (sys_sm sys))"
    using sys_inv_session(3) [OF assms(1), of env "Authorize sid c"] assms(2)
    by (auto simp: sys_authorize_def fresh_ok_def)
  with live show ?thesis
    unfolding authorize_def with_live_def by (elim get_live_granted) (simp add: in_table_def dict_simps)
qed

lemma sys_authorize_props:
  assumes "sys_inv sys" and "sys_authorize env sid c sys = (auth, sys')"
  shows "sys_inv sys'" and "reports_alive sys \<Longrightarrow> reports_alive sys'"
    and "dict_get (jobs (sys_jm sys)) jid = None \<Longrightarrow> dict_get (jobs (sys_jm sys')) jid = None"
proof -
  have s: "sys' = sys_session env (Authorize sid c) sys" and ok: "fresh_ok env (Authorize sid c) (sys_sm sys)"
    using assms(2) by (simp_all add: sys_authorize_def fresh_ok_def)
  note p = sys_inv_session [OF assms(1) ok, folded s]
  from p(1) show "sys_inv sys'" .
  from p(2) show "reports_alive sys \<Longrightarrow> reports_alive sys'" .
  from p(4) show "dict_get (jobs (sys_jm sys)) jid = None \<Longrightarrow> dict_get (jobs (sys_jm sys')) jid = None" by blast
qed

lemma reports_alive_jobs [simp]: "reports_alive (sys\<lparr>sys_jm := jm\<rparr>) = reports_alive sys"
  by (simp add: reports_alive_def)

lemma sys_start_job_props:
  assumes inv: "sys_inv sys" and fresh: "dict_get (jobs (sys_jm sys)) jid = None"
  shows "sys_inv (snd (sys_start_job env jid p tot sid c term sys))"
    and "reports_alive sys \<Longrightarrow> reports_alive (snd (sys_start_job env jid p tot sid c term sys))"
proof -
  obtain auth sys' where a: "sys_authorize env sid c sys = (auth, sys')" by fastforce
  note p = sys_authorize_props [OF inv a]
  let ?jm = "snd (start_job auth jid (now env) sid p tot c term (sys_jm sys'))"
  have eq: "snd (sys_start_job env jid p tot sid c term sys) = sys'\<lparr>sys_jm := ?jm\<rparr>"
    by (simp add: sys_start_job_def a on_jobs_def case_prod_beta)
  have "jm_inv ?jm" using p(1,3) fresh by (simp add: jm_inv_start sys_inv_def)
  moreover have "in_table (sys_sm sys') (job_session_id k) \<or>
      (\<exists>j0. dict_get (jobs (sys_jm sys')) jid' = Some j0 \<and> job_session_id k = job_session_id j0)"
    if "dict_get (jobs ?jm) jid' = Some k" for jid' k
    using start_sessions [OF that] sys_authorize_live [OF inv] a by auto
  ultimately show "sys_inv (snd (sys_start_job env jid p tot sid c term sys))"
    unfolding eq by (intro sys_inv_jobs [OF p(1)])
  show "reports_alive sys \<Longrightarrow> reports_alive (snd (sys_start_job env jid p tot sid c term sys))"
    unfolding eq by (simp add: p(2))
qed

lemma sys_fetch_props:
  assumes inv: "sys_inv sys"
  shows "sys_inv (snd (sys_fetch env sid jid cursor limit c sys))"
    and "reports_alive sys \<Longrightarrow> reports_alive (snd (sys_fetch env sid jid cursor limit c sys))"
proof -
  obtain auth sys' where a: "sys_authorize env sid c sys = (auth, sys')" by fastforce
  note p = sys_authorize_props [OF inv a]
  have f: "sys_inv (s\<lparr>sys_jm := snd (fetch au sid jid cursor limit (sys_jm s))\<rparr>)" if "sys_inv s" for s au
    by (rule sys_inv_jobs [OF that]) (use that fetch_sessions in \<open>simp_all add: sys_inv_def jm_inv_fetch\<close>)
  show "sys_inv (snd (sys_fetch env sid jid cursor limit c sys))"
    and "reports_alive sys \<Longrightarrow> reports_alive (snd (sys_fetch env sid jid cursor limit c sys))"
    using f [OF inv] f [OF p(1)] p(2) by (simp_all add: sys_fetch_def a on_jobs_def case_prod_beta)
qed

lemma sys_cancel_props:
  assumes inv: "sys_inv sys"
  shows "sys_inv (snd (sys_cancel env sid jid c sys))"
    and "reports_alive sys \<Longrightarrow> reports_alive (snd (sys_cancel env sid jid c sys))"
proof -
  obtain auth sys' where a: "sys_authorize env sid c sys = (auth, sys')" by fastforce
  note p = sys_authorize_props [OF inv a]
  have f: "sys_inv (s\<lparr>sys_jm := snd (cancel au t sid jid (sys_jm s))\<rparr>)" if "sys_inv s" for s au t
    by (rule sys_inv_jobs [OF that]) (use that cancel_sessions in \<open>simp_all add: sys_inv_def jm_inv_cancel\<close>)
  show "sys_inv (snd (sys_cancel env sid jid c sys))"
    and "reports_alive sys \<Longrightarrow> reports_alive (snd (sys_cancel env sid jid c sys))"
    using f [OF p(1)] p(2) by (simp_all add: sys_cancel_def a on_jobs_def case_prod_beta)
qed

lemma sys_put_props:
  "sys_inv sys \<Longrightarrow> sys_inv (sys_put_report rid t sid man fs h a sys)"
  "reports_alive sys \<Longrightarrow> in_table (sys_sm sys) sid \<Longrightarrow>
   reports_alive (sys_put_report rid t sid man fs h a sys)"
  by (auto simp: sys_inv_def jobs_alive_def sys_put_report_def reports_alive_def put_report_def Let_def
      dict_simps split: if_splits)

lemma sys_reach_inv: "sys_reach timely sys0 sys \<Longrightarrow> sys_inv sys0 \<Longrightarrow> sys_inv sys"
  by (induction rule: sys_reach.induct)
     (simp_all add: sys_inv_session sys_start_job_props sys_fetch_props sys_cancel_props sys_put_props)

lemma sys_reach_reports: "sys_reach True sys0 sys \<Longrightarrow> sys_inv sys0 \<Longrightarrow> reports_alive sys0 \<Longrightarrow> reports_alive sys"
  by (induction rule: sys_reach.induct)
     (simp_all add: sys_inv_session sys_start_job_props sys_fetch_props sys_cancel_props sys_put_props
       sys_reach_inv)

lemma build_app_inv:
  "sys_inv (snd (build_app (new_manager port rt ttl idle n no False) lims))"
  "reports_alive (snd (build_app (new_manager port rt ttl idle n no False) lims))"
  by (simp_all add: build_app_def set_evict_callback_def new_manager_def sys_inv_def sm_inv_def
      table_inv_empty workers_match_def doomed_def live_workers_def jm_inv_def slots_ok_def jobs_alive_def
      reports_alive_def new_report_store_def new_job_manager_def)

end
