(* ===== verification/Py_Codec.thy ===== *)
theory Py_Codec
  imports Prelude
begin

text \<open>
  The text conversions of Python's standard library that the code applies to untrusted input:
  \<open>str.strip()\<close>, \<open>int(s, 16)\<close> with everything its grammar allows, and
  \<open>bytes.decode("utf-8", "replace")\<close>, which replaces each maximal ill-formed prefix by U+FFFD.
\<close>

subsection \<open>Stripping\<close>

text \<open>The code points \<open>str.strip()\<close> removes.\<close>

definition py_space :: "nat \<Rightarrow> bool" where
  "py_space c \<longleftrightarrow>
     (9 \<le> c \<and> c \<le> 13) \<or> (28 \<le> c \<and> c \<le> 32) \<or> c = 0x85 \<or> c = 0xA0 \<or> c = 0x1680 \<or>
     (0x2000 \<le> c \<and> c \<le> 0x200A) \<or> c = 0x2028 \<or> c = 0x2029 \<or> c = 0x202F \<or> c = 0x205F \<or> c = 0x3000"

definition py_strip :: "pystr \<Rightarrow> pystr" where
  "py_strip s = rev (dropWhile py_space (rev (dropWhile py_space s)))"

lemma dropWhile_hd: "xs \<noteq> [] \<Longrightarrow> \<not> P (hd xs) \<Longrightarrow> dropWhile P xs = xs"
  by (cases xs) simp_all

lemma py_strip_id: "s \<noteq> [] \<Longrightarrow> \<not> py_space (hd s) \<Longrightarrow> \<not> py_space (last s) \<Longrightarrow> py_strip s = s"
  by (simp add: py_strip_def dropWhile_hd hd_rev)

subsection \<open>Hexadecimal integers\<close>

definition is_hex_digit :: "nat \<Rightarrow> bool" where
  "is_hex_digit c \<longleftrightarrow> (48 \<le> c \<and> c \<le> 57) \<or> (97 \<le> c \<and> c \<le> 102) \<or> (65 \<le> c \<and> c \<le> 70)"

definition hex_value :: "nat \<Rightarrow> nat" where
  "hex_value c = (if c \<le> 57 then c - 48 else if c \<ge> 97 then c - 87 else c - 55)"

definition hex_number :: "pystr \<Rightarrow> nat" where
  "hex_number ds = foldl (\<lambda>n c. 16 * n + hex_value c) 0 ds"

lemma hex_value_less: "is_hex_digit c \<Longrightarrow> hex_value c < 16"
  by (auto simp: is_hex_digit_def hex_value_def)

lemma hex_number_snoc: "hex_number (ds @ [d]) = 16 * hex_number ds + hex_value d"
  by (simp add: hex_number_def)

lemma hex_number_less: "list_all is_hex_digit ds \<Longrightarrow> hex_number ds < 16 ^ length ds"
proof (induction ds rule: rev_induct)
  case (snoc d ds)
  then have "hex_number ds < 16 ^ length ds" "hex_value d < 16" by (simp_all add: hex_value_less)
  then show ?case by (simp add: hex_number_snoc)
qed (simp add: hex_number_def)

lemma hex_digit_not_space: "is_hex_digit c \<Longrightarrow> \<not> py_space c"
  by (auto simp: is_hex_digit_def py_space_def)

text \<open>Digits with single underscores between them; the rest of the text is returned.\<close>

fun int_digits :: "bool \<Rightarrow> bool \<Rightarrow> nat \<Rightarrow> pystr \<Rightarrow> (nat \<times> pystr) option" where
  "int_digits gap seen acc [] = (if gap \<or> \<not> seen then None else Some (acc, []))"
| "int_digits gap seen acc (c # s) =
     (if c = 95 then (if gap then None else int_digits True seen acc s)
      else if is_hex_digit c then int_digits False True (16 * acc + hex_value c) s
      else if gap \<or> \<not> seen then None else Some (acc, c # s))"

text \<open>The blanks \<open>int\<close> skips around an ASCII literal.\<close>

definition int_blank :: "nat \<Rightarrow> bool" where
  "int_blank c \<longleftrightarrow> 9 \<le> c \<and> c \<le> 13 \<or> c = 32"

definition skip_prefix :: "pystr \<Rightarrow> pystr" where
  "skip_prefix s =
     (if take 2 s \<in> {[48, 120], [48, 88]}
      then (if take 1 (drop 2 s) = [95] then drop 3 s else drop 2 s) else s)"

text \<open>\<open>int(s, 16)\<close> on an ASCII string; \<open>None\<close> is the \<open>ValueError\<close>.\<close>

definition py_int16 :: "pystr \<Rightarrow> int option" where
  "py_int16 s =
     (let t = dropWhile int_blank s;
          neg = (take 1 t = [45]);
          u = skip_prefix (if take 1 t \<in> {[45], [43]} then drop 1 t else t)
      in if take 1 u = [95] then None
         else (case int_digits False False 0 u of
                 None \<Rightarrow> None
               | Some (n, rest) \<Rightarrow>
                   if dropWhile int_blank rest \<noteq> [] then None
                   else Some (if neg then - int n else int n)))"

lemma int_digits_hex:
  "list_all is_hex_digit ds \<Longrightarrow> seen \<or> ds \<noteq> [] \<Longrightarrow>
   int_digits False seen acc ds = Some (foldl (\<lambda>n c. 16 * n + hex_value c) acc ds, [])"
proof (induction ds arbitrary: seen acc)
  case (Cons d ds)
  then have "d \<noteq> 95" by (auto simp: is_hex_digit_def)
  with Cons show ?case by simp
qed simp

lemma py_int16_digits:
  assumes "list_all is_hex_digit ds" and "ds \<noteq> []"
  shows "py_int16 ds = Some (int (hex_number ds))"
proof -
  obtain d ds' where ds: "ds = d # ds'" using assms(2) by (cases ds) auto
  have d: "is_hex_digit d" using assms(1) ds by simp
  then have "\<not> int_blank d" "d \<noteq> 45" "d \<noteq> 43" "d \<noteq> 95" by (auto simp: is_hex_digit_def int_blank_def)
  moreover have "skip_prefix ds = ds"
    using assms(1) by (cases ds') (auto simp: ds skip_prefix_def is_hex_digit_def)
  ultimately show ?thesis
    using int_digits_hex [OF assms(1), of False 0] assms(2) by (simp add: py_int16_def ds hex_number_def)
qed

subsection \<open>UTF-8 with replacement\<close>

definition cont_byte :: "nat \<Rightarrow> bool" where
  "cont_byte b \<longleftrightarrow> 0x80 \<le> b \<and> b \<le> 0xBF"

definition second3 :: "nat \<Rightarrow> nat \<Rightarrow> bool" where
  "second3 c b \<longleftrightarrow> (if c = 0xE0 then 0xA0 else 0x80) \<le> b \<and> b \<le> (if c = 0xED then 0x9F else 0xBF)"

definition second4 :: "nat \<Rightarrow> nat \<Rightarrow> bool" where
  "second4 c b \<longleftrightarrow> (if c = 0xF0 then 0x90 else 0x80) \<le> b \<and> b \<le> (if c = 0xF4 then 0x8F else 0xBF)"

abbreviation REPLACEMENT :: nat where
  "REPLACEMENT \<equiv> 0xFFFD"

text \<open>One code point and the bytes after it; \<open>rest\<close> follows the leading byte \<open>c\<close>.\<close>

definition utf8_step :: "nat \<Rightarrow> nat list \<Rightarrow> nat \<times> nat list" where
  "utf8_step c rest =
     (if c < 0x80 then (c, rest)
      else if 0xC2 \<le> c \<and> c \<le> 0xDF then
        (case rest of
           b # r \<Rightarrow> if cont_byte b then ((c - 0xC0) * 64 + (b - 0x80), r) else (REPLACEMENT, rest)
         | [] \<Rightarrow> (REPLACEMENT, rest))
      else if 0xE0 \<le> c \<and> c \<le> 0xEF then
        (case rest of
           b # r \<Rightarrow>
             if second3 c b then
               (case r of
                  d # r' \<Rightarrow>
                    if cont_byte d then ((c - 0xE0) * 4096 + (b - 0x80) * 64 + (d - 0x80), r')
                    else (REPLACEMENT, r)
                | [] \<Rightarrow> (REPLACEMENT, r))
             else (REPLACEMENT, rest)
         | [] \<Rightarrow> (REPLACEMENT, rest))
      else if 0xF0 \<le> c \<and> c \<le> 0xF4 then
        (case rest of
           b # r \<Rightarrow>
             if second4 c b then
               (case r of
                  d # r' \<Rightarrow>
                    if cont_byte d then
                      (case r' of
                         f # r'' \<Rightarrow>
                           if cont_byte f then
                             ((c - 0xF0) * 262144 + (b - 0x80) * 4096 + (d - 0x80) * 64 + (f - 0x80), r'')
                           else (REPLACEMENT, r')
                       | [] \<Rightarrow> (REPLACEMENT, r'))
                    else (REPLACEMENT, r)
                | [] \<Rightarrow> (REPLACEMENT, r))
             else (REPLACEMENT, rest)
         | [] \<Rightarrow> (REPLACEMENT, rest))
      else (REPLACEMENT, rest))"

lemma utf8_step_shorter: "length (snd (utf8_step c rest)) \<le> length rest"
  unfolding utf8_step_def by (auto split: list.splits)

function utf8_replace :: "nat list \<Rightarrow> pystr" where
  "utf8_replace [] = []"
| "utf8_replace (c # rest) = fst (utf8_step c rest) # utf8_replace (snd (utf8_step c rest))"
  by pat_completeness auto
termination
  by (relation "measure length") (simp_all add: le_imp_less_Suc utf8_step_shorter)

definition decode_utf8 :: "bytes \<Rightarrow> pystr" where
  "decode_utf8 bs = utf8_replace (map unat bs)"

lemma utf8_replace_ascii: "\<forall>c \<in> set cs. c < 0x80 \<Longrightarrow> utf8_replace cs = cs"
  by (induction cs) (simp_all add: utf8_step_def)

lemma utf8_replace_length: "length (utf8_replace cs) \<le> length cs"
proof (induction cs rule: utf8_replace.induct)
  case (2 c rest)
  then show ?case using utf8_step_shorter [of c rest] by simp
qed simp

end
