(* ===== verification/Validation.thy ===== *)
theory Validation
  imports Errors Envelope Py_Codec
begin

text \<open>
  Boundary validation (\<open>core/validation.py\<close>): addresses, names, queries, byte ranges and patterns,
  comments, type references, signatures, composites, composite batches with the by-value cycle
  detector, and imported annotation documents. A validator is a function into \<open>exc + 'a\<close>. The
  arguments the code type-checks with \<open>isinstance\<close> are dynamically typed values.
\<close>

subsection \<open>Bounds and vocabularies\<close>

definition MAX_NAME_LEN :: nat where "MAX_NAME_LEN = 1024"
definition MAX_QUERY_LEN :: nat where "MAX_QUERY_LEN = 4096"
definition MAX_READ_BYTES :: int where "MAX_READ_BYTES = 1048576"
definition SUPPORTED_ANNOTATION_SCHEMA_VERSIONS :: "int list" where
  "SUPPORTED_ANNOTATION_SCHEMA_VERSIONS = [1, 2]"
definition MAX_ANNOTATION_ENTRIES :: nat where "MAX_ANNOTATION_ENTRIES = 50000"
definition MAX_ADDRESS :: int where "MAX_ADDRESS = 2 ^ 64 - 1"
definition MAX_ADDRESS_HEX_DIGITS :: nat where "MAX_ADDRESS_HEX_DIGITS = 16"
definition MAX_COMMENT_LEN :: nat where "MAX_COMMENT_LEN = 4096"
definition MAX_PARAMS :: nat where "MAX_PARAMS = 64"
definition MAX_POINTER_DEPTH :: int where "MAX_POINTER_DEPTH = 8"
definition MAX_ARRAY_LEN :: int where "MAX_ARRAY_LEN = 65536"
definition MAX_FIELDS :: nat where "MAX_FIELDS = 256"
definition MAX_COMPOSITE_SIZE :: int where "MAX_COMPOSITE_SIZE = 1048576"
definition MAX_TYPES_PER_BATCH :: nat where "MAX_TYPES_PER_BATCH = 64"

definition UNICODE_SEPARATORS :: "nat list" where
  "UNICODE_SEPARATORS = [0x2028, 0x2029]"

definition write_name_lead :: "nat \<Rightarrow> bool" where
  "write_name_lead c \<longleftrightarrow> (65 \<le> c \<and> c \<le> 90) \<or> (97 \<le> c \<and> c \<le> 122) \<or> c = 95"

definition write_name_rest :: "nat \<Rightarrow> bool" where
  "write_name_rest c \<longleftrightarrow> write_name_lead c \<or> (48 \<le> c \<and> c \<le> 57) \<or> c = 36 \<or> c = 46"

definition BASE_TYPE_VOCAB :: "pystr list" where
  "BASE_TYPE_VOCAB = map ascii
     [''void'', ''bool'', ''char'', ''uchar'', ''wchar_t'', ''int8'', ''uint8'', ''int16'', ''uint16'',
      ''int32'', ''uint32'', ''int64'', ''uint64'', ''int'', ''uint'', ''long'', ''ulong'', ''float'',
      ''double'']"

definition CALLING_CONVENTIONS :: "pystr list" where
  "CALLING_CONVENTIONS = map ascii
     [''default'', ''__cdecl'', ''__stdcall'', ''__fastcall'', ''__thiscall'', ''__vectorcall'']"

definition validation_error :: "string \<Rightarrow> exc" where
  "validation_error d =
     new_error \<lparr> err_type = VALIDATION, title = ascii ''Invalid arguments'', detail = ascii d,
       status = Some 400, correlation_id = None, retryable = False \<rparr>"

definition limit_error :: "string \<Rightarrow> exc" where
  "limit_error d =
     new_error \<lparr> err_type = LIMIT_EXCEEDED, title = ascii ''Limit exceeded'', detail = ascii d,
       status = Some 413, correlation_id = None, retryable = False \<rparr>"

subsection \<open>Addresses and strings\<close>

definition parse_address :: "pyval \<Rightarrow> exc + int" where
  "parse_address v =
     (case v of
        PyStr s \<Rightarrow>
          (let t = py_strip s in
           if t = [] then Inl (validation_error ''address must not be empty'')
           else
             (let digits = (if take 2 t \<in> {ascii ''0x'', ascii ''0X''} then drop 2 t else t) in
              if digits = [] then Inl (validation_error ''address has no hexadecimal digits'')
              else if length digits > MAX_ADDRESS_HEX_DIGITS then
                Inl (validation_error ''address has too many hexadecimal digits'')
              else if \<not> list_all is_hex_digit digits then
                Inl (validation_error ''address contains non-hexadecimal characters'')
              else if int (hex_number digits) > MAX_ADDRESS then
                Inl (validation_error ''address is out of range'')
              else Inr (int (hex_number digits))))
      | _ \<Rightarrow> Inl (validation_error ''address must be a string''))"

definition is_control :: "nat \<Rightarrow> bool" where
  "is_control c \<longleftrightarrow> c < 0x20 \<or> c = 0x7F \<or> (0x80 \<le> c \<and> c \<le> 0x9F)"

definition name_char_ok :: "nat \<Rightarrow> bool" where
  "name_char_ok c \<longleftrightarrow> \<not> (is_control c \<or> c \<in> set UNICODE_SEPARATORS)"

definition validate_name :: "pyval \<Rightarrow> exc + pystr" where
  "validate_name v =
     (case v of
        PyStr s \<Rightarrow>
          if s = [] then Inl (validation_error ''name must not be empty'')
          else if length s > MAX_NAME_LEN then Inl (validation_error ''name exceeds maximum length'')
          else if \<not> list_all name_char_ok s then
            Inl (validation_error ''name contains disallowed control characters'')
          else Inr s
      | _ \<Rightarrow> Inl (validation_error ''name must be a string''))"

definition validate_byte_range :: "pyval \<Rightarrow> pyval \<Rightarrow> exc + int \<times> int" where
  "validate_byte_range offset len =
     (if is_bool offset \<or> \<not> is_int offset then Inl (validation_error ''offset must be an integer'')
      else if is_bool len \<or> \<not> is_int len then Inl (validation_error ''length must be an integer'')
      else
        (let off = int_of offset; n = int_of len in
         if off < 0 then Inl (validation_error ''offset must be non-negative'')
         else if off > MAX_ADDRESS then Inl (validation_error ''offset is out of range'')
         else if n < 1 then Inl (validation_error ''length must be at least 1 byte'')
         else if n > MAX_READ_BYTES then
           Inl (limit_error ''requested byte length exceeds the maximum'')
         else if off + n - 1 > MAX_ADDRESS then
           Inl (validation_error ''byte range overflows the address space'')
         else Inr (off, n)))"

definition validate_query :: "pyval \<Rightarrow> exc + pystr" where
  "validate_query v =
     (case v of
        PyStr s \<Rightarrow>
          if s = [] then Inl (validation_error ''query must not be empty'')
          else if length s > MAX_QUERY_LEN then Inl (validation_error ''query exceeds maximum length'')
          else if \<not> list_all name_char_ok s then
            Inl (validation_error ''query contains disallowed control characters'')
          else Inr s
      | _ \<Rightarrow> Inl (validation_error ''query must be a string''))"

text \<open>The loop over the pairs of the compacted pattern; 63 is \<open>?\<close>.\<close>

fun pairs_ok :: "pystr \<Rightarrow> bool" where
  "pairs_ok (a # b # rest) =
     ((a = 63 \<and> b = 63 \<or> is_hex_digit a \<and> is_hex_digit b) \<and> pairs_ok rest)"
| "pairs_ok rest = True"

definition validate_byte_pattern :: "pyval \<Rightarrow> exc + pystr" where
  "validate_byte_pattern v =
     (case v of
        PyStr s \<Rightarrow>
          if length s > MAX_QUERY_LEN then
            Inl (validation_error ''byte pattern exceeds maximum length'')
          else
            (let compact = filter (\<lambda>c. c \<noteq> 32) s in
             if compact = [] \<or> length compact mod 2 \<noteq> 0 then
               Inl (validation_error ''byte pattern must be whole bytes (pairs of hex digits)'')
             else if \<not> pairs_ok compact then
               Inl (validation_error ''byte pattern contains a non-hex, non-wildcard byte'')
             else Inr s)
      | _ \<Rightarrow> Inl (validation_error ''byte pattern must be a string''))"

definition validate_write_name :: "pyval \<Rightarrow> exc + pystr" where
  "validate_write_name v =
     chain (validate_name v) (\<lambda>s.
       if \<not> write_name_lead (hd s) then
         Inl (validation_error ''name must begin with a letter or underscore'')
       else if \<not> list_all write_name_rest (tl s) then
         Inl (validation_error ''name contains characters outside the identifier allow-list'')
       else Inr s)"

definition validate_target_ref :: "pyval \<Rightarrow> exc + pystr" where
  "validate_target_ref = validate_name"

definition validate_comment_text :: "pyval \<Rightarrow> exc + pyval" where
  "validate_comment_text v =
     (case v of
        PyStr s \<Rightarrow>
          if s = [] then Inl (validation_error ''comment text must not be empty'')
          else if length s > MAX_COMMENT_LEN then
            Inl (limit_error ''comment text exceeds the maximum length'')
          else Inr (u_value (wrap v BINARY False None []))
      | _ \<Rightarrow> Inl (validation_error ''comment text must be a string''))"

definition validate_calling_convention :: "pyval \<Rightarrow> exc + pyval" where
  "validate_calling_convention v =
     (case v of
        PyNone \<Rightarrow> Inr PyNone
      | PyStr s \<Rightarrow>
          if s \<notin> set CALLING_CONVENTIONS then
            Inl (validation_error ''calling convention is not in the allow-list'')
          else Inr v
      | _ \<Rightarrow> Inl (validation_error ''calling convention must be a string''))"

subsection \<open>Type references, signatures, composites\<close>

record TypeRef =
  ref_base :: "pystr option"
  ref_named :: "pystr option"
  pointer_levels :: pyval
  array_len :: "pyval option"

record ParamSpec =
  param_name :: pystr
  param_type :: TypeRef

record SetFunctionSignatureIn =
  sig_function :: pystr
  sig_return_type :: TypeRef
  sig_parameters :: "ParamSpec list"
  sig_calling_convention :: "pystr option"

record FieldSpec =
  field_name :: pystr
  field_type :: TypeRef
  field_offset :: "pyval option"

datatype composite_kind = Struct | Union

record CompositeSpec =
  spec_name :: pystr
  spec_kind :: composite_kind
  spec_fields :: "FieldSpec list"

definition opt_str :: "pystr option \<Rightarrow> pyval" where
  "opt_str s = (case s of None \<Rightarrow> PyNone | Some t \<Rightarrow> PyStr t)"

definition validate_type_ref :: "TypeRef \<Rightarrow> exc + unit" where
  "validate_type_ref ref =
     (if (ref_base ref = None) = (ref_named ref = None) then
        Inl (validation_error ''type reference must set exactly one of base/named'')
      else if (case ref_base ref of None \<Rightarrow> False | Some b \<Rightarrow> b \<notin> set BASE_TYPE_VOCAB) then
        Inl (validation_error ''type reference base is not in the allow-list'')
      else
        chain (case ref_named ref of None \<Rightarrow> Inr [] | Some n \<Rightarrow> validate_write_name (PyStr n)) (\<lambda>_.
        if \<not> is_int (pointer_levels ref) \<or> is_bool (pointer_levels ref) then
          Inl (validation_error ''pointer depth must be an integer'')
        else if int_of (pointer_levels ref) < 0 \<or> int_of (pointer_levels ref) > MAX_POINTER_DEPTH then
          Inl (validation_error ''pointer depth is out of range'')
        else
          (case array_len ref of
             None \<Rightarrow> Inr ()
           | Some n \<Rightarrow>
               if \<not> is_int n \<or> is_bool n then
                 Inl (validation_error ''array length must be an integer'')
               else if int_of n < 1 \<or> int_of n > MAX_ARRAY_LEN then
                 Inl (validation_error ''array length is out of range'')
               else Inr ())))"

definition validate_signature :: "SetFunctionSignatureIn \<Rightarrow> exc + unit" where
  "validate_signature s =
     chain (validate_name (PyStr (sig_function s))) (\<lambda>_.
     if length (sig_parameters s) > MAX_PARAMS then
       Inl (limit_error ''parameter count exceeds the maximum'')
     else
       chain (validate_type_ref (sig_return_type s)) (\<lambda>_.
       chain (for_each (\<lambda>p. chain (validate_write_name (PyStr (param_name p)))
                              (\<lambda>_. validate_type_ref (param_type p))) (sig_parameters s)) (\<lambda>_.
       chain (validate_calling_convention (opt_str (sig_calling_convention s))) (\<lambda>_. Inr ()))))"

definition validate_field_spec :: "FieldSpec \<Rightarrow> exc + unit" where
  "validate_field_spec f =
     chain (validate_write_name (PyStr (field_name f))) (\<lambda>_.
     chain (validate_type_ref (field_type f)) (\<lambda>_.
     (case field_offset f of
        None \<Rightarrow> Inr ()
      | Some off \<Rightarrow>
          if \<not> is_int off \<or> is_bool off then
            Inl (validation_error ''field offset must be an integer'')
          else if int_of off < 0 \<or> int_of off \<ge> MAX_COMPOSITE_SIZE then
            Inl (validation_error ''field offset is out of range'')
          else Inr ())))"

text \<open>\<open>ref.pointer_levels == 0\<close>, as Python compares.\<close>

fun py_is_zero :: "pyval \<Rightarrow> bool" where
  "py_is_zero (PyInt i) = (i = 0)"
| "py_is_zero (PyBool b) = (\<not> b)"
| "py_is_zero (PyFloat r) = (r = 0)"
| "py_is_zero _ = False"

text \<open>The loop over the members, with the names seen so far.\<close>

fun validate_members :: "pystr \<Rightarrow> composite_kind \<Rightarrow> pystr list \<Rightarrow> FieldSpec list \<Rightarrow> exc + unit" where
  "validate_members name kind seen [] = Inr ()"
| "validate_members name kind seen (f # fs) =
     chain (validate_field_spec f) (\<lambda>_.
     if field_name f \<in> set seen then
       Inl (validation_error ''composite members must have unique names'')
     else if ref_named (field_type f) = Some name \<and> py_is_zero (pointer_levels (field_type f)) then
       Inl (validation_error ''a composite member may not embed the composite by value'')
     else if kind = Union \<and> field_offset f \<noteq> None then
       Inl (validation_error ''a union member may not carry an offset'')
     else validate_members name kind (field_name f # seen) fs)"

definition validate_composite :: "pystr \<Rightarrow> FieldSpec list \<Rightarrow> composite_kind \<Rightarrow> exc + unit" where
  "validate_composite name members kind =
     chain (validate_write_name (PyStr name)) (\<lambda>_.
     if length members < 1 then
       Inl (validation_error ''a composite must have at least one member'')
     else if length members > MAX_FIELDS then
       Inl (limit_error ''member count exceeds the maximum'')
     else validate_members name kind [] members)"

subsection \<open>The by-value cycle detector\<close>

definition by_value :: "pystr list \<Rightarrow> FieldSpec \<Rightarrow> pystr option" where
  "by_value batch_names f =
     (case ref_named (field_type f) of
        None \<Rightarrow> None
      | Some n \<Rightarrow> if n \<in> set batch_names \<and> py_is_zero (pointer_levels (field_type f)) then Some n else None)"

fun targets_of :: "pystr list \<Rightarrow> FieldSpec list \<Rightarrow> pystr list \<Rightarrow> pystr list" where
  "targets_of batch_names [] targets = targets"
| "targets_of batch_names (f # fs) targets =
     targets_of batch_names fs
       (case by_value batch_names f of
          None \<Rightarrow> targets
        | Some n \<Rightarrow> if n \<in> set targets then targets else targets @ [n])"

definition adjacency :: "CompositeSpec list \<Rightarrow> (pystr, pystr list) dict" where
  "adjacency types =
     fold (\<lambda>spec adj. dict_set (spec_name spec)
             (targets_of (map spec_name types) (spec_fields spec) []) adj) types []"

datatype colour = White | Grey | Black

definition cycle_error :: exc where
  "cycle_error = validation_error ''a composite batch may not contain a by-value cycle''"

text \<open>The loop over the successors of a node just turned grey; the stack has its top first.\<close>

fun push_targets ::
  "(pystr, colour) dict \<Rightarrow> pystr list \<Rightarrow> (pystr \<times> bool) list \<Rightarrow> exc + (pystr \<times> bool) list" where
  "push_targets col [] stack = Inr stack"
| "push_targets col (t # ts) stack =
     (case dict_get col t of
        None \<Rightarrow> Inl KeyError
      | Some Grey \<Rightarrow> Inl cycle_error
      | Some White \<Rightarrow> push_targets col ts ((t, False) # stack)
      | Some Black \<Rightarrow> push_targets col ts stack)"

definition white_count :: "(pystr, colour) dict \<Rightarrow> nat" where
  "white_count col = dict_count (\<lambda>c. c = White) col"

lemma white_count_mono: "c \<noteq> White \<Longrightarrow> white_count (dict_set n c col) \<le> white_count col"
  using dict_count_set_le [of "\<lambda>c. c = White" n c col] by (simp add: white_count_def)

lemma white_count_less:
  "dict_get col n = Some White \<Longrightarrow> c \<noteq> White \<Longrightarrow> white_count (dict_set n c col) < white_count col"
proof (induction col)
  case (Cons kv col)
  then show ?case by (cases kv) (auto simp: white_count_def dict_count_def split: if_splits)
qed simp

function dfs ::
  "(pystr, pystr list) dict \<Rightarrow> (pystr \<times> bool) list \<Rightarrow> (pystr, colour) dict \<Rightarrow>
   exc + (pystr, colour) dict" where
  "dfs adj [] col = Inr col"
| "dfs adj ((node, True) # stack) col = dfs adj stack (dict_set node Black col)"
| "dfs adj ((node, False) # stack) col =
     (case dict_get col node of
        None \<Rightarrow> Inl KeyError
      | Some White \<Rightarrow>
          (case dict_get adj node of
             None \<Rightarrow> Inl KeyError
           | Some targets \<Rightarrow>
               (case push_targets (dict_set node Grey col) targets ((node, True) # stack) of
                  Inl e \<Rightarrow> Inl e
                | Inr stack' \<Rightarrow> dfs adj stack' (dict_set node Grey col)))
      | Some _ \<Rightarrow> dfs adj stack col)"
  by pat_completeness auto
termination
  by (relation "measures [\<lambda>(adj, stack, col). white_count col, \<lambda>(adj, stack, col). length stack]")
     (auto simp: white_count_less order.order_iff_strict [symmetric] white_count_mono)

text \<open>The outer loop over the starts.\<close>

fun detect_from ::
  "(pystr, pystr list) dict \<Rightarrow> pystr list \<Rightarrow> (pystr, colour) dict \<Rightarrow> exc + unit" where
  "detect_from adj [] col = Inr ()"
| "detect_from adj (start # starts) col =
     (case dict_get col start of
        None \<Rightarrow> Inl KeyError
      | Some White \<Rightarrow> chain (dfs adj [(start, False)] col) (detect_from adj starts)
      | Some _ \<Rightarrow> detect_from adj starts col)"

definition detect_by_value_cycle :: "CompositeSpec list \<Rightarrow> exc + unit" where
  "detect_by_value_cycle types =
     (let adj = adjacency types
      in detect_from adj (dict_keys adj) (map (\<lambda>(k, _). (k, White)) adj))"

fun validate_each_type :: "pystr list \<Rightarrow> CompositeSpec list \<Rightarrow> exc + unit" where
  "validate_each_type seen [] = Inr ()"
| "validate_each_type seen (spec # rest) =
     chain (validate_composite (spec_name spec) (spec_fields spec) (spec_kind spec)) (\<lambda>_.
     if spec_name spec \<in> set seen then
       Inl (validation_error ''composite types in a batch must have unique names'')
     else validate_each_type (spec_name spec # seen) rest)"

definition validate_types_batch :: "CompositeSpec list \<Rightarrow> exc + unit" where
  "validate_types_batch types =
     (if length types < 1 then
        Inl (validation_error ''a type batch must define at least one composite'')
      else if length types > MAX_TYPES_PER_BATCH then
        Inl (limit_error ''type-batch size exceeds the maximum'')
      else chain (validate_each_type [] types) (\<lambda>_. detect_by_value_cycle types))"

subsection \<open>Annotation documents\<close>

text \<open>
  The entry variants of the discriminated union, with the fields the validators read. An entry that
  mirrors a tool's payload is projected field for field, so it carries that payload here.
\<close>

datatype Entry =
    RenameFunctionEntry pystr pystr
  | RenameSymbolEntry pystr pystr
  | RenameLocalVariableEntry pystr pystr pystr
  | RenameParameterEntry pystr pystr pystr
  | SetCommentEntry pystr pystr "pystr option"
  | SetFunctionSignatureEntry SetFunctionSignatureIn
  | ApplyDataTypeEntry pystr TypeRef bool
  | DefineTypesEntry "CompositeSpec list"
  | DefineStructEntry pystr "FieldSpec list" bool
  | DefineUnionEntry pystr "FieldSpec list"

record AnnotationDocument =
  schema_version :: int
  doc_sha256 :: pystr
  entries :: "Entry list"

abbreviation checked :: "exc + 'a \<Rightarrow> exc + unit" where
  "checked r \<equiv> chain r (\<lambda>_. Inr ())"

fun validate_entry :: "Entry \<Rightarrow> exc + unit" where
  "validate_entry (RenameFunctionEntry f n) =
     chain (validate_name (PyStr f)) (\<lambda>_. checked (validate_write_name (PyStr n)))"
| "validate_entry (RenameSymbolEntry i n) =
     chain (validate_name (PyStr i)) (\<lambda>_. checked (validate_write_name (PyStr n)))"
| "validate_entry (RenameLocalVariableEntry f v n) =
     chain (validate_name (PyStr f)) (\<lambda>_. chain (validate_target_ref (PyStr v))
       (\<lambda>_. checked (validate_write_name (PyStr n))))"
| "validate_entry (RenameParameterEntry f p n) =
     chain (validate_name (PyStr f)) (\<lambda>_. chain (validate_target_ref (PyStr p))
       (\<lambda>_. checked (validate_write_name (PyStr n))))"
| "validate_entry (SetCommentEntry a ct t) =
     chain (parse_address (PyStr a)) (\<lambda>_.
       case t of None \<Rightarrow> Inr () | Some s \<Rightarrow> checked (validate_comment_text (PyStr s)))"
| "validate_entry (SetFunctionSignatureEntry s) = validate_signature s"
| "validate_entry (ApplyDataTypeEntry a ref clear) =
     chain (parse_address (PyStr a)) (\<lambda>_. validate_type_ref ref)"
| "validate_entry (DefineTypesEntry types) = validate_types_batch types"
| "validate_entry (DefineStructEntry n fs packed) = validate_composite n fs Struct"
| "validate_entry (DefineUnionEntry n fs) = validate_composite n fs Union"

definition validate_annotation_document :: "AnnotationDocument \<Rightarrow> exc + unit" where
  "validate_annotation_document doc =
     (if schema_version doc \<notin> set SUPPORTED_ANNOTATION_SCHEMA_VERSIONS then
        Inl (validation_error ''unsupported annotation document schema version'')
      else if length (doc_sha256 doc) \<noteq> 64 \<or> \<not> list_all is_hex_digit (doc_sha256 doc) then
        Inl (validation_error ''binary hash binding is missing or malformed'')
      else if length (entries doc) > MAX_ANNOTATION_ENTRIES then
        Inl (limit_error ''annotation entry count exceeds the maximum'')
      else for_each validate_entry (entries doc))"

end
