(* ===== verification/Validation_Props.thy ===== *)
theory Validation_Props
  imports Validation
begin

text \<open>
  Facts about the boundary validators: the iterative three-colour depth-first search rejects a batch
  exactly when its by-value graph has a cycle, and what an accepted address, range, name, comment,
  batch or document looks like.
\<close>

subsection \<open>The search as an invariant on stack and colours\<close>

definition edges :: "(pystr, pystr list) dict \<Rightarrow> (pystr \<times> pystr) set" where
  "edges adj = {(a, b). \<exists>ts. dict_get adj a = Some ts \<and> b \<in> set ts}"

fun top_marker :: "(pystr \<times> bool) list \<Rightarrow> pystr option" where
  "top_marker [] = None"
| "top_marker ((x, True) # st) = Some x"
| "top_marker ((x, False) # st) = top_marker st"

text \<open>Every entry was pushed as a successor of the nearest grey node below it.\<close>

fun path_ok :: "(pystr \<times> pystr) set \<Rightarrow> (pystr \<times> bool) list \<Rightarrow> bool" where
  "path_ok E [] = True"
| "path_ok E ((x, b) # st) =
     (path_ok E st \<and> (case top_marker st of None \<Rightarrow> True | Some m \<Rightarrow> (m, x) \<in> E))"

text \<open>An entry still to be visited has no marker of its node below it.\<close>

fun fresh_entries :: "(pystr \<times> bool) list \<Rightarrow> bool" where
  "fresh_entries [] = True"
| "fresh_entries ((x, b) # st) = (fresh_entries st \<and> (b \<or> (x, True) \<notin> set st))"

definition above :: "pystr \<Rightarrow> (pystr \<times> bool) list \<Rightarrow> pystr set" where
  "above n st = fst ` set (takeWhile (\<lambda>e. e \<noteq> (n, True)) st)"

definition black_done :: "(pystr \<times> pystr) set \<Rightarrow> (pystr, colour) dict \<Rightarrow> bool" where
  "black_done E col \<longleftrightarrow>
     (\<forall>n t. dict_get col n = Some Black \<and> (n, t) \<in> E \<longrightarrow> dict_get col t = Some Black) \<and>
     (\<forall>n. dict_get col n = Some Black \<longrightarrow> (n, n) \<notin> E\<^sup>+)"

definition same_keys :: "(pystr, pystr list) dict \<Rightarrow> (pystr, colour) dict \<Rightarrow> bool" where
  "same_keys adj col \<longleftrightarrow> (\<forall>n. dict_get col n = None \<longleftrightarrow> dict_get adj n = None)"

definition dfs_inv :: "(pystr, pystr list) dict \<Rightarrow> (pystr \<times> bool) list \<Rightarrow> (pystr, colour) dict \<Rightarrow> bool" where
  "dfs_inv adj st col \<longleftrightarrow>
     same_keys adj col \<and> (\<forall>e \<in> set st. dict_get adj (fst e) \<noteq> None) \<and>
     (\<forall>n. (n, True) \<in> set st \<longleftrightarrow> dict_get col n = Some Grey) \<and>
     distinct (map fst (filter snd st)) \<and> path_ok (edges adj) st \<and> fresh_entries st \<and>
     (\<forall>n t. dict_get col n = Some Grey \<and> (n, t) \<in> edges adj \<longrightarrow>
        dict_get col t = Some Black \<or> t \<in> above n st) \<and>
     black_done (edges adj) col"

lemma marker_reaches:
  "path_ok E ((x, b) # st) \<Longrightarrow> (m, True) \<in> set st \<Longrightarrow> (m, x) \<in> E\<^sup>+"
proof (induction st arbitrary: x b)
  case (Cons e st)
  obtain y c where e: "e = (y, c)" by (cases e)
  show ?case
  proof (cases c)
    case True
    then have yx: "(y, x) \<in> E" using Cons.prems(1) by (simp add: e)
    show ?thesis
    proof (cases "m = y")
      case False
      with Cons.prems(2) have "(m, True) \<in> set st" by (simp add: e)
      moreover have "path_ok E ((y, True) # st)" using Cons.prems(1) True by (simp add: e)
      ultimately have "(m, y) \<in> E\<^sup>+" using Cons.IH by blast
      with yx show ?thesis by simp
    qed (use yx in blast)
  next
    case False
    then have "path_ok E ((x, b) # st)" "(m, True) \<in> set st"
      using Cons.prems by (auto simp: e)
    then show ?thesis by (rule Cons.IH)
  qed
qed simp

lemma above_Cons: "above n (e # st) = (if e = (n, True) then {} else insert (fst e) (above n st))"
  by (auto simp: above_def)

lemma dfs_invD:
  assumes "dfs_inv adj st col"
  shows "same_keys adj col" "\<And>e. e \<in> set st \<Longrightarrow> dict_get adj (fst e) \<noteq> None"
    "\<And>n. (n, True) \<in> set st \<longleftrightarrow> dict_get col n = Some Grey"
    "distinct (map fst (filter snd st))" "path_ok (edges adj) st" "fresh_entries st"
    "\<And>n t. dict_get col n = Some Grey \<Longrightarrow> (n, t) \<in> edges adj \<Longrightarrow> dict_get col t = Some Black \<or> t \<in> above n st"
    "black_done (edges adj) col"
  using assms unfolding dfs_inv_def by blast+

lemma dfs_invI:
  assumes "same_keys adj col" "\<And>e. e \<in> set st \<Longrightarrow> dict_get adj (fst e) \<noteq> None"
    "\<And>n. (n, True) \<in> set st \<longleftrightarrow> dict_get col n = Some Grey"
    "distinct (map fst (filter snd st))" "path_ok (edges adj) st" "fresh_entries st"
    "\<And>n t. dict_get col n = Some Grey \<Longrightarrow> (n, t) \<in> edges adj \<Longrightarrow> dict_get col t = Some Black \<or> t \<in> above n st"
    "black_done (edges adj) col"
  shows "dfs_inv adj st col"
  using assms unfolding dfs_inv_def by blast

lemma black_reaches_black:
  assumes "black_done E col" and "(n, t) \<in> E\<^sup>+" and "dict_get col n = Some Black"
  shows "dict_get col t = Some Black"
  using assms(2,3) by (induction rule: trancl_induct) (use assms(1) in \<open>auto simp: black_done_def\<close>)

lemma same_keys_set:
  "same_keys adj col \<Longrightarrow> dict_get col n = Some c \<Longrightarrow> same_keys adj (dict_set n c' col)"
  unfolding same_keys_def dict_get_set by (metis option.distinct(1))

lemma dfs_leave:
  assumes inv: "dfs_inv adj ((node, True) # st) col"
  shows "dfs_inv adj st (dict_set node Black col)"
proof -
  let ?E = "edges adj" and ?col = "dict_set node Black col"
  note D = dfs_invD [OF inv]
  have grey: "dict_get col node = Some Grey" using D(3) [of node] by simp
  have succ: "dict_get col t = Some Black" if "(node, t) \<in> ?E" for t
    using D(7) [OF grey that] by (simp add: above_Cons)
  have "(node, node) \<notin> ?E\<^sup>+"
  proof
    assume "(node, node) \<in> ?E\<^sup>+"
    then obtain t where "(node, t) \<in> ?E" "t = node \<or> (t, node) \<in> ?E\<^sup>+" by (metis tranclD rtranclD)
    with succ black_reaches_black [OF D(8)] grey show False by force
  qed
  then have done': "black_done ?E ?col"
    using D(8) succ by (auto simp: black_done_def dict_simps)
  have gone: "(node, True) \<notin> set st" using D(4) by force
  show ?thesis
  proof (rule dfs_invI)
    show "same_keys adj ?col" using D(1) grey by (rule same_keys_set)
    show "(n, True) \<in> set st \<longleftrightarrow> dict_get ?col n = Some Grey" for n
      using D(3) [of n] gone by (auto simp: dict_simps)
    show "dict_get ?col t = Some Black \<or> t \<in> above n st"
      if "dict_get ?col n = Some Grey" "(n, t) \<in> ?E" for n t
      using that D(7) [of n t] by (auto simp: dict_simps above_Cons split: if_splits)
  qed (use D(2,4-6) done' in auto)
qed

lemma dfs_skip:
  assumes inv: "dfs_inv adj ((node, False) # st) col" and "dict_get col node \<noteq> Some White"
  shows "dfs_inv adj st col" and "dict_get col node = Some Black"
proof -
  note D = dfs_invD [OF inv]
  have "dict_get col node \<noteq> Some Grey" using D(3) [of node] D(6) by simp
  moreover have "dict_get col node \<noteq> None" using D(1) D(2) [of "(node, False)"] by (simp add: same_keys_def)
  ultimately show b: "dict_get col node = Some Black" using assms(2) by (metis colour.exhaust option.exhaust)
  show "dfs_inv adj st col"
  proof (rule dfs_invI)
    show "(n, True) \<in> set st \<longleftrightarrow> dict_get col n = Some Grey" for n using D(3) [of n] by simp
    show "dict_get col t = Some Black \<or> t \<in> above n st"
      if "dict_get col n = Some Grey" "(n, t) \<in> edges adj" for n t
      using D(7) [OF that] b by (auto simp: above_Cons)
  qed (use D(1,2,4-6,8) in auto)
qed

lemma push_targets_Inr:
  "push_targets col ts st = Inr st' \<Longrightarrow>
   st' = map (\<lambda>t. (t, False)) (rev (filter (\<lambda>t. dict_get col t = Some White) ts)) @ st \<and>
   (\<forall>t \<in> set ts. dict_get col t = Some White \<or> dict_get col t = Some Black)"
proof (induction ts arbitrary: st)
  case (Cons t ts)
  then show ?case by (cases "dict_get col t") (auto split: colour.splits)
qed simp

lemma push_targets_Inl:
  "push_targets col ts st = Inl e \<Longrightarrow> \<forall>t \<in> set ts. dict_get col t \<noteq> None \<Longrightarrow>
   e = cycle_error \<and> (\<exists>t \<in> set ts. dict_get col t = Some Grey)"
proof (induction ts arbitrary: st)
  case (Cons t ts)
  then show ?case by (cases "dict_get col t") (auto split: colour.splits)
qed simp

lemma top_marker_False [simp]: "top_marker (map (\<lambda>t. (t, False)) us @ st) = top_marker st"
  by (induction us) simp_all

lemma path_ok_push:
  "path_ok E (map (\<lambda>t. (t, False)) us @ (n, True) # st) \<longleftrightarrow>
   path_ok E ((n, True) # st) \<and> (\<forall>u \<in> set us. (n, u) \<in> E)"
  by (induction us) auto

lemma fresh_push:
  "fresh_entries (map (\<lambda>t. (t, False)) us @ st) \<longleftrightarrow> fresh_entries st \<and> (\<forall>u \<in> set us. (u, True) \<notin> set st)"
  by (induction us) auto

lemma above_push:
  "above n (map (\<lambda>t. (t, False)) us @ st) = set us \<union> above n st"
  by (induction us) (simp_all add: above_Cons)

lemma dfs_visit:
  assumes inv: "dfs_inv adj ((node, False) # st) col" and white: "dict_get col node = Some White"
    and ts: "dict_get adj node = Some ts"
    and push: "push_targets (dict_set node Grey col) ts ((node, True) # st) = Inr st'"
  shows "dfs_inv adj st' (dict_set node Grey col)"
proof -
  let ?col = "dict_set node Grey col"
  let ?us = "rev (filter (\<lambda>t. dict_get ?col t = Some White) ts)"
  note D = dfs_invD [OF inv] and P = push_targets_Inr [OF push]
  have st': "st' = map (\<lambda>t. (t, False)) ?us @ (node, True) # st" using P by blast
  have E: "(node, t) \<in> edges adj \<longleftrightarrow> t \<in> set ts" for t using ts by (simp add: edges_def)
  have notin: "(node, True) \<notin> set st" using D(6) by simp
  have us: "dict_get col u = Some White \<and> u \<noteq> node \<and> u \<in> set ts" if "u \<in> set ?us" for u
    using that by (auto simp: dict_simps split: if_splits)
  show ?thesis unfolding st'
  proof (rule dfs_invI)
    show "same_keys adj ?col" using D(1) white by (rule same_keys_set)
    show "dict_get adj (fst e) \<noteq> None" if e: "e \<in> set (map (\<lambda>t. (t, False)) ?us @ (node, True) # st)" for e
    proof (cases "e \<in> set st")
      case False
      then consider u where "u \<in> set ?us" "e = (u, False)" | "e = (node, True)" using e by auto
      then have "dict_get col (fst e) \<noteq> None" by cases (use us white in \<open>simp_all del: set_rev set_filter\<close>)
      then show ?thesis using D(1) unfolding same_keys_def by metis
    qed (use D(2) in simp)
    show "(n, True) \<in> set (map (\<lambda>t. (t, False)) ?us @ (node, True) # st) \<longleftrightarrow> dict_get ?col n = Some Grey" for n
      using D(3) [of n] by (auto simp: dict_simps)
    show "distinct (map fst (filter snd (map (\<lambda>t. (t, False)) ?us @ (node, True) # st)))"
      using D(4) notin by (auto simp: filter_map comp_def)
    show "path_ok (edges adj) (map (\<lambda>t. (t, False)) ?us @ (node, True) # st)"
      unfolding path_ok_push using D(5) us E by auto
    show "fresh_entries (map (\<lambda>t. (t, False)) ?us @ (node, True) # st)"
      unfolding fresh_push
    proof
      show "fresh_entries ((node, True) # st)" using D(6) by simp
      show "\<forall>u \<in> set ?us. (u, True) \<notin> set ((node, True) # st)"
      proof
        fix u assume "u \<in> set ?us"
        from us [OF this] show "(u, True) \<notin> set ((node, True) # st)" using D(3) [of u] by simp
      qed
    qed
    show "dict_get ?col t = Some Black \<or> t \<in> above n (map (\<lambda>t. (t, False)) ?us @ (node, True) # st)"
      if "dict_get ?col n = Some Grey" "(n, t) \<in> edges adj" for n t
    proof (cases "n = node")
      case True
      then show ?thesis using that(2) P E unfolding above_push by auto
    next
      case False
      then have "dict_get col t = Some Black \<or> t \<in> above n ((node, False) # st)"
        using that D(7) [of n t] by (simp add: dict_simps)
      with False white show ?thesis unfolding above_push by (auto simp: above_Cons dict_simps)
    qed
    show "black_done (edges adj) ?col"
      using D(8) white by (auto simp: black_done_def dict_simps)
  qed
qed

text \<open>A grey successor closes a cycle: its marker is below the node on the stack.\<close>

lemma dfs_cycle:
  assumes inv: "dfs_inv adj ((node, False) # st) col" and ts: "dict_get adj node = Some ts"
    and t: "t \<in> set ts" "dict_get (dict_set node Grey col) t = Some Grey"
  shows "(node, node) \<in> (edges adj)\<^sup>+"
proof (cases "t = node")
  case True
  then show ?thesis using ts t(1) by (auto simp: edges_def intro!: r_into_trancl)
next
  case False
  note D = dfs_invD [OF inv]
  have "(node, t) \<in> edges adj" using ts t(1) by (simp add: edges_def)
  moreover have "(t, True) \<in> set st" using False t(2) D(3) [of t] by (simp add: dict_simps)
  then have "(t, node) \<in> (edges adj)\<^sup>+" using marker_reaches [OF D(5)] by blast
  ultimately show ?thesis by (rule trancl_into_trancl2)
qed

definition closed :: "(pystr, pystr list) dict \<Rightarrow> bool" where
  "closed adj \<longleftrightarrow> (\<forall>n ts. dict_get adj n = Some ts \<longrightarrow> (\<forall>t \<in> set ts. dict_get adj t \<noteq> None))"

definition dfs_post ::
  "(pystr, pystr list) dict \<Rightarrow> (pystr \<times> bool) list \<Rightarrow> (pystr, colour) dict \<Rightarrow>
   exc + (pystr, colour) dict \<Rightarrow> bool" where
  "dfs_post adj st col r \<longleftrightarrow>
     (case r of
        Inl e \<Rightarrow> e = cycle_error \<and> (\<exists>n. (n, n) \<in> (edges adj)\<^sup>+)
      | Inr col' \<Rightarrow> dfs_inv adj [] col' \<and>
          (\<forall>n. dict_get col n = Some Black \<longrightarrow> dict_get col' n = Some Black) \<and>
          (\<forall>e \<in> set st. dict_get col' (fst e) = Some Black))"

lemma dfs_correct: "dfs_inv adj st col \<Longrightarrow> closed adj \<Longrightarrow> dfs_post adj st col (dfs adj st col)"
proof (induction adj st col rule: dfs.induct)
  case (1 adj col)
  then show ?case by (simp add: dfs_post_def)
next
  case (2 adj node st col)
  have "dfs_post adj st (dict_set node Black col) (dfs adj st (dict_set node Black col))"
    using 2 dfs_leave by blast
  then show ?case by (auto simp: dfs_post_def dict_simps split: sum.splits)
next
  case (3 adj node st col)
  note inv = "3.prems"(1)
  note D = dfs_invD [OF inv]
  obtain ts where ts: "dict_get adj node = Some ts" using D(2) [of "(node, False)"] by auto
  have keys: "dict_get (dict_set node Grey col) t \<noteq> None" if "t \<in> set ts" for t
    using "3.prems"(2) ts that D(1) unfolding closed_def same_keys_def dict_get_set
    by (metis option.distinct(1))
  show ?case
  proof (cases "dict_get col node = Some White")
    case white: True
    show ?thesis
    proof (cases "push_targets (dict_set node Grey col) ts ((node, True) # st)")
      case (Inl e)
      then have "e = cycle_error" "\<exists>t \<in> set ts. dict_get (dict_set node Grey col) t = Some Grey"
        using push_targets_Inl [OF Inl] keys by auto
      then show ?thesis using dfs_cycle [OF inv ts] white ts Inl by (auto simp: dfs_post_def)
    next
      case (Inr st')
      have "dfs_post adj st' (dict_set node Grey col) (dfs adj st' (dict_set node Grey col))"
        using "3.IH"(1) [OF white refl ts Inr] dfs_visit [OF inv white ts Inr] "3.prems"(2) by blast
      moreover have "set ((node, True) # st) \<subseteq> set st'" using push_targets_Inr [OF Inr] by auto
      moreover have "dict_get (dict_set node Grey col) n = Some Black" if "dict_get col n = Some Black" for n
        using that white by (auto simp: dict_simps)
      ultimately show ?thesis using white ts Inr by (auto simp: dfs_post_def split: sum.splits)
    qed
  next
    case False
    note skip = dfs_skip [OF inv False]
    have "dfs_post adj st col (dfs adj st col)" using "3.IH" skip "3.prems"(2) by simp
    then show ?thesis using skip(2) by (auto simp: dfs_post_def split: sum.splits)
  qed
qed

lemma dfs_inv_start:
  assumes "dfs_inv adj [] col" and "dict_get adj n \<noteq> None"
  shows "dfs_inv adj [(n, False)] col"
  using assms unfolding dfs_inv_def by (auto simp: above_def)

lemma dfs_inv_not_grey: "dfs_inv adj [] col \<Longrightarrow> dict_get col n \<noteq> Some Grey"
  by (simp add: dfs_inv_def)

definition detect_post ::
  "(pystr, pystr list) dict \<Rightarrow> pystr list \<Rightarrow> (pystr, colour) dict \<Rightarrow> exc + unit \<Rightarrow> bool" where
  "detect_post adj starts col r \<longleftrightarrow>
     (case r of
        Inl e \<Rightarrow> e = cycle_error \<and> (\<exists>n. (n, n) \<in> (edges adj)\<^sup>+)
      | Inr _ \<Rightarrow> \<exists>col'. dfs_inv adj [] col' \<and>
          (\<forall>n. dict_get col n = Some Black \<longrightarrow> dict_get col' n = Some Black) \<and>
          (\<forall>n \<in> set starts. dict_get col' n = Some Black))"

lemma detect_post_Cons:
  assumes "detect_post adj starts col' r" and "dict_get col' n = Some Black"
    and "\<And>m. dict_get col m = Some Black \<Longrightarrow> dict_get col' m = Some Black"
  shows "detect_post adj (n # starts) col r"
proof (cases r)
  case (Inr u)
  then obtain c where "dfs_inv adj [] c" "\<forall>m. dict_get col' m = Some Black \<longrightarrow> dict_get c m = Some Black"
    "\<forall>m \<in> set starts. dict_get c m = Some Black"
    using assms(1) unfolding detect_post_def by auto
  then show ?thesis using assms(2,3) Inr unfolding detect_post_def by auto
qed (use assms(1) in \<open>simp add: detect_post_def\<close>)

lemma detect_from_correct:
  "dfs_inv adj [] col \<Longrightarrow> closed adj \<Longrightarrow> \<forall>n \<in> set starts. dict_get adj n \<noteq> None \<Longrightarrow>
   detect_post adj starts col (detect_from adj starts col)"
proof (induction starts arbitrary: col)
  case (Cons n starts)
  have keys: "dict_get adj n \<noteq> None" "\<forall>n \<in> set starts. dict_get adj n \<noteq> None"
    using Cons.prems(3) by simp_all
  show ?case
  proof (cases "dict_get col n = Some White")
    case True
    have post: "dfs_post adj [(n, False)] col (dfs adj [(n, False)] col)"
      using dfs_correct [OF dfs_inv_start] Cons.prems(1,2) keys(1) by blast
    show ?thesis
    proof (cases "dfs adj [(n, False)] col")
      case (Inl e)
      then show ?thesis using post True by (simp add: dfs_post_def detect_post_def)
    next
      case (Inr col1)
      with post have "dfs_inv adj [] col1" and b: "dict_get col1 n = Some Black"
        "\<And>m. dict_get col m = Some Black \<Longrightarrow> dict_get col1 m = Some Black"
        by (simp_all add: dfs_post_def)
      then have "detect_post adj starts col1 (detect_from adj starts col1)"
        using Cons.IH Cons.prems(2) keys(2) by blast
      moreover have "detect_from adj (n # starts) col = detect_from adj starts col1"
        using True Inr by (simp del: dfs.simps)
      ultimately show ?thesis using detect_post_Cons b by simp
    qed
  next
    case False
    have "dict_get col n \<noteq> None"
      using Cons.prems(1) keys(1) unfolding dfs_inv_def same_keys_def by metis
    then have b: "dict_get col n = Some Black"
      using False dfs_inv_not_grey [OF Cons.prems(1)] by (metis colour.exhaust option.exhaust)
    have "detect_post adj starts col (detect_from adj starts col)"
      using Cons.IH Cons.prems(1,2) keys(2) by blast
    then show ?thesis using detect_post_Cons b by simp
  qed
qed (auto simp: detect_post_def)

subsection \<open>The graph of a batch\<close>

text \<open>\<open>a\<close> has a member of the batch's type \<open>b\<close> that is not behind a pointer.\<close>

definition embeds :: "CompositeSpec list \<Rightarrow> (pystr \<times> pystr) set" where
  "embeds types =
     {(a, b). b \<in> spec_name ` set types \<and>
        (\<exists>s \<in> set types. spec_name s = a \<and>
           (\<exists>f \<in> set (spec_fields s). ref_named (field_type f) = Some b \<and>
              py_is_zero (pointer_levels (field_type f))))}"

lemma by_value_iff:
  "by_value ns f = Some n \<longleftrightarrow>
     ref_named (field_type f) = Some n \<and> n \<in> set ns \<and> py_is_zero (pointer_levels (field_type f))"
  by (auto simp: by_value_def split: option.splits)

lemma set_targets_of:
  "set (targets_of ns fs acc) = set acc \<union> {n. \<exists>f \<in> set fs. by_value ns f = Some n}"
  by (induction ns fs acc rule: targets_of.induct) (auto split: option.splits)

lemma dict_get_fold_set:
  "distinct (map k xs) \<Longrightarrow>
   dict_get (fold (\<lambda>x d. dict_set (k x) (v x) d) xs d) n =
     (case find (\<lambda>x. k x = n) xs of None \<Rightarrow> dict_get d n | Some x \<Rightarrow> Some (v x))"
proof (induction xs arbitrary: d)
  case (Cons x xs)
  have "n = k x \<Longrightarrow> find (\<lambda>y. k y = n) xs = None"
    using Cons.prems by (auto simp: find_None_iff image_iff)
  with Cons show ?case by (auto simp: dict_simps split: option.splits)
qed simp

lemma find_key:
  "distinct (map k xs) \<Longrightarrow> find (\<lambda>x. k x = n) xs = Some x \<longleftrightarrow> x \<in> set xs \<and> k x = n"
  by (induction xs) (auto simp: image_iff)

lemma dict_get_adjacency:
  assumes "distinct (map spec_name types)"
  shows "dict_get (adjacency types) n = Some ts \<longleftrightarrow>
    (\<exists>s \<in> set types. spec_name s = n \<and> ts = targets_of (map spec_name types) (spec_fields s) [])"
proof -
  have same: "s = s'" if "s \<in> set types" "s' \<in> set types" "spec_name s = spec_name s'" for s s'
    using assms that by (auto simp: distinct_map inj_on_def)
  show ?thesis unfolding adjacency_def dict_get_fold_set [OF assms]
    by (auto simp: find_key [OF assms] find_None_iff split: option.splits dest: same)
qed

lemma edges_adjacency:
  assumes "distinct (map spec_name types)"
  shows "edges (adjacency types) = embeds types"
proof -
  have "(a, b) \<in> edges (adjacency types) \<longleftrightarrow>
      (\<exists>s \<in> set types. spec_name s = a \<and> b \<in> set (targets_of (map spec_name types) (spec_fields s) []))"
    for a b unfolding edges_def using dict_get_adjacency [OF assms] by auto
  then have "(a, b) \<in> edges (adjacency types) \<longleftrightarrow> (a, b) \<in> embeds types" for a b
    by (auto simp: embeds_def set_targets_of by_value_iff)
  then show ?thesis by auto
qed

lemma adjacency_keys:
  assumes "distinct (map spec_name types)"
  shows "dict_get (adjacency types) n \<noteq> None \<longleftrightarrow> n \<in> spec_name ` set types"
  using dict_get_adjacency [OF assms, of n] by auto

lemma adjacency_closed: "distinct (map spec_name types) \<Longrightarrow> closed (adjacency types)"
  unfolding closed_def adjacency_keys
  by (auto simp: dict_get_adjacency set_targets_of by_value_iff)

lemma white_everywhere: "dict_get (map (\<lambda>(k, _). (k, White)) d) n = map_option (\<lambda>_. White) (dict_get d n)"
  by (induction d) auto

lemma dfs_inv_white: "dfs_inv adj [] (map (\<lambda>(k, _). (k, White)) adj)"
  by (auto simp: dfs_inv_def same_keys_def black_done_def white_everywhere)

lemma detect_by_value_cycle_cases:
  assumes "distinct (map spec_name types)"
  shows "detect_by_value_cycle types = Inl cycle_error \<and> (\<exists>n. (n, n) \<in> (embeds types)\<^sup>+) \<or>
    detect_by_value_cycle types = Inr () \<and> (\<forall>n. (n, n) \<notin> (embeds types)\<^sup>+)"
proof -
  let ?adj = "adjacency types"
  have keys: "\<forall>n \<in> set (dict_keys ?adj). dict_get ?adj n \<noteq> None"
    by (auto simp: map_of_eq_None_iff image_iff)
  have post: "detect_post ?adj (dict_keys ?adj) (map (\<lambda>(k, _). (k, White)) ?adj) (detect_by_value_cycle types)"
    unfolding detect_by_value_cycle_def Let_def
    using detect_from_correct [OF dfs_inv_white adjacency_closed [OF assms] keys] .
  show ?thesis
  proof (cases "detect_by_value_cycle types")
    case (Inl e)
    then show ?thesis using post edges_adjacency [OF assms] by (simp add: detect_post_def)
  next
    case (Inr u)
    then obtain col where inv: "dfs_inv ?adj [] col" and black: "\<forall>n \<in> set (dict_keys ?adj). dict_get col n = Some Black"
      using post by (auto simp: detect_post_def)
    have "(n, n) \<notin> (edges ?adj)\<^sup>+" for n
    proof
      assume n: "(n, n) \<in> (edges ?adj)\<^sup>+"
      then obtain t where "(n, t) \<in> edges ?adj" by (metis tranclD)
      then have "n \<in> set (dict_keys ?adj)" by (force simp: edges_def dest: map_of_SomeD)
      then show False using n black inv unfolding dfs_inv_def black_done_def by blast
    qed
    then show ?thesis using Inr edges_adjacency [OF assms] by simp
  qed
qed

subsection \<open>What an accepted value looks like\<close>

definition is_identifier :: "pystr \<Rightarrow> bool" where
  "is_identifier s \<longleftrightarrow>
     s \<noteq> [] \<and> length s \<le> MAX_NAME_LEN \<and> write_name_lead (hd s) \<and> list_all write_name_rest (tl s)"

definition type_ref_ok :: "TypeRef \<Rightarrow> bool" where
  "type_ref_ok ref \<longleftrightarrow>
     ((\<exists>b. ref_base ref = Some b \<and> ref_named ref = None \<and> b \<in> set BASE_TYPE_VOCAB) \<or>
      (\<exists>n. ref_base ref = None \<and> ref_named ref = Some n \<and> is_identifier n)) \<and>
     (\<exists>p. pointer_levels ref = PyInt p \<and> 0 \<le> p \<and> p \<le> MAX_POINTER_DEPTH) \<and>
     (\<forall>v. array_len ref = Some v \<longrightarrow> (\<exists>n. v = PyInt n \<and> 1 \<le> n \<and> n \<le> MAX_ARRAY_LEN))"

definition field_ok :: "FieldSpec \<Rightarrow> bool" where
  "field_ok f \<longleftrightarrow>
     is_identifier (field_name f) \<and> type_ref_ok (field_type f) \<and>
     (\<forall>v. field_offset f = Some v \<longrightarrow> (\<exists>n. v = PyInt n \<and> 0 \<le> n \<and> n < MAX_COMPOSITE_SIZE))"

definition embeds_self :: "pystr \<Rightarrow> FieldSpec \<Rightarrow> bool" where
  "embeds_self name f \<longleftrightarrow>
     ref_named (field_type f) = Some name \<and> py_is_zero (pointer_levels (field_type f))"

definition composite_ok :: "pystr \<Rightarrow> FieldSpec list \<Rightarrow> composite_kind \<Rightarrow> bool" where
  "composite_ok name members kind \<longleftrightarrow>
     is_identifier name \<and> 1 \<le> length members \<and> length members \<le> MAX_FIELDS \<and>
     distinct (map field_name members) \<and>
     (\<forall>f \<in> set members. field_ok f \<and> \<not> embeds_self name f \<and> (kind = Union \<longrightarrow> field_offset f = None))"

lemma rest_char_ok: "write_name_rest c \<Longrightarrow> name_char_ok c"
  by (auto simp: write_name_rest_def write_name_lead_def name_char_ok_def is_control_def UNICODE_SEPARATORS_def)

lemma write_name_PyStr: "validate_write_name (PyStr s) = Inr t \<longleftrightarrow> t = s \<and> is_identifier s"
proof -
  have "list_all name_char_ok s" if "is_identifier s"
  proof (cases s)
    case (Cons c cs)
    with that have "write_name_rest c" "list_all write_name_rest cs"
      by (simp_all add: is_identifier_def write_name_rest_def)
    then show ?thesis using Cons rest_char_ok by (auto simp: list_all_iff)
  qed simp
  then show ?thesis
    unfolding validate_write_name_def validate_name_def by (auto simp: is_identifier_def)
qed

lemma write_name_other: "\<not> is_str v \<Longrightarrow> \<exists>e. validate_write_name v = Inl e"
  by (cases v) (simp_all add: validate_write_name_def validate_name_def)

lemma int_guard: "\<not> is_int v \<or> is_bool v \<longleftrightarrow> \<not> strict_int v"
  by (auto simp: strict_int_def)

lemma int_guard': "is_bool v \<or> \<not> is_int v \<longleftrightarrow> \<not> strict_int v"
  by (auto simp: strict_int_def)

lemma type_ref_Inr: "validate_type_ref ref = Inr () \<longleftrightarrow> type_ref_ok ref"
  unfolding validate_type_ref_def type_ref_ok_def int_guard
  by (auto simp: write_name_PyStr strict_int_iff not_less not_le split: option.splits)

lemma field_spec_Inr: "validate_field_spec f = Inr () \<longleftrightarrow> field_ok f"
  unfolding validate_field_spec_def field_ok_def int_guard
  by (auto simp: write_name_PyStr type_ref_Inr strict_int_iff not_less not_le split: option.splits)

lemma members_Inr:
  "validate_members name kind seen fs = Inr () \<longleftrightarrow>
     distinct (map field_name fs) \<and> set (map field_name fs) \<inter> set seen = {} \<and>
     (\<forall>f \<in> set fs. field_ok f \<and> \<not> embeds_self name f \<and> (kind = Union \<longrightarrow> field_offset f = None))"
proof (induction fs arbitrary: seen)
  case (Cons f fs)
  have "validate_members name kind seen (f # fs) = Inr () \<longleftrightarrow>
      field_ok f \<and> field_name f \<notin> set seen \<and> \<not> embeds_self name f \<and>
      (kind = Union \<longrightarrow> field_offset f = None) \<and> validate_members name kind (field_name f # seen) fs = Inr ()"
    by (simp add: field_spec_Inr embeds_self_def)
  then show ?case unfolding Cons.IH by auto
qed simp

lemma composite_Inr: "validate_composite name members kind = Inr () \<longleftrightarrow> composite_ok name members kind"
  unfolding validate_composite_def composite_ok_def
  by (auto simp: write_name_PyStr members_Inr not_less Suc_le_eq)

lemma each_type_Inr:
  "validate_each_type seen types = Inr () \<longleftrightarrow>
     distinct (map spec_name types) \<and> set (map spec_name types) \<inter> set seen = {} \<and>
     (\<forall>s \<in> set types. composite_ok (spec_name s) (spec_fields s) (spec_kind s))"
proof (induction types arbitrary: seen)
  case (Cons s types)
  have "validate_each_type seen (s # types) = Inr () \<longleftrightarrow>
      composite_ok (spec_name s) (spec_fields s) (spec_kind s) \<and> spec_name s \<notin> set seen \<and>
      validate_each_type (spec_name s # seen) types = Inr ()"
    by (simp add: composite_Inr)
  then show ?case unfolding Cons.IH by auto
qed simp

definition batch_ok :: "CompositeSpec list \<Rightarrow> bool" where
  "batch_ok types \<longleftrightarrow>
     1 \<le> length types \<and> length types \<le> MAX_TYPES_PER_BATCH \<and> distinct (map spec_name types) \<and>
     (\<forall>s \<in> set types. composite_ok (spec_name s) (spec_fields s) (spec_kind s)) \<and>
     acyclic (embeds types)"

lemma types_batch_Inr: "validate_types_batch types = Inr () \<longleftrightarrow> batch_ok types"
proof (cases "distinct (map spec_name types)")
  case True
  have "detect_by_value_cycle types = Inr () \<longleftrightarrow> acyclic (embeds types)"
    using detect_by_value_cycle_cases [OF True] by (auto simp: acyclic_def)
  then show ?thesis
    unfolding validate_types_batch_def batch_ok_def by (auto simp: each_type_Inr not_less Suc_le_eq)
next
  case False
  then show ?thesis
    unfolding validate_types_batch_def batch_ok_def by (auto simp: each_type_Inr)
qed

text \<open>
  C33: A batch of composite definitions is accepted exactly if it has 1 to 64 types with distinct
  names, every type is well formed on its own, and no type contains itself by value through any
  chain of members: the iterative three-colour search finds precisely the cycles of the graph.
\<close>

theorem types_batch_accepts_exactly: "validate_types_batch types = Inr () \<longleftrightarrow> batch_ok types"
  by (rule types_batch_Inr)

subsection \<open>Addresses\<close>

lemma validation_error_inj:
  assumes "d \<noteq> [] \<and> length d \<le> 2048" and "d' \<noteq> [] \<and> length d' \<le> 2048"
  shows "validation_error d = validation_error d' \<longleftrightarrow> d = d'"
  using assms by (auto simp: validation_error_def new_error_def envelope_fields_ok_def ascii_def Suc_le_eq
      intro: map_injective [OF _ inj_of_char])

text \<open>The digits of an address: an optional prefix, then 1 to 16 hexadecimal digits.\<close>

definition address_digits :: "pystr \<Rightarrow> pystr \<Rightarrow> bool" where
  "address_digits s ds \<longleftrightarrow>
     (\<exists>prefix \<in> {[], ascii ''0x'', ascii ''0X''}. py_strip s = prefix @ ds) \<and>
     1 \<le> length ds \<and> length ds \<le> MAX_ADDRESS_HEX_DIGITS \<and> list_all is_hex_digit ds"

lemma digits_no_prefix:
  "list_all is_hex_digit ds \<Longrightarrow> take 2 ds \<notin> {ascii ''0x'', ascii ''0X''}"
  by (cases ds rule: remdups_adj.cases) (auto simp: ascii_def is_hex_digit_def)

lemma address_digits_unfold:
  "address_digits s ds \<longleftrightarrow>
     ds = (if take 2 (py_strip s) \<in> {ascii ''0x'', ascii ''0X''} then drop 2 (py_strip s) else py_strip s) \<and>
     1 \<le> length ds \<and> length ds \<le> MAX_ADDRESS_HEX_DIGITS \<and> list_all is_hex_digit ds"
proof -
  have prefix: "length p = 2 \<Longrightarrow> py_strip s = p @ ds \<longleftrightarrow> take 2 (py_strip s) = p \<and> ds = drop 2 (py_strip s)" for p
    by (metis append_eq_conv_conj)
  have "(\<exists>prefix \<in> {[], ascii ''0x'', ascii ''0X''}. py_strip s = prefix @ ds) \<longleftrightarrow>
      ds = py_strip s \<or> take 2 (py_strip s) \<in> {ascii ''0x'', ascii ''0X''} \<and> ds = drop 2 (py_strip s)"
    using prefix by auto
  then show ?thesis unfolding address_digits_def using digits_no_prefix [of ds] by auto
qed

lemma address_fits:
  assumes "length ds \<le> MAX_ADDRESS_HEX_DIGITS" and "list_all is_hex_digit ds"
  shows "int (hex_number ds) \<le> MAX_ADDRESS"
proof -
  have "hex_number ds < 16 ^ length ds" using assms(2) by (rule hex_number_less)
  also have "\<dots> \<le> (16::nat) ^ 16"
    using assms(1) by (intro power_increasing) (simp_all add: MAX_ADDRESS_HEX_DIGITS_def)
  finally show ?thesis by (simp add: MAX_ADDRESS_def)
qed

lemma parse_address_PyStr:
  "parse_address (PyStr s) = Inr a \<longleftrightarrow> (\<exists>ds. address_digits s ds \<and> a = int (hex_number ds))"
proof -
  define ds where
    "ds = (if take 2 (py_strip s) \<in> {ascii ''0x'', ascii ''0X''} then drop 2 (py_strip s) else py_strip s)"
  have "py_strip s = [] \<Longrightarrow> ds = []" by (simp add: ds_def)
  then show ?thesis
    unfolding parse_address_def address_digits_unfold pyval.case Let_def ds_def [symmetric]
    using address_fits [of ds] by (auto simp: Suc_le_eq)
qed

lemma parse_address_other: "\<not> is_str v \<Longrightarrow> \<exists>e. parse_address v = Inl e"
  by (cases v) (simp_all add: parse_address_def)

lemma address_range_check_dead: "parse_address v \<noteq> Inl (validation_error ''address is out of range'')"
proof (cases v)
  case (PyStr s)
  define ds where
    "ds = (if take 2 (py_strip s) \<in> {ascii ''0x'', ascii ''0X''} then drop 2 (py_strip s) else py_strip s)"
  show ?thesis
    unfolding parse_address_def PyStr pyval.case Let_def ds_def [symmetric]
    using address_fits [of ds] by (auto simp: validation_error_inj)
qed (simp_all add: parse_address_def validation_error_inj)

text \<open>Python's \<open>hex(n)\<close>.\<close>

fun hex_lower :: "nat \<Rightarrow> pystr" where
  "hex_lower n =
     (if n < 16 then [if n < 10 then 48 + n else 87 + n]
      else hex_lower (n div 16) @ [if n mod 16 < 10 then 48 + n mod 16 else 87 + n mod 16])"

declare hex_lower.simps [simp del]

definition py_hex :: "nat \<Rightarrow> pystr" where
  "py_hex n = ascii ''0x'' @ hex_lower n"

lemma hex_lower_digits: "list_all is_hex_digit (hex_lower n) \<and> hex_number (hex_lower n) = n \<and> hex_lower n \<noteq> []"
proof (induction n rule: hex_lower.induct)
  case (1 n)
  show ?case
  proof (cases "n < 16")
    case True
    then show ?thesis
      unfolding hex_lower.simps [of n] by (simp add: hex_number_def is_hex_digit_def hex_value_def)
  next
    case False
    have "n mod 16 \<le> 15" by simp
    with False 1 show ?thesis
      unfolding hex_lower.simps [of n] by (simp add: hex_number_snoc is_hex_digit_def hex_value_def)
  qed
qed

lemma length_hex_lower: "n < 16 ^ Suc k \<Longrightarrow> length (hex_lower n) \<le> Suc k"
proof (induction k arbitrary: n)
  case 0
  then show ?case by (subst hex_lower.simps) simp
next
  case (Suc k)
  then have "n div 16 < 16 ^ Suc k" by (simp add: less_mult_imp_div_less)
  with Suc.IH show ?case by (subst hex_lower.simps) simp
qed

text \<open>
  C35: \<open>parse_address\<close> accepts exactly the strings that are, after stripping whitespace, 1 to 16
  hexadecimal digits with an optional \<open>0x\<close> prefix; the result is their value, it lies in the 64-bit
  address space, and every address of that space is read back from the form \<open>hex()\<close> prints. So the
  range check after the digit check never fires.
\<close>

theorem parse_address_exact:
  "(parse_address v = Inr a \<longleftrightarrow> (\<exists>s ds. v = PyStr s \<and> address_digits s ds \<and> a = int (hex_number ds))) \<and>
   (parse_address v = Inr a \<longrightarrow> 0 \<le> a \<and> a \<le> MAX_ADDRESS) \<and>
   (\<forall>n. int n \<le> MAX_ADDRESS \<longrightarrow> parse_address (PyStr (py_hex n)) = Inr (int n)) \<and>
   parse_address v \<noteq> Inl (validation_error ''address is out of range'')"
proof (intro conjI allI impI)
  show iff: "parse_address v = Inr a \<longleftrightarrow> (\<exists>s ds. v = PyStr s \<and> address_digits s ds \<and> a = int (hex_number ds))" for a
    using parse_address_other [of v] parse_address_PyStr by (cases v) auto
  have le: "int (hex_number ds) \<le> MAX_ADDRESS" if "address_digits s ds" for s ds
    using that address_fits by (simp add: address_digits_def)
  show "0 \<le> a" "a \<le> MAX_ADDRESS" if "parse_address v = Inr a" using that iff le by auto
  show "parse_address (PyStr (py_hex n)) = Inr (int n)" if n: "int n \<le> MAX_ADDRESS" for n
  proof -
    have strip: "py_strip (py_hex n) = py_hex n"
      using hex_lower_digits [of n] hex_digit_not_space
      by (intro py_strip_id) (auto simp: py_hex_def ascii_def py_space_def list_all_iff)
    have "address_digits (py_hex n) (hex_lower n)"
      using hex_lower_digits [of n] length_hex_lower [of n 15] n unfolding address_digits_def strip
      by (auto simp: py_hex_def MAX_ADDRESS_def MAX_ADDRESS_HEX_DIGITS_def Suc_le_eq)
    then show ?thesis using hex_lower_digits [of n] by (auto simp: parse_address_PyStr)
  qed
  show "parse_address v \<noteq> Inl (validation_error ''address is out of range'')"
    by (rule address_range_check_dead)
qed

theorem parse_address_exact_witness:
  "parse_address (PyStr (py_hex 4096)) = Inr 4096 \<and> (4096::int) \<le> MAX_ADDRESS"
  using parse_address_exact [of "PyStr (py_hex 4096)" 4096] by (simp add: MAX_ADDRESS_def)

subsection \<open>Ranges, comments, documents\<close>

text \<open>
  A byte range is accepted exactly if both arguments are genuine integers, the offset is an
  address, the length is 1 to 1 MiB and the last byte is still an address; both come back unchanged.
  A length beyond the cap is reported as a limit error whenever the offset is an address.
\<close>

theorem byte_range_exact:
  "(validate_byte_range u w = Inr (off, n) \<longleftrightarrow>
      u = PyInt off \<and> w = PyInt n \<and> 0 \<le> off \<and> 1 \<le> n \<and> n \<le> MAX_READ_BYTES \<and> off + n \<le> 2 ^ 64) \<and>
   (validate_byte_range (PyInt off) (PyInt n) = Inl (limit_error ''requested byte length exceeds the maximum'') \<longleftrightarrow>
      0 \<le> off \<and> off \<le> MAX_ADDRESS \<and> MAX_READ_BYTES < n)"
proof
  show "validate_byte_range u w = Inr (off, n) \<longleftrightarrow>
      u = PyInt off \<and> w = PyInt n \<and> 0 \<le> off \<and> 1 \<le> n \<and> n \<le> MAX_READ_BYTES \<and> off + n \<le> 2 ^ 64"
    unfolding validate_byte_range_def int_guard' Let_def
    by (cases u; cases w) (auto simp: MAX_ADDRESS_def MAX_READ_BYTES_def)
  have "validation_error d \<noteq> limit_error d'" if "0 < length d" "length d \<le> 2048" "0 < length d'" "length d' \<le> 2048" for d d'
    using that by (simp add: validation_error_def limit_error_def new_error_def envelope_fields_ok_def Suc_le_eq)
  then show "validate_byte_range (PyInt off) (PyInt n) = Inl (limit_error ''requested byte length exceeds the maximum'') \<longleftrightarrow>
      0 \<le> off \<and> off \<le> MAX_ADDRESS \<and> MAX_READ_BYTES < n"
    unfolding validate_byte_range_def Let_def by (simp add: MAX_READ_BYTES_def)
qed

text \<open>A failure the boundary may report: a well-formed envelope of one of the two client-fault categories.\<close>

definition boundary_error :: "exc \<Rightarrow> bool" where
  "boundary_error e \<longleftrightarrow>
     (\<exists>env. e = GhidraMcpError env \<and> envelope_fields_ok env \<and>
        (err_type env = VALIDATION \<and> status env = Some 400 \<or>
         err_type env = LIMIT_EXCEEDED \<and> status env = Some 413))"

lemma boundary_errors [simp]:
  "0 < length d \<and> length d \<le> 2048 \<Longrightarrow> boundary_error (validation_error d)"
  "0 < length d \<and> length d \<le> 2048 \<Longrightarrow> boundary_error (limit_error d)"
  by (simp_all add: boundary_error_def validation_error_def limit_error_def new_error_def envelope_fields_ok_def Suc_le_eq)

lemma name_boundary: "validate_name v = Inl e \<Longrightarrow> boundary_error e"
  by (auto simp: validate_name_def split: pyval.splits if_splits)

lemma write_name_boundary: "validate_write_name v = Inl e \<Longrightarrow> boundary_error e"
  by (auto simp: validate_write_name_def chain_Inl_iff name_boundary split: if_splits)

lemma address_boundary: "parse_address v = Inl e \<Longrightarrow> boundary_error e"
  unfolding parse_address_def Let_def by (auto split: pyval.splits if_splits)

lemma comment_boundary: "validate_comment_text v = Inl e \<Longrightarrow> boundary_error e"
  by (auto simp: validate_comment_text_def split: pyval.splits if_splits)

lemma convention_boundary: "validate_calling_convention v = Inl e \<Longrightarrow> boundary_error e"
  by (auto simp: validate_calling_convention_def split: pyval.splits if_splits)

lemma type_ref_boundary: "validate_type_ref ref = Inl e \<Longrightarrow> boundary_error e"
  by (auto simp: validate_type_ref_def chain_Inl_iff write_name_boundary split: option.splits if_splits)

lemma field_boundary: "validate_field_spec f = Inl e \<Longrightarrow> boundary_error e"
  by (auto simp: validate_field_spec_def chain_Inl_iff write_name_boundary type_ref_boundary
      split: option.splits if_splits)

lemma members_boundary: "validate_members name kind seen fs = Inl e \<Longrightarrow> boundary_error e"
  by (induction name kind seen fs rule: validate_members.induct)
     (auto simp: chain_Inl_iff field_boundary split: if_splits)

lemma composite_boundary: "validate_composite name fs kind = Inl e \<Longrightarrow> boundary_error e"
  by (auto simp: validate_composite_def chain_Inl_iff write_name_boundary members_boundary split: if_splits)

lemma each_type_boundary: "validate_each_type seen types = Inl e \<Longrightarrow> boundary_error e"
  by (induction seen types rule: validate_each_type.induct)
     (auto simp: chain_Inl_iff composite_boundary split: if_splits)

lemma batch_boundary: "validate_types_batch types = Inl e \<Longrightarrow> boundary_error e"
  using detect_by_value_cycle_cases [of types]
  by (auto simp: validate_types_batch_def chain_Inl_iff each_type_Inr each_type_boundary cycle_error_def
      split: if_splits)

lemma signature_boundary: "validate_signature s = Inl e \<Longrightarrow> boundary_error e"
  by (auto simp: validate_signature_def chain_Inl_iff name_boundary type_ref_boundary write_name_boundary
      convention_boundary dest!: for_each_Inl split: if_splits)

lemmas boundary_rules = name_boundary write_name_boundary address_boundary comment_boundary
  convention_boundary type_ref_boundary composite_boundary batch_boundary signature_boundary

lemma entry_boundary: "validate_entry x = Inl e \<Longrightarrow> boundary_error e"
  by (cases x) (auto simp: chain_Inl_iff boundary_rules validate_target_ref_def split: option.splits)

text \<open>
  Validating an imported annotation document either accepts it or raises a well-formed envelope
  of the validation (400) or limit (413) category. In particular the dictionary lookups of the cycle
  detector cannot escape as a \<open>KeyError\<close>, whatever batch the document carries.
\<close>

theorem document_errors_are_client_faults:
  "case validate_annotation_document doc of Inl e \<Rightarrow> boundary_error e | Inr _ \<Rightarrow> True"
proof (cases "validate_annotation_document doc")
  case (Inl e)
  then have "boundary_error e"
    by (auto simp: validate_annotation_document_def entry_boundary dest!: for_each_Inl split: if_splits)
  then show ?thesis by (simp add: Inl)
qed simp

definition plain_name :: "pystr \<Rightarrow> bool" where
  "plain_name s \<longleftrightarrow> s \<noteq> [] \<and> length s \<le> MAX_NAME_LEN \<and> (\<forall>c \<in> set s. name_char_ok c)"

definition signature_ok :: "SetFunctionSignatureIn \<Rightarrow> bool" where
  "signature_ok s \<longleftrightarrow>
     plain_name (sig_function s) \<and> length (sig_parameters s) \<le> MAX_PARAMS \<and>
     type_ref_ok (sig_return_type s) \<and>
     (\<forall>p \<in> set (sig_parameters s). is_identifier (param_name p) \<and> type_ref_ok (param_type p)) \<and>
     (\<forall>c. sig_calling_convention s = Some c \<longrightarrow> c \<in> set CALLING_CONVENTIONS)"

fun entry_ok :: "Entry \<Rightarrow> bool" where
  "entry_ok (RenameFunctionEntry f n) \<longleftrightarrow> plain_name f \<and> is_identifier n"
| "entry_ok (RenameSymbolEntry i n) \<longleftrightarrow> plain_name i \<and> is_identifier n"
| "entry_ok (RenameLocalVariableEntry f v n) \<longleftrightarrow> plain_name f \<and> plain_name v \<and> is_identifier n"
| "entry_ok (RenameParameterEntry f p n) \<longleftrightarrow> plain_name f \<and> plain_name p \<and> is_identifier n"
| "entry_ok (SetCommentEntry a ct t) \<longleftrightarrow>
     (\<exists>ds. address_digits a ds) \<and> (\<forall>s. t = Some s \<longrightarrow> s \<noteq> [] \<and> length s \<le> MAX_COMMENT_LEN)"
| "entry_ok (SetFunctionSignatureEntry s) \<longleftrightarrow> signature_ok s"
| "entry_ok (ApplyDataTypeEntry a ref clear) \<longleftrightarrow> (\<exists>ds. address_digits a ds) \<and> type_ref_ok ref"
| "entry_ok (DefineTypesEntry types) \<longleftrightarrow> batch_ok types"
| "entry_ok (DefineStructEntry n fs packed) \<longleftrightarrow> composite_ok n fs Struct"
| "entry_ok (DefineUnionEntry n fs) \<longleftrightarrow> composite_ok n fs Union"

lemma name_PyStr: "validate_name (PyStr s) = Inr t \<longleftrightarrow> t = s \<and> plain_name s"
  by (auto simp: validate_name_def plain_name_def list_all_iff)

lemma convention_Inr:
  "(\<exists>x. validate_calling_convention (opt_str c) = Inr x) \<longleftrightarrow> (\<forall>s. c = Some s \<longrightarrow> s \<in> set CALLING_CONVENTIONS)"
  by (cases c) (auto simp: validate_calling_convention_def opt_str_def)

lemma comment_Inr:
  "(\<exists>x. validate_comment_text (PyStr s) = Inr x) \<longleftrightarrow> s \<noteq> [] \<and> length s \<le> MAX_COMMENT_LEN"
  by (auto simp: validate_comment_text_def)

lemma signature_Inr: "validate_signature s = Inr () \<longleftrightarrow> signature_ok s"
  unfolding validate_signature_def signature_ok_def convention_Inr [symmetric]
  by (auto simp: name_PyStr write_name_PyStr type_ref_Inr)

lemma entry_Inr: "validate_entry x = Inr () \<longleftrightarrow> entry_ok x"
  by (cases x) (auto simp: name_PyStr write_name_PyStr validate_target_ref_def parse_address_PyStr
      signature_Inr type_ref_Inr types_batch_Inr composite_Inr comment_Inr split: option.splits)

text \<open>
  C34: An annotation document is accepted exactly if its schema version is supported, its binding is a
  64-digit hash, it has at most 50000 entries and every entry is well formed: new names are
  identifiers, addresses parse, types are on the allow-lists and within their bounds, comments fit,
  and every batch of composites is free of by-value cycles.
\<close>

theorem document_accepts_exactly:
  "validate_annotation_document doc = Inr () \<longleftrightarrow>
     schema_version doc \<in> {1, 2} \<and> length (doc_sha256 doc) = 64 \<and>
     list_all is_hex_digit (doc_sha256 doc) \<and>
     length (entries doc) \<le> MAX_ANNOTATION_ENTRIES \<and> list_all entry_ok (entries doc)"
  unfolding validate_annotation_document_def
  by (auto simp: SUPPORTED_ANNOTATION_SCHEMA_VERSIONS_def list_all_iff entry_Inr)

subsection \<open>Stored comments\<close>

lemma normalize_nul: "normalize_loop (replicate n 0) = (concat (replicate n (ascii ''<U+0000>'')), replicate n NOTE_CONTROL)"
proof (induction n)
  case (Suc n)
  have "neutralization_note 0 = Some NOTE_CONTROL"
    by (simp add: neutralization_note_def ALLOWED_CONTROL_CHARS_def BIDI_CODEPOINTS_def ZERO_WIDTH_CODEPOINTS_def)
  moreover have "inert_token 0 = ascii ''<U+0000>''"
    by (simp add: inert_token_def pad4_def hex_upper.simps hex_digit_def ascii_def numeral_3_eq_3)
  ultimately show ?case using Suc by simp
qed simp

text \<open>
  The length bound is checked before the characters are neutralised, and a token is longer than the
  character it replaces: a comment of 4096 NULs is accepted and stored with eight times that length,
  and the stored text itself is no longer accepted.
\<close>

lemma stored_comment_not_reaccepted:
  "\<exists>s t. validate_comment_text (PyStr s) = Inr (PyStr t) \<and> length t = 8 * MAX_COMMENT_LEN \<and>
     validate_comment_text (PyStr t) = Inl (limit_error ''comment text exceeds the maximum length'')"
proof (intro exI conjI)
  let ?s = "replicate MAX_COMMENT_LEN (0::nat)"
  let ?t = "concat (replicate MAX_COMMENT_LEN (ascii ''<U+0000>''))"
  have "length (concat (replicate n (ascii ''<U+0000>''))) = 8 * n" for n by (induction n) simp_all
  then show len: "length ?t = 8 * MAX_COMMENT_LEN" by blast
  have pos: "0 < MAX_COMMENT_LEN" by (simp add: MAX_COMMENT_LEN_def)
  then show "validate_comment_text (PyStr ?s) = Inr (PyStr ?t)"
    by (simp add: validate_comment_text_def wrap_def normalize_value_def normalize_text_def normalize_nul Let_def)
  show "validate_comment_text (PyStr ?t) = Inl (limit_error ''comment text exceeds the maximum length'')"
    using len pos by (auto simp: validate_comment_text_def)
qed

end
