(* ===== verification/Firmware.thy ===== *)
theory Firmware
  imports Py_Codec Errors
begin

text \<open>
  The parsers of hostile container bytes: the cpio \<open>newc\<close> walk (\<open>core/cpio.py\<close>), the legacy lz4
  block framing (\<open>core/lz4legacy.py\<close>), the Android boot and U-Boot headers
  (\<open>core/androidboot.py\<close>, \<open>core/uimage.py\<close>) and the ELF debug-link lookup
  (\<open>core/debuglink.py\<close>). Positions are integers where the source computes with integers that can
  be negative, and slices then count from the end, as in Python.
\<close>

unbundle bit_operations_syntax

datatype container_error = CpioError string | Lz4LegacyError string | HeaderError string

subsection \<open>cpio\<close>

definition MAGIC_NEWC :: bytes where "MAGIC_NEWC = byte_lit ''070701''"
definition MAGIC_NEWC_CRC :: bytes where "MAGIC_NEWC_CRC = byte_lit ''070702''"
definition HEADER_LEN :: int where "HEADER_LEN = 110"
definition TRAILER_NAME :: pystr where "TRAILER_NAME = ascii ''TRAILER!!!''"
definition ALIGN :: int where "ALIGN = 4"
definition S_IFMT :: int where "S_IFMT = 61440"
definition S_IFDIR :: int where "S_IFDIR = 16384"
definition S_IFREG :: int where "S_IFREG = 32768"
definition S_IFLNK :: int where "S_IFLNK = 40960"
definition CPIO_MAX_NAME_LEN :: int where "CPIO_MAX_NAME_LEN = 4096"

record CpioEntry =
  entry_name :: pystr
  entry_mode :: int
  entry_size :: int
  entry_data_offset :: int
  entry_is_dir :: bool
  entry_is_symlink :: bool

definition u32_hex :: "bytes \<Rightarrow> container_error + int" where
  "u32_hex field =
     (let cs = map unat field in
      if (\<exists>c \<in> set cs. c \<ge> 128) then Inl (CpioError ''cpio header field is not 8 ASCII hex digits'')
      else (case py_int16 cs of
              None \<Rightarrow> Inl (CpioError ''cpio header field is not 8 ASCII hex digits'')
            | Some v \<Rightarrow> Inr v))"

definition cpio_pad4 :: "int \<Rightarrow> int" where
  "cpio_pad4 v = (v + ALIGN - 1) AND NOT (ALIGN - 1)"

definition is_cpio_newc :: "bytes \<Rightarrow> bool" where
  "is_cpio_newc head = (take 6 head \<in> {MAGIC_NEWC, MAGIC_NEWC_CRC})"

text \<open>One round of the loop up to the trailer test: the member at \<open>pos\<close> and the end of its data.\<close>

definition cpio_member :: "bytes \<Rightarrow> int \<Rightarrow> container_error + CpioEntry \<times> int" where
  "cpio_member data pos =
     (let len = int (length data) in
      if pos + HEADER_LEN > len then
        Inl (CpioError ''truncated cpio header (no TRAILER!!! sentinel)'')
      else if py_slice data pos (pos + 6) \<notin> {MAGIC_NEWC, MAGIC_NEWC_CRC} then
        Inl (CpioError ''bad cpio member magic'')
      else
        chain (u32_hex (py_slice data (pos + 14) (pos + 22))) (\<lambda>mode.
        chain (u32_hex (py_slice data (pos + 54) (pos + 62))) (\<lambda>filesize.
        chain (u32_hex (py_slice data (pos + 94) (pos + 102))) (\<lambda>namesize.
          if namesize = 0 \<or> namesize > CPIO_MAX_NAME_LEN then
            Inl (CpioError ''cpio namesize is zero or exceeds the cap'')
          else
            (let name_start = pos + HEADER_LEN; name_end = name_start + namesize in
             if name_end > len then Inl (CpioError ''cpio member name overruns the buffer'')
             else
               (let raw_name = py_slice data name_start name_end;
                    name = decode_utf8 (takeWhile (\<lambda>b. b \<noteq> 0) raw_name);
                    data_start = cpio_pad4 name_end;
                    data_end = data_start + filesize
                in if data_end > len then Inl (CpioError ''cpio member data overruns the buffer'')
                   else Inr (\<lparr> entry_name = name, entry_mode = mode, entry_size = filesize,
                               entry_data_offset = data_start, entry_is_dir = (mode AND S_IFMT = S_IFDIR),
                               entry_is_symlink = (mode AND S_IFMT = S_IFLNK) \<rparr>, data_end)))))))"

function cpio_walk :: "bytes \<Rightarrow> int \<Rightarrow> int \<Rightarrow> CpioEntry list \<Rightarrow> container_error + CpioEntry list" where
  "cpio_walk data max_entries pos entries =
     (case cpio_member data pos of
        Inl e \<Rightarrow> Inl e
      | Inr (entry, data_end) \<Rightarrow>
          if entry_name entry = TRAILER_NAME then Inr entries
          else if int (length entries) \<ge> max_entries then
            Inl (CpioError ''cpio archive exceeds the max_entries cap'')
          else cpio_walk data max_entries (cpio_pad4 data_end) (entries @ [entry]))"
  by pat_completeness auto
termination
  by (relation "measure (\<lambda>(data, max_entries, pos, entries). nat (max_entries - int (length entries)))") auto

declare cpio_walk.simps [simp del]

definition parse_newc_entries :: "bytes \<Rightarrow> int \<Rightarrow> container_error + CpioEntry list" where
  "parse_newc_entries data max_entries =
     (if max_entries \<le> 0 then Inl (CpioError ''max_entries must be positive'')
      else cpio_walk data max_entries 0 [])"

subsection \<open>Legacy lz4 frames\<close>

definition LEGACY_MAGIC :: bytes where "LEGACY_MAGIC = [0x02, 0x21, 0x4c, 0x18]"
definition MAX_BLOCK_OUTPUT :: int where "MAX_BLOCK_OUTPUT = 8 * 1024 * 1024"
definition MAGIC_AS_SIZE :: nat where "MAGIC_AS_SIZE = le_nat LEGACY_MAGIC"

definition is_legacy_lz4 :: "bytes \<Rightarrow> bool" where
  "is_legacy_lz4 head = (take 4 head = LEGACY_MAGIC)"

function lz4_walk ::
  "bytes \<Rightarrow> int \<Rightarrow> nat \<Rightarrow> (nat \<times> nat) list \<Rightarrow> container_error + (nat \<times> nat) list" where
  "lz4_walk data max_blocks pos blocks =
     (if pos + 4 \<le> length data then
        (let sz = le_nat (take 4 (drop pos data)) in
         if sz = MAGIC_AS_SIZE then Inr blocks
         else if sz = 0 \<or> pos + 4 + sz > length data then
           Inl (Lz4LegacyError ''legacy lz4 block size is zero or overruns the buffer'')
         else if int (length blocks) + 1 > max_blocks then
           Inl (Lz4LegacyError ''legacy lz4 frame exceeds the max_blocks cap'')
         else lz4_walk data max_blocks (pos + 4 + sz) (blocks @ [(pos + 4, sz)]))
      else Inr blocks)"
  by pat_completeness auto
termination
  by (relation "measure (\<lambda>(data, max_blocks, pos, blocks). length data - pos)") auto

declare lz4_walk.simps [simp del]

definition parse_legacy_frame :: "bytes \<Rightarrow> int \<Rightarrow> container_error + (nat \<times> nat) list" where
  "parse_legacy_frame data max_blocks =
     (if max_blocks \<le> 0 then Inl (Lz4LegacyError ''max_blocks must be positive'')
      else if take 4 data \<noteq> LEGACY_MAGIC then
        Inl (Lz4LegacyError ''not a legacy lz4 frame (bad magic)'')
      else chain (lz4_walk data max_blocks 4 []) (\<lambda>blocks.
        if blocks = [] then Inl (Lz4LegacyError ''legacy lz4 frame has no blocks'') else Inr blocks))"

subsection \<open>Android boot images\<close>

definition ANDROID_BOOT_MAGIC :: bytes where "ANDROID_BOOT_MAGIC = byte_lit ''ANDROID!''"
definition HEADER_PREFIX_SIZE :: nat where "HEADER_PREFIX_SIZE = 40"
definition MIN_PAGE_SIZE :: int where "MIN_PAGE_SIZE = 256"
definition MAX_PAGE_SIZE :: int where "MAX_PAGE_SIZE = 2 ^ 20"

record AndroidBootHeader =
  page_size :: int
  kernel_offset :: int
  kernel_size :: int
  ramdisk_offset :: int
  ramdisk_size :: int

definition page_up :: "int \<Rightarrow> int \<Rightarrow> int" where
  "page_up sz page = ((sz + page - 1) div page) * page"

text \<open>The little-endian word at an offset of a buffer that is long enough.\<close>

definition u32_le :: "bytes \<Rightarrow> nat \<Rightarrow> int" where
  "u32_le data off = int (le_nat (take 4 (drop off data)))"

definition u32_be :: "bytes \<Rightarrow> nat \<Rightarrow> int" where
  "u32_be data off = int (be_nat (take 4 (drop off data)))"

definition parse_android_boot_header :: "bytes \<Rightarrow> int \<Rightarrow> container_error + AndroidBootHeader" where
  "parse_android_boot_header data max_region_size =
     (if length data < HEADER_PREFIX_SIZE then
        Inl (HeaderError ''not an Android boot image: shorter than the header prefix'')
      else if take 8 data \<noteq> ANDROID_BOOT_MAGIC then
        Inl (HeaderError ''not an Android boot image: bad magic'')
      else
        (let ksize = u32_le data 8; rsize = u32_le data 16; psize = u32_le data 36 in
         if \<not> (MIN_PAGE_SIZE \<le> psize \<and> psize \<le> MAX_PAGE_SIZE) \<or> psize AND (psize - 1) \<noteq> 0 then
           Inl (HeaderError ''Android boot image: page_size is not a sane power-of-two'')
         else if \<not> (0 < ksize \<and> ksize \<le> max_region_size) then
           Inl (HeaderError ''Android boot image: kernel_size is zero or over the cap'')
         else if rsize > max_region_size then
           Inl (HeaderError ''Android boot image: ramdisk_size is over the cap'')
         else Inr \<lparr> page_size = psize, kernel_offset = psize, kernel_size = ksize,
                    ramdisk_offset = psize + page_up ksize psize, ramdisk_size = rsize \<rparr>))"

datatype codec = Gzip | Xz | Cpio | Lz4 | Lz4Legacy | Lzma | NoComp

definition detect_ramdisk_codec :: "bytes \<Rightarrow> codec option" where
  "detect_ramdisk_codec head =
     (if take 2 head = [0x1f, 0x8b] then Some Gzip
      else if take 6 head = [0xfd, 0x37, 0x7a, 0x58, 0x5a, 0x00] then Some Xz
      else if take 6 head \<in> {MAGIC_NEWC, MAGIC_NEWC_CRC} then Some Cpio
      else if take 4 head = [0x04, 0x22, 0x4d, 0x18] then Some Lz4
      else if take 4 head = [0x02, 0x21, 0x4c, 0x18] then Some Lz4Legacy
      else None)"

subsection \<open>U-Boot images\<close>

definition UIMAGE_MAGIC :: int where "UIMAGE_MAGIC = 0x27051956"
definition UIMAGE_HEADER_SIZE :: nat where "UIMAGE_HEADER_SIZE = 64"

definition COMP_NAMES :: "(nat, codec) dict" where
  "COMP_NAMES = [(0, NoComp), (1, Gzip), (3, Lzma)]"

record UImageHeader =
  payload_size :: int
  comp :: codec

definition parse_uimage_header :: "bytes \<Rightarrow> int \<Rightarrow> container_error + UImageHeader" where
  "parse_uimage_header data max_payload_size =
     (if length data < UIMAGE_HEADER_SIZE then
        Inl (HeaderError ''not a uImage: shorter than the 64-byte header'')
      else if u32_be data 0 \<noteq> UIMAGE_MAGIC then Inl (HeaderError ''not a uImage: bad magic'')
      else
        (let psize = u32_be data 12; comp_code = unat (data ! 31) in
         if psize \<le> 0 then Inl (HeaderError ''uImage declares a non-positive payload size'')
         else if psize > max_payload_size then
           Inl (HeaderError ''uImage declares a payload larger than the allowed cap'')
         else
           (case dict_get COMP_NAMES comp_code of
              None \<Rightarrow> Inl (HeaderError ''uImage compression code is unsupported'')
            | Some c \<Rightarrow> Inr \<lparr> payload_size = psize, comp = c \<rparr>)))"

subsection \<open>ELF debug links\<close>

definition ELF_MAGIC :: bytes where "ELF_MAGIC = [0x7f, 0x45, 0x4c, 0x46]"
definition DEBUGLINK :: bytes where "DEBUGLINK = byte_lit ''.gnu_debuglink''"
definition MAX_SECTIONS :: nat where "MAX_SECTIONS = 4096"
definition DEBUGLINK_MAX_NAME :: nat where "DEBUGLINK_MAX_NAME = 256"

text \<open>\<open>struct.unpack_from(endian + fmt, data, off)[0]\<close> for a field of a given width.\<close>

definition unpack_num :: "bool \<Rightarrow> nat \<Rightarrow> bytes \<Rightarrow> nat \<Rightarrow> nat option" where
  "unpack_num little w data off = (if little then unpack_le w data off else unpack_be w data off)"

text \<open>The four header fields: section table offset, entry size, entry count, string-table index.\<close>

record elf_head =
  e_shoff :: nat
  e_shentsize :: nat
  e_shnum :: nat
  e_shstrndx :: nat

definition read_elf_head :: "bool \<Rightarrow> bool \<Rightarrow> bytes \<Rightarrow> elf_head option" where
  "read_elf_head is64 little data =
     Option.bind (unpack_num little (if is64 then 8 else 4) data (if is64 then 0x28 else 0x20)) (\<lambda>a.
     Option.bind (unpack_num little 2 data (if is64 then 0x3A else 0x2E)) (\<lambda>b.
     Option.bind (unpack_num little 2 data (if is64 then 0x3C else 0x30)) (\<lambda>c.
     Option.bind (unpack_num little 2 data (if is64 then 0x3E else 0x32)) (\<lambda>d.
       Some \<lparr> e_shoff = a, e_shentsize = b, e_shnum = c, e_shstrndx = d \<rparr>))))"

definition elf_section :: "bool \<Rightarrow> bool \<Rightarrow> elf_head \<Rightarrow> bytes \<Rightarrow> nat \<Rightarrow> (nat \<times> nat \<times> nat) option" where
  "elf_section is64 little h data i =
     (let base = e_shoff h + i * e_shentsize h; w = (if is64 then 8 else 4) in
      Option.bind (unpack_num little 4 data base) (\<lambda>sh_name.
      Option.bind (unpack_num little w data (base + (if is64 then 0x18 else 0x10))) (\<lambda>sh_off.
      Option.bind (unpack_num little w data (base + (if is64 then 0x20 else 0x14))) (\<lambda>sh_size.
        Some (sh_name, sh_off, sh_size)))))"

text \<open>The bytes before the first NUL, or all of them (\<open>find\<close> with the fallback to the end).\<close>

definition until_nul :: "bytes \<Rightarrow> bytes" where
  "until_nul bs = takeWhile (\<lambda>b. b \<noteq> 0) bs"

text \<open>What is read from the section itself; \<open>None\<close> rejects.\<close>

definition read_link :: "bytes \<Rightarrow> nat \<Rightarrow> nat \<Rightarrow> pystr option" where
  "read_link data sh_off sh_size =
     (if sh_size = 0 \<or> sh_off + sh_size > length data then None
      else
        (let blob = take sh_size (drop sh_off data) in
         if 0 \<notin> set blob then None
         else
           (let name = map unat (until_nul blob) in
            if length name \<le> 0 \<or> length name > DEBUGLINK_MAX_NAME then None
            else if (\<exists>c \<in> set name. c \<ge> 128) then None
            else if name \<in> {ascii ''.'', ascii ''..''} \<or> 47 \<in> set name \<or> 92 \<in> set name then None
            else Some name)))"

fun find_link :: "(nat \<Rightarrow> (nat \<times> nat \<times> nat) option) \<Rightarrow> bytes \<Rightarrow> bytes \<Rightarrow> nat list \<Rightarrow> pystr option" where
  "find_link sect shstr data [] = None"
| "find_link sect shstr data (i # is) =
     (case sect i of
        None \<Rightarrow> None
      | Some (sh_name, sh_off, sh_size) \<Rightarrow>
          if sh_name \<ge> length shstr then find_link sect shstr data is
          else if until_nul (drop sh_name shstr) \<noteq> DEBUGLINK then find_link sect shstr data is
          else read_link data sh_off sh_size)"

text \<open>
  \<open>_parse\<close> behind the catch-all of \<open>parse_gnu_debuglink\<close>: a \<open>struct.error\<close> and an explicit
  \<open>return None\<close> have the same outcome.
\<close>

definition parse_gnu_debuglink :: "bytes \<Rightarrow> pystr option" where
  "parse_gnu_debuglink data =
     (if length data < 64 \<or> take 4 data \<noteq> ELF_MAGIC then None
      else
        (let is64 = (data ! 4 = 2); little = (data ! 5 = 1) in
         Option.bind (read_elf_head is64 little data) (\<lambda>h.
         if e_shoff h = 0 \<or> e_shentsize h = 0 \<or> e_shnum h = 0 \<or> e_shnum h > MAX_SECTIONS then None
         else if e_shstrndx h \<ge> e_shnum h then None
         else
           Option.bind (elf_section is64 little h data (e_shstrndx h)) (\<lambda>(_, str_off, str_size).
           if str_off + str_size > length data then None
           else find_link (elf_section is64 little h data) (take str_size (drop str_off data)) data
                  [0..<e_shnum h]))))"

end
