(* ===== verification/Firmware_Props.thy ===== *)
theory Firmware_Props
  imports Firmware
begin

text \<open>
  Facts about the container parsers: what exactly a legacy lz4 frame is, round trips for cpio
  archives, the windows of boot images, and what a debug-link name can be.
\<close>

unbundle bit_operations_syntax

subsection \<open>Legacy lz4 frames\<close>

definition lz4_records :: "bytes list \<Rightarrow> bytes" where
  "lz4_records chunks = concat (map (\<lambda>c. le_bytes 4 (length c) @ c) chunks)"

fun lz4_spans :: "nat \<Rightarrow> bytes list \<Rightarrow> (nat \<times> nat) list" where
  "lz4_spans pos [] = []"
| "lz4_spans pos (c # cs) = (pos + 4, length c) # lz4_spans (pos + 4 + length c) cs"

definition chunk_ok :: "bytes \<Rightarrow> bool" where
  "chunk_ok c \<longleftrightarrow> c \<noteq> [] \<and> length c < 2 ^ 32 \<and> length c \<noteq> MAGIC_AS_SIZE"

text \<open>Where the walk stops: fewer than four bytes, or the magic of a next frame.\<close>

definition frame_tail :: "bytes \<Rightarrow> bool" where
  "frame_tail t \<longleftrightarrow> length t < 4 \<or> take 4 t = LEGACY_MAGIC"

lemma le_nat_inj: "length xs = length ys \<Longrightarrow> le_nat xs = le_nat ys \<Longrightarrow> xs = ys"
  by (metis le_bytes_le_nat)

lemma magic_size_iff: "4 \<le> length d \<Longrightarrow> le_nat (take 4 d) = MAGIC_AS_SIZE \<longleftrightarrow> take 4 d = LEGACY_MAGIC"
  using le_nat_inj [of "take 4 d" LEGACY_MAGIC] by (auto simp: MAGIC_AS_SIZE_def LEGACY_MAGIC_def)

lemma lz4_records_simps [simp]:
  "lz4_records [] = []" "lz4_records (c # cs) = le_bytes 4 (length c) @ c @ lz4_records cs"
  by (simp_all add: lz4_records_def)

lemma le_nat_size: "length c < 2 ^ 32 \<Longrightarrow> le_nat (take 4 (le_bytes 4 (length c) @ xs)) = length c"
  by (simp add: le_nat_le_bytes)

lemma record_split:
  assumes "4 \<le> length d" and "4 + le_nat (take 4 d) \<le> length d"
  shows "\<exists>c. d = le_bytes 4 (length c) @ c @ drop (4 + length c) d \<and> length c = le_nat (take 4 d)"
proof (intro exI conjI)
  let ?c = "take (le_nat (take 4 d)) (drop 4 d)"
  show len: "length ?c = le_nat (take 4 d)" using assms by simp
  have "le_bytes 4 (length ?c) = take 4 d" using le_bytes_le_nat [of "take 4 d"] assms(1) len by simp
  then show "d = le_bytes 4 (length ?c) @ ?c @ drop (4 + length ?c) d"
    unfolding len by (metis append_take_drop_id drop_drop add.commute)
qed

text \<open>A sequence of records starts with a record exactly where the walk does not stop.\<close>

lemma records_at_tail:
  assumes "frame_tail d" and "d = lz4_records chunks @ tail" and "list_all chunk_ok chunks"
  shows "chunks = []"
proof (cases chunks)
  case (Cons c cs)
  with assms have "4 \<le> length d" "le_nat (take 4 d) \<noteq> MAGIC_AS_SIZE"
    by (simp_all add: chunk_ok_def le_nat_le_bytes)
  then show ?thesis using assms(1) magic_size_iff [of d] by (auto simp: frame_tail_def)
qed

lemma records_first:
  assumes "\<not> frame_tail d" and "d = lz4_records chunks @ tail" and "list_all chunk_ok chunks" and "frame_tail tail"
  shows "\<exists>c cs. chunks = c # cs \<and> length c = le_nat (take 4 d) \<and> chunk_ok c \<and>
    drop (4 + length c) d = lz4_records cs @ tail \<and> list_all chunk_ok cs \<and> 4 + length c \<le> length d"
proof (cases chunks)
  case (Cons c cs)
  then have c: "chunk_ok c" "list_all chunk_ok cs" using assms(3) by simp_all
  then show ?thesis using assms(2) by (simp add: Cons chunk_ok_def le_nat_le_bytes)
qed (use assms in simp)

definition frame_spec :: "bytes \<Rightarrow> int \<Rightarrow> nat \<Rightarrow> (nat \<times> nat) list \<Rightarrow> (nat \<times> nat) list \<Rightarrow> bool" where
  "frame_spec data mx pos acc bs \<longleftrightarrow>
     (\<exists>chunks tail. drop pos data = lz4_records chunks @ tail \<and> list_all chunk_ok chunks \<and> frame_tail tail \<and>
        (chunks = [] \<or> int (length acc + length chunks) \<le> mx) \<and> bs = acc @ lz4_spans pos chunks)"

lemma frame_spec_stop:
  assumes "frame_tail (drop pos data)"
  shows "frame_spec data mx pos acc bs \<longleftrightarrow> bs = acc"
proof
  assume "frame_spec data mx pos acc bs"
  then show "bs = acc" unfolding frame_spec_def using records_at_tail [OF assms] by fastforce
next
  assume "bs = acc"
  then show "frame_spec data mx pos acc bs"
    unfolding frame_spec_def using assms by (intro exI [of _ "[]"] exI [of _ "drop pos data"]) simp
qed

lemma frame_spec_step:
  assumes "\<not> frame_tail (drop pos data)"
  defines "sz \<equiv> le_nat (take 4 (drop pos data))"
  shows "frame_spec data mx pos acc bs \<longleftrightarrow>
    sz \<noteq> 0 \<and> pos + 4 + sz \<le> length data \<and> int (length acc) + 1 \<le> mx \<and>
    frame_spec data mx (pos + 4 + sz) (acc @ [(pos + 4, sz)]) bs"
proof
  assume "frame_spec data mx pos acc bs"
  then obtain chunks tail where s: "drop pos data = lz4_records chunks @ tail" "list_all chunk_ok chunks" "frame_tail tail"
    "chunks = [] \<or> int (length acc + length chunks) \<le> mx" "bs = acc @ lz4_spans pos chunks"
    unfolding frame_spec_def by blast
  obtain c cs where c: "chunks = c # cs" "length c = sz" "chunk_ok c" "drop (4 + length c) (drop pos data) = lz4_records cs @ tail"
    "list_all chunk_ok cs" "4 + length c \<le> length (drop pos data)"
    using records_first [OF assms(1) s(1-3)] unfolding sz_def by blast
  have "frame_spec data mx (pos + 4 + sz) (acc @ [(pos + 4, sz)]) bs"
    unfolding frame_spec_def using c s(3-5)
    by (intro exI [of _ cs] exI [of _ tail]) (simp add: add.commute add.left_commute)
  then show "sz \<noteq> 0 \<and> pos + 4 + sz \<le> length data \<and> int (length acc) + 1 \<le> mx \<and>
    frame_spec data mx (pos + 4 + sz) (acc @ [(pos + 4, sz)]) bs"
    using c s(4) by (auto simp: chunk_ok_def)
next
  assume r: "sz \<noteq> 0 \<and> pos + 4 + sz \<le> length data \<and> int (length acc) + 1 \<le> mx \<and>
    frame_spec data mx (pos + 4 + sz) (acc @ [(pos + 4, sz)]) bs"
  then obtain cs tail where t: "drop (pos + 4 + sz) data = lz4_records cs @ tail" "list_all chunk_ok cs" "frame_tail tail"
    "cs = [] \<or> int (length (acc @ [(pos + 4, sz)]) + length cs) \<le> mx"
    "bs = (acc @ [(pos + 4, sz)]) @ lz4_spans (pos + 4 + sz) cs" unfolding frame_spec_def by blast
  have four: "4 \<le> length (drop pos data)" "sz \<noteq> MAGIC_AS_SIZE"
    using assms(1) magic_size_iff [of "drop pos data"] by (auto simp: frame_tail_def sz_def)
  obtain c where c: "drop pos data = le_bytes 4 (length c) @ c @ drop (4 + length c) (drop pos data)" "length c = sz"
  proof -
    have "4 + le_nat (take 4 (drop pos data)) \<le> length (drop pos data)" using r unfolding sz_def length_drop by linarith
    with record_split [OF four(1)] show ?thesis using that unfolding sz_def by blast
  qed
  have "chunk_ok c" using c(2) r four le_nat_bound [of "take 4 (drop pos data)"] by (auto simp: chunk_ok_def sz_def)
  moreover have "drop pos data = lz4_records (c # cs) @ tail" using c t(1) by (simp add: add.commute add.left_commute)
  ultimately show "frame_spec data mx pos acc bs"
    unfolding frame_spec_def using t(2-5) c(2) r by (intro exI [of _ "c # cs"] exI [of _ tail]) auto
qed

lemma lz4_walk_exact: "lz4_walk data mx pos acc = Inr bs \<longleftrightarrow> frame_spec data mx pos acc bs"
proof (induction data mx pos acc rule: lz4_walk.induct)
  case (1 data mx pos acc)
  let ?sz = "le_nat (take 4 (drop pos data))"
  show ?case
  proof (cases "frame_tail (drop pos data)")
    case True
    then have "lz4_walk data mx pos acc = Inr acc"
      using magic_size_iff [of "drop pos data"] by (subst lz4_walk.simps) (auto simp: frame_tail_def)
    then show ?thesis using frame_spec_stop [OF True] by auto
  next
    case False
    then have ge: "pos + 4 \<le> length data" "?sz \<noteq> MAGIC_AS_SIZE"
      using magic_size_iff [of "drop pos data"] by (auto simp: frame_tail_def)
    show ?thesis
    proof (cases "?sz \<noteq> 0 \<and> pos + 4 + ?sz \<le> length data \<and> int (length acc) + 1 \<le> mx")
      case True
      then have "lz4_walk data mx pos acc = lz4_walk data mx (pos + 4 + ?sz) (acc @ [(pos + 4, ?sz)])"
        using ge by (subst lz4_walk.simps) (simp add: Let_def)
      then show ?thesis
        using "1.IH" [OF ge(1) refl ge(2)] frame_spec_step [OF False] True by auto
    next
      case stop: False
      then have "\<nexists>r. lz4_walk data mx pos acc = Inr r"
        using ge by (subst lz4_walk.simps) (auto simp: Let_def)
      then show ?thesis using frame_spec_step [OF False] stop by auto
    qed
  qed
qed

lemma legacy_frame_iff:
  "parse_legacy_frame data mx = Inr bs \<longleftrightarrow>
     (\<exists>chunks tail. data = LEGACY_MAGIC @ lz4_records chunks @ tail \<and>
        chunks \<noteq> [] \<and> int (length chunks) \<le> mx \<and> list_all chunk_ok chunks \<and> frame_tail tail \<and>
        bs = lz4_spans 4 chunks)"
proof -
  have split: "data = LEGACY_MAGIC @ drop 4 data" if "take 4 data = LEGACY_MAGIC"
    using that append_take_drop_id [of 4 data] by simp
  have take: "take 4 (LEGACY_MAGIC @ x) = LEGACY_MAGIC" "drop 4 (LEGACY_MAGIC @ x) = x" for x
    by (simp_all add: LEGACY_MAGIC_def)
  have ne: "lz4_spans 4 chunks = [] \<longleftrightarrow> chunks = []" for chunks by (cases chunks) simp_all
  have "parse_legacy_frame data mx = Inr bs \<longleftrightarrow>
      0 < mx \<and> take 4 data = LEGACY_MAGIC \<and> frame_spec data mx 4 [] bs \<and> bs \<noteq> []"
    unfolding parse_legacy_frame_def by (auto simp: lz4_walk_exact)
  also have "\<dots> \<longleftrightarrow> (\<exists>chunks tail. data = LEGACY_MAGIC @ lz4_records chunks @ tail \<and>
        chunks \<noteq> [] \<and> int (length chunks) \<le> mx \<and> list_all chunk_ok chunks \<and> frame_tail tail \<and>
        bs = lz4_spans 4 chunks)" (is "?l \<longleftrightarrow> ?r")
  proof
    assume ?l
    then obtain chunks tail where "drop 4 data = lz4_records chunks @ tail" "list_all chunk_ok chunks"
      "frame_tail tail" "chunks = [] \<or> int (length chunks) \<le> mx" "bs = lz4_spans 4 chunks" "bs \<noteq> []"
      "take 4 data = LEGACY_MAGIC" unfolding frame_spec_def by auto
    then show ?r using split ne by (intro exI [of _ chunks] exI [of _ tail]) auto
  next
    assume ?r
    then obtain chunks tail where r: "data = LEGACY_MAGIC @ lz4_records chunks @ tail" "chunks \<noteq> []"
      "int (length chunks) \<le> mx" "list_all chunk_ok chunks" "frame_tail tail" "bs = lz4_spans 4 chunks" by blast
    then have "0 < mx" by (cases chunks) auto
    moreover have "frame_spec data mx 4 [] bs"
      unfolding frame_spec_def r(1) take(2) using r(2-6) by (intro exI [of _ chunks] exI [of _ tail]) simp
    ultimately show ?l using r(1,2,6) take(1) ne by metis
  qed
  finally show ?thesis .
qed

text \<open>
  C39: The legacy lz4 framing parser accepts exactly the byte strings made of the magic, one to
  \<open>max_blocks\<close> size-prefixed non-empty blocks and then either the magic of a next frame or at most
  three left-over bytes, and returns the position and length of every block. So a returned span
  always lies in the buffer and is exactly a block, and a truncated size record at the end is
  ignored rather than rejected.
\<close>

theorem legacy_frame_exact:
  "parse_legacy_frame data mx = Inr bs \<longleftrightarrow>
     (\<exists>chunks tail. data = LEGACY_MAGIC @ lz4_records chunks @ tail \<and>
        chunks \<noteq> [] \<and> int (length chunks) \<le> mx \<and> list_all chunk_ok chunks \<and> frame_tail tail \<and>
        bs = lz4_spans 4 chunks)"
  by (rule legacy_frame_iff)

subsection \<open>cpio archives\<close>

lemma and_not_three: "x AND NOT 3 = x - x mod 4" for x :: int
proof -
  have "(x AND 3) + (x AND NOT 3) = (x AND 3) OR (x AND NOT 3)"
    by (rule disjunctive_add) (auto simp: bit_simps)
  also have "\<dots> = x" by (rule bit_eqI) (auto simp: bit_simps)
  finally have "x AND NOT 3 = x - (x AND 3)" by simp
  moreover have "x AND 3 = x mod 4" using take_bit_eq_mask [of 2 x] by (simp add: take_bit_eq_mod mask_eq_exp_minus_1)
  ultimately show ?thesis by simp
qed

lemma cpio_pad4_eq: "cpio_pad4 v = (v + 3) div 4 * 4"
  unfolding cpio_pad4_def ALIGN_def using and_not_three [of "v + 3"]
  by (simp add: minus_mod_eq_div_mult add.commute)

lemma cpio_pad4_bounds: "v \<le> cpio_pad4 v \<and> cpio_pad4 v < v + 4 \<and> 4 dvd cpio_pad4 v"
  unfolding cpio_pad4_eq by (simp add: algebra_simps) presburger

text \<open>A reference encoder: fields of eight digits, padding to multiples of four.\<close>

record member =
  m_name :: bytes
  m_mode :: nat
  m_data :: bytes

definition hex_byte :: "nat \<Rightarrow> byte" where
  "hex_byte d = of_nat (if d < 10 then 48 + d else 87 + d)"

fun hex_field :: "nat \<Rightarrow> nat \<Rightarrow> bytes" where
  "hex_field 0 n = []"
| "hex_field (Suc w) n = hex_field w (n div 16) @ [hex_byte (n mod 16)]"

definition zero_pad :: "bytes \<Rightarrow> bytes" where
  "zero_pad bs = bs @ replicate (nat (cpio_pad4 (int (length bs)) - int (length bs))) 0"

definition member_header :: "member \<Rightarrow> bytes" where
  "member_header m =
     MAGIC_NEWC @ hex_field 8 0 @ hex_field 8 (m_mode m) @ hex_field 32 0 @ hex_field 8 (length (m_data m)) @
     hex_field 32 0 @ hex_field 8 (length (m_name m) + 1) @ hex_field 8 0"

definition encode_member :: "member \<Rightarrow> bytes" where
  "encode_member m = zero_pad (member_header m @ m_name m @ [0]) @ zero_pad (m_data m)"

definition trailer :: member where
  "trailer = \<lparr> m_name = byte_lit ''TRAILER!!!'', m_mode = 0, m_data = [] \<rparr>"

definition member_ok :: "member \<Rightarrow> bool" where
  "member_ok m \<longleftrightarrow> 0 \<notin> set (m_name m) \<and> length (m_name m) < 4096 \<and> m_mode m < 2 ^ 32 \<and> length (m_data m) < 2 ^ 32"

definition member_entry :: "member \<Rightarrow> nat \<Rightarrow> CpioEntry" where
  "member_entry m off =
     \<lparr> entry_name = decode_utf8 (m_name m), entry_mode = int (m_mode m), entry_size = int (length (m_data m)),
       entry_data_offset = int off, entry_is_dir = (int (m_mode m) AND S_IFMT = S_IFDIR),
       entry_is_symlink = (int (m_mode m) AND S_IFMT = S_IFLNK) \<rparr>"

text \<open>The entries of members laid out from a position on, with the offsets of their data.\<close>

definition data_at :: "nat \<Rightarrow> member \<Rightarrow> nat" where
  "data_at pos m = pos + length (zero_pad (member_header m @ m_name m @ [0]))"

fun entries_from :: "nat \<Rightarrow> member list \<Rightarrow> CpioEntry list" where
  "entries_from pos [] = []"
| "entries_from pos (m # ms) =
     member_entry m (data_at pos m) # entries_from (pos + length (encode_member m)) ms"

lemma length_hex_field [simp]: "length (hex_field w n) = w"
  by (induction w n rule: hex_field.induct) simp_all

lemma hex_field_number:
  "list_all is_hex_digit (map unat (hex_field w n)) \<and> (n < 16 ^ w \<longrightarrow> hex_number (map unat (hex_field w n)) = n)"
proof (induction w n rule: hex_field.induct)
  case (2 w n)
  have "n mod 16 < 16" by simp
  then have "unat (hex_byte (n mod 16)) = (if n mod 16 < 10 then 48 + n mod 16 else 87 + n mod 16)"
    by (auto simp: hex_byte_def unat_of_nat)
  moreover have "n < 16 ^ Suc w \<Longrightarrow> n div 16 < 16 ^ w" by (simp add: less_mult_imp_div_less mult.commute)
  ultimately show ?case using 2 \<open>n mod 16 < 16\<close>
    by (auto simp: hex_number_snoc is_hex_digit_def hex_value_def)
qed (simp add: hex_number_def)

lemma u32_hex_field: "n < 2 ^ 32 \<Longrightarrow> u32_hex (hex_field 8 n) = Inr (int n)"
proof -
  assume n: "n < 2 ^ 32"
  note h = hex_field_number [of 8 n]
  have "hex_field 8 n \<noteq> []" using length_hex_field [of 8 n] by force
  moreover have "\<forall>c \<in> set (map unat (hex_field 8 n)). c < 128"
    using h by (auto simp: list_all_iff is_hex_digit_def)
  ultimately show ?thesis
    using h n py_int16_digits [of "map unat (hex_field 8 n)"] by (auto simp: u32_hex_def Let_def not_le)
qed

lemma zero_pad_length: "int (length (zero_pad bs)) = cpio_pad4 (int (length bs))"
  using cpio_pad4_bounds [of "int (length bs)"] by (simp add: zero_pad_def)

lemma zero_pad_dvd: "4 dvd length (zero_pad bs)"
  using cpio_pad4_bounds [of "int (length bs)"] zero_pad_length [of bs] by (metis int_dvd_int_iff of_nat_numeral)

lemma encode_member_dvd: "4 dvd length (encode_member m)"
  by (simp add: encode_member_def zero_pad_dvd)

lemma cpio_pad4_shift: "4 dvd a \<Longrightarrow> cpio_pad4 (a + b) = a + cpio_pad4 b"
  unfolding cpio_pad4_eq by (auto elim!: dvdE simp: add.assoc)

lemma length_member_header [simp]: "length (member_header m) = 110"
  by (simp add: member_header_def MAGIC_NEWC_def byte_lit_def)

lemma slice_prefix:
  "length pre = p \<Longrightarrow> 0 \<le> a \<Longrightarrow> a \<le> b \<Longrightarrow>
   py_slice (pre @ xs) (int p + a) (int p + b) = take (nat b - nat a) (drop (nat a) xs)"
  by (auto simp: py_slice_nonneg nat_add_distrib)

lemma length_magic [simp]: "length MAGIC_NEWC = 6"
  by (simp add: MAGIC_NEWC_def byte_lit_def)

lemma header_fields:
  "take 6 (member_header m) = MAGIC_NEWC"
  "take 8 (drop 14 (member_header m)) = hex_field 8 (m_mode m)"
  "take 8 (drop 54 (member_header m)) = hex_field 8 (length (m_data m))"
  "take 8 (drop 94 (member_header m)) = hex_field 8 (length (m_name m) + 1)"
  by (simp_all add: member_header_def)

lemma cpio_member_encoded:
  assumes pre: "4 dvd length pre" and m: "member_ok m"
  shows "cpio_member (pre @ encode_member m @ post) (int (length pre)) =
    Inr (member_entry m (data_at (length pre) m), int (data_at (length pre) m + length (m_data m)))"
proof -
  let ?hn = "member_header m @ m_name m @ [0]"
  let ?data = "pre @ encode_member m @ post" and ?p = "int (length pre)"
  obtain pad xs where xs: "?data = pre @ member_header m @ xs" "xs = m_name m @ [0] @ pad @ zero_pad (m_data m) @ post"
    "zero_pad ?hn = ?hn @ pad" by (simp add: encode_member_def zero_pad_def)
  have slice: "py_slice ?data (?p + a) (?p + b) = take (nat b - nat a) (drop (nat a) (member_header m @ xs))"
    if "0 \<le> a" "a \<le> b" for a b unfolding xs(1) using that by (intro slice_prefix) simp_all
  have f: "py_slice ?data ?p (?p + 6) = MAGIC_NEWC"
    "u32_hex (py_slice ?data (?p + 14) (?p + 22)) = Inr (int (m_mode m))"
    "u32_hex (py_slice ?data (?p + 54) (?p + 62)) = Inr (int (length (m_data m)))"
    "u32_hex (py_slice ?data (?p + 94) (?p + 102)) = Inr (int (length (m_name m) + 1))"
    using slice [of 0 6] slice [of 14 22] slice [of 54 62] slice [of 94 102] m
    by (simp_all add: header_fields u32_hex_field member_ok_def del: of_nat_Suc)
  have "py_slice ?data (?p + 110) (?p + 110 + int (length (m_name m) + 1)) = m_name m @ [0]"
    using slice [of 110 "110 + int (length (m_name m) + 1)"] by (simp add: xs(2) nat_add_distrib algebra_simps)
  then have name: "takeWhile (\<lambda>b. b \<noteq> 0) (py_slice ?data (?p + 110) (?p + 110 + int (length (m_name m) + 1))) = m_name m"
    using m by (auto simp: member_ok_def takeWhile_append takeWhile_eq_all_conv)
  have start: "cpio_pad4 (?p + 110 + int (length (m_name m) + 1)) = int (data_at (length pre) m)"
  proof -
    have "4 dvd ?p" using pre by presburger
    then show ?thesis
      using zero_pad_length [of ?hn] cpio_pad4_shift [of ?p "int (length ?hn)"] by (simp add: data_at_def add.assoc)
  qed
  have len: "int (data_at (length pre) m) + int (length (m_data m)) \<le> int (length ?data)"
    "?p + 110 + int (length (m_name m) + 1) \<le> int (length ?data)" "?p + 110 \<le> int (length ?data)"
    using zero_pad_def [of "m_data m"] by (simp_all add: data_at_def encode_member_def xs(3))
  have n: "\<not> (int (length (m_name m) + 1) = 0 \<or> int (length (m_name m) + 1) > 4096)"
    using m by (simp add: member_ok_def)
  show ?thesis
    unfolding cpio_member_def Let_def HEADER_LEN_def CPIO_MAX_NAME_LEN_def f chain_simps name start if_not_P [OF n]
    using len by (simp add: member_entry_def del: length_append)
qed

lemma next_member:
  assumes "4 dvd length pre"
  shows "cpio_pad4 (int (data_at (length pre) m + length (m_data m))) = int (length (pre @ encode_member m))"
proof -
  have "4 dvd data_at (length pre) m" using assms zero_pad_dvd by (simp add: data_at_def)
  then have "4 dvd int (data_at (length pre) m)" by presburger
  then show ?thesis
    using cpio_pad4_shift [of "int (data_at (length pre) m)" "int (length (m_data m))"] zero_pad_length [of "m_data m"]
    by (simp add: data_at_def encode_member_def)
qed

definition archive :: "member list \<Rightarrow> bytes" where
  "archive ms = concat (map encode_member ms) @ encode_member trailer"

lemma trailer_name: "decode_utf8 (m_name trailer) = TRAILER_NAME"
  unfolding decode_utf8_def by (subst utf8_replace_ascii) (simp_all add: trailer_def byte_lit_def TRAILER_NAME_def ascii_def)

lemma trailer_ok: "member_ok trailer"
  by (simp add: member_ok_def trailer_def byte_lit_def)

lemma cpio_walk_archive:
  "4 dvd length pre \<Longrightarrow> \<forall>m \<in> set ms. member_ok m \<and> decode_utf8 (m_name m) \<noteq> TRAILER_NAME \<Longrightarrow>
   int (length acc + length ms) \<le> mx \<Longrightarrow>
   cpio_walk (pre @ archive ms @ post) mx (int (length pre)) acc = Inr (acc @ entries_from (length pre) ms)"
proof (induction ms arbitrary: pre acc)
  case Nil
  then show ?case
    using cpio_member_encoded [OF Nil(1) trailer_ok, of post] trailer_name
    by (subst cpio_walk.simps) (simp add: archive_def member_entry_def)
next
  case (Cons m ms)
  have "cpio_walk (pre @ archive (m # ms) @ post) mx (int (length pre)) acc =
      cpio_walk ((pre @ encode_member m) @ archive ms @ post) mx (int (length (pre @ encode_member m)))
        (acc @ [member_entry m (data_at (length pre) m)])"
    using cpio_member_encoded [OF Cons.prems(1), of m "archive ms @ post"] Cons.prems(2,3) next_member [OF Cons.prems(1), of m]
    by (subst cpio_walk.simps) (simp add: archive_def member_entry_def)
  also have "\<dots> = Inr ((acc @ [member_entry m (data_at (length pre) m)]) @ entries_from (length (pre @ encode_member m)) ms)"
    using Cons.prems encode_member_dvd [of m] by (intro Cons.IH) auto
  finally show ?case by simp
qed

lemma entries_from_data:
  "i < length ms \<Longrightarrow>
   (\<exists>off. entries_from (length pre) ms ! i = member_entry (ms ! i) off \<and>
      take (length (m_data (ms ! i))) (drop off (pre @ concat (map encode_member ms) @ post)) = m_data (ms ! i))"
proof (induction ms arbitrary: pre i)
  case (Cons m ms)
  show ?case
  proof (cases i)
    case 0
    have "take (length (m_data m)) (drop (data_at (length pre) m) (pre @ encode_member m @ xs)) = m_data m" for xs
      by (simp add: data_at_def encode_member_def zero_pad_def [of "m_data m"])
    from this [of "concat (map encode_member ms) @ post"] show ?thesis
      using 0 by (intro exI [of _ "data_at (length pre) m"]) (simp del: take_append drop_append)
  next
    case (Suc j)
    then show ?thesis using Cons.IH [of j "pre @ encode_member m"] Cons.prems by simp
  qed
qed simp

lemma length_entries_from [simp]: "length (entries_from pos ms) = length ms"
  by (induction ms arbitrary: pos) simp_all

text \<open>
  Round trip of cpio archives. Encode any list of members with the reference encoder, end it with
  the trailer and append arbitrary bytes: if the members fit the cap, the parser returns one entry per
  member, in order, with its name, mode and size, and the slice of the archive its offset and size
  point at is the member's content.
\<close>

theorem cpio_archive_roundtrip:
  assumes "\<forall>m \<in> set ms. member_ok m \<and> decode_utf8 (m_name m) \<noteq> TRAILER_NAME"
    and "int (length ms) \<le> mx" and "0 < mx"
  shows "\<exists>es. parse_newc_entries (archive ms @ post) mx = Inr es \<and> length es = length ms \<and>
    (\<forall>i < length ms. entry_name (es ! i) = decode_utf8 (m_name (ms ! i)) \<and>
       entry_mode (es ! i) = int (m_mode (ms ! i)) \<and> entry_size (es ! i) = int (length (m_data (ms ! i))) \<and>
       py_slice (archive ms @ post) (entry_data_offset (es ! i)) (entry_data_offset (es ! i) + entry_size (es ! i)) =
         m_data (ms ! i))"
proof (intro exI conjI allI impI)
  let ?es = "entries_from 0 ms"
  show "parse_newc_entries (archive ms @ post) mx = Inr ?es"
    using cpio_walk_archive [of "[]" ms "[]" mx post] assms by (simp add: parse_newc_entries_def)
  show "length ?es = length ms" by simp
  fix i assume "i < length ms"
  then obtain off where off: "?es ! i = member_entry (ms ! i) off"
    "take (length (m_data (ms ! i))) (drop off (archive ms @ post)) = m_data (ms ! i)"
    using entries_from_data [of i ms "[]" "encode_member trailer @ post"] by (auto simp: archive_def)
  then show "entry_name (?es ! i) = decode_utf8 (m_name (ms ! i))" "entry_mode (?es ! i) = int (m_mode (ms ! i))"
    "entry_size (?es ! i) = int (length (m_data (ms ! i)))"
    "py_slice (archive ms @ post) (entry_data_offset (?es ! i)) (entry_data_offset (?es ! i) + entry_size (?es ! i)) =
       m_data (ms ! i)"
    by (simp_all add: member_entry_def py_slice_nonneg nat_add_distrib del: take_append drop_append)
qed

definition demo_member :: member where
  "demo_member = \<lparr> m_name = byte_lit ''init'', m_mode = 33188, m_data = byte_lit ''hello'' \<rparr>"

theorem cpio_archive_roundtrip_witness:
  "\<exists>es. parse_newc_entries (archive [demo_member] @ []) 10 = Inr es \<and> length es = 1"
proof -
  have "decode_utf8 (m_name demo_member) = ascii ''init''"
    unfolding decode_utf8_def by (subst utf8_replace_ascii) (simp_all add: demo_member_def byte_lit_def ascii_def)
  then have "\<forall>m \<in> set [demo_member]. member_ok m \<and> decode_utf8 (m_name m) \<noteq> TRAILER_NAME"
    by (simp add: member_ok_def demo_member_def byte_lit_def TRAILER_NAME_def ascii_def)
  from cpio_archive_roundtrip [OF this, of 10 "[]"] show ?thesis by auto
qed

subsection \<open>What every accepted archive satisfies, and what it does not\<close>

lemma cpio_member_end:
  "cpio_member data pos = Inr (e, data_end) \<Longrightarrow>
   data_end = entry_data_offset e + entry_size e \<and> data_end \<le> int (length data)"
  unfolding cpio_member_def Let_def by (auto split: if_splits)

lemma cpio_walk_bounds:
  "cpio_walk data mx pos acc = Inr es \<Longrightarrow> int (length acc) \<le> max 0 mx \<Longrightarrow>
   int (length es) \<le> max 0 mx \<and>
   (\<forall>e \<in> set es - set acc. entry_data_offset e + entry_size e \<le> int (length data))"
proof (induction data mx pos acc arbitrary: es rule: cpio_walk.induct)
  case (1 data mx pos acc)
  show ?case
  proof (cases "cpio_member data pos")
    case (Inl x)
    then show ?thesis using "1.prems"(1) by (subst (asm) cpio_walk.simps) simp
  next
    case (Inr m)
    obtain e data_end where m: "m = (e, data_end)" by (cases m)
    show ?thesis
    proof (cases "entry_name e = TRAILER_NAME \<or> int (length acc) \<ge> mx")
      case True
      then show ?thesis using "1.prems" Inr m by (subst (asm) cpio_walk.simps) (auto split: if_splits)
    next
      case False
      then have "cpio_walk data mx (cpio_pad4 data_end) (acc @ [e]) = Inr es"
        using "1.prems"(1) Inr m by (subst (asm) cpio_walk.simps) simp
      from "1.IH" [OF Inr m [symmetric] _ _ this] False have
        "int (length es) \<le> max 0 mx" "\<forall>x \<in> set es - set (acc @ [e]). entry_data_offset x + entry_size x \<le> int (length data)"
        by auto
      then show ?thesis using cpio_member_end [of data pos e data_end] Inr m by auto
    qed
  qed
qed

text \<open>A 228-byte archive: the size field of its member reads \<open>-0000008\<close>, and the trailer starts inside the member's header.\<close>

definition negative_archive :: bytes where
  "negative_archive =
     take 104 (MAGIC_NEWC @ hex_field 48 0 @ byte_lit ''-0000008'' @ hex_field 32 0 @ hex_field 8 2 @ hex_field 8 0) @
     take 6 (encode_member trailer) @ byte_lit ''a'' @ [0] @ drop 8 (encode_member trailer)"

text \<open>
  A header field may be negative. The parser promises eight hexadecimal digits, but it reads them
  with \<open>int(_, 16)\<close>, which also takes a sign, an underscore or a prefix: this archive is accepted with
  a member of size -8, and the next header is read from inside the header of that member.
\<close>

theorem cpio_negative_size:
  "parse_newc_entries negative_archive 10 =
     Inr [\<lparr> entry_name = ascii ''a'', entry_mode = 0, entry_size = - 8, entry_data_offset = 112,
            entry_is_dir = False, entry_is_symlink = False \<rparr>]"
  by code_simp

subsection \<open>Boot images\<close>

lemma and_pred_even: "(2 * y) AND (2 * y - 1) = 2 * (y AND (y - 1))" for y :: int
proof (rule bit_eqI)
  fix n
  show "bit ((2 * y) AND (2 * y - 1)) n \<longleftrightarrow> bit (2 * (y AND (y - 1))) n"
  proof (cases n)
    case (Suc m)
    have "(2 * y - 1) div 2 = y - 1" by presburger
    then have odd: "bit (2 * y - 1) (Suc m) = bit (y - 1) m" by (simp add: bit_Suc)
    have even: "bit (2 * z) (Suc m) = bit z m" for z :: int by (simp add: bit_Suc)
    show ?thesis by (simp only: Suc bit_and_iff odd even)
  qed (simp add: bit_simps)
qed

lemma power_of_two: "0 < x \<Longrightarrow> x AND (x - 1) = 0 \<Longrightarrow> \<exists>k. x = 2 ^ k" for x :: int
proof (induction "nat x" arbitrary: x rule: less_induct)
  case less
  show ?case
  proof (cases "even x")
    case True
    then obtain y where y: "x = 2 * y" by blast
    then have "y AND (y - 1) = 0" using less.prems(2) and_pred_even [of y] by simp
    with less.hyps [of y] less.prems(1) y obtain k where "y = 2 ^ k" by auto
    with y show ?thesis by (intro exI [of _ "Suc k"]) simp
  next
    case False
    then have "x AND (x - 1) = x - 1"
    proof -
      have "bit (x - 1) n \<Longrightarrow> bit x n" for n
        using False by (cases n) (auto simp: bit_Suc bit_0 elim!: oddE)
      then show ?thesis by (intro bit_eqI) (auto simp: bit_simps)
    qed
    with less.prems show ?thesis by (intro exI [of _ 0]) simp
  qed
qed

lemma page_up_bounds:
  assumes "0 < p"
  shows "v \<le> page_up v p \<and> page_up v p < v + p \<and> p dvd page_up v p"
proof -
  have "page_up v p = (v + p - 1) - (v + p - 1) mod p" by (simp add: page_up_def minus_mod_eq_div_mult)
  moreover have "0 \<le> (v + p - 1) mod p" "(v + p - 1) mod p < p" using assms by simp_all
  ultimately show ?thesis by (auto simp: page_up_def)
qed

text \<open>The header fields of an accepted image: the page size is a power of two and the windows are page-aligned and disjoint.\<close>

definition boot_windows_ok :: "int \<Rightarrow> AndroidBootHeader \<Rightarrow> bool" where
  "boot_windows_ok cap h \<longleftrightarrow>
     (\<exists>k. page_size h = 2 ^ k \<and> 8 \<le> k \<and> k \<le> 20) \<and> kernel_offset h = page_size h \<and>
     0 < kernel_size h \<and> kernel_size h \<le> cap \<and> 0 \<le> ramdisk_size h \<and> ramdisk_size h \<le> cap \<and>
     page_size h dvd ramdisk_offset h \<and> kernel_offset h + kernel_size h \<le> ramdisk_offset h \<and>
     ramdisk_offset h < kernel_offset h + kernel_size h + page_size h"

lemma android_header_windows: "parse_android_boot_header data cap = Inr h \<Longrightarrow> boot_windows_ok cap h"
proof -
  assume h: "parse_android_boot_header data cap = Inr h"
  then have p: "256 \<le> page_size h" "page_size h \<le> 2 ^ 20" "page_size h AND (page_size h - 1) = 0"
    and r: "0 < kernel_size h" "kernel_size h \<le> cap" "0 \<le> ramdisk_size h" "ramdisk_size h \<le> cap"
      "kernel_offset h = page_size h" "ramdisk_offset h = page_size h + page_up (kernel_size h) (page_size h)"
    by (auto simp: parse_android_boot_header_def Let_def MIN_PAGE_SIZE_def MAX_PAGE_SIZE_def u32_le_def split: if_splits)
  obtain k where k: "page_size h = 2 ^ k" using power_of_two [of "page_size h"] p by auto
  have "8 \<le> k" "k \<le> 20"
    using p(1,2) k power_strict_increasing_iff [of "2::int" k 8] power_increasing_iff [of "2::int" k 20] by auto
  then show ?thesis using k r p(1) page_up_bounds [of "page_size h" "kernel_size h"] by (auto simp: boot_windows_ok_def)
qed

subsection \<open>Debug links\<close>

definition bare_filename :: "pystr \<Rightarrow> bool" where
  "bare_filename n \<longleftrightarrow>
     1 \<le> length n \<and> length n \<le> 256 \<and> (\<forall>c \<in> set n. 0 < c \<and> c < 128 \<and> c \<noteq> 47 \<and> c \<noteq> 92) \<and>
     n \<noteq> ascii ''.'' \<and> n \<noteq> ascii ''..''"

lemma nul_not_in: "0 \<notin> set (takeWhile (\<lambda>b. b \<noteq> 0) bs)"
  by (auto dest: set_takeWhileD)

lemma read_link_bare: "read_link data off sz = Some n \<Longrightarrow> bare_filename n"
  by (auto simp: read_link_def Let_def bare_filename_def until_nul_def DEBUGLINK_MAX_NAME_def Suc_le_eq
      not_le unat_gt_0 nul_not_in split: if_splits)

lemma find_link_bare: "find_link sect shstr data is = Some n \<Longrightarrow> bare_filename n"
  by (induction sect shstr data "is" rule: find_link.induct)
     (auto split: option.splits prod.splits if_splits dest: read_link_bare)

end
