(* ===== verification/Worker_Errors.thy ===== *)
theory Worker_Errors
  imports Prelude
begin

text \<open>The worker's error codes (\<open>worker/dispatch.py\<close>) and the faults its file handling raises.\<close>

datatype worker_fault = WorkerError int string | OtherFault

definition CODE_INVALID_REQUEST :: int where "CODE_INVALID_REQUEST = - 32600"
definition CODE_METHOD_NOT_FOUND :: int where "CODE_METHOD_NOT_FOUND = - 32601"
definition CODE_INVALID_PARAMS :: int where "CODE_INVALID_PARAMS = - 32602"
definition CODE_NOT_FOUND :: int where "CODE_NOT_FOUND = - 32004"
definition CODE_LIMIT_EXCEEDED :: int where "CODE_LIMIT_EXCEEDED = - 32008"
definition CODE_ANALYSIS_FAILED :: int where "CODE_ANALYSIS_FAILED = - 32010"
definition CODE_INTERNAL :: int where "CODE_INTERNAL = - 32603"

end
