(* ===== verification/Container.thy ===== *)
theory Container
  imports Firmware_Props Worker_Errors
begin

text \<open>
  The worker's unwrapping of compressed and firmware containers (\<open>ghidra/_jvm_bridge.py\<close>): the
  chunked copy under the zip-bomb cap, the legacy lz4 reader, the U-Boot and Android windows, and the
  staging of a detached debug file. A file is its bytes. The decompressors (\<open>gzip\<close>, \<open>lzma\<close>,
  \<open>lz4.frame\<close>, \<open>lz4.block\<close>) are parameters; nothing is assumed of them for the cap. A reader's
  contract is a locale, and the file reader and the legacy lz4 reader are shown to meet it.
\<close>

unbundle bit_operations_syntax

subsection \<open>The bounded copy\<close>

definition STREAM_CHUNK :: nat where "STREAM_CHUNK = 1024 * 1024"

definition cap_fault :: worker_fault where
  "cap_fault = WorkerError CODE_LIMIT_EXCEEDED ''decompressed output exceeds the cap''"

text \<open>The loop of \<open>_stream_to_payload\<close>; the second result is what the payload file holds.\<close>

function stream_loop ::
  "('r \<Rightarrow> nat \<Rightarrow> worker_fault + bytes \<times> 'r) \<Rightarrow> int \<Rightarrow> 'r \<Rightarrow> int \<Rightarrow> bytes \<Rightarrow>
   (worker_fault + unit) \<times> bytes" where
  "stream_loop read limit r copied dst =
     (case read r STREAM_CHUNK of
        Inl e \<Rightarrow> (Inl e, dst)
      | Inr (chunk, r') \<Rightarrow>
          if chunk = [] then (Inr (), dst)
          else if copied + int (length chunk) > limit then (Inl cap_fault, dst)
          else stream_loop read limit r' (copied + int (length chunk)) (dst @ chunk))"
  by pat_completeness auto
termination
  by (relation "measure (\<lambda>(read, limit, r, copied, dst). nat (limit - copied))")
     (auto simp flip: length_greater_0_conv)

declare stream_loop.simps [simp del]

definition stream_to_payload ::
  "('r \<Rightarrow> nat \<Rightarrow> worker_fault + bytes \<times> 'r) \<Rightarrow> int \<Rightarrow> 'r \<Rightarrow> (worker_fault + unit) \<times> bytes" where
  "stream_to_payload read limit r = stream_loop read limit r 0 []"

text \<open>Whatever the reader does, the file stays within the cap.\<close>

lemma stream_loop_cap:
  "int (length dst) = copied \<Longrightarrow> copied \<le> max 0 limit \<Longrightarrow>
   int (length (snd (stream_loop read limit r copied dst))) \<le> max 0 limit"
proof (induction read limit r copied dst rule: stream_loop.induct)
  case (1 read limit r copied dst)
  show ?case
  proof (cases "read r STREAM_CHUNK")
    case (Inr p)
    obtain chunk r' where p: "p = (chunk, r')" by (cases p)
    then show ?thesis
      using "1.IH" [OF Inr p [symmetric]] "1.prems" Inr by (subst stream_loop.simps) auto
  qed (use "1.prems" in \<open>subst stream_loop.simps, simp\<close>)
qed

lemma stream_to_payload_cap: "int (length (snd (stream_to_payload read limit r))) \<le> max 0 limit"
  unfolding stream_to_payload_def by (rule stream_loop_cap) simp_all

text \<open>The outcome of copying a content: all of it, or a prefix and the cap fault.\<close>

definition copy_result :: "int \<Rightarrow> int \<Rightarrow> bytes \<Rightarrow> bytes \<Rightarrow> (worker_fault + unit) \<times> bytes \<Rightarrow> bool" where
  "copy_result limit copied dst c res \<longleftrightarrow>
     (copied + int (length c) \<le> limit \<and> res = (Inr (), dst @ c)) \<or>
     (copied + int (length c) > limit \<and> (\<exists>pre post. c = pre @ post \<and> res = (Inl cap_fault, dst @ pre)))"

lemma copy_result_append:
  assumes "copy_result limit (copied + int (length chunk)) (dst @ chunk) c res"
  shows "copy_result limit copied dst (chunk @ c) res"
proof (cases "copied + int (length (chunk @ c)) \<le> limit")
  case False
  then obtain pre post where "c = pre @ post" "res = (Inl cap_fault, dst @ chunk @ pre)"
    using assms by (auto simp: copy_result_def)
  then show ?thesis using False
    unfolding copy_result_def by (intro disjI2 conjI exI [of _ "chunk @ pre"] exI [of _ post]) simp_all
qed (use assms in \<open>auto simp: copy_result_def\<close>)

text \<open>
  The contract of a reader: while its content is known, a read of a positive size returns a prefix of
  at most that size, which is empty only at the end.
\<close>

locale chunk_reader =
  fixes read :: "'r \<Rightarrow> nat \<Rightarrow> worker_fault + bytes \<times> 'r" and content :: "'r \<Rightarrow> bytes option"
  assumes read_content: "content r = Some c \<Longrightarrow> 0 < n \<Longrightarrow>
    \<exists>chunk c' r'. read r n = Inr (chunk, r') \<and> content r' = Some c' \<and> c = chunk @ c' \<and>
      length chunk \<le> n \<and> (chunk = [] \<longrightarrow> c = [])"
begin

text \<open>Then the copy delivers exactly the content, or stops at the cap with a prefix of it.\<close>

lemma stream_loop_content:
  "content r = Some c \<Longrightarrow> copied \<le> limit \<Longrightarrow> copy_result limit copied dst c (stream_loop read limit r copied dst)"
proof (induction "length c" arbitrary: r c copied dst rule: less_induct)
  case less
  obtain chunk c' r' where r: "read r STREAM_CHUNK = Inr (chunk, r')" "content r' = Some c'" "c = chunk @ c'"
    "chunk = [] \<longrightarrow> c = []"
    using read_content [OF less.prems(1), of STREAM_CHUNK] by (auto simp: STREAM_CHUNK_def)
  consider "chunk = []" | "chunk \<noteq> []" "copied + int (length chunk) > limit"
    | "chunk \<noteq> []" "copied + int (length chunk) \<le> limit" by fastforce
  then show ?case
  proof cases
    case 1
    then show ?thesis using r less.prems(2) by (simp add: stream_loop.simps copy_result_def)
  next
    case 2
    then have "stream_loop read limit r copied dst = (Inl cap_fault, dst @ [])"
      using r(1) by (subst stream_loop.simps) simp
    then show ?thesis using 2 r(3) by (auto simp: copy_result_def)
  next
    case 3
    have "stream_loop read limit r copied dst = stream_loop read limit r' (copied + int (length chunk)) (dst @ chunk)"
      using r(1) 3 by (subst stream_loop.simps) simp
    moreover have "copy_result limit (copied + int (length chunk)) (dst @ chunk) c'
        (stream_loop read limit r' (copied + int (length chunk)) (dst @ chunk))"
      using less.hyps [OF _ r(2)] r(3) 3 by simp
    ultimately show ?thesis using copy_result_append [of limit copied chunk dst c'] r(3) by simp
  qed
qed

lemma stream_content:
  "content r = Some c \<Longrightarrow> 0 \<le> limit \<Longrightarrow> copy_result limit 0 [] c (stream_to_payload read limit r)"
  using stream_loop_content [of r c 0 limit "[]"] by (simp add: stream_to_payload_def)

end

subsection \<open>Readers\<close>

text \<open>An open file at its current position.\<close>

definition file_read :: "bytes \<Rightarrow> nat \<Rightarrow> worker_fault + bytes \<times> bytes" where
  "file_read r n = Inr (take n r, drop n r)"

interpretation plain_file: chunk_reader file_read Some
  by unfold_locales (auto simp: file_read_def)

definition LZ4_LEGACY_MAX_BLOCKS :: int where "LZ4_LEGACY_MAX_BLOCKS = 1000000"

text \<open>The legacy reader: the file, the blocks not read yet (from \<open>_index\<close> on) and the buffer.\<close>

record lz4_reader =
  lz_data :: bytes
  lz_blocks :: "(nat \<times> nat) list"
  lz_buffer :: bytes

definition open_lz4_legacy :: "bytes \<Rightarrow> worker_fault + lz4_reader" where
  "open_lz4_legacy data =
     (case parse_legacy_frame data LZ4_LEGACY_MAX_BLOCKS of
        Inl _ \<Rightarrow> Inl OtherFault
      | Inr blocks \<Rightarrow> Inr \<lparr> lz_data = data, lz_blocks = blocks, lz_buffer = [] \<rparr>)"

text \<open>The filling loop of \<open>read\<close>; \<open>decompress\<close> is \<open>lz4.block.decompress\<close> with the block output cap.\<close>

fun lz4_fill ::
  "(bytes \<Rightarrow> worker_fault + bytes) \<Rightarrow> bytes \<Rightarrow> int \<Rightarrow> (nat \<times> nat) list \<Rightarrow> bytes \<Rightarrow>
   worker_fault + (nat \<times> nat) list \<times> bytes" where
  "lz4_fill decompress data sz [] buf = Inr ([], buf)"
| "lz4_fill decompress data sz ((offset, len) # blocks) buf =
     (if sz < 0 \<or> int (length buf) < sz then
        chain (decompress (take len (drop offset data))) (\<lambda>out.
          lz4_fill decompress data sz blocks (buf @ out))
      else Inr ((offset, len) # blocks, buf))"

definition lz4_read ::
  "(bytes \<Rightarrow> worker_fault + bytes) \<Rightarrow> lz4_reader \<Rightarrow> int \<Rightarrow> worker_fault + bytes \<times> lz4_reader" where
  "lz4_read decompress r sz =
     chain (lz4_fill decompress (lz_data r) sz (lz_blocks r) (lz_buffer r)) (\<lambda>(blocks, buf).
       if sz < 0 then Inr (buf, r\<lparr>lz_blocks := blocks, lz_buffer := []\<rparr>)
       else Inr (take (nat sz) buf, r\<lparr>lz_blocks := blocks, lz_buffer := drop (nat sz) buf\<rparr>))"

text \<open>What a reader still has to deliver: its buffer and the outputs of its blocks, if all decompress.\<close>

fun blocks_content :: "(bytes \<Rightarrow> worker_fault + bytes) \<Rightarrow> bytes \<Rightarrow> (nat \<times> nat) list \<Rightarrow> bytes option" where
  "blocks_content decompress data [] = Some []"
| "blocks_content decompress data ((offset, len) # blocks) =
     (case decompress (take len (drop offset data)) of
        Inl _ \<Rightarrow> None
      | Inr out \<Rightarrow> map_option (\<lambda>rest. out @ rest) (blocks_content decompress data blocks))"

definition lz4_content :: "(bytes \<Rightarrow> worker_fault + bytes) \<Rightarrow> lz4_reader \<Rightarrow> bytes option" where
  "lz4_content decompress r =
     map_option (\<lambda>rest. lz_buffer r @ rest) (blocks_content decompress (lz_data r) (lz_blocks r))"

lemma lz4_fill_content:
  "blocks_content decompress data blocks = Some rest \<Longrightarrow> 0 < sz \<Longrightarrow>
   \<exists>blocks' buf' rest'. lz4_fill decompress data sz blocks buf = Inr (blocks', buf') \<and>
     blocks_content decompress data blocks' = Some rest' \<and> buf @ rest = buf' @ rest' \<and>
     (buf' = [] \<longrightarrow> rest' = [])"
proof (induction blocks arbitrary: buf rest)
  case (Cons b blocks)
  obtain offset len where b: "b = (offset, len)" by (cases b)
  show ?case
  proof (cases "int (length buf) < sz")
    case True
    obtain out rest0 where o: "decompress (take len (drop offset data)) = Inr out"
      "blocks_content decompress data blocks = Some rest0" "rest = out @ rest0"
      using Cons.prems(1) by (auto simp: b split: sum.splits)
    from Cons.IH [OF o(2) Cons.prems(2), of "buf @ out"] show ?thesis using True o by (simp add: b)
  next
    case False
    then have "buf \<noteq> []" using Cons.prems(2) by auto
    then show ?thesis using False Cons.prems by (intro exI [of _ "b # blocks"] exI [of _ buf] exI [of _ rest]) (simp add: b)
  qed
qed simp

interpretation lz4_stream: chunk_reader "\<lambda>r n. lz4_read decompress r (int n)" "lz4_content decompress" for decompress
proof
  fix r c and n :: nat
  assume c: "lz4_content decompress r = Some c" and n: "0 < n"
  then obtain rest where rest: "blocks_content decompress (lz_data r) (lz_blocks r) = Some rest" "c = lz_buffer r @ rest"
    by (auto simp: lz4_content_def)
  obtain blocks' buf' rest' where f: "lz4_fill decompress (lz_data r) (int n) (lz_blocks r) (lz_buffer r) = Inr (blocks', buf')"
    "blocks_content decompress (lz_data r) blocks' = Some rest'" "lz_buffer r @ rest = buf' @ rest'" "buf' = [] \<longrightarrow> rest' = []"
    using lz4_fill_content [OF rest(1), of "int n" "lz_buffer r"] n by auto
  let ?r = "r\<lparr>lz_blocks := blocks', lz_buffer := drop n buf'\<rparr>"
  have "lz4_read decompress r (int n) = Inr (take n buf', ?r)" using f(1) by (simp add: lz4_read_def)
  moreover have "lz4_content decompress ?r = Some (drop n buf' @ rest')" using f(2) by (simp add: lz4_content_def)
  moreover have "c = take n buf' @ drop n buf' @ rest'" using f(3) rest(2) by simp
  moreover have "take n buf' = [] \<longrightarrow> c = []" using f(3,4) rest(2) n by auto
  ultimately show "\<exists>chunk c' r'. lz4_read decompress r (int n) = Inr (chunk, r') \<and> lz4_content decompress r' = Some c' \<and>
      c = chunk @ c' \<and> length chunk \<le> n \<and> (chunk = [] \<longrightarrow> c = [])"
    by (metis length_take min.cobounded2)
qed

subsection \<open>Unwrapping\<close>

text \<open>
  The readers \<open>_open_comp\<close> hands out: an open file, a legacy lz4 reader, or a decompressor of the
  standard library or of \<open>lz4\<close>, whose opening and reading are parameters.
\<close>

datatype 'x reader = FileReader bytes | LegacyReader lz4_reader | ExtReader 'x

record 'x codec_env =
  ext_open :: "codec \<Rightarrow> bytes \<Rightarrow> 'x option"
  ext_read :: "'x \<Rightarrow> nat \<Rightarrow> (bytes \<times> 'x) option"
  block_decompress :: "bytes \<Rightarrow> bytes option"

text \<open>A library call; \<open>None\<close> is an exception of the library.\<close>

definition lib_call :: "'a option \<Rightarrow> worker_fault + 'a" where
  "lib_call v = (case v of None \<Rightarrow> Inl OtherFault | Some x \<Rightarrow> Inr x)"

abbreviation block_call :: "'x codec_env \<Rightarrow> bytes \<Rightarrow> worker_fault + bytes" where
  "block_call env b \<equiv> lib_call (block_decompress env b)"

fun reader_read :: "'x codec_env \<Rightarrow> 'x reader \<Rightarrow> nat \<Rightarrow> worker_fault + bytes \<times> 'x reader" where
  "reader_read env (FileReader bs) n = map_sum id (map_prod id FileReader) (file_read bs n)"
| "reader_read env (LegacyReader r) n = map_sum id (map_prod id LegacyReader) (lz4_read (block_call env) r (int n))"
| "reader_read env (ExtReader x) n = map_sum id (map_prod id ExtReader) (lib_call (ext_read env x n))"

definition open_comp :: "'x codec_env \<Rightarrow> bytes \<Rightarrow> codec \<Rightarrow> worker_fault + 'x reader" where
  "open_comp env path c =
     (if c = Lz4Legacy then map_sum id LegacyReader (open_lz4_legacy path)
      else map_sum id ExtReader (lib_call (ext_open env c path)))"

text \<open>Open, then copy: \<open>with open_comp(\<dots>) as src: stream_to_payload(src)\<close>.\<close>

definition stream_comp :: "'x codec_env \<Rightarrow> int \<Rightarrow> bytes \<Rightarrow> codec \<Rightarrow> (worker_fault + unit) \<times> bytes" where
  "stream_comp env limit path c =
     (case open_comp env path c of
        Inl e \<Rightarrow> (Inl e, [])
      | Inr r \<Rightarrow> stream_to_payload (reader_read env) limit r)"

text \<open>The loop that copies a window of the source into a temporary file.\<close>

function copy_window :: "int \<Rightarrow> bytes \<Rightarrow> bytes \<Rightarrow> bytes" where
  "copy_window remaining src dst =
     (if remaining > 0 then
        (let n = min STREAM_CHUNK (nat remaining); chunk = take n src in
         if chunk = [] then dst
         else copy_window (remaining - int (length chunk)) (drop n src) (dst @ chunk))
      else dst)"
  by pat_completeness auto
termination
  by (relation "measure (\<lambda>(remaining, src, dst). length src)") (auto simp: STREAM_CHUNK_def)

declare copy_window.simps [simp del]

definition unwrap_uimage :: "'x codec_env \<Rightarrow> int \<Rightarrow> bytes \<Rightarrow> (worker_fault + unit) \<times> bytes" where
  "unwrap_uimage env limit source =
     (case parse_uimage_header (take UIMAGE_HEADER_SIZE source) limit of
        Inl _ \<Rightarrow> (Inl OtherFault, [])
      | Inr meta \<Rightarrow>
          (let payload_len = min (payload_size meta) (max 0 (int (length source) - int UIMAGE_HEADER_SIZE)) in
           if payload_len \<le> 0 then (Inl OtherFault, [])
           else
             (let envelope = copy_window payload_len (drop UIMAGE_HEADER_SIZE source) [] in
              if comp meta = NoComp then stream_to_payload (reader_read env) limit (FileReader envelope)
              else stream_comp env limit envelope (comp meta))))"

datatype region = Kernel | Ramdisk

definition unwrap_androidboot ::
  "'x codec_env \<Rightarrow> int \<Rightarrow> region \<Rightarrow> bytes \<Rightarrow> (worker_fault + unit) \<times> bytes" where
  "unwrap_androidboot env limit region source =
     (case parse_android_boot_header (take HEADER_PREFIX_SIZE source) limit of
        Inl _ \<Rightarrow> (Inl OtherFault, [])
      | Inr meta \<Rightarrow>
          if region = Ramdisk \<and> ramdisk_size meta \<le> 0 then (Inl OtherFault, [])
          else
            (let offset = (if region = Ramdisk then ramdisk_offset meta else kernel_offset meta);
                 sz = (if region = Ramdisk then ramdisk_size meta else kernel_size meta);
                 file_size = int (length source);
                 start = min offset file_size;
                 window = max 0 (min (offset + sz) file_size - start)
             in if window \<le> 0 then (Inl OtherFault, [])
                else
                  (let temp = copy_window window (drop (nat start) source) [] in
                   if region = Ramdisk then
                     (case detect_ramdisk_codec (take 16 temp) of
                        None \<Rightarrow> (Inl OtherFault, [])
                      | Some c \<Rightarrow>
                          if c = Cpio then stream_to_payload (reader_read env) limit (FileReader temp)
                          else stream_comp env limit temp c)
                   else stream_to_payload (reader_read env) limit (FileReader temp))))"

datatype container = StreamContainer codec | UImage | AndroidBoot

definition decompress_container ::
  "'x codec_env \<Rightarrow> bytes \<Rightarrow> container \<Rightarrow> int \<Rightarrow> int \<Rightarrow> region \<Rightarrow> (worker_fault + unit) \<times> bytes" where
  "decompress_container env source container max_output max_ratio region =
     (let limit = min max_output (max (int (length source)) 1 * max_ratio);
          (res, payload) =
            (case container of
               UImage \<Rightarrow> unwrap_uimage env limit source
             | AndroidBoot \<Rightarrow> unwrap_androidboot env limit region source
             | StreamContainer c \<Rightarrow> stream_comp env limit source c)
      in (case res of
            Inl OtherFault \<Rightarrow> Inl (WorkerError CODE_NOT_FOUND ''container could not be decompressed'')
          | _ \<Rightarrow> res, payload))"

lemma copy_window_eq: "copy_window remaining src dst = dst @ take (nat remaining) src"
proof (induction remaining src dst rule: copy_window.induct)
  case (1 remaining src dst)
  show ?case
  proof (cases "remaining > 0 \<and> src \<noteq> []")
    case True
    let ?n = "min STREAM_CHUNK (nat remaining)"
    have n: "0 < ?n" "?n \<le> nat remaining" using True by (simp_all add: STREAM_CHUNK_def)
    have "copy_window remaining src dst = copy_window (remaining - int (length (take ?n src))) (drop ?n src) (dst @ take ?n src)"
      using True n(1) by (subst copy_window.simps) (auto simp: Let_def)
    also have "\<dots> = dst @ take ?n src @ take (nat (remaining - int (length (take ?n src)))) (drop ?n src)"
      using "1.IH" [OF _ refl refl] True n(1) by auto
    also have "take ?n src @ take (nat (remaining - int (length (take ?n src)))) (drop ?n src) = take (nat remaining) src"
    proof (cases "?n \<le> length src")
      case True
      then have "nat (remaining - int (length (take ?n src))) = nat remaining - ?n" using n by simp
      then show ?thesis using n(2) take_add [of ?n "nat remaining - ?n" src] by simp
    qed (use n(2) in simp)
    finally show ?thesis .
  next
    case False
    then show ?thesis by (subst copy_window.simps) (auto simp: Let_def)
  qed
qed

lemma unwrap_cap:
  "int (length (snd (stream_comp env limit p c))) \<le> max 0 limit"
  "int (length (snd (unwrap_uimage env limit source))) \<le> max 0 limit"
  "int (length (snd (unwrap_androidboot env limit region source))) \<le> max 0 limit"
proof -
  show stream: "int (length (snd (stream_comp env limit p c))) \<le> max 0 limit" for p c
    by (simp add: stream_comp_def stream_to_payload_cap split: sum.split)
  show "int (length (snd (unwrap_uimage env limit source))) \<le> max 0 limit"
    "int (length (snd (unwrap_androidboot env limit region source))) \<le> max 0 limit"
    by (auto simp: unwrap_uimage_def unwrap_androidboot_def Let_def stream stream_to_payload_cap
        split: sum.split option.split)
qed

text \<open>Only the cap and an unspecific fault can come out of a copy.\<close>

definition copy_faults :: "worker_fault + 'a \<Rightarrow> bool" where
  "copy_faults res \<longleftrightarrow> (case res of Inl e \<Rightarrow> e \<in> {cap_fault, OtherFault} | Inr _ \<Rightarrow> True)"

lemma lz4_fill_fault: "lz4_fill (block_call env) data sz blocks buf = Inl e \<Longrightarrow> e = OtherFault"
  by (induction "block_call env" data sz blocks buf rule: lz4_fill.induct)
     (auto simp: chain_Inl_iff lib_call_def split: if_splits option.splits)

lemma reader_read_fault: "reader_read env r n = Inl e \<Longrightarrow> e = OtherFault"
  by (cases r) (auto simp: file_read_def lz4_read_def map_sum_eq_Inl chain_Inl_iff lz4_fill_fault lib_call_def
      split: option.splits if_splits)

lemma copy_faults_simps [simp]:
  "copy_faults (Inl OtherFault)" "copy_faults (Inl cap_fault)" "copy_faults (Inr x)"
  by (simp_all add: copy_faults_def)

lemma stream_loop_fault: "copy_faults (fst (stream_loop (reader_read env) limit r copied dst))"
proof (induction "reader_read env" limit r copied dst rule: stream_loop.induct)
  case (1 limit r copied dst)
  show ?case
  proof (cases "reader_read env r STREAM_CHUNK")
    case (Inl e)
    then show ?thesis using reader_read_fault [OF Inl] by (subst stream_loop.simps) simp
  next
    case (Inr p)
    obtain chunk r' where p: "p = (chunk, r')" by (cases p)
    then show ?thesis using 1 [OF Inr p [symmetric]] Inr by (subst stream_loop.simps) simp
  qed
qed

lemma stream_to_payload_fault: "copy_faults (fst (stream_to_payload (reader_read env) limit r))"
  by (simp add: stream_to_payload_def stream_loop_fault)

lemma open_comp_fault: "open_comp env path c = Inl e \<Longrightarrow> e = OtherFault"
  by (auto simp: open_comp_def open_lz4_legacy_def lib_call_def split: sum.splits if_splits option.splits)

lemma stream_comp_fault: "copy_faults (fst (stream_comp env limit path c))"
proof (cases "open_comp env path c")
  case (Inl e)
  then show ?thesis using open_comp_fault [OF Inl] by (simp add: stream_comp_def)
qed (simp add: stream_comp_def stream_to_payload_fault)

lemma unwrap_fault:
  "copy_faults (fst (unwrap_uimage env limit source))" "copy_faults (fst (unwrap_androidboot env limit region source))"
  by (simp_all add: unwrap_uimage_def unwrap_androidboot_def Let_def stream_comp_fault stream_to_payload_fault
      split: sum.split option.split)

definition unwrap_any :: "'x codec_env \<Rightarrow> int \<Rightarrow> container \<Rightarrow> region \<Rightarrow> bytes \<Rightarrow> (worker_fault + unit) \<times> bytes" where
  "unwrap_any env limit container region source =
     (case container of
        UImage \<Rightarrow> unwrap_uimage env limit source
      | AndroidBoot \<Rightarrow> unwrap_androidboot env limit region source
      | StreamContainer c \<Rightarrow> stream_comp env limit source c)"

lemma unwrap_any_facts:
  "int (length (snd (unwrap_any env limit container region source))) \<le> max 0 limit"
  "copy_faults (fst (unwrap_any env limit container region source))"
  by (cases container; simp only: unwrap_any_def container.case unwrap_cap unwrap_fault stream_comp_fault)+

definition not_decompressed :: worker_fault where
  "not_decompressed = WorkerError CODE_NOT_FOUND ''container could not be decompressed''"

definition seal_fault :: "worker_fault + unit \<Rightarrow> worker_fault + unit" where
  "seal_fault res = (case res of Inl e \<Rightarrow> Inl (if e = OtherFault then not_decompressed else e) | Inr u \<Rightarrow> Inr u)"

lemma decompress_container_sealed:
  "decompress_container env source container max_output max_ratio region =
     map_prod seal_fault id
       (unwrap_any env (min max_output (max (int (length source)) 1 * max_ratio)) container region source)"
proof -
  have "(case res of Inl OtherFault \<Rightarrow> Inl not_decompressed | _ \<Rightarrow> res) = seal_fault res" for res
    by (simp add: seal_fault_def split: sum.split worker_fault.split)
  then show ?thesis
    unfolding decompress_container_def Let_def unwrap_any_def not_decompressed_def [symmetric] by (simp add: case_prod_beta map_prod_def)
qed

text \<open>
  C36: The zip-bomb cap. Whatever the image is and however the decompressors behave (they may fail,
  lie about sizes or never end), unwrapping a container writes at most \<open>min(max_output, ratio * input)\<close>
  bytes to the payload file, and ends with success, with the limit error or with the one not-found
  error; no other exception leaves it.
\<close>

theorem decompress_container_bounded:
  "case decompress_container env source container max_output max_ratio region of
     (res, payload) \<Rightarrow>
       int (length payload) \<le> max 0 (min max_output (max (int (length source)) 1 * max_ratio)) \<and>
       res \<in> {Inr (), Inl cap_fault, Inl not_decompressed}"
proof -
  let ?r = "unwrap_any env (min max_output (max (int (length source)) 1 * max_ratio)) container region source"
  have "seal_fault (fst ?r) \<in> {Inr (), Inl cap_fault, Inl not_decompressed}"
    using unwrap_any_facts(2) [of env "min max_output (max (int (length source)) 1 * max_ratio)" container region source]
    by (cases "fst ?r") (auto simp: copy_faults_def seal_fault_def)
  then show ?thesis
    unfolding decompress_container_sealed by (cases ?r) (metis case_prod_conv fst_conv id_apply map_prod_simp snd_conv unwrap_any_facts(1))
qed

subsection \<open>What a payload holds\<close>

fun reader_content :: "'x codec_env \<Rightarrow> 'x reader \<Rightarrow> bytes option" where
  "reader_content env (FileReader bs) = Some bs"
| "reader_content env (LegacyReader r) = lz4_content (block_call env) r"
| "reader_content env (ExtReader x) = None"

text \<open>The readers the worker opens itself meet the contract, because the two kinds do.\<close>

interpretation payload: chunk_reader "reader_read env" "reader_content env" for env
proof
  fix r :: "'a reader" and c and n :: nat
  assume c: "reader_content env r = Some c" and n: "0 < n"
  show "\<exists>chunk c' r'. reader_read env r n = Inr (chunk, r') \<and> reader_content env r' = Some c' \<and>
      c = chunk @ c' \<and> length chunk \<le> n \<and> (chunk = [] \<longrightarrow> c = [])"
  proof (cases r)
    case (FileReader bs)
    with c plain_file.read_content [of bs c n] n show ?thesis
      by auto
  next
    case (LegacyReader l)
    with c lz4_stream.read_content [of "block_call env" l c n] n show ?thesis
      by auto
  qed (use c in simp)
qed

lemma file_payload:
  "0 \<le> limit \<Longrightarrow> copy_result limit 0 [] bs (stream_to_payload (reader_read env) limit (FileReader bs))"
  by (rule payload.stream_content) simp_all

lemma length_LEGACY_MAGIC: "length LEGACY_MAGIC = 4"
  by (simp add: LEGACY_MAGIC_def)

lemma blocks_content_spans:
  "list_all2 (\<lambda>c out. decompress c = Inr out) chunks outs \<Longrightarrow>
   blocks_content decompress (pre @ lz4_records chunks @ tail) (lz4_spans (length pre) chunks) = Some (concat outs)"
proof (induction chunks outs arbitrary: pre rule: list_all2_induct)
  case (Cons c chunks out outs)
  from Cons.IH [of "pre @ le_bytes 4 (length c) @ c"] Cons.hyps(1) show ?case by (simp add: add.assoc)
qed simp

text \<open>
  C37: A legacy lz4 ramdisk is decompressed faithfully. For a frame made of up to a million blocks whose
  blocks the block decompressor inflates, the payload is the concatenation of the inflated blocks in
  order, whatever sizes they have and however the reads of one mebibyte cut them, or, if that is more
  than the cap, a prefix of it together with the limit error.
\<close>

theorem legacy_stream_faithful:
  assumes "list_all2 (\<lambda>c out. block_decompress env c = Some out) chunks outs"
    and "chunks \<noteq> []" and "length chunks \<le> 1000000" and "list_all chunk_ok chunks" and "frame_tail tail" and "0 \<le> limit"
  shows "copy_result limit 0 [] (concat outs) (stream_comp env limit (LEGACY_MAGIC @ lz4_records chunks @ tail) Lz4Legacy)"
proof -
  let ?data = "LEGACY_MAGIC @ lz4_records chunks @ tail"
  let ?r = "\<lparr> lz_data = ?data, lz_blocks = lz4_spans 4 chunks, lz_buffer = [] \<rparr>"
  have "parse_legacy_frame ?data LZ4_LEGACY_MAX_BLOCKS = Inr (lz4_spans 4 chunks)"
    unfolding legacy_frame_iff using assms(2-5) by (auto simp: LZ4_LEGACY_MAX_BLOCKS_def)
  then have "open_comp env ?data Lz4Legacy = Inr (LegacyReader ?r)" by (simp add: open_comp_def open_lz4_legacy_def)
  moreover have "list_all2 (\<lambda>c out. block_call env c = Inr out) chunks outs"
    using assms(1) by (rule list_all2_mono) (simp add: lib_call_def)
  from blocks_content_spans [OF this, of LEGACY_MAGIC tail] have "reader_content env (LegacyReader ?r) = Some (concat outs)"
    by (simp add: lz4_content_def length_LEGACY_MAGIC)
  from payload.stream_content [OF this assms(6)] calculation show ?thesis by (simp add: stream_comp_def)
qed

definition demo_codecs :: "unit codec_env" where
  "demo_codecs = \<lparr> ext_open = (\<lambda>_ _. None), ext_read = (\<lambda>_ _. None), block_decompress = (\<lambda>b. Some (b @ b)) \<rparr>"

theorem legacy_stream_faithful_witness:
  "copy_result 100 0 [] [1, 2, 1, 2, 3, 3]
     (stream_comp demo_codecs 100 (LEGACY_MAGIC @ lz4_records [[1, 2], [3]] @ []) Lz4Legacy)"
  using legacy_stream_faithful [of demo_codecs "[[1, 2], [3]]" "[[1, 2, 1, 2], [3, 3]]" "[]" 100]
  by (simp add: demo_codecs_def chunk_ok_def frame_tail_def MAGIC_AS_SIZE_def LEGACY_MAGIC_def)

lemma file_payload_fits:
  "int (length bs) \<le> limit \<Longrightarrow> stream_to_payload (reader_read env) limit (FileReader bs) = (Inr (), bs)"
  using file_payload [of limit bs env] by (auto simp: copy_result_def)

lemma android_kernel_window:
  assumes h: "parse_android_boot_header (take HEADER_PREFIX_SIZE source) limit = Inr h"
  shows "unwrap_androidboot env limit Kernel source =
    (if kernel_offset h < int (length source)
     then (Inr (), take (nat (kernel_size h)) (drop (nat (kernel_offset h)) source))
     else (Inl OtherFault, []))"
proof -
  have ok: "boot_windows_ok limit h" using android_header_windows [OF h] .
  then obtain k where "page_size h = 2 ^ k" by (auto simp: boot_windows_ok_def)
  then have off: "0 < kernel_offset h" "0 < kernel_size h" "kernel_size h \<le> limit" using ok by (auto simp: boot_windows_ok_def)
  let ?win = "take (nat (min (kernel_offset h + kernel_size h) (int (length source)) - kernel_offset h)) (drop (nat (kernel_offset h)) source)"
  have win: "?win = take (nat (kernel_size h)) (drop (nat (kernel_offset h)) source)"
    using off by (cases "kernel_offset h + kernel_size h \<le> int (length source)") (simp_all add: min_def)
  show ?thesis
  proof (cases "kernel_offset h < int (length source)")
    case True
    then have "unwrap_androidboot env limit Kernel source = stream_to_payload (reader_read env) limit (FileReader ?win)"
      using True h off by (simp add: unwrap_androidboot_def Let_def copy_window_eq min_le_iff_disj)
    moreover have "int (length ?win) \<le> limit" unfolding win using off by auto
    ultimately show ?thesis using True file_payload_fits [of ?win limit env] unfolding win by simp
  next
    case False
    then show ?thesis using off h by (simp add: unwrap_androidboot_def Let_def)
  qed
qed

text \<open>
  The kernel of an Android boot image. If the header is accepted under the cap and the kernel
  starts inside the file, the payload is exactly the declared kernel window, cut at the end of the
  file, and the cap never interferes; in every other case the one not-found error is raised and
  nothing is written.
\<close>

theorem android_kernel_exact:
  "decompress_container env source AndroidBoot max_output max_ratio Kernel =
     (case parse_android_boot_header (take HEADER_PREFIX_SIZE source)
             (min max_output (max (int (length source)) 1 * max_ratio)) of
        Inl _ \<Rightarrow> (Inl not_decompressed, [])
      | Inr h \<Rightarrow>
          if kernel_offset h < int (length source)
          then (Inr (), take (nat (kernel_size h)) (drop (nat (kernel_offset h)) source))
          else (Inl not_decompressed, []))"
proof (cases "parse_android_boot_header (take HEADER_PREFIX_SIZE source) (min max_output (max (int (length source)) 1 * max_ratio))")
  case (Inl e)
  then show ?thesis by (simp add: decompress_container_sealed unwrap_any_def unwrap_androidboot_def seal_fault_def)
next
  case (Inr h)
  from android_kernel_window [OF this, of env] Inr show ?thesis
    by (simp add: decompress_container_sealed unwrap_any_def seal_fault_def)
qed

subsection \<open>Listing a ramdisk\<close>

datatype ramdisk_kind = KindDir | KindSymlink | KindFile | KindOther

record ramdisk_row =
  row_path :: pystr
  row_size :: int
  row_mode :: int
  row_kind :: ramdisk_kind
  row_address :: pystr

definition row_of :: "(int \<Rightarrow> pystr) \<Rightarrow> CpioEntry \<Rightarrow> ramdisk_row" where
  "row_of addr_at e =
     \<lparr> row_path = entry_name e, row_size = entry_size e, row_mode = entry_mode e,
       row_kind =
         (if entry_is_dir e then KindDir else if entry_is_symlink e then KindSymlink
          else if entry_mode e AND 61440 = 32768 then KindFile else KindOther),
       row_address = addr_at (entry_data_offset e) \<rparr>"

text \<open>
  \<open>_gh_ramdisk_list\<close> on the bytes read from the program's memory; \<open>addr_at\<close> is the address arithmetic of
  the program. The result is the page, the number of members and the truncation flag.
\<close>

definition ramdisk_list ::
  "(int \<Rightarrow> pystr) \<Rightarrow> bytes \<Rightarrow> int \<Rightarrow> int \<Rightarrow> int \<Rightarrow> worker_fault + ramdisk_row list \<times> nat \<times> bool" where
  "ramdisk_list addr_at data offset limit max_entries =
     (if \<not> is_cpio_newc data then
        Inl (WorkerError CODE_NOT_FOUND ''the loaded program is not a cpio (newc) ramdisk'')
      else
        (case parse_newc_entries data max_entries of
           Inl _ \<Rightarrow> Inl (WorkerError CODE_NOT_FOUND ''the ramdisk is not a well-formed cpio archive'')
         | Inr all_entries \<Rightarrow>
             Inr (map (row_of addr_at) (py_slice all_entries offset (offset + limit)),
                  length all_entries, offset + limit < int (length all_entries))))"

subsection \<open>Staging a detached debug file\<close>

definition py_basename :: "pystr \<Rightarrow> pystr" where
  "py_basename p = rev (takeWhile (\<lambda>c. c \<noteq> 47) (rev p))"

definition os_join :: "pystr \<Rightarrow> pystr \<Rightarrow> pystr" where
  "os_join a b =
     (if take 1 b = [47] then b else if a = [] \<or> last a = 47 then a @ b else a @ 47 # b)"

text \<open>\<open>shutil.copyfile\<close> on files named by their paths.\<close>

definition copyfile :: "pystr \<Rightarrow> pystr \<Rightarrow> (pystr \<rightharpoonup> bytes) \<Rightarrow> worker_fault + (pystr \<rightharpoonup> bytes)" where
  "copyfile src dst files =
     (if src = dst then Inl OtherFault
      else (case files src of None \<Rightarrow> Inl OtherFault | Some b \<Rightarrow> Inr (files(dst \<mapsto> b))))"

definition NEEDS_DEBUGLINK :: string where
  "NEEDS_DEBUGLINK =
     ''debug_format='' @ [CHR 0x27] @ ''dwarf'' @ [CHR 0x27] @ '' needs a binary with a .gnu_debuglink naming the companion''"

definition NOT_BARE :: string where
  "NOT_BARE =
     ''debug_format='' @ [CHR 0x27] @ ''dwarf'' @ [CHR 0x27] @ '' .gnu_debuglink must name a bare companion file, not a path''"

definition stage_dwarf_debug ::
  "pystr \<Rightarrow> pystr \<Rightarrow> pystr \<Rightarrow> (pystr \<rightharpoonup> bytes) \<Rightarrow> worker_fault + pystr \<times> (pystr \<rightharpoonup> bytes)" where
  "stage_dwarf_debug source_ref debug_ref project_dir files =
     (case files source_ref of
        None \<Rightarrow> Inl OtherFault
      | Some data \<Rightarrow>
          (case parse_gnu_debuglink data of
             None \<Rightarrow> Inl (WorkerError CODE_NOT_FOUND
                       NEEDS_DEBUGLINK)
           | Some link_name \<Rightarrow>
               if link_name = [] then Inl (WorkerError CODE_NOT_FOUND
                       NEEDS_DEBUGLINK)
               else if link_name \<noteq> py_basename link_name then Inl (WorkerError CODE_NOT_FOUND
                       NOT_BARE)
               else
                 (let stage_dir = os_join project_dir (ascii ''dwarf_stage'');
                      staged_binary = os_join stage_dir (py_basename source_ref)
                  in chain (copyfile source_ref staged_binary files) (\<lambda>files1.
                     chain (copyfile debug_ref (os_join stage_dir link_name) files1) (\<lambda>files2.
                       Inr (staged_binary, files2))))))"

lemma parse_debuglink_bare: "parse_gnu_debuglink data = Some n \<Longrightarrow> bare_filename n"
  by (auto simp: parse_gnu_debuglink_def Let_def bind_eq_Some_conv split: if_splits dest: find_link_bare)

lemma bare_join: "bare_filename n \<Longrightarrow> os_join (os_join d (ascii ''dwarf_stage'')) n = os_join d (ascii ''dwarf_stage'') @ 47 # n"
  by (cases n) (auto simp: os_join_def bare_filename_def ascii_def)

lemma join_inj:
  "bare_filename n \<Longrightarrow> os_join (os_join d (ascii ''dwarf_stage'')) n = os_join (os_join d (ascii ''dwarf_stage'')) m \<Longrightarrow>
   take 1 m \<noteq> [47] \<Longrightarrow> n = m"
  by (simp add: bare_join) (auto simp: os_join_def ascii_def split: if_splits)

lemma basename_no_sep: "47 \<notin> set (py_basename p)"
  by (auto simp: py_basename_def dest: set_takeWhileD)


text \<open>A 139-byte ELF file whose debug link is \<open>p.dbg\<close>.\<close>

definition demo_elf :: bytes where
  "demo_elf =
     [127, 69, 76, 70, 1, 1, 0, 0, 0, 0, 0, 0, 0, 0, 0, 0, 0, 0, 0, 0, 0, 0, 0, 0, 0, 0, 0, 0, 0, 0, 0,
     0, 91, 0, 0, 0, 0, 0, 0, 0, 0, 0, 0, 0, 0, 0, 24, 0, 2, 0, 0, 0, 0, 0, 0, 0, 0, 0, 0, 0, 0, 0, 0, 0,
     46, 103, 110, 117, 95, 100, 101, 98, 117, 103, 108, 105, 110, 107, 0, 112, 46, 100, 98, 103, 0, 0,
     0, 1, 2, 3, 4, 14, 0, 0, 0, 0, 0, 0, 0, 0, 0, 0, 0, 0, 0, 0, 0, 64, 0, 0, 0, 15, 0, 0, 0, 0, 0, 0,
     0, 0, 0, 0, 0, 0, 0, 0, 0, 0, 0, 0, 0, 79, 0, 0, 0, 12, 0, 0, 0]"

definition demo_files :: "pystr \<rightharpoonup> bytes" where
  "demo_files = [ascii ''/src/p'' \<mapsto> demo_elf, ascii ''/src/p.d'' \<mapsto> [1, 2, 3]]"

lemma demo_debuglink: "parse_gnu_debuglink demo_elf = Some (ascii ''p.dbg'')"
  by code_simp

definition demo_staged :: "pystr \<rightharpoonup> bytes" where
  "demo_staged = demo_files(ascii ''/w/dwarf_stage/p'' \<mapsto> demo_elf, ascii ''/w/dwarf_stage/p.dbg'' \<mapsto> [1, 2, 3])"

lemma demo_stage:
  "stage_dwarf_debug (ascii ''/src/p'') (ascii ''/src/p.d'') (ascii ''/w'') demo_files =
     Inr (ascii ''/w/dwarf_stage/p'', demo_staged)"
  using demo_debuglink
  by (simp add: stage_dwarf_debug_def demo_files_def demo_staged_def copyfile_def os_join_def py_basename_def ascii_def Let_def)


end
