(* ===== verification/Py_Json.thy ===== *)
theory Py_Json
  imports Pyval Py_Codec Errors
begin

text \<open>
  The parts of Python's \<open>json\<close> module and of its strict UTF-8 codec that the wire protocol rests
  on: \<open>json.dumps(v, ensure_ascii=False, separators=(",", ":"))\<close>, \<open>json.loads(s)\<close>,
  \<open>str.encode("utf-8")\<close> and \<open>bytes.decode("utf-8")\<close>, with every exception they can raise. The
  interpreter supplies what the language leaves to it: how deeply the scanner may recurse, the
  conversions between floats and text, \<open>repr\<close> of floats and containers, and \<open>int\<close> of a text
  (\<open>None\<close> where it raises).
\<close>

record interpreter =
  recursion_budget :: nat
  float_repr :: "real \<Rightarrow> pystr"
  float_value :: "pystr \<Rightarrow> pyval"
  object_repr :: "pyval \<Rightarrow> pystr"
  int_of_text :: "pystr \<Rightarrow> int option"

datatype json_error = JSONDecodeError | IntDigitsError | RecursionError | OutOfFuel

text \<open>\<open>sys.int_info.default_max_str_digits\<close>: longer integers raise \<open>ValueError\<close> in both directions.\<close>

abbreviation MAX_STR_DIGITS :: nat where
  "MAX_STR_DIGITS \<equiv> 4300"

subsection \<open>Conversions\<close>

text \<open>\<open>str(v)\<close>; containers and floats print as the interpreter has them.\<close>

definition py_str :: "interpreter \<Rightarrow> pyval \<Rightarrow> pystr" where
  "py_str py v = (case v of
     PyStr s \<Rightarrow> s | PyInt i \<Rightarrow> dec_int i | PyNone \<Rightarrow> ascii ''None''
   | PyBool b \<Rightarrow> ascii (if b then ''True'' else ''False'') | _ \<Rightarrow> object_repr py v)"

text \<open>\<open>int(v)\<close>; \<open>None\<close> is the \<open>TypeError\<close> or \<open>ValueError\<close>.\<close>

definition py_int :: "interpreter \<Rightarrow> pyval \<Rightarrow> int option" where
  "py_int py v = (case v of
     PyInt i \<Rightarrow> Some i | PyBool b \<Rightarrow> Some (if b then 1 else 0)
   | PyFloat r \<Rightarrow> Some (if r < 0 then - \<lfloor>- r\<rfloor> else \<lfloor>r\<rfloor>) | PyStr s \<Rightarrow> int_of_text py s | _ \<Rightarrow> None)"

subsection \<open>Printing\<close>

definition hex_char :: "nat \<Rightarrow> nat" where
  "hex_char n = (if n < 10 then 48 + n else 87 + n)"

definition escape_char :: "nat \<Rightarrow> pystr" where
  "escape_char c =
     (if c = 34 then [92, 34] else if c = 92 then [92, 92]
      else if c = 10 then [92, 110] else if c = 13 then [92, 114] else if c = 9 then [92, 116]
      else if c = 12 then [92, 102] else if c = 8 then [92, 98]
      else if c < 32 then [92, 117, 48, 48, hex_char (c div 16), hex_char (c mod 16)]
      else [c])"

definition quote :: "pystr \<Rightarrow> pystr" where
  "quote s = [34] @ concat (map escape_char s) @ [34]"

fun dump_value :: "interpreter \<Rightarrow> nat \<Rightarrow> pyval \<Rightarrow> json_error + pystr"
and dump_items :: "interpreter \<Rightarrow> nat \<Rightarrow> pyval list \<Rightarrow> json_error + pystr"
and dump_members :: "interpreter \<Rightarrow> nat \<Rightarrow> (pystr \<times> pyval) list \<Rightarrow> json_error + pystr" where
  "dump_value py d PyNone = Inr (ascii ''null'')"
| "dump_value py d (PyBool b) = Inr (ascii (if b then ''true'' else ''false''))"
| "dump_value py d (PyInt i) =
     (if length (dec_nat (nat \<bar>i\<bar>)) > MAX_STR_DIGITS then Inl IntDigitsError else Inr (dec_int i))"
| "dump_value py d (PyFloat r) = Inr (float_repr py r)"
| "dump_value py d (PyStr s) = Inr (quote s)"
| "dump_value py d (PyList vs) =
     (if d = 0 then Inl RecursionError
      else chain (dump_items py (d - 1) vs) (\<lambda>t. Inr ([91] @ t @ [93])))"
| "dump_value py d (PyDict kvs) =
     (if d = 0 then Inl RecursionError
      else chain (dump_members py (d - 1) kvs) (\<lambda>t. Inr ([123] @ t @ [125])))"
| "dump_items py d [] = Inr []"
| "dump_items py d (v # vs) =
     chain (dump_value py d v) (\<lambda>t.
       chain (dump_items py d vs) (\<lambda>r. Inr (if vs = [] then t else t @ [44] @ r)))"
| "dump_members py d [] = Inr []"
| "dump_members py d ((k, v) # kvs) =
     chain (dump_value py d v) (\<lambda>t.
       chain (dump_members py d kvs) (\<lambda>r.
         Inr (quote k @ [58] @ (if kvs = [] then t else t @ [44] @ r))))"

definition dumps :: "interpreter \<Rightarrow> pyval \<Rightarrow> json_error + pystr" where
  "dumps py v = dump_value py (recursion_budget py) v"

subsection \<open>Scanning\<close>

definition json_blank :: "nat \<Rightarrow> bool" where
  "json_blank c \<longleftrightarrow> c = 32 \<or> c = 9 \<or> c = 10 \<or> c = 13"

definition skip_ws :: "pystr \<Rightarrow> pystr" where
  "skip_ws s = dropWhile json_blank s"

definition hex4 :: "pystr \<Rightarrow> (nat \<times> pystr) option" where
  "hex4 s =
     (if 4 \<le> length s \<and> list_all is_hex_digit (take 4 s)
      then Some (hex_number (take 4 s), drop 4 s) else None)"

text \<open>A high surrogate joins with a low one that follows as another escape.\<close>

definition unicode_escape :: "pystr \<Rightarrow> (nat \<times> pystr) option" where
  "unicode_escape s =
     (case hex4 s of
        None \<Rightarrow> None
      | Some (u, r) \<Rightarrow>
          if 0xD800 \<le> u \<and> u \<le> 0xDBFF \<and> take 2 r = [92, 117] then
            (case hex4 (drop 2 r) of
               None \<Rightarrow> None
             | Some (w, r') \<Rightarrow>
                 if 0xDC00 \<le> w \<and> w \<le> 0xDFFF
                 then Some (0x10000 + (u - 0xD800) * 0x400 + (w - 0xDC00), r') else Some (u, r))
          else Some (u, r))"

definition simple_escape :: "nat \<Rightarrow> nat option" where
  "simple_escape c =
     map_of [(34, 34), (92, 92), (47, 47), (98, 8), (102, 12), (110, 10), (114, 13), (116, 9)] c"

lemma hex4_shorter: "hex4 s = Some (u, r) \<Longrightarrow> length r < length s"
  by (auto simp: hex4_def split: if_splits)

lemma unicode_escape_shorter: "unicode_escape s = Some (u, r) \<Longrightarrow> length r < length s"
  by (auto simp: unicode_escape_def split: option.splits if_splits dest!: hex4_shorter)

text \<open>The text of a string after its opening quote; \<open>None\<close> is the \<open>JSONDecodeError\<close>.\<close>

function scan_string :: "pystr \<Rightarrow> (pystr \<times> pystr) option" where
  "scan_string s =
     (case s of
        [] \<Rightarrow> None
      | c # r \<Rightarrow>
          if c = 34 then Some ([], r)
          else if c = 92 then
            (case r of
               [] \<Rightarrow> None
             | e # r' \<Rightarrow>
                 if e = 117 then
                   (case unicode_escape r' of
                      None \<Rightarrow> None
                    | Some (u, r'') \<Rightarrow> map_option (apfst (Cons u)) (scan_string r''))
                 else
                   (case simple_escape e of
                      None \<Rightarrow> None
                    | Some u \<Rightarrow> map_option (apfst (Cons u)) (scan_string r')))
          else if c < 32 then None
          else map_option (apfst (Cons c)) (scan_string r))"
  by pat_completeness auto
termination
  by (relation "measure length") (auto dest: unicode_escape_shorter)

declare scan_string.simps [simp del]

definition is_digit :: "nat \<Rightarrow> bool" where
  "is_digit c \<longleftrightarrow> 48 \<le> c \<and> c \<le> 57"

definition digits_value :: "pystr \<Rightarrow> nat" where
  "digits_value ds = foldl (\<lambda>n c. 10 * n + (c - 48)) 0 ds"

text \<open>The integer part, the fraction and the exponent of a number, each with the text after it.\<close>

definition scan_integer :: "pystr \<Rightarrow> (pystr \<times> pystr) option" where
  "scan_integer s =
     (case s of
        [] \<Rightarrow> None
      | c # r \<Rightarrow>
          if c = 48 then Some ([48], r)
          else if is_digit c then Some (takeWhile is_digit s, dropWhile is_digit s)
          else None)"

definition scan_fraction :: "pystr \<Rightarrow> pystr \<times> pystr" where
  "scan_fraction s =
     (if take 1 s = [46] \<and> takeWhile is_digit (drop 1 s) \<noteq> []
      then (46 # takeWhile is_digit (drop 1 s), dropWhile is_digit (drop 1 s)) else ([], s))"

definition scan_exponent :: "pystr \<Rightarrow> pystr \<times> pystr" where
  "scan_exponent s =
     (let sign = (if take 1 (drop 1 s) \<in> {[43], [45]} then 2 else 1) in
      if take 1 s \<in> {[101], [69]} \<and> takeWhile is_digit (drop sign s) \<noteq> []
      then (take sign s @ takeWhile is_digit (drop sign s), dropWhile is_digit (drop sign s))
      else ([], s))"

definition scan_number :: "interpreter \<Rightarrow> pystr \<Rightarrow> json_error + pyval \<times> pystr" where
  "scan_number py s =
     (let neg = (take 1 s = [45]) in
      case scan_integer (if neg then drop 1 s else s) of
        None \<Rightarrow> Inl JSONDecodeError
      | Some (ds, r) \<Rightarrow>
          let (fr, r') = scan_fraction r; (ex, r'') = scan_exponent r' in
          if fr = [] \<and> ex = [] then
            (if length ds > MAX_STR_DIGITS then Inl IntDigitsError
             else Inr (PyInt (if neg then - int (digits_value ds) else int (digits_value ds)), r''))
          else Inr (float_value py ((if neg then [45] else []) @ ds @ fr @ ex), r''))"

text \<open>The literals, among them the three constants that JSON itself does not have.\<close>

definition scan_literal :: "interpreter \<Rightarrow> pystr \<Rightarrow> (pyval \<times> pystr) option" where
  "scan_literal py s =
     (let lit = (\<lambda>w v r. if take (length w) s = ascii w then Some (v, drop (length w) s) else r) in
      lit ''null'' PyNone (lit ''true'' (PyBool True) (lit ''false'' (PyBool False)
        (lit ''NaN'' (float_value py (ascii ''NaN'')) (lit ''Infinity'' (float_value py (ascii ''Infinity''))
          (lit ''-Infinity'' (float_value py (ascii ''-Infinity'')) None))))))"

fun json_value :: "interpreter \<Rightarrow> nat \<Rightarrow> nat \<Rightarrow> pystr \<Rightarrow> json_error + pyval \<times> pystr"
and json_items :: "interpreter \<Rightarrow> nat \<Rightarrow> nat \<Rightarrow> pyval list \<Rightarrow> pystr \<Rightarrow> json_error + pyval \<times> pystr"
and json_members :: "interpreter \<Rightarrow> nat \<Rightarrow> nat \<Rightarrow> (pystr, pyval) dict \<Rightarrow> pystr \<Rightarrow>
      json_error + pyval \<times> pystr" where
  "json_value py 0 d s = Inl OutOfFuel"
| "json_value py (Suc f) d s =
     (case s of
        [] \<Rightarrow> Inl JSONDecodeError
      | c # r \<Rightarrow>
          if c = 34 then
            (case scan_string r of
               None \<Rightarrow> Inl JSONDecodeError | Some (t, rest) \<Rightarrow> Inr (PyStr t, rest))
          else if c = 123 then
            (if d = 0 then Inl RecursionError
             else if take 1 (skip_ws r) = [125] then Inr (PyDict [], drop 1 (skip_ws r))
             else json_members py f (d - 1) [] (skip_ws r))
          else if c = 91 then
            (if d = 0 then Inl RecursionError
             else if take 1 (skip_ws r) = [93] then Inr (PyList [], drop 1 (skip_ws r))
             else json_items py f (d - 1) [] (skip_ws r))
          else
            (case scan_literal py s of
               Some vr \<Rightarrow> Inr vr | None \<Rightarrow> scan_number py s))"
| "json_items py 0 d acc s = Inl OutOfFuel"
| "json_items py (Suc f) d acc s =
     chain (json_value py f d s) (\<lambda>(v, rest).
       let t = skip_ws rest in
       if take 1 t = [93] then Inr (PyList (acc @ [v]), drop 1 t)
       else if take 1 t = [44] then json_items py f d (acc @ [v]) (skip_ws (drop 1 t))
       else Inl JSONDecodeError)"
| "json_members py 0 d acc s = Inl OutOfFuel"
| "json_members py (Suc f) d acc s =
     (if take 1 s \<noteq> [34] then Inl JSONDecodeError
      else
        (case scan_string (drop 1 s) of
           None \<Rightarrow> Inl JSONDecodeError
         | Some (k, rest) \<Rightarrow>
             if take 1 (skip_ws rest) \<noteq> [58] then Inl JSONDecodeError
             else
               chain (json_value py f d (skip_ws (drop 1 (skip_ws rest)))) (\<lambda>(v, rest').
                 let t = skip_ws rest' in
                 if take 1 t = [125] then Inr (PyDict (dict_set k v acc), drop 1 t)
                 else if take 1 t = [44] then
                   json_members py f d (dict_set k v acc) (skip_ws (drop 1 t))
                 else Inl JSONDecodeError)))"

definition loads :: "interpreter \<Rightarrow> pystr \<Rightarrow> json_error + pyval" where
  "loads py s =
     (if take 1 s = [0xFEFF] then Inl JSONDecodeError
      else
        chain (json_value py (2 * length s + 2) (recursion_budget py) (skip_ws s)) (\<lambda>(v, rest).
          if skip_ws rest = [] then Inr v else Inl JSONDecodeError))"

subsection \<open>Strict UTF-8\<close>

text \<open>The bytes of one code point; \<open>None\<close> for a surrogate, which UTF-8 cannot encode.\<close>

definition utf8_char :: "nat \<Rightarrow> nat list option" where
  "utf8_char c =
     (if c < 0x80 then Some [c]
      else if c < 0x800 then Some [0xC0 + c div 64, 0x80 + c mod 64]
      else if 0xD800 \<le> c \<and> c \<le> 0xDFFF then None
      else if c < 0x10000 then
        Some [0xE0 + c div 4096, 0x80 + (c div 64) mod 64, 0x80 + c mod 64]
      else if c < 0x110000 then
        Some [0xF0 + c div 262144, 0x80 + (c div 4096) mod 64, 0x80 + (c div 64) mod 64, 0x80 + c mod 64]
      else None)"

fun utf8_chars :: "pystr \<Rightarrow> nat list option" where
  "utf8_chars [] = Some []"
| "utf8_chars (c # s) =
     (case utf8_char c of
        None \<Rightarrow> None
      | Some bs \<Rightarrow> map_option (append bs) (utf8_chars s))"

text \<open>\<open>s.encode("utf-8")\<close>; \<open>None\<close> is the \<open>UnicodeEncodeError\<close>.\<close>

definition encode_utf8 :: "pystr \<Rightarrow> bytes option" where
  "encode_utf8 s = map_option (map of_nat) (utf8_chars s)"

text \<open>
  \<open>bs.decode("utf-8")\<close>: the step of the replacing decoder, accepted only where the bytes it read
  are the encoding of the code point it found; \<open>None\<close> is the \<open>UnicodeDecodeError\<close>.
\<close>

function utf8_strict :: "nat list \<Rightarrow> pystr option" where
  "utf8_strict [] = Some []"
| "utf8_strict (b # rest) =
     (if utf8_char (fst (utf8_step b rest)) =
         Some (take (Suc (length rest) - length (snd (utf8_step b rest))) (b # rest))
      then map_option (Cons (fst (utf8_step b rest))) (utf8_strict (snd (utf8_step b rest)))
      else None)"
  by pat_completeness auto
termination
  by (relation "measure length") (simp_all add: le_imp_less_Suc utf8_step_shorter)

definition decode_utf8_strict :: "bytes \<Rightarrow> pystr option" where
  "decode_utf8_strict bs = utf8_strict (map unat bs)"

subsection \<open>UTF-8 round trip\<close>

lemma utf8_char_bytes: "utf8_char c = Some bs \<Longrightarrow> bs \<noteq> [] \<and> (\<forall>b \<in> set bs. b < 256)"
  by (auto simp: utf8_char_def split: if_splits)

lemma utf8_chars_bytes: "utf8_chars s = Some bs \<Longrightarrow> \<forall>b \<in> set bs. b < 256"
  using utf8_char_bytes by (induction s arbitrary: bs) (fastforce split: option.splits)+

lemma split64: "c = c div 64 * 64 + c mod 64" for c :: nat
  by simp

lemma split4096: "c = c div 4096 * 4096 + (c div 64) mod 64 * 64 + c mod 64" for c :: nat
  using div_mult2_eq [of c 64 64, simplified] split64 [of c] split64 [of "c div 64"] by linarith

lemma split262144:
  "c = c div 262144 * 262144 + (c div 4096) mod 64 * 4096 + (c div 64) mod 64 * 64 + c mod 64" for c :: nat
  using div_mult2_eq [of c 4096 64, simplified] split4096 [of c] split64 [of "c div 4096"] by linarith

lemma utf8_step_char:
  assumes "utf8_char c = Some (b # bs)"
  shows "utf8_step b (bs @ rest) = (c, rest)"
proof -
  consider (one) "c < 0x80" | (two) "0x80 \<le> c" "c < 0x800"
    | (three) "0x800 \<le> c" "c < 0x10000" "\<not> (0xD800 \<le> c \<and> c \<le> 0xDFFF)"
    | (four) "0x10000 \<le> c" "c < 0x110000"
    using assms by (force simp: utf8_char_def split: if_splits)
  then show ?thesis
  proof cases
    case one
    with assms show ?thesis by (simp add: utf8_char_def utf8_step_def)
  next
    case two
    then have "b = 0xC0 + c div 64" "bs = [0x80 + c mod 64]" "2 \<le> c div 64" "c div 64 < 32"
      using assms by (simp_all add: utf8_char_def)
    then show ?thesis using split64 [of c] by (simp add: utf8_step_def cont_byte_def)
  next
    case three
    define x y w where "x = c div 4096" and "y = (c div 64) mod 64" and "w = c mod 64"
    have c: "c = x * 4096 + y * 64 + w"
      unfolding x_def y_def w_def by (rule split4096)
    have b: "b = 0xE0 + x" "bs = [0x80 + y, 0x80 + w]"
      using three assms by (auto simp: utf8_char_def x_def y_def w_def split: if_splits)
    have "x < 16" using three(2) by (simp add: x_def)
    moreover have "y < 64" "w < 64" by (simp_all add: y_def w_def)
    moreover have "x = 0 \<Longrightarrow> 32 \<le> y" using three(1) c \<open>w < 64\<close> by linarith
    moreover have "x = 13 \<Longrightarrow> y < 32" using three(3) c \<open>w < 64\<close> \<open>y < 64\<close> by linarith
    ultimately show ?thesis
      using c by (auto simp: b utf8_step_def second3_def cont_byte_def)
  next
    case four
    define x y z w where "x = c div 262144" and "y = (c div 4096) mod 64" and "z = (c div 64) mod 64"
      and "w = c mod 64"
    have c: "c = x * 262144 + y * 4096 + z * 64 + w"
      unfolding x_def y_def z_def w_def by (rule split262144)
    have b: "b = 0xF0 + x" "bs = [0x80 + y, 0x80 + z, 0x80 + w]"
      using four assms by (auto simp: utf8_char_def x_def y_def z_def w_def split: if_splits)
    have "x < 5" using four(2) by (simp add: x_def)
    moreover have "y < 64" "z < 64" "w < 64" by (simp_all add: y_def z_def w_def)
    moreover have "x = 0 \<Longrightarrow> 16 \<le> y" using four(1) c \<open>z < 64\<close> \<open>w < 64\<close> by linarith
    moreover have "x = 4 \<Longrightarrow> y < 16" using four(2) c \<open>z < 64\<close> \<open>w < 64\<close> by linarith
    ultimately show ?thesis
      using c by (auto simp: b utf8_step_def second4_def cont_byte_def)
  qed
qed

lemma utf8_strict_chars: "utf8_chars s = Some bs \<Longrightarrow> utf8_strict bs = Some s"
proof (induction s arbitrary: bs)
  case (Cons c s)
  then obtain cs rest where cs: "utf8_char c = Some cs" and rest: "utf8_chars s = Some rest"
    and bs: "bs = cs @ rest" by (auto split: option.splits)
  obtain b cs' where cs': "cs = b # cs'" using utf8_char_bytes [OF cs] by (cases cs) auto
  show ?case
    using Cons.IH [OF rest] utf8_step_char [of c b cs' rest] cs by (simp add: bs cs')
qed simp

lemma map_unat_of_nat: "\<forall>b \<in> set bs. b < 256 \<Longrightarrow> map (unat \<circ> (of_nat :: nat \<Rightarrow> byte)) bs = bs"
  by (induction bs) (simp_all add: unat_of_nat)

lemma decode_encode_utf8: "encode_utf8 s = Some bs \<Longrightarrow> decode_utf8_strict bs = Some s"
  by (auto simp: encode_utf8_def decode_utf8_strict_def map_unat_of_nat utf8_chars_bytes
      utf8_strict_chars)

subsection \<open>JSON round trip\<close>

text \<open>The values that survive the wire unchanged: no floats, and dictionaries with distinct keys.\<close>

fun wire_value :: "pyval \<Rightarrow> bool" where
  "wire_value (PyFloat r) = False"
| "wire_value (PyList vs) = (\<forall>v \<in> set vs. wire_value v)"
| "wire_value (PyDict kvs) = (distinct (map fst kvs) \<and> (\<forall>kv \<in> set kvs. wire_value (snd kv)))"
| "wire_value _ = True"

lemma escape_low:
  assumes "c < 32"
  shows "unicode_escape (48 # 48 # hex_char (c div 16) # hex_char (c mod 16) # rest) = Some (c, rest)"
proof -
  have "is_hex_digit (hex_char n) \<and> hex_value (hex_char n) = n" if "n < 16" for n
    using that by (auto simp: is_hex_digit_def hex_char_def hex_value_def)
  moreover have "c div 16 < 16" "c mod 16 < 16" using assms by simp_all
  ultimately have "hex4 (48 # 48 # hex_char (c div 16) # hex_char (c mod 16) # rest) = Some (c, rest)"
    by (simp add: hex4_def hex_number_def is_hex_digit_def hex_value_def)
  with assms show ?thesis by (simp add: unicode_escape_def)
qed

lemma scan_string_escape:
  "scan_string (escape_char c @ rest) = map_option (apfst (Cons c)) (scan_string rest)"
  by (subst scan_string.simps) (auto simp: escape_char_def simple_escape_def escape_low)

lemma scan_string_quote: "scan_string (concat (map escape_char s) @ 34 # rest) = Some (s, rest)"
proof (induction s)
  case Nil
  show ?case by (subst scan_string.simps) simp
next
  case (Cons c s)
  then show ?case by (simp add: scan_string_escape)
qed

text \<open>The text after a value in a frame: nothing, or the separator or bracket that follows it.\<close>

definition delimited :: "pystr \<Rightarrow> bool" where
  "delimited rest \<longleftrightarrow> rest = [] \<or> hd rest \<in> {44, 93, 125}"

lemma dec_nat_digits: "list_all is_digit (dec_nat n)"
proof (induction n rule: dec_nat.induct)
  case (1 n)
  then have "list_all is_digit (dec_nat (n div 10))" if "\<not> n < 10" using that by blast
  moreover have "n mod 10 < 10" by simp
  ultimately show ?case by (subst dec_nat.simps) (auto simp: is_digit_def simp del: mod_less_divisor)
qed

lemma digits_value_snoc: "digits_value (ds @ [d]) = 10 * digits_value ds + (d - 48)"
  by (simp add: digits_value_def)

lemma digits_value_dec_nat: "digits_value (dec_nat n) = n"
proof (induction n rule: dec_nat.induct)
  case (1 n)
  then show ?case
    by (subst dec_nat.simps) (auto simp: digits_value_snoc, simp add: digits_value_def)
qed

lemma hd_dec_nat: "0 < n \<Longrightarrow> hd (dec_nat n) \<noteq> 48"
proof (induction n rule: dec_nat.induct)
  case (1 n)
  show ?case
  proof (cases "n < 10")
    case True
    with "1.prems" show ?thesis by (subst dec_nat.simps) simp
  next
    case False
    then have "hd (dec_nat (n div 10)) \<noteq> 48" using "1.IH" by simp
    with False show ?thesis by (subst dec_nat.simps) (simp add: dec_nat_nonempty)
  qed
qed

lemma takeWhile_digits:
  assumes "list_all is_digit ds" and "delimited rest"
  shows "takeWhile is_digit (ds @ rest) = ds" and "dropWhile is_digit (ds @ rest) = rest"
proof -
  have "takeWhile is_digit rest = [] \<and> dropWhile is_digit rest = rest"
    using assms(2) by (cases rest) (auto simp: delimited_def is_digit_def)
  with assms(1) show "takeWhile is_digit (ds @ rest) = ds" "dropWhile is_digit (ds @ rest) = rest"
    by (induction ds) auto
qed

lemma scan_integer_dec:
  assumes "delimited rest"
  shows "scan_integer (dec_nat n @ rest) = Some (dec_nat n, rest)"
proof (cases "n = 0")
  case True
  then show ?thesis by (simp add: dec_nat.simps [of 0] scan_integer_def)
next
  case False
  then have "hd (dec_nat n) \<noteq> 48" by (simp add: hd_dec_nat)
  moreover obtain d ds where d: "dec_nat n = d # ds"
    using dec_nat_nonempty [of n] by (cases "dec_nat n") auto
  moreover have "is_digit d" using dec_nat_digits [of n] by (simp add: d)
  ultimately show ?thesis
    using takeWhile_digits [OF dec_nat_digits assms, of n] by (simp add: scan_integer_def)
qed

lemma scan_tail_delimited:
  "delimited rest \<Longrightarrow> scan_fraction rest = ([], rest) \<and> scan_exponent rest = ([], rest)"
  by (cases rest) (auto simp: scan_fraction_def scan_exponent_def delimited_def)

lemma scan_number_dec:
  assumes "delimited rest" "length (dec_nat (nat \<bar>i\<bar>)) \<le> MAX_STR_DIGITS"
  shows "scan_number py (dec_int i @ rest) = Inr (PyInt i, rest)"
proof (cases "i < 0")
  case True
  with assms show ?thesis
    by (simp add: scan_number_def dec_int_def scan_integer_dec scan_tail_delimited
        digits_value_dec_nat)
next
  case False
  obtain d ds where d: "dec_nat (nat i) = d # ds"
    using dec_nat_nonempty [of "nat i"] by (cases "dec_nat (nat i)") auto
  have "d \<noteq> 45" using dec_nat_digits [of "nat i"] by (auto simp: d is_digit_def)
  then have "take 1 (dec_nat (nat i) @ rest) \<noteq> [45]" by (simp add: d)
  with assms False show ?thesis
    by (simp add: scan_number_def dec_int_def scan_integer_dec scan_tail_delimited
        digits_value_dec_nat)
qed

lemma dec_int_first:
  obtains c cs where "dec_int i = c # cs" "c = 45 \<and> cs \<noteq> [] \<and> is_digit (hd cs) \<or> is_digit c"
proof -
  obtain d ds where d: "dec_nat (nat \<bar>i\<bar>) = d # ds"
    using dec_nat_nonempty [of "nat \<bar>i\<bar>"] by (cases "dec_nat (nat \<bar>i\<bar>)") auto
  have "is_digit d" using dec_nat_digits [of "nat \<bar>i\<bar>"] by (simp add: d)
  with d show thesis using that by (cases "i < 0") (auto simp: dec_int_def)
qed

text \<open>The first character of a printed value tells the scanner what follows.\<close>

definition value_start :: "nat \<Rightarrow> bool" where
  "value_start c \<longleftrightarrow> c \<in> {34, 123, 91, 110, 116, 102, 45} \<or> is_digit c"

lemma dump_first:
  assumes "dump_value py d v = Inr t" "wire_value v"
  obtains c cs where "t = c # cs" "value_start c"
proof (cases v)
  case (PyInt i)
  obtain c cs where "dec_int i = c # cs" "value_start c"
    by (rule dec_int_first [of i]) (auto simp: value_start_def)
  then show thesis using PyInt assms by (intro that [of c cs]) (simp_all split: if_splits)
qed (use assms that in \<open>auto simp: value_start_def quote_def ascii_def split: if_splits\<close>)

lemma value_startD: "value_start c \<Longrightarrow> \<not> json_blank c \<and> c \<noteq> 93 \<and> c \<noteq> 125"
  by (auto simp: value_start_def json_blank_def is_digit_def)

lemma skip_ws_Cons: "\<not> json_blank c \<Longrightarrow> skip_ws (c # s) = c # s"
  by (simp add: skip_ws_def)

lemma skip_ws_punct [simp]:
  "skip_ws (44 # s) = 44 # s" "skip_ws (93 # s) = 93 # s" "skip_ws (125 # s) = 125 # s"
  "skip_ws (58 # s) = 58 # s" "skip_ws (34 # s) = 34 # s" "skip_ws [] = []"
  by (simp_all add: skip_ws_def json_blank_def)

lemma skip_ws_dump:
  assumes "dump_value py d v = Inr t" "wire_value v"
  shows "skip_ws (t @ s) = t @ s"
  by (rule dump_first [OF assms]) (simp add: skip_ws_Cons value_startD)

lemma scan_literal_dec: "scan_literal py (dec_int i @ rest) = None"
  by (rule dec_int_first [of i])
     (auto simp: scan_literal_def ascii_def is_digit_def neq_Nil_conv)

lemma delimited_punct [simp]:
  "delimited (44 # s)" "delimited (93 # s)" "delimited (125 # s)" "delimited []"
  by (simp_all add: delimited_def)

lemma json_value_int:
  assumes "delimited rest" "length (dec_nat (nat \<bar>i\<bar>)) \<le> MAX_STR_DIGITS"
  shows "json_value py (Suc f) d (dec_int i @ rest) = Inr (PyInt i, rest)"
proof -
  obtain c cs where c: "dec_int i = c # cs" and "c = 45 \<or> is_digit c"
    by (rule dec_int_first) blast
  then have "c \<noteq> 34 \<and> c \<noteq> 123 \<and> c \<noteq> 91" by (auto simp: is_digit_def)
  then show ?thesis
    using scan_literal_dec [of py i rest] scan_number_dec [OF assms, of py] by (simp add: c)
qed

lemma json_value_literal:
  "json_value py (Suc f) d (ascii ''null'' @ rest) = Inr (PyNone, rest)"
  "json_value py (Suc f) d (ascii ''true'' @ rest) = Inr (PyBool True, rest)"
  "json_value py (Suc f) d (ascii ''false'' @ rest) = Inr (PyBool False, rest)"
  by (simp_all add: ascii_def scan_literal_def)

lemma json_dump_roundtrip:
  shows "dump_value py d v = Inr t \<Longrightarrow> wire_value v \<Longrightarrow> delimited rest \<Longrightarrow> 2 * length t + 1 \<le> f \<Longrightarrow>
      json_value py f d (t @ rest) = Inr (v, rest)"
    and "dump_items py d vs = Inr t \<Longrightarrow> vs \<noteq> [] \<Longrightarrow> \<forall>v \<in> set vs. wire_value v \<Longrightarrow> 2 * length t + 2 \<le> f \<Longrightarrow>
      json_items py f d acc (t @ 93 # rest) = Inr (PyList (acc @ vs), rest)"
    and "dump_members py d kvs = Inr t \<Longrightarrow> kvs \<noteq> [] \<Longrightarrow> \<forall>kv \<in> set kvs. wire_value (snd kv) \<Longrightarrow>
      distinct (map fst (acc' @ kvs)) \<Longrightarrow> 2 * length t + 2 \<le> f \<Longrightarrow>
      json_members py f d acc' (t @ 125 # rest) = Inr (PyDict (acc' @ kvs), rest)"
proof (induction py d v and py d vs and py d kvs arbitrary: t rest f and t rest f acc and t rest f acc'
    rule: dump_value_dump_items_dump_members.induct)
  case (1 py d)
  then show ?case by (cases f) (auto simp: json_value_literal simp del: json_value.simps)
next
  case (2 py d b)
  then show ?case by (cases f; cases b) (auto simp: json_value_literal simp del: json_value.simps)
next
  case (3 py d i)
  then show ?case by (cases f) (auto simp: json_value_int simp del: json_value.simps split: if_splits)
next
  case (5 py d s)
  then show ?case by (cases f) (auto simp: quote_def scan_string_quote)
next
  case (6 py d vs)
  then obtain u g where u: "dump_items py (d - 1) vs = Inr u" "t = 91 # u @ [93]" "0 < d" and f: "f = Suc g"
    by (cases f) (auto split: if_splits)
  show ?case
  proof (cases vs)
    case Nil
    with u show ?thesis by (simp add: f)
  next
    case (Cons v ws)
    obtain t' r where "dump_value py (d - 1) v = Inr t'" and t': "u = t' @ r"
      using u(1) by (auto simp: Cons split: if_splits)
    then obtain c cs where c: "t' = c # cs" "value_start c"
      using "6.prems" by (auto simp: Cons elim: dump_first)
    have "json_items py g (d - 1) [] (u @ 93 # rest) = Inr (PyList vs, rest)"
      using "6.IH" [OF _ u(1)] u "6.prems" by (simp add: Cons f)
    with u(3) value_startD [OF c(2)] show ?thesis
      by (simp add: f u(2) t' c(1) skip_ws_Cons)
  qed
next
  case (7 py d kvs)
  then obtain u g where u: "dump_members py (d - 1) kvs = Inr u" "t = 123 # u @ [125]" "0 < d"
    and f: "f = Suc g" by (cases f) (auto split: if_splits)
  show ?case
  proof (cases kvs)
    case Nil
    with u show ?thesis by (simp add: f)
  next
    case (Cons kv ws)
    obtain r where r: "u = 34 # r" using u(1) by (cases kv) (auto simp: Cons quote_def)
    have "json_members py g (d - 1) [] (u @ 125 # rest) = Inr (PyDict kvs, rest)"
      using "7.IH" [OF _ u(1)] u "7.prems" by (simp add: Cons f)
    with u(3) show ?thesis by (simp add: f u(2) r)
  qed
next
  case (9 py d v vs)
  then obtain t' r g where t': "dump_value py d v = Inr t'" and r: "dump_items py d vs = Inr r"
    and t: "t = (if vs = [] then t' else t' @ [44] @ r)" and f: "f = Suc g"
    by (cases f) auto
  show ?case
  proof (cases "vs = []")
    case True
    then show ?thesis
      using "9.IH"(1) [OF t', of "93 # rest" g] "9.prems" by (simp add: t f)
  next
    case False
    obtain w ws where vs: "vs = w # ws" using False by (cases vs) auto
    obtain tw rw where "dump_value py d w = Inr tw" "r = tw @ rw"
      using r by (auto simp: vs split: if_splits)
    then have "skip_ws (r @ 93 # rest) = r @ 93 # rest"
      using "9.prems" skip_ws_dump [of py d w tw "rw @ 93 # rest"] by (simp add: vs)
    then show ?thesis
      using "9.IH"(1) [OF t', of "44 # r @ 93 # rest" g] "9.IH"(2) [OF r, of g "acc @ [v]" rest]
        "9.prems" False by (simp add: t f)
  qed
next
  case (11 py d k v kvs)
  then obtain t' r g where t': "dump_value py d v = Inr t'" and r: "dump_members py d kvs = Inr r"
    and t: "t = quote k @ [58] @ (if kvs = [] then t' else t' @ [44] @ r)" and f: "f = Suc g"
    by (cases f) auto
  have upd: "dict_set k v acc' = acc' @ [(k, v)]"
    using "11.prems" by (induction acc') auto
  have sk: "skip_ws (t' @ s) = t' @ s" for s
    using skip_ws_dump [OF t'] "11.prems" by simp
  show ?case
  proof (cases "kvs = []")
    case True
    then show ?thesis
      using "11.IH"(1) [OF t', of "125 # rest" g] "11.prems"
      by (simp add: t f quote_def scan_string_quote sk upd)
  next
    case False
    obtain q where q: "r = 34 # q" using r False by (cases kvs) (auto simp: quote_def)
    show ?thesis
      using "11.IH"(1) [OF t', of "44 # r @ 125 # rest" g] "11.IH"(2) [OF r, of "acc' @ [(k, v)]" g rest]
        "11.prems" False by (simp add: t f quote_def scan_string_quote sk upd q)
  qed
qed simp_all

theorem loads_dumps:
  assumes "dumps py v = Inr t" "wire_value v"
  shows "loads py t = Inr v"
proof -
  obtain c cs where t: "t = c # cs" and c: "value_start c"
    using assms by (auto simp: dumps_def elim: dump_first)
  have "c \<noteq> 0xFEFF" using c by (auto simp: value_start_def is_digit_def)
  moreover have "skip_ws t = t" using c by (simp add: t skip_ws_Cons value_startD)
  moreover have "json_value py (2 * length t + 2) (recursion_budget py) (t @ []) = Inr (v, [])"
    using assms by (intro json_dump_roundtrip(1)) (simp_all add: dumps_def)
  ultimately show ?thesis by (simp add: loads_def t)
qed

subsection \<open>The scanner always ends\<close>

text \<open>Every function of the scanner leaves a shorter text.\<close>

lemma skip_ws_le: "length (skip_ws s) \<le> length s"
  by (simp add: skip_ws_def length_dropWhile_le)

lemma scan_string_shorter: "scan_string s = Some (t, rest) \<Longrightarrow> length rest < length s"
proof (induction "length s" arbitrary: s t rest rule: less_induct)
  case less
  note scanned = less.prems [unfolded scan_string.simps [of s]]
  show ?case
  proof (cases s)
    case Nil
    with scanned show ?thesis by simp
  next
    case (Cons c r)
    show ?thesis
    proof (cases "c = 92")
      case True
      then obtain e r' where r: "r = e # r'" using scanned Cons by (cases r) auto
      with True scanned Cons show ?thesis
        by (fastforce split: if_splits option.splits dest: unicode_escape_shorter
            less.hyps [unfolded Cons r, rotated])
    next
      case False
      with scanned Cons show ?thesis
        by (fastforce split: if_splits dest: less.hyps [unfolded Cons, rotated])
    qed
  qed
qed

lemma scan_number_shorter: "scan_number py s = Inr (v, rest) \<Longrightarrow> length rest < length s"
proof -
  have int_part: "length r < length s" if "scan_integer s = Some (ds, r)" for s ds r
    using that length_dropWhile_le [of is_digit]
    by (auto simp: scan_integer_def le_imp_less_Suc split: list.splits if_splits)
  have drop_part: "length (dropWhile is_digit (drop n s)) \<le> length s" for n s
    using length_dropWhile_le [of is_digit "drop n s"] by simp
  have frac: "length (snd (scan_fraction s)) \<le> length s" for s
    using drop_part [of 1 s] by (simp add: scan_fraction_def)
  have expo: "length (snd (scan_exponent s)) \<le> length s" for s
    using drop_part [of _ s] by (simp add: scan_exponent_def Let_def)
  assume "scan_number py s = Inr (v, rest)"
  then obtain ds r where i: "scan_integer (if take 1 s = [45] then drop 1 s else s) = Some (ds, r)"
    and rest: "rest = snd (scan_exponent (snd (scan_fraction r)))"
    by (auto simp: scan_number_def Let_def split: option.splits prod.splits if_splits)
  show ?thesis
    using int_part [OF i] frac [of r] expo [of "snd (scan_fraction r)"]
    by (simp add: rest split: if_splits)
qed

lemma scan_literal_shorter: "scan_literal py s = Some (v, rest) \<Longrightarrow> length rest < length s"
  by (cases s) (auto simp: scan_literal_def ascii_def Let_def split: if_splits)

lemma take1_drop1: "take 1 s = [c] \<Longrightarrow> length (drop 1 s) < length s"
  by (cases s) simp_all

lemma json_shorter:
  "(\<forall>d s v rest. json_value py f d s = Inr (v, rest) \<longrightarrow> length rest < length s) \<and>
   (\<forall>d acc s v rest. json_items py f d acc s = Inr (v, rest) \<longrightarrow> length rest < length s) \<and>
   (\<forall>d acc s v rest. json_members py f d acc s = Inr (v, rest) \<longrightarrow> length rest < length s)"
proof (induction f)
  case (Suc f)
  note sk = skip_ws_le [THEN le_less_trans] take1_drop1
  have drop_sk: "length (skip_ws (drop 1 s)) \<le> length s" for s
    using skip_ws_le [of "drop 1 s"] by simp
  have v: "length rest < length s" if "json_value py (Suc f) d s = Inr (v, rest)" for d s v rest
  proof (cases s)
    case Nil
    with that show ?thesis by simp
  next
    case (Cons c r)
    have "length rest < length (c # r)" if "length rest < length (skip_ws r)"
      using that skip_ws_le [of r] by simp
    moreover have "length (drop 1 (skip_ws r)) < length (c # r)"
      using skip_ws_le [of r] by simp
    ultimately show ?thesis
      using that Suc.IH Cons scan_string_shorter [of r] scan_literal_shorter [of py s]
        scan_number_shorter [of py s]
      by (auto split: if_splits option.splits)
  qed
  moreover have i: "length rest < length s" if a: "json_items py (Suc f) d acc s = Inr (v, rest)"
    for d acc s v rest
  proof -
    obtain w r where w: "json_value py f d s = Inr (w, r)" using a by auto
    then have "length r < length s" using Suc.IH by blast
    with a w Suc.IH skip_ws_le [of r] drop_sk [of "skip_ws r"] show ?thesis
      by (fastforce simp: Let_def split: if_splits)
  qed
  moreover have "length rest < length s" if a: "json_members py (Suc f) d acc s = Inr (v, rest)"
    for d acc s v rest
  proof -
    obtain k r w r' where k: "take 1 s = [34]" "scan_string (drop 1 s) = Some (k, r)"
      and w: "json_value py f d (skip_ws (drop 1 (skip_ws r))) = Inr (w, r')"
      using a by (auto split: if_splits option.splits)
    have "length r' < length (skip_ws (drop 1 (skip_ws r)))" using w Suc.IH by blast
    moreover have "length r < length s" using scan_string_shorter [OF k(2)] take1_drop1 [OF k(1)] by simp
    ultimately have r': "length r' < length s"
      using drop_sk [of "skip_ws r"] skip_ws_le [of r] by linarith
    with a k w Suc.IH skip_ws_le [of r'] drop_sk [of "skip_ws r'"] show ?thesis
      by (fastforce simp: Let_def split: if_splits)
  qed
  ultimately show ?case by blast
qed simp

lemma json_fuel:
  "(\<forall>d s. 2 * length s + 1 \<le> f \<longrightarrow> json_value py f d s \<noteq> Inl OutOfFuel) \<and>
   (\<forall>d acc s. 2 * length s + 2 \<le> f \<longrightarrow> json_items py f d acc s \<noteq> Inl OutOfFuel) \<and>
   (\<forall>d acc s. 2 * length s + 2 \<le> f \<longrightarrow> json_members py f d acc s \<noteq> Inl OutOfFuel)"
proof (induction f)
  case (Suc f)
  have drop_sk: "length (skip_ws (drop 1 s)) \<le> length s" for s
    using skip_ws_le [of "drop 1 s"] by simp
  have num: "scan_number py s \<noteq> Inl OutOfFuel" for s
    by (auto simp: scan_number_def Let_def split: option.splits prod.splits)
  have "json_value py (Suc f) d s \<noteq> Inl OutOfFuel" if "2 * length s + 1 \<le> Suc f" for d s
  proof (cases s)
    case (Cons c r)
    have "2 * length (skip_ws r) + 2 \<le> f" using that skip_ws_le [of r] Cons by simp
    with Suc.IH num [of s] show ?thesis by (auto simp: Cons split: option.splits)
  qed simp
  moreover have "json_items py (Suc f) d acc s \<noteq> Inl OutOfFuel" if "2 * length s + 2 \<le> Suc f" for d acc s
  proof -
    have "2 * length (skip_ws (drop 1 (skip_ws r))) + 2 \<le> f" if "json_value py f d s = Inr (w, r)" for w r
      using conjunct1 [OF json_shorter, rule_format, OF that] \<open>2 * length s + 2 \<le> Suc f\<close>
        skip_ws_le [of r] drop_sk [of "skip_ws r"] by linarith
    moreover have "json_value py f d s \<noteq> Inl OutOfFuel" using Suc.IH that by simp
    ultimately show ?thesis using Suc.IH by (auto simp: chain_Inl_iff Let_def)
  qed
  moreover have "json_members py (Suc f) d acc s \<noteq> Inl OutOfFuel" if "2 * length s + 2 \<le> Suc f" for d acc s
  proof (cases "take 1 s = [34] \<and> scan_string (drop 1 s) \<noteq> None")
    case True
    then obtain k r where k: "scan_string (drop 1 s) = Some (k, r)" and q: "take 1 s = [34]" by auto
    let ?s' = "skip_ws (drop 1 (skip_ws r))"
    have s': "length ?s' < length s"
      using scan_string_shorter [OF k] take1_drop1 [OF q] skip_ws_le [of r] drop_sk [of "skip_ws r"]
      by linarith
    have "2 * length (skip_ws (drop 1 (skip_ws r'))) + 2 \<le> f" if "json_value py f d ?s' = Inr (w, r')" for w r'
      using conjunct1 [OF json_shorter, rule_format, OF that] \<open>2 * length s + 2 \<le> Suc f\<close> s'
        skip_ws_le [of r'] drop_sk [of "skip_ws r'"] by linarith
    moreover have "json_value py f d ?s' \<noteq> Inl OutOfFuel" using Suc.IH that s' by simp
    ultimately show ?thesis using Suc.IH k by (auto simp: chain_Inl_iff Let_def)
  qed (auto split: option.splits)
  ultimately show ?case by blast
qed simp

lemma loads_total: "loads py s \<noteq> Inl OutOfFuel"
proof -
  have "2 * length (skip_ws s) + 1 \<le> 2 * length s + 2" using skip_ws_le [of s] by linarith
  then have "json_value py (2 * length s + 2) (recursion_budget py) (skip_ws s) \<noteq> Inl OutOfFuel"
    using json_fuel by blast
  then show ?thesis by (auto simp: loads_def chain_Inl_iff)
qed

lemma dump_no_fuel:
  "dump_value py d v \<noteq> Inl OutOfFuel" "dump_items py d vs \<noteq> Inl OutOfFuel"
  "dump_members py d kvs \<noteq> Inl OutOfFuel"
  by (induction py d v and py d vs and py d kvs rule: dump_value_dump_items_dump_members.induct)
     (auto simp: chain_Inl_iff)

end
