(* ===== verification/Framing.thy ===== *)
theory Framing
  imports Py_Json
begin

text \<open>
  The length-prefixed JSON-RPC codec shared by the server and the worker
  (\<open>ghidra/rpc_framing.py\<close>): frames, requests, responses and the three notifications. A decoded
  message is a dictionary of Python values; every exception of the codec, and every exception of the
  \<open>json\<close> module that passes through it, is a value of \<open>rpc_exc\<close>.
\<close>

type_synonym message = "(pystr, pyval) dict"

record RpcError =
  rpc_code :: int
  rpc_message :: pystr
  rpc_type_slug :: "pystr option"
  rpc_detail :: "pystr option"

datatype rpc_exc =
    FramingError string
  | RpcProtocolError string
  | RpcCallError RpcError
  | PyTimeoutError
  | PyEOFError
  | PyOSError
  | PyValueError string
  | PyRecursionError
  | Raised exc

subsection \<open>Constants\<close>

abbreviation LENGTH_PREFIX_BYTES :: nat where "LENGTH_PREFIX_BYTES \<equiv> 4"
abbreviation STRUCT_MAX :: nat where "STRUCT_MAX \<equiv> 0xFFFFFFFF"
abbreviation MAX_DETAIL_CHARS :: nat where "MAX_DETAIL_CHARS \<equiv> 256"

definition PROGRESS_METHOD :: pystr where "PROGRESS_METHOD = ascii ''$/progress''"
definition CHUNK_METHOD :: pystr where "CHUNK_METHOD = ascii ''$/chunk''"
definition CANCEL_METHOD :: pystr where "CANCEL_METHOD = ascii ''$/cancel''"

definition PROGRESS_PHASES :: "pystr list" where
  "PROGRESS_PHASES = [ascii ''importing'', ascii ''analyzing'', ascii ''finalizing'']"

definition CHUNK_KINDS :: "pystr list" where
  "CHUNK_KINDS = [ascii ''function'']"

abbreviation VERSION_KEY :: pystr where "VERSION_KEY \<equiv> ascii ''jsonrpc''"
abbreviation ID_KEY :: pystr where "ID_KEY \<equiv> ascii ''id''"
abbreviation METHOD_KEY :: pystr where "METHOD_KEY \<equiv> ascii ''method''"
abbreviation PARAMS_KEY :: pystr where "PARAMS_KEY \<equiv> ascii ''params''"
abbreviation RESULT_KEY :: pystr where "RESULT_KEY \<equiv> ascii ''result''"
abbreviation ERROR_KEY :: pystr where "ERROR_KEY \<equiv> ascii ''error''"
abbreviation VERSION :: pyval where "VERSION \<equiv> PyStr (ascii ''2.0'')"

text \<open>\<open>k in d\<close>.\<close>

abbreviation py_in :: "pystr \<Rightarrow> message \<Rightarrow> bool" where
  "py_in k d \<equiv> dict_get d k \<noteq> None"

subsection \<open>Frames\<close>

definition json_exc :: "json_error \<Rightarrow> rpc_exc" where
  "json_exc e = (if e = RecursionError then PyRecursionError else PyValueError ''ValueError'')"

definition encode_frame :: "interpreter \<Rightarrow> message \<Rightarrow> nat \<Rightarrow> rpc_exc + bytes" where
  "encode_frame py message max_frame_bytes =
     (case dumps py (PyDict message) of
        Inl e \<Rightarrow> Inl (json_exc e)
      | Inr text \<Rightarrow>
          (case encode_utf8 text of
             None \<Rightarrow> Inl (PyValueError ''UnicodeEncodeError'')
           | Some body \<Rightarrow>
               let n = length body in
               if n > max_frame_bytes \<or> n > STRUCT_MAX
               then Inl (FramingError ''outbound frame exceeds maximum size'')
               else Inr (be_bytes 4 n @ body)))"

definition decode_length_prefix :: "bytes \<Rightarrow> nat \<Rightarrow> rpc_exc + nat" where
  "decode_length_prefix prefix max_frame_bytes =
     (if length prefix \<noteq> LENGTH_PREFIX_BYTES then Inl (FramingError ''short length prefix'')
      else if be_nat prefix > max_frame_bytes
      then Inl (FramingError ''declared frame length exceeds maximum'')
      else Inr (be_nat prefix))"

text \<open>
  Only \<open>UnicodeDecodeError\<close> and \<open>JSONDecodeError\<close> are caught; the \<open>ValueError\<close> for a huge integer
  and the \<open>RecursionError\<close> for deep nesting pass through.
\<close>

definition decode_body :: "interpreter \<Rightarrow> bytes \<Rightarrow> rpc_exc + message" where
  "decode_body py body =
     (case decode_utf8_strict body of
        None \<Rightarrow> Inl (RpcProtocolError ''malformed JSON frame'')
      | Some text \<Rightarrow>
          (case loads py text of
             Inl JSONDecodeError \<Rightarrow> Inl (RpcProtocolError ''malformed JSON frame'')
           | Inl e \<Rightarrow> Inl (json_exc e)
           | Inr (PyDict obj) \<Rightarrow> Inr obj
           | Inr _ \<Rightarrow> Inl (RpcProtocolError ''frame is not a JSON object'')))"

subsection \<open>Requests and responses\<close>

definition build_request :: "pystr \<Rightarrow> pystr \<Rightarrow> message \<Rightarrow> message" where
  "build_request request_id meth params =
     [(VERSION_KEY, VERSION), (ID_KEY, PyStr request_id), (METHOD_KEY, PyStr meth),
      (PARAMS_KEY, PyDict params)]"

definition parse_error :: "pyval \<Rightarrow> RpcError" where
  "parse_error err =
     (case err of
        PyDict d \<Rightarrow>
          let raw_code = py_get d (ascii ''code'');
              raw_msg = py_get d (ascii ''message'');
              message = (case raw_msg of PyStr m \<Rightarrow> m | _ \<Rightarrow> ascii ''worker error'');
              data = py_get d (ascii ''data'')
          in \<lparr> rpc_code = (if is_int raw_code then int_of raw_code else -32603),
               rpc_message = take 512 message,
               rpc_type_slug =
                 (case data of
                    PyDict x \<Rightarrow> (case py_get x (ascii ''type'') of PyStr t \<Rightarrow> Some t | _ \<Rightarrow> None)
                  | _ \<Rightarrow> None),
               rpc_detail =
                 (case data of
                    PyDict x \<Rightarrow>
                      (case py_get x (ascii ''detail'') of
                         PyStr t \<Rightarrow> Some (take MAX_DETAIL_CHARS t) | _ \<Rightarrow> None)
                  | _ \<Rightarrow> None) \<rparr>
      | _ \<Rightarrow>
          \<lparr> rpc_code = -32603, rpc_message = ascii ''worker error'',
            rpc_type_slug = Some (ascii ''internal-error''), rpc_detail = None \<rparr>)"

definition parse_response :: "message \<Rightarrow> pystr \<Rightarrow> rpc_exc + message" where
  "parse_response obj expected_id =
     (if py_get obj VERSION_KEY \<noteq> VERSION
      then Inl (RpcProtocolError ''missing or wrong jsonrpc version'')
      else if py_get obj ID_KEY \<noteq> PyStr expected_id
      then Inl (RpcProtocolError ''response id does not correlate to request'')
      else if py_in RESULT_KEY obj = py_in ERROR_KEY obj
      then Inl (RpcProtocolError ''response must contain exactly one of result/error'')
      else if py_in ERROR_KEY obj then Inl (RpcCallError (parse_error (py_get obj ERROR_KEY)))
      else
        (case py_get obj RESULT_KEY of
           PyDict result \<Rightarrow> Inr result
         | _ \<Rightarrow> Inl (RpcProtocolError ''result is not a JSON object'')))"

subsection \<open>Progress notifications\<close>

record RpcProgress =
  progress_id :: pystr
  percent :: "int option"
  phase :: pystr

definition is_progress_notification :: "message \<Rightarrow> bool" where
  "is_progress_notification obj \<longleftrightarrow>
     py_get obj METHOD_KEY = PyStr PROGRESS_METHOD \<and> \<not> py_in ID_KEY obj"

definition parse_percent :: "pyval \<Rightarrow> rpc_exc + int option" where
  "parse_percent raw =
     (if raw = PyNone then Inr None
      else if is_bool raw \<or> \<not> is_int raw
      then Inl (RpcProtocolError ''progress: percent is not an integer or null'')
      else if int_of raw < 0 \<or> int_of raw > 100
      then Inl (RpcProtocolError ''progress: percent out of range 0..100'')
      else Inr (Some (int_of raw)))"

definition parse_progress :: "message \<Rightarrow> pystr \<Rightarrow> rpc_exc + RpcProgress" where
  "parse_progress obj expected_id =
     (if py_get obj VERSION_KEY \<noteq> VERSION
      then Inl (RpcProtocolError ''progress: missing or wrong jsonrpc version'')
      else if py_get obj METHOD_KEY \<noteq> PyStr PROGRESS_METHOD \<or> py_in ID_KEY obj
      then Inl (RpcProtocolError ''progress: not a $/progress notification'')
      else
        (case py_get obj PARAMS_KEY of
           PyDict params \<Rightarrow>
             if py_get params ID_KEY \<noteq> PyStr expected_id
             then Inl (RpcProtocolError ''progress: id does not correlate to request'')
             else
               chain (parse_percent (py_get params (ascii ''percent''))) (\<lambda>pc.
                 case py_get params (ascii ''phase'') of
                   PyStr ph \<Rightarrow>
                     if ph \<in> set PROGRESS_PHASES
                     then Inr \<lparr> progress_id = expected_id, percent = pc, phase = ph \<rparr>
                     else Inl (RpcProtocolError ''progress: phase not in the closed vocabulary'')
                 | _ \<Rightarrow> Inl (RpcProtocolError ''progress: phase not in the closed vocabulary''))
         | _ \<Rightarrow> Inl (RpcProtocolError ''progress: params is not a JSON object'')))"

definition opt_int :: "int option \<Rightarrow> pyval" where
  "opt_int x = (case x of None \<Rightarrow> PyNone | Some i \<Rightarrow> PyInt i)"

definition build_progress :: "pystr \<Rightarrow> int option \<Rightarrow> pystr \<Rightarrow> rpc_exc + message" where
  "build_progress request_id pc ph =
     (if ph \<notin> set PROGRESS_PHASES then Inl (PyValueError ''ValueError'')
      else if (case pc of None \<Rightarrow> False | Some i \<Rightarrow> i < 0 \<or> i > 100) then Inl (PyValueError ''ValueError'')
      else Inr [(VERSION_KEY, VERSION), (METHOD_KEY, PyStr PROGRESS_METHOD),
        (PARAMS_KEY, PyDict [(ID_KEY, PyStr request_id), (ascii ''percent'', opt_int pc),
           (ascii ''phase'', PyStr ph)])])"

subsection \<open>Chunk notifications\<close>

record RpcChunk =
  chunk_id :: pystr
  chunk_seq :: int
  chunk_kind :: pystr
  chunk_payload :: message

definition is_chunk_notification :: "message \<Rightarrow> bool" where
  "is_chunk_notification obj \<longleftrightarrow>
     py_get obj METHOD_KEY = PyStr CHUNK_METHOD \<and> \<not> py_in ID_KEY obj"

definition parse_seq :: "pyval \<Rightarrow> rpc_exc + int" where
  "parse_seq raw =
     (if is_bool raw \<or> \<not> is_int raw then Inl (RpcProtocolError ''chunk: seq is not an integer'')
      else if int_of raw < 0 then Inl (RpcProtocolError ''chunk: seq is negative'')
      else Inr (int_of raw))"

definition parse_chunk :: "message \<Rightarrow> pystr \<Rightarrow> rpc_exc + RpcChunk" where
  "parse_chunk obj expected_id =
     (if py_get obj VERSION_KEY \<noteq> VERSION
      then Inl (RpcProtocolError ''chunk: missing or wrong jsonrpc version'')
      else if py_get obj METHOD_KEY \<noteq> PyStr CHUNK_METHOD \<or> py_in ID_KEY obj
      then Inl (RpcProtocolError ''chunk: not a $/chunk notification'')
      else
        (case py_get obj PARAMS_KEY of
           PyDict params \<Rightarrow>
             if py_get params ID_KEY \<noteq> PyStr expected_id
             then Inl (RpcProtocolError ''chunk: id does not correlate to request'')
             else
               chain (parse_seq (py_get params (ascii ''seq''))) (\<lambda>sq.
                 case py_get params (ascii ''kind'') of
                   PyStr kd \<Rightarrow>
                     if kd \<notin> set CHUNK_KINDS
                     then Inl (RpcProtocolError ''chunk: kind not in the closed vocabulary'')
                     else
                       (case py_get params (ascii ''payload'') of
                          PyDict pl \<Rightarrow>
                            Inr \<lparr> chunk_id = expected_id, chunk_seq = sq, chunk_kind = kd, chunk_payload = pl \<rparr>
                        | _ \<Rightarrow> Inl (RpcProtocolError ''chunk: payload is not a JSON object''))
                 | _ \<Rightarrow> Inl (RpcProtocolError ''chunk: kind not in the closed vocabulary''))
         | _ \<Rightarrow> Inl (RpcProtocolError ''chunk: params is not a JSON object'')))"

definition build_chunk :: "pystr \<Rightarrow> int \<Rightarrow> pystr \<Rightarrow> message \<Rightarrow> rpc_exc + message" where
  "build_chunk request_id sq kd pl =
     (if kd \<notin> set CHUNK_KINDS then Inl (PyValueError ''ValueError'')
      else if sq < 0 then Inl (PyValueError ''ValueError'')
      else Inr [(VERSION_KEY, VERSION), (METHOD_KEY, PyStr CHUNK_METHOD),
        (PARAMS_KEY, PyDict [(ID_KEY, PyStr request_id), (ascii ''seq'', PyInt sq),
           (ascii ''kind'', PyStr kd), (ascii ''payload'', PyDict pl)])])"

subsection \<open>Cancel notifications\<close>

definition is_cancel_notification :: "message \<Rightarrow> bool" where
  "is_cancel_notification obj \<longleftrightarrow>
     py_get obj METHOD_KEY = PyStr CANCEL_METHOD \<and> \<not> py_in ID_KEY obj"

text \<open>The id of the stream to cancel; the expected id is not looked at.\<close>

definition parse_cancel :: "message \<Rightarrow> pystr \<Rightarrow> rpc_exc + pystr" where
  "parse_cancel obj expected_id =
     (if py_get obj VERSION_KEY \<noteq> VERSION
      then Inl (RpcProtocolError ''cancel: missing or wrong jsonrpc version'')
      else if py_get obj METHOD_KEY \<noteq> PyStr CANCEL_METHOD \<or> py_in ID_KEY obj
      then Inl (RpcProtocolError ''cancel: not a $/cancel notification'')
      else
        (case py_get obj PARAMS_KEY of
           PyDict params \<Rightarrow>
             (case py_get params ID_KEY of
                PyStr request_id \<Rightarrow> Inr request_id
              | _ \<Rightarrow> Inl (RpcProtocolError ''cancel: params.id is not a string''))
         | _ \<Rightarrow> Inl (RpcProtocolError ''cancel: params is not a JSON object'')))"

definition build_cancel :: "pystr \<Rightarrow> message" where
  "build_cancel request_id =
     [(VERSION_KEY, VERSION), (METHOD_KEY, PyStr CANCEL_METHOD),
      (PARAMS_KEY, PyDict [(ID_KEY, PyStr request_id)])]"

subsection \<open>Facts about frames\<close>

named_theorems wire_simps \<open>lookups in the messages the codec builds\<close>

lemma py_get_Nil [wire_simps]: "py_get [] k = PyNone"
  by (simp add: py_get_def)

lemma py_get_Cons [wire_simps]: "py_get ((k, v) # d) k' = (if k = k' then v else py_get d k')"
  by (simp add: py_get_def)

lemma wire_request [wire_simps]:
  "wire_value (PyDict (build_request rid m params)) = wire_value (PyDict params)"
  by (simp add: build_request_def)

lemma loads_Nil: "loads py [] = Inl JSONDecodeError"
  by (simp add: loads_def numeral_2_eq_2)

text \<open>What one side encodes, the other side decodes: prefix and body.\<close>

lemma frame_roundtrip:
  assumes "encode_frame py m cap = Inr frame" and "wire_value (PyDict m)"
  obtains body where "frame = be_bytes 4 (length body) @ body"
    and "decode_length_prefix (be_bytes 4 (length body)) cap = Inr (length body)"
    and "length body \<le> cap" and "decode_body py body = Inr m" and "body \<noteq> []"
proof -
  obtain t body where t: "dumps py (PyDict m) = Inr t" "encode_utf8 t = Some body"
    and n: "length body \<le> cap" "length body \<le> STRUCT_MAX" and frame: "frame = be_bytes 4 (length body) @ body"
    using assms(1) by (auto simp: encode_frame_def Let_def split: sum.splits option.splits if_splits)
  have "decode_length_prefix (be_bytes 4 (length body)) cap = Inr (length body)"
    using n by (simp add: decode_length_prefix_def be_nat_be_bytes)
  moreover have "decode_body py body = Inr m"
    using t assms(2) by (simp add: decode_body_def decode_encode_utf8 loads_dumps)
  moreover from this have "body \<noteq> []"
    by (auto simp: decode_body_def decode_utf8_strict_def loads_Nil)
  ultimately show thesis using that frame n by blast
qed

text \<open>A body that decodes never costs more than a protocol error, except for the two that escape.\<close>

lemma decode_body_cases:
  "decode_body py body = Inl e \<Longrightarrow>
   (\<exists>m. e = RpcProtocolError m) \<or> e = PyValueError ''ValueError'' \<or> e = PyRecursionError"
  by (auto simp: decode_body_def json_exc_def split: option.splits sum.splits json_error.splits pyval.splits
      if_splits)

lemma decode_length_prefix_bound:
  "decode_length_prefix prefix cap = Inr n \<Longrightarrow> n \<le> cap \<and> n = be_nat prefix \<and> length prefix = 4"
  by (auto simp: decode_length_prefix_def split: if_splits)

subsection \<open>The contract of a notification\<close>

text \<open>
  Each of the three notifications has a method name, a classifier, a builder and a parser. The
  contract: the classifier looks at the method and at the absence of an id, parsing returns what
  was built, and a parsed message has been classified. What follows for all of them: no
  notification is ever accepted as a response, and none is taken for another.
\<close>

locale notification =
  fixes meth :: pystr
    and is_note :: "message \<Rightarrow> bool"
    and parse :: "message \<Rightarrow> pystr \<Rightarrow> rpc_exc + 'r"
    and build :: "pystr \<Rightarrow> 'p \<Rightarrow> rpc_exc + message"
    and view :: "pystr \<Rightarrow> 'p \<Rightarrow> 'r"
  assumes note_iff: "is_note obj \<longleftrightarrow> py_get obj METHOD_KEY = PyStr meth \<and> \<not> py_in ID_KEY obj"
    and parse_build: "build rid p = Inr obj \<Longrightarrow> parse obj rid = Inr (view rid p)"
    and parse_strict: "parse obj rid = Inr r \<Longrightarrow> is_note obj \<and> py_get obj VERSION_KEY = VERSION"
begin

lemma built_is_note: "build rid p = Inr obj \<Longrightarrow> is_note obj"
  using parse_build parse_strict by blast

lemma never_a_response: "is_note obj \<Longrightarrow> \<exists>m. parse_response obj expected_id = Inl (RpcProtocolError m)"
  by (auto simp: note_iff parse_response_def py_get_def)

lemma never_another: "is_note obj \<Longrightarrow> py_get obj METHOD_KEY = PyStr m \<Longrightarrow> m = meth"
  by (simp add: note_iff)

lemma response_not_note: "parse_response obj expected_id = Inr r \<Longrightarrow> \<not> is_note obj"
  using never_a_response [of obj expected_id] by auto

lemma request_not_note: "\<not> is_note (build_request rid m params)"
  by (simp add: note_iff build_request_def)

end

lemma py_get_None: "\<not> py_in k d \<Longrightarrow> py_get d k = PyNone"
  by (simp add: py_get_def)

interpretation progress_note: notification PROGRESS_METHOD is_progress_notification parse_progress
  "\<lambda>rid (pc, ph). build_progress rid pc ph"
  "\<lambda>rid (pc, ph). \<lparr> progress_id = rid, percent = pc, phase = ph \<rparr>"
proof (unfold_locales, goal_cases)
  case (1 obj)
  show ?case by (simp add: is_progress_notification_def)
next
  case (2 rid p obj)
  then show ?case
    by (cases p; cases "fst p")
       (auto simp: build_progress_def parse_progress_def parse_percent_def opt_int_def wire_simps
        split: if_splits)
next
  case (3 obj rid r)
  then show ?case by (auto simp: parse_progress_def is_progress_notification_def split: if_splits)
qed

interpretation chunk_note: notification CHUNK_METHOD is_chunk_notification parse_chunk
  "\<lambda>rid (sq, kd, pl). build_chunk rid sq kd pl"
  "\<lambda>rid (sq, kd, pl). \<lparr> chunk_id = rid, chunk_seq = sq, chunk_kind = kd, chunk_payload = pl \<rparr>"
proof (unfold_locales, goal_cases)
  case (1 obj)
  show ?case by (simp add: is_chunk_notification_def)
next
  case (2 rid p obj)
  then show ?case
    by (cases p) (auto simp: build_chunk_def parse_chunk_def parse_seq_def wire_simps split: if_splits)
next
  case (3 obj rid r)
  then show ?case by (auto simp: parse_chunk_def is_chunk_notification_def split: if_splits)
qed

interpretation cancel_note: notification CANCEL_METHOD is_cancel_notification parse_cancel
  "\<lambda>rid (_ :: unit). Inr (build_cancel rid)" "\<lambda>rid _. rid"
proof (unfold_locales, goal_cases)
  case (1 obj)
  show ?case by (simp add: is_cancel_notification_def)
next
  case (2 rid p obj)
  then show ?case by (auto simp: build_cancel_def parse_cancel_def wire_simps)
next
  case (3 obj rid r)
  then show ?case by (auto simp: parse_cancel_def is_cancel_notification_def split: if_splits)
qed

lemma methods_distinct:
  "PROGRESS_METHOD \<noteq> CHUNK_METHOD" "PROGRESS_METHOD \<noteq> CANCEL_METHOD" "CHUNK_METHOD \<noteq> CANCEL_METHOD"
  by (simp_all add: PROGRESS_METHOD_def CHUNK_METHOD_def CANCEL_METHOD_def)

end
