(* ===== verification/Wire.thy ===== *)
theory Wire
  imports Framing
begin

text \<open>
  Reading frames from a stream socket, as both ends do it: the server under an absolute deadline
  (\<open>RpcGhidraAdapter._recv_exact\<close> and \<open>_read_frame\<close>), the worker blocking
  (\<open>_recv_exact\<close> and \<open>read_frame\<close> of \<open>worker/dispatch.py\<close>). What the other side sends is a script
  of events: a segment that becomes readable at some time, in pieces of any size, or a failure of
  the transport. An empty segment is the end of the stream, as an empty \<open>recv\<close> is.
\<close>

datatype recv_event = Segment real bytes | Failure real

type_synonym feed = "recv_event list"

subsection \<open>The server's reader\<close>

text \<open>
  One \<open>recv\<close> returns at most what is asked for and leaves the rest of the segment. The socket
  timeout is the time left, so an event at or after the deadline is a \<open>TimeoutError\<close>; where the
  script ends, nothing more arrives. The clock is the time of the last event.
\<close>

fun recv_exact :: "real \<Rightarrow> nat \<Rightarrow> real \<times> feed \<Rightarrow> (rpc_exc + bytes) \<times> real \<times> feed" where
  "recv_exact deadline n (now, evs) =
     (if n = 0 then (Inr [], now, evs)
      else if deadline - now \<le> 0 then (Inl PyTimeoutError, now, evs)
      else
        (case evs of
           [] \<Rightarrow> (Inl PyTimeoutError, deadline, evs)
         | Failure t # rest \<Rightarrow>
             if t \<ge> deadline then (Inl PyTimeoutError, deadline, evs)
             else (Inl PyOSError, max now t, rest)
         | Segment t bs # rest \<Rightarrow>
             if t \<ge> deadline then (Inl PyTimeoutError, deadline, evs)
             else if bs = [] then (Inl PyEOFError, max now t, rest)
             else if n < length bs then (Inr (take n bs), max now t, Segment t (drop n bs) # rest)
             else
               (case recv_exact deadline (n - length bs) (max now t, rest) of
                  (r, st) \<Rightarrow> (map_sum id (append bs) r, st))))"

declare recv_exact.simps [simp del]

subsection \<open>The worker's reader\<close>

text \<open>The worker waits as long as it takes; where the script ends, the server has closed.\<close>

fun worker_recv_exact :: "nat \<Rightarrow> feed \<Rightarrow> (rpc_exc + bytes) \<times> feed" where
  "worker_recv_exact n evs =
     (if n = 0 then (Inr [], evs)
      else
        (case evs of
           [] \<Rightarrow> (Inl PyEOFError, evs)
         | Failure t # rest \<Rightarrow> (Inl PyOSError, rest)
         | Segment t bs # rest \<Rightarrow>
             if bs = [] then (Inl PyEOFError, rest)
             else if n < length bs then (Inr (take n bs), Segment t (drop n bs) # rest)
             else
               (case worker_recv_exact (n - length bs) rest of
                  (r, st) \<Rightarrow> (map_sum id (append bs) r, st))))"

declare worker_recv_exact.simps [simp del]

subsection \<open>One frame\<close>

text \<open>Prefix, bound check, body, decoding: the same four lines at both ends.\<close>

definition frame_via ::
  "(nat \<Rightarrow> 's \<Rightarrow> (rpc_exc + bytes) \<times> 's) \<Rightarrow> interpreter \<Rightarrow> nat \<Rightarrow> 's \<Rightarrow> (rpc_exc + message) \<times> 's" where
  "frame_via recv py max_frame_bytes st =
     (case recv LENGTH_PREFIX_BYTES st of
        (Inl e, st1) \<Rightarrow> (Inl e, st1)
      | (Inr prefix, st1) \<Rightarrow>
          (case decode_length_prefix prefix max_frame_bytes of
             Inl e \<Rightarrow> (Inl e, st1)
           | Inr n \<Rightarrow>
               (case (if n \<noteq> 0 then recv n st1 else (Inr [], st1)) of
                  (Inl e, st2) \<Rightarrow> (Inl e, st2)
                | (Inr body, st2) \<Rightarrow> (decode_body py body, st2))))"

definition client_read_frame ::
  "interpreter \<Rightarrow> nat \<Rightarrow> real \<Rightarrow> real \<times> feed \<Rightarrow> (rpc_exc + message) \<times> real \<times> feed" where
  "client_read_frame py max_frame_bytes deadline = frame_via (recv_exact deadline) py max_frame_bytes"

definition worker_read_frame :: "interpreter \<Rightarrow> nat \<Rightarrow> feed \<Rightarrow> (rpc_exc + message) \<times> feed" where
  "worker_read_frame py max_frame_bytes = frame_via worker_recv_exact py max_frame_bytes"

subsection \<open>The contract of a reader\<close>

text \<open>
  A reader delivers exactly the bytes asked for as long as that many are on their way, however they
  are cut into segments; it never makes up bytes, and never leaves more than it found.
\<close>

locale exact_reader =
  fixes recv :: "nat \<Rightarrow> 's \<Rightarrow> (rpc_exc + bytes) \<times> 's"
    and pending :: "'s \<Rightarrow> bytes"
    and volume :: "'s \<Rightarrow> nat"
  assumes recv_pending:
      "n \<le> length (pending s) \<Longrightarrow> \<exists>s'. recv n s = (Inr (take n (pending s)), s') \<and> pending s' = drop n (pending s)"
    and recv_length: "recv n s = (Inr bs, s') \<Longrightarrow> length bs = n \<and> volume s' + n \<le> volume s"
    and recv_shrinks: "recv n s = (r, s') \<Longrightarrow> volume s' \<le> volume s"
    and recv_faults: "recv n s = (Inl e, s') \<Longrightarrow> e \<in> {PyTimeoutError, PyEOFError, PyOSError}"
begin

lemma frame_pending:
  assumes "encode_frame py m cap = Inr frame" "wire_value (PyDict m)" "pending s = frame @ rest"
  obtains s' where "frame_via recv py cap s = (Inr m, s')" "pending s' = rest"
proof -
  obtain body where body: "frame = be_bytes 4 (length body) @ body"
      "decode_length_prefix (be_bytes 4 (length body)) cap = Inr (length body)"
      "decode_body py body = Inr m" "body \<noteq> []"
    by (rule frame_roundtrip [OF assms(1,2)])
  obtain s1 where s1: "recv 4 s = (Inr (be_bytes 4 (length body)), s1)" "pending s1 = body @ rest"
    using recv_pending [of 4 s] by (auto simp: assms(3) body(1))
  obtain s2 where s2: "recv (length body) s1 = (Inr body, s2)" "pending s2 = rest"
    using recv_pending [of "length body" s1] by (auto simp: s1(2))
  have "frame_via recv py cap s = (Inr m, s2)"
    using body(2-4) s1(1) s2(1) by (simp add: frame_via_def)
  with s2(2) that show thesis by blast
qed

lemma frame_volume:
  "frame_via recv py cap s = (r, s') \<Longrightarrow> volume s' \<le> volume s \<and> ((\<exists>m. r = Inr m) \<longrightarrow> volume s' < volume s)"
  by (fastforce simp: frame_via_def split: prod.splits sum.splits if_splits
      dest: recv_length recv_shrinks)

lemma frame_faults:
  assumes "frame_via recv py cap s = (Inl e, s')"
  shows "e \<in> {PyTimeoutError, PyEOFError, PyOSError, PyValueError ''ValueError'', PyRecursionError} \<or>
    (\<exists>m. e = FramingError m) \<or> (\<exists>m. e = RpcProtocolError m)"
  using assms
  by (fastforce simp: frame_via_def decode_length_prefix_def split: prod.splits sum.splits if_splits
      dest: recv_faults decode_body_cases)

text \<open>No body longer than the cap is ever read.\<close>

lemma frame_cap:
  "frame_via recv py cap s = (Inr m, s') \<Longrightarrow> \<exists>body. length body \<le> cap \<and> decode_body py body = Inr m"
  by (fastforce simp: frame_via_def split: prod.splits sum.splits if_splits
      dest!: recv_length decode_length_prefix_bound intro: exI [of _ "[]"])

end

subsection \<open>Both readers meet it\<close>

fun feed_volume :: "feed \<Rightarrow> nat" where
  "feed_volume [] = 0"
| "feed_volume (Segment t bs # evs) = length bs + feed_volume evs"
| "feed_volume (Failure t # evs) = feed_volume evs"

fun feed_pending :: "feed \<Rightarrow> bytes" where
  "feed_pending (Segment t bs # evs) = (if bs = [] then [] else bs @ feed_pending evs)"
| "feed_pending _ = []"

fun prompt_pending :: "real \<Rightarrow> feed \<Rightarrow> bytes" where
  "prompt_pending deadline (Segment t bs # evs) =
     (if bs = [] \<or> t \<ge> deadline then [] else bs @ prompt_pending deadline evs)"
| "prompt_pending deadline _ = []"

definition client_pending :: "real \<Rightarrow> real \<times> feed \<Rightarrow> bytes" where
  "client_pending deadline st = (if fst st < deadline then prompt_pending deadline (snd st) else [])"

lemmas worker_recv_steps =
  worker_recv_exact.simps [of _ "[]"] worker_recv_exact.simps [of _ "_ # _"]

lemmas client_recv_steps =
  recv_exact.simps [of _ _ _ "[]"] recv_exact.simps [of _ _ _ "_ # _"]

interpretation worker_reader: exact_reader worker_recv_exact feed_pending feed_volume
proof (unfold_locales, goal_cases)
  case (1 n s)
  then show ?case
  proof (induction s arbitrary: n)
    case (Cons e s)
    show ?case
    proof (cases "n = 0")
      case True
      then show ?thesis by (simp add: worker_recv_steps)
    next
      case False
      then obtain t bs where e: "e = Segment t bs" "bs \<noteq> []"
        using Cons.prems by (cases e) (auto split: if_splits)
      have "n - length bs \<le> length (feed_pending s)" using Cons.prems by (simp add: e)
      then obtain s' where "worker_recv_exact (n - length bs) s =
          (Inr (take (n - length bs) (feed_pending s)), s')"
        "feed_pending s' = drop (n - length bs) (feed_pending s)" using Cons.IH by blast
      with False show ?thesis
        by (cases "n < length bs") (simp_all add: e worker_recv_steps)
    qed
  qed (simp add: worker_recv_steps)
next
  case (2 n s bs s')
  then show ?case
  proof (induction s arbitrary: n bs)
    case (Cons e s)
    then show ?case
      by (cases e) (fastforce simp: worker_recv_steps map_sum_eq_Inr split: if_splits prod.splits)+
  qed (simp add: worker_recv_steps split: if_splits)
next
  case (3 n s r s')
  then show ?case
  proof (induction s arbitrary: n r)
    case (Cons e s)
    then show ?case by (cases e) (fastforce simp: worker_recv_steps split: if_splits prod.splits)+
  qed (simp add: worker_recv_steps split: if_splits)
next
  case (4 n s e s')
  then show ?case
  proof (induction s arbitrary: n)
    case (Cons ev s)
    then show ?case
      by (cases ev) (fastforce simp: worker_recv_steps map_sum_eq_Inl split: if_splits prod.splits)+
  qed (simp add: worker_recv_steps split: if_splits)
qed

lemma client_reader_contract:
  "exact_reader (recv_exact deadline) (client_pending deadline) (feed_volume \<circ> snd)"
proof (unfold_locales, goal_cases)
  case (1 n s)
  then show ?case
  proof (induction "snd s" arbitrary: s n)
    case Nil
    then have "n = 0" by (cases s) (auto simp: client_pending_def split: if_splits)
    then show ?case by (cases s) (simp add: recv_exact.simps)
  next
    case (Cons e evs)
    obtain now where s: "s = (now, e # evs)" using Cons.hyps(2) by (cases s) auto
    show ?case
    proof (cases "n = 0")
      case True
      then show ?thesis by (simp add: s client_recv_steps)
    next
      case False
      then obtain t bs where e: "e = Segment t bs" and t: "bs \<noteq> []" "t < deadline" "now < deadline"
        using Cons.prems by (cases e) (auto simp: s client_pending_def split: if_splits)
      have p: "client_pending deadline (max now t, evs) = prompt_pending deadline evs"
        "client_pending deadline s = bs @ prompt_pending deadline evs"
        using t by (simp_all add: client_pending_def s e)
      then have "n - length bs \<le> length (client_pending deadline (max now t, evs))"
        using Cons.prems by simp
      then obtain s' where "recv_exact deadline (n - length bs) (max now t, evs) =
          (Inr (take (n - length bs) (prompt_pending deadline evs)), s')"
        "client_pending deadline s' = drop (n - length bs) (prompt_pending deadline evs)"
        using Cons.hyps(1) [of "(max now t, evs)" "n - length bs"] p(1) by auto
      moreover have "client_pending deadline (max now t, Segment t (drop n bs) # evs) =
          drop n bs @ prompt_pending deadline evs" if "n < length bs"
        using that t by (simp add: client_pending_def)
      ultimately show ?thesis
        using t False
        by (cases "n < length bs"; cases s') (simp_all add: p(2), simp_all add: s e client_recv_steps)
    qed
  qed
next
  case (2 n s bs s')
  then show ?case
  proof (induction "snd s" arbitrary: s n bs)
    case Nil
    then show ?case by (cases s) (auto simp: client_recv_steps split: if_splits)
  next
    case (Cons e evs)
    then show ?case
      by (cases s; cases e)
         (fastforce simp: client_recv_steps map_sum_eq_Inr split: if_splits prod.splits)+
  qed
next
  case (3 n s r s')
  then show ?case
  proof (induction "snd s" arbitrary: s n r)
    case Nil
    then show ?case by (cases s) (auto simp: client_recv_steps split: if_splits)
  next
    case (Cons e evs)
    then show ?case
      by (cases s; cases e) (fastforce simp: client_recv_steps split: if_splits prod.splits)+
  qed
next
  case (4 n s e s')
  then show ?case
  proof (induction "snd s" arbitrary: s n)
    case Nil
    then show ?case by (cases s) (auto simp: client_recv_steps split: if_splits)
  next
    case (Cons ev evs)
    then show ?case
      by (cases s; cases ev)
         (fastforce simp: client_recv_steps map_sum_eq_Inl split: if_splits prod.splits)+
  qed
qed

interpretation client_reader:
  exact_reader "recv_exact deadline" "client_pending deadline" "feed_volume \<circ> snd" for deadline
  by (rule client_reader_contract)

text \<open>The clock of the server's reader never passes the deadline.\<close>

lemma recv_exact_deadline:
  "recv_exact deadline n (now, evs) = (r, now', evs') \<Longrightarrow> now' \<le> max now deadline \<and> now \<le> now'"
proof (induction evs arbitrary: n now r)
  case Nil
  then show ?case by (auto simp: client_recv_steps split: if_splits)
next
  case (Cons e evs)
  then show ?case
    by (cases e) (fastforce simp: client_recv_steps split: if_splits prod.splits)+
qed

lemma client_read_frame_deadline:
  "client_read_frame py cap deadline (now, evs) = (r, now', evs') \<Longrightarrow> now' \<le> max now deadline \<and> now \<le> now'"
  by (fastforce simp: client_read_frame_def frame_via_def split: prod.splits sum.splits if_splits
      dest: recv_exact_deadline)

lemmas client_frame_pending = client_reader.frame_pending [folded client_read_frame_def]
lemmas client_frame_faults = client_reader.frame_faults [folded client_read_frame_def]
lemmas client_frame_volume = client_reader.frame_volume [folded client_read_frame_def]
lemmas worker_frame_pending = worker_reader.frame_pending [folded worker_read_frame_def]
lemmas worker_frame_faults = worker_reader.frame_faults [folded worker_read_frame_def]
lemmas worker_frame_volume = worker_reader.frame_volume [folded worker_read_frame_def]

end
