(* ===== verification/Rpc_Client.thy ===== *)
theory Rpc_Client
  imports Wire Streaming
begin

text \<open>
  The server's end of the worker connection (\<open>ghidra/rpc_client.py\<close>): the per-session sockets,
  connecting, one request and its response, the progress read-loop, the lazy reader of a decompile
  stream, cancellation, and the kill-on-failure rule. What the outside decides is an argument:
  clock readings, the drawn request id, whether the lock was free, how each connection attempt and
  each send ends, and what the worker sends, as the script of the connection. Log records are left
  out, the relayed progress is kept.
\<close>

subsection \<open>State\<close>

record conn =
  conn_feed :: feed
  conn_sent :: bytes

record rpc_session =
  rs_sock :: "conn option"
  rs_socket_path :: pystr
  active_stream_id :: "pystr option"

record adapter =
  ad_socket_dir :: pystr
  ad_tool_timeout_s :: real
  ad_analysis_timeout_s :: real
  ad_connect_timeout_s :: real
  ad_max_response_bytes :: nat
  ad_worker_mem_mib :: int
  ad_sessions :: "(pystr, rpc_session) dict"
  ad_killed :: "pystr list"

text \<open>One connection attempt, one send, and the outside's part in a call.\<close>

datatype attempt = Refused real | Unreachable real | Hangs | Accepts real feed

datatype send_outcome = SendDone real | SendTimeout | SendFails

record call_env =
  env_request_id :: pystr
  env_start :: real
  env_lock_free :: bool
  env_attempts :: "attempt list"
  env_send :: send_outcome
  env_oom :: bool

abbreviation CONNECT_RETRY_INTERVAL_S :: real where "CONNECT_RETRY_INTERVAL_S \<equiv> 1 / 10"
abbreviation SOCKET_DIR_TOKEN_LEN :: nat where "SOCKET_DIR_TOKEN_LEN \<equiv> 16"
abbreviation MAX_PROGRESS_FRAMES :: nat where "MAX_PROGRESS_FRAMES \<equiv> 10000"
abbreviation MIN_PROGRESS_INTERVAL_S :: real where "MIN_PROGRESS_INTERVAL_S \<equiv> 1 / 2"
abbreviation MAX_STREAM_CHUNKS :: nat where "MAX_STREAM_CHUNKS \<equiv> 10000"

subsection \<open>Worker life cycle\<close>

definition socket_path :: "adapter \<Rightarrow> pystr \<Rightarrow> pystr" where
  "socket_path ad sid =
     rev (dropWhile (\<lambda>c. c = 47) (rev (ad_socket_dir ad))) @ [47] @ take SOCKET_DIR_TOKEN_LEN sid @
     [47] @ sid @ ascii ''.sock''"

text \<open>The launcher returns or raises.\<close>

definition start_worker :: "exc option \<Rightarrow> pystr \<Rightarrow> adapter \<Rightarrow> (exc + unit) \<times> adapter" where
  "start_worker launch sid ad =
     (if dict_get (ad_sessions ad) sid \<noteq> None then (Inr (), ad)
      else
        (case launch of
           Some e \<Rightarrow> (Inl e, ad)
         | None \<Rightarrow>
             (Inr (), ad\<lparr>ad_sessions := dict_set sid
                \<lparr> rs_sock = None, rs_socket_path = socket_path ad sid, active_stream_id = None \<rparr>
                (ad_sessions ad)\<rparr>)))"

text \<open>The socket goes with the session; whether \<open>worker.kill()\<close> raises makes no difference.\<close>

definition kill_worker :: "pystr \<Rightarrow> adapter \<Rightarrow> adapter" where
  "kill_worker sid ad =
     (case dict_get (ad_sessions ad) sid of
        None \<Rightarrow> ad
      | Some sess \<Rightarrow>
          ad\<lparr>ad_sessions := AList.delete sid (ad_sessions ad), ad_killed := ad_killed ad @ [sid]\<rparr>)"

subsection \<open>Connecting and sending\<close>

fun connect_loop :: "real \<Rightarrow> real \<Rightarrow> attempt list \<Rightarrow> (rpc_exc + feed) \<times> real" where
  "connect_loop connect_deadline now attempts =
     (if connect_deadline - now \<le> 0 then (Inl PyOSError, now)
      else
        (case attempts of
           [] \<Rightarrow> (Inl PyTimeoutError, connect_deadline)
         | Hangs # _ \<Rightarrow> (Inl PyTimeoutError, connect_deadline)
         | Unreachable t # _ \<Rightarrow> (Inl PyOSError, max now t)
         | Accepts t f # _ \<Rightarrow>
             if t \<ge> connect_deadline then (Inl PyTimeoutError, connect_deadline) else (Inr f, max now t)
         | Refused t # rest \<Rightarrow>
             if max now t \<ge> connect_deadline then (Inl PyOSError, max now t)
             else
               connect_loop connect_deadline
                 (max now t + min CONNECT_RETRY_INTERVAL_S (max 0 (connect_deadline - max now t))) rest))"

declare connect_loop.simps [simp del]

text \<open>\<open>_ensure_connected\<close>: an open socket is used again; a new one is stored in the session.\<close>

definition ensure_connected ::
  "adapter \<Rightarrow> call_env \<Rightarrow> real \<Rightarrow> rpc_session \<Rightarrow> (rpc_exc + conn) \<times> real" where
  "ensure_connected ad env deadline sess =
     (case rs_sock sess of
        Some c \<Rightarrow> (Inr c, env_start env)
      | None \<Rightarrow>
          (case connect_loop (min deadline (env_start env + ad_connect_timeout_s ad)) (env_start env)
                  (env_attempts env) of
             (Inl e, now) \<Rightarrow> (Inl e, now)
           | (Inr f, now) \<Rightarrow> (Inr \<lparr> conn_feed = f, conn_sent = [] \<rparr>, now)))"

definition send_all_with_timeout ::
  "send_outcome \<Rightarrow> bytes \<Rightarrow> real \<Rightarrow> real \<Rightarrow> conn \<Rightarrow> (rpc_exc + conn) \<times> real" where
  "send_all_with_timeout outcome data deadline now c =
     (case outcome of
        SendDone t \<Rightarrow> (Inr (c\<lparr>conn_sent := conn_sent c @ data\<rparr>), max now t)
      | SendTimeout \<Rightarrow> (Inl PyTimeoutError, max now deadline)
      | SendFails \<Rightarrow> (Inl PyOSError, now))"

subsection \<open>Responses with progress\<close>

definition should_relay_progress :: "real option \<Rightarrow> real \<Rightarrow> real \<Rightarrow> bool" where
  "should_relay_progress last_relayed_at now min_interval_s =
     (case last_relayed_at of None \<Rightarrow> True | Some t \<Rightarrow> now - t \<ge> min_interval_s)"

text \<open>
  The relayed frames are the log records and the calls of \<open>on_progress\<close>, with the time of each;
  whether the callback raises makes no difference.
\<close>

type_synonym relay = "real \<times> int option \<times> pystr"

function progress_loop ::
  "interpreter \<Rightarrow> nat \<Rightarrow> real \<Rightarrow> pystr \<Rightarrow> nat \<Rightarrow> real option \<Rightarrow> real \<times> feed \<Rightarrow>
   (rpc_exc + message) \<times> (real \<times> feed) \<times> relay list" where
  "progress_loop py cap deadline expected_id progress_count last_relayed_at st =
     (if deadline - fst st \<le> 0 then (Inl PyTimeoutError, st, [])
      else
        (case client_read_frame py cap deadline st of
           (Inl e, st') \<Rightarrow> (Inl e, st', [])
         | (Inr frame, st') \<Rightarrow>
             if \<not> is_progress_notification frame then (Inr frame, st', [])
             else if progress_count + 1 > MAX_PROGRESS_FRAMES
             then (Inl (RpcProtocolError ''progress frame flood exceeded the per-call cap''), st', [])
             else
               (case parse_progress frame expected_id of
                  Inl e \<Rightarrow> (Inl e, st', [])
                | Inr p \<Rightarrow>
                    let relays = should_relay_progress last_relayed_at (fst st') MIN_PROGRESS_INTERVAL_S
                    in
                    (case progress_loop py cap deadline expected_id (progress_count + 1)
                            (if relays then Some (fst st') else last_relayed_at) st' of
                       (r, st'', rs) \<Rightarrow>
                         (r, st'', if relays then (fst st', percent p, phase p) # rs else rs)))))"
  by pat_completeness auto
termination
  by (relation "measure (\<lambda>(_, _, _, _, count, _). MAX_PROGRESS_FRAMES - count)") auto

declare progress_loop.simps [simp del]

subsection \<open>One call\<close>

text \<open>
  The \<open>try\<close> block of \<open>_call\<close>: connect, send, read, parse. The second component is the session
  after it, with whatever was sent and read, the third the relayed progress.
\<close>

definition exchange ::
  "interpreter \<Rightarrow> adapter \<Rightarrow> call_env \<Rightarrow> bytes \<Rightarrow> real \<Rightarrow> bool \<Rightarrow> rpc_session \<Rightarrow>
   (rpc_exc + message) \<times> rpc_session \<times> relay list" where
  "exchange py ad env frame deadline expect_progress sess =
     (case ensure_connected ad env deadline sess of
        (Inl e, now) \<Rightarrow> (Inl e, sess, [])
      | (Inr c, now) \<Rightarrow>
          (case send_all_with_timeout (env_send env) frame deadline now c of
             (Inl e, now') \<Rightarrow> (Inl e, sess\<lparr>rs_sock := Some c\<rparr>, [])
           | (Inr c', now') \<Rightarrow>
               (case (if expect_progress
                      then progress_loop py (ad_max_response_bytes ad) (now' + max 0 (deadline - now'))
                             (env_request_id env) 0 None (now', conn_feed c')
                      else
                        (case client_read_frame py (ad_max_response_bytes ad) deadline (now', conn_feed c') of
                           (r, st) \<Rightarrow> (r, st, []))) of
                  (r, st, relays) \<Rightarrow>
                    (chain r (\<lambda>obj. parse_response obj (env_request_id env)),
                     sess\<lparr>rs_sock := Some (c'\<lparr>conn_feed := snd st\<rparr>)\<rparr>, relays))))"

definition unavailable :: "string \<Rightarrow> rpc_exc" where
  "unavailable msg = Raised (make_error WORKER_UNAVAILABLE (ascii msg) None)"

text \<open>
  The \<open>except\<close> clauses: which failures end the worker, and the error each becomes. An exception that
  is none of these passes through.
\<close>

definition kills :: "rpc_exc \<Rightarrow> bool" where
  "kills e = (case e of
     PyTimeoutError \<Rightarrow> True | FramingError _ \<Rightarrow> True | RpcProtocolError _ \<Rightarrow> True
   | PyEOFError \<Rightarrow> True | PyOSError \<Rightarrow> True | _ \<Rightarrow> False)"

definition public_error :: "string \<Rightarrow> int \<Rightarrow> bool \<Rightarrow> rpc_exc \<Rightarrow> rpc_exc" where
  "public_error timeout_msg mem oom e =
     (case e of
        RpcCallError err \<Rightarrow> Raised (worker_method_error_from (rpc_code err) (rpc_type_slug err) None)
      | PyTimeoutError \<Rightarrow> Raised (make_error TIMEOUT (ascii timeout_msg) None)
      | FramingError _ \<Rightarrow> unavailable ''worker protocol violation''
      | RpcProtocolError _ \<Rightarrow> unavailable ''worker protocol violation''
      | PyEOFError \<Rightarrow>
          if oom then Raised (resource_exhausted (Some mem) None) else unavailable ''worker unavailable''
      | PyOSError \<Rightarrow>
          if oom then Raised (resource_exhausted (Some mem) None) else unavailable ''worker unavailable''
      | _ \<Rightarrow> e)"

definition set_session :: "pystr \<Rightarrow> rpc_session \<Rightarrow> adapter \<Rightarrow> adapter" where
  "set_session sid sess ad = ad\<lparr>ad_sessions := dict_set sid sess (ad_sessions ad)\<rparr>"

definition call_rpc ::
  "interpreter \<Rightarrow> call_env \<Rightarrow> pystr \<Rightarrow> pystr \<Rightarrow> message \<Rightarrow> real \<Rightarrow> bool \<Rightarrow> adapter \<Rightarrow>
   (rpc_exc + message) \<times> adapter \<times> relay list" where
  "call_rpc py env sid meth params timeout_s expect_progress ad =
     (case dict_get (ad_sessions ad) sid of
        None \<Rightarrow> (Inl (unavailable ''no worker for session''), ad, [])
      | Some sess \<Rightarrow>
          (case encode_frame py (build_request (env_request_id env) meth params) (ad_max_response_bytes ad) of
             Inl e \<Rightarrow> (Inl e, ad, [])
           | Inr frame \<Rightarrow>
               if \<not> env_lock_free env
               then (Inl (unavailable ''session busy (another call or stream holds it)''), ad, [])
               else if active_stream_id sess \<noteq> None
               then (Inl (unavailable ''session busy (a stream is in progress)''), ad, [])
               else
                 (case exchange py ad env frame (env_start env + timeout_s) expect_progress sess of
                    (Inr result, sess', relays) \<Rightarrow> (Inr result, set_session sid sess' ad, relays)
                  | (Inl e, sess', relays) \<Rightarrow>
                      (Inl (public_error ''operation exceeded its time limit'' (ad_worker_mem_mib ad)
                              (env_oom env) e),
                       if kills e then kill_worker sid (set_session sid sess' ad)
                       else set_session sid sess' ad, relays))))"

subsection \<open>Tool calls\<close>

definition tool_call ::
  "interpreter \<Rightarrow> call_env \<Rightarrow> pystr \<Rightarrow> pystr \<Rightarrow> message \<Rightarrow> adapter \<Rightarrow>
   (rpc_exc + message) \<times> adapter \<times> relay list" where
  "tool_call py env sid meth params ad = call_rpc py env sid meth params (ad_tool_timeout_s ad) False ad"

text \<open>The requests of the two file-listing tools.\<close>

definition ramdisk_list_params :: "int \<Rightarrow> int \<Rightarrow> int \<Rightarrow> message" where
  "ramdisk_list_params offset limit max_entries =
     [(ascii ''offset'', PyInt offset), (ascii ''limit'', PyInt limit), (ascii ''max_entries'', PyInt max_entries)]"

definition cache_components_params :: "pystr \<Rightarrow> int \<Rightarrow> int \<Rightarrow> message" where
  "cache_components_params source_ref offset limit =
     [(ascii ''source_ref'', PyStr source_ref), (ascii ''offset'', PyInt offset), (ascii ''limit'', PyInt limit)]"

subsection \<open>Decompile streams\<close>

record DecompileStreamIn =
  ds_functions :: "pystr list option"
  ds_offset :: int
  ds_limit :: int

definition stream_start_params :: "DecompileStreamIn \<Rightarrow> message" where
  "stream_start_params a =
     [(ascii ''offset'', PyInt (ds_offset a)), (ascii ''limit'', PyInt (ds_limit a))] @
     (case ds_functions a of
        None \<Rightarrow> []
      | Some fs \<Rightarrow> [(ascii ''functions'', PyList (map PyStr fs))])"

text \<open>\<open>_w\<close>: a required text field, wrapped.\<close>

definition wrap_text :: "pystr \<Rightarrow> DataOrigin \<Rightarrow> pystr option \<Rightarrow> pystr Untrusted" where
  "wrap_text s origin encoding =
     (let u = wrap (PyStr s) origin False encoding []
      in \<lparr> u_value = str_of (u_value u), u_origin = u_origin u, u_truncated = u_truncated u,
           u_encoding = u_encoding u, u_notes = u_notes u \<rparr>)"

text \<open>\<open>r[k]\<close> under \<open>_fail_closed\<close>: the \<open>KeyError\<close> becomes the adapter's own error.\<close>

definition required :: "message \<Rightarrow> string \<Rightarrow> rpc_exc + pyval" where
  "required r k =
     (case dict_get r (ascii k) of
        None \<Rightarrow> Inl (unavailable ''worker returned a malformed result'')
      | Some v \<Rightarrow> Inr v)"

definition build_decompiled :: "interpreter \<Rightarrow> message \<Rightarrow> rpc_exc + DecompiledFunction" where
  "build_decompiled py r =
     chain (required r ''address'') (\<lambda>address.
     chain (required r ''name'') (\<lambda>name.
     chain (required r ''c_code'') (\<lambda>c_code.
     chain (required r ''signature'') (\<lambda>signature.
       Inr \<lparr> fn_address = py_str py address,
             fn_name = wrap_text (py_str py name) BINARY None,
             fn_c_code = wrap_text (py_str py c_code) GHIDRA None,
             fn_signature = wrap_text (py_str py signature) GHIDRA None \<rparr>))))"

text \<open>The local variables of \<open>_read_stream_chunks\<close>, and one answer of the generator.\<close>

record stream_reader =
  rd_id :: pystr
  rd_deadline :: real
  rd_next_seq :: nat
  rd_chunk_count :: nat
  rd_progress_count :: nat
  rd_last_relayed :: "real option"

datatype stream_event = GotChunk DecompiledFunction | GotEnd message | GotFault rpc_exc

definition relay_stream_progress ::
  "message \<Rightarrow> real \<Rightarrow> stream_reader \<Rightarrow> rpc_exc + (real option \<times> relay list)" where
  "relay_stream_progress frame now rd =
     (if rd_progress_count rd > MAX_PROGRESS_FRAMES
      then Inl (RpcProtocolError ''stream progress-frame flood exceeded the per-call cap'')
      else
        chain (parse_progress frame (rd_id rd)) (\<lambda>p.
          if should_relay_progress (rd_last_relayed rd) now MIN_PROGRESS_INTERVAL_S
          then Inr (Some now, [(now, percent p, phase p)]) else Inr (rd_last_relayed rd, [])))"

definition take_chunk :: "interpreter \<Rightarrow> message \<Rightarrow> stream_reader \<Rightarrow> (rpc_exc + DecompiledFunction) \<times> stream_reader" where
  "take_chunk py frame rd =
     (let rd1 = rd\<lparr>rd_chunk_count := rd_chunk_count rd + 1\<rparr> in
      if rd_chunk_count rd1 > MAX_STREAM_CHUNKS
      then (Inl (RpcProtocolError ''stream chunk flood exceeded the per-call cap''), rd1)
      else
        (case parse_chunk frame (rd_id rd) of
           Inl e \<Rightarrow> (Inl e, rd1)
         | Inr chunk \<Rightarrow>
             if chunk_seq chunk \<noteq> int (rd_next_seq rd)
             then (Inl (RpcProtocolError ''stream chunk seq is not gap-free monotonic''), rd1)
             else (build_decompiled py (chunk_payload chunk), rd1\<lparr>rd_next_seq := rd_next_seq rd + 1\<rparr>)))"

text \<open>The loop from one \<open>yield\<close> to the next.\<close>

function stream_read ::
  "interpreter \<Rightarrow> nat \<Rightarrow> stream_reader \<Rightarrow> real \<times> feed \<Rightarrow> stream_event \<times> stream_reader \<times> (real \<times> feed) \<times> relay list" where
  "stream_read py cap rd st =
     (if rd_deadline rd - fst st \<le> 0 then (GotFault PyTimeoutError, rd, st, [])
      else
        (case client_read_frame py cap (rd_deadline rd) st of
           (Inl e, st') \<Rightarrow> (GotFault e, rd, st', [])
         | (Inr frame, st') \<Rightarrow>
             if is_progress_notification frame then
               let rd1 = rd\<lparr>rd_progress_count := rd_progress_count rd + 1\<rparr> in
               (case relay_stream_progress frame (fst st') rd1 of
                  Inl e \<Rightarrow> (GotFault e, rd1, st', [])
                | Inr (latest, relays) \<Rightarrow>
                    (case stream_read py cap (rd1\<lparr>rd_last_relayed := latest\<rparr>) st' of
                       (r, rd2, st'', rs) \<Rightarrow> (r, rd2, st'', relays @ rs)))
             else if is_chunk_notification frame then
               (case take_chunk py frame rd of
                  (Inl e, rd1) \<Rightarrow> (GotFault e, rd1, st', [])
                | (Inr fn, rd1) \<Rightarrow> (GotChunk fn, rd1, st', []))
             else
               (case parse_response frame (rd_id rd) of
                  Inl e \<Rightarrow> (GotFault e, rd, st', [])
                | Inr result \<Rightarrow> (GotEnd result, rd, st', []))))"
  by pat_completeness auto
termination
  by (relation "measure (\<lambda>(_, _, rd, _). Suc MAX_PROGRESS_FRAMES - rd_progress_count rd)")
     (auto simp: relay_stream_progress_def split: if_splits)

declare stream_read.simps [simp del]

subsection \<open>The terminal summary\<close>

definition stream_terminal :: "interpreter \<Rightarrow> message \<Rightarrow> nat \<Rightarrow> StreamTerminal" where
  "stream_terminal py result produced =
     (let n = int produced;
          raw = (case dict_get result (ascii ''total'') of None \<Rightarrow> PyInt n | Some v \<Rightarrow> v);
          reported = (case py_int py raw of None \<Rightarrow> n | Some i \<Rightarrow> i);
          trunc = (case dict_get result (ascii ''truncated'') of None \<Rightarrow> PyBool False | Some v \<Rightarrow> v)
      in \<lparr> term_total = Some (max n (min reported (int MAX_STREAM_CHUNKS))), term_truncated = truthy trunc \<rparr>)"

subsection \<open>The generator\<close>

datatype gen = GenNew | GenRunning stream_reader | GenDone

datatype answer = AnsYield DecompiledFunction | AnsStop "StreamTerminal option" | AnsRaise rpc_exc

text \<open>The \<open>finally\<close> clause: the flag is cleared only if it is still this stream's.\<close>

definition release_stream :: "pystr \<Rightarrow> pystr \<Rightarrow> adapter \<Rightarrow> adapter" where
  "release_stream sid rid ad =
     (case dict_get (ad_sessions ad) sid of
        None \<Rightarrow> ad
      | Some sess \<Rightarrow>
          if active_stream_id sess = Some rid
          then set_session sid (sess\<lparr>active_stream_id := None\<rparr>) ad else ad)"

definition stream_fault ::
  "call_env \<Rightarrow> pystr \<Rightarrow> pystr \<Rightarrow> rpc_exc \<Rightarrow> adapter \<Rightarrow> answer \<times> adapter \<times> gen" where
  "stream_fault env sid rid e ad =
     (AnsRaise (public_error ''stream exceeded its time limit'' (ad_worker_mem_mib ad) (env_oom env) e),
      release_stream sid rid (if kills e then kill_worker sid ad else ad), GenDone)"

text \<open>
  Reading on: the generator holds its socket; when the session has been killed meanwhile, that
  socket is closed and reading it fails.
\<close>

definition stream_continue ::
  "interpreter \<Rightarrow> call_env \<Rightarrow> pystr \<Rightarrow> real \<Rightarrow> stream_reader \<Rightarrow> adapter \<Rightarrow> answer \<times> adapter \<times> gen" where
  "stream_continue py env sid now rd ad =
     (case dict_get (ad_sessions ad) sid of
        Some sess \<Rightarrow>
          (case rs_sock sess of
             Some c \<Rightarrow>
               if active_stream_id sess = Some (rd_id rd) then
                 (case stream_read py (ad_max_response_bytes ad) rd (now, conn_feed c) of
                    (ev, rd', st, relays) \<Rightarrow>
                      let ad' = set_session sid (sess\<lparr>rs_sock := Some (c\<lparr>conn_feed := snd st\<rparr>)\<rparr>) ad in
                      (case ev of
                         GotChunk fn \<Rightarrow> (AnsYield fn, ad', GenRunning rd')
                       | GotEnd result \<Rightarrow>
                           (AnsStop (Some (stream_terminal py result (rd_next_seq rd'))),
                            release_stream sid (rd_id rd) ad', GenDone)
                       | GotFault e \<Rightarrow> stream_fault env sid (rd_id rd) e ad'))
               else
                 stream_fault env sid (rd_id rd)
                   (if rd_deadline rd - now \<le> 0 then PyTimeoutError else PyOSError) ad
           | None \<Rightarrow>
               stream_fault env sid (rd_id rd)
                 (if rd_deadline rd - now \<le> 0 then PyTimeoutError else PyOSError) ad)
      | None \<Rightarrow>
          stream_fault env sid (rd_id rd)
            (if rd_deadline rd - now \<le> 0 then PyTimeoutError else PyOSError) ad)"

definition new_reader :: "pystr \<Rightarrow> real \<Rightarrow> stream_reader" where
  "new_reader rid deadline =
     \<lparr> rd_id = rid, rd_deadline = deadline, rd_next_seq = 0, rd_chunk_count = 0,
       rd_progress_count = 0, rd_last_relayed = None \<rparr>"

text \<open>The first pull: send the request, set the flag, then read.\<close>

definition stream_begin ::
  "interpreter \<Rightarrow> call_env \<Rightarrow> pystr \<Rightarrow> DecompileStreamIn \<Rightarrow> adapter \<Rightarrow> answer \<times> adapter \<times> gen" where
  "stream_begin py env sid a ad =
     (let rid = env_request_id env; deadline = env_start env + ad_analysis_timeout_s ad in
      case dict_get (ad_sessions ad) sid of
        None \<Rightarrow> (AnsRaise (unavailable ''no worker for session''), ad, GenDone)
      | Some sess \<Rightarrow>
          (case encode_frame py (build_request rid (ascii ''start_decompile_stream'') (stream_start_params a))
                  (ad_max_response_bytes ad) of
             Inl e \<Rightarrow> (AnsRaise e, ad, GenDone)
           | Inr frame \<Rightarrow>
               if active_stream_id sess \<noteq> None
               then stream_fault env sid rid (unavailable ''session busy (a stream is in progress)'') ad
               else
                 (case ensure_connected ad env deadline sess of
                    (Inl e, now) \<Rightarrow> stream_fault env sid rid e ad
                  | (Inr c, now) \<Rightarrow>
                      (case send_all_with_timeout (env_send env) frame deadline now c of
                         (Inl e, now') \<Rightarrow>
                           stream_fault env sid rid e (set_session sid (sess\<lparr>rs_sock := Some c\<rparr>) ad)
                       | (Inr c', now') \<Rightarrow>
                           stream_continue py env sid now' (new_reader rid deadline)
                             (set_session sid
                                (sess\<lparr>rs_sock := Some c', active_stream_id := Some rid\<rparr>) ad)))))"

definition stream_next ::
  "interpreter \<Rightarrow> call_env \<Rightarrow> pystr \<Rightarrow> DecompileStreamIn \<Rightarrow> real \<Rightarrow> adapter \<times> gen \<Rightarrow> answer \<times> adapter \<times> gen" where
  "stream_next py env sid a now s =
     (case s of (ad, g) \<Rightarrow>
        (case g of
           GenNew \<Rightarrow> stream_begin py env sid a ad
         | GenRunning rd \<Rightarrow> stream_continue py env sid now rd ad
         | GenDone \<Rightarrow> (AnsStop None, ad, GenDone)))"

subsection \<open>Every stream ends\<close>

lemma take_chunk_count:
  "take_chunk py frame rd = (Inr fn, rd') \<Longrightarrow>
   rd_chunk_count rd' = Suc (rd_chunk_count rd) \<and> rd_chunk_count rd' \<le> MAX_STREAM_CHUNKS \<and>
   rd_next_seq rd' = Suc (rd_next_seq rd) \<and> rd_id rd' = rd_id rd \<and> rd_deadline rd' = rd_deadline rd"
  by (auto simp: take_chunk_def Let_def split: if_splits sum.splits)

lemma stream_read_chunk:
  "stream_read py cap rd st = (GotChunk fn, rd', st', rs) \<Longrightarrow>
   rd_chunk_count rd' = Suc (rd_chunk_count rd) \<and> rd_chunk_count rd' \<le> MAX_STREAM_CHUNKS \<and>
   rd_next_seq rd' = Suc (rd_next_seq rd) \<and> rd_id rd' = rd_id rd \<and> rd_deadline rd' = rd_deadline rd"
proof (induction py cap rd st arbitrary: rd' st' rs rule: stream_read.induct)
  case (1 py cap rd st)
  note step = "1.prems" [unfolded stream_read.simps [of py cap rd st]]
  obtain frame st1 where frame: "client_read_frame py cap (rd_deadline rd) st = (Inr frame, st1)"
    using step by (auto split: if_splits prod.splits sum.splits)
  show ?case
  proof (cases "is_progress_notification frame")
    case True
    then show ?thesis
      using step frame "1.IH" [OF _ frame [symmetric] refl True refl]
      by (fastforce simp: Let_def split: if_splits prod.splits sum.splits)
  next
    case False
    then show ?thesis
      using step frame by (auto split: if_splits prod.splits sum.splits dest: take_chunk_count)
  qed
qed

fun gen_budget :: "gen \<Rightarrow> nat" where
  "gen_budget GenNew = Suc (Suc MAX_STREAM_CHUNKS)"
| "gen_budget (GenRunning rd) = Suc (MAX_STREAM_CHUNKS - rd_chunk_count rd)"
| "gen_budget GenDone = 0"

lemma stream_continue_budget:
  "stream_continue py env sid now rd ad = (AnsYield fn, ad', g') \<Longrightarrow> gen_budget g' < gen_budget (GenRunning rd)"
  by (auto simp: stream_continue_def stream_fault_def Let_def dest!: stream_read_chunk
      split: option.splits if_splits prod.splits stream_event.splits)

lemma stream_next_budget:
  "stream_next py env sid a now (ad, g) = (AnsYield fn, ad', g') \<Longrightarrow> gen_budget g' < gen_budget g"
  by (cases g)
     (auto simp: stream_next_def stream_begin_def stream_fault_def Let_def new_reader_def
      dest!: stream_continue_budget split: option.splits if_splits prod.splits sum.splits)

text \<open>
  Pulling until the end, the \<open>k\<close>-th pull at the time \<open>clock k\<close>: what \<open>reap_cancelled\<close> and an eager
  client do.
\<close>

function stream_run ::
  "interpreter \<Rightarrow> call_env \<Rightarrow> pystr \<Rightarrow> DecompileStreamIn \<Rightarrow> (nat \<Rightarrow> real) \<Rightarrow> nat \<Rightarrow> adapter \<times> gen \<Rightarrow>
   DecompiledFunction list \<times> answer \<times> adapter" where
  "stream_run py env sid a clock k s =
     (case stream_next py env sid a (clock k) s of
        (AnsYield fn, ad', g') \<Rightarrow>
          (case stream_run py env sid a clock (Suc k) (ad', g') of
             (fns, end_answer, ad'') \<Rightarrow> (fn # fns, end_answer, ad''))
      | (ans, ad', g') \<Rightarrow> ([], ans, ad'))"
  by pat_completeness auto
termination
  by (relation "measure (\<lambda>(_, _, _, _, _, _, _, g). gen_budget g)")
     (auto dest!: sym [of _ "stream_next _ _ _ _ _ _"] stream_next_budget)

declare stream_run.simps [simp del]

subsection \<open>Cancelling\<close>

text \<open>\<open>_send_cancel\<close>; the caller suppresses whatever it raises, so a failed send changes nothing.\<close>

definition send_cancel :: "interpreter \<Rightarrow> bool \<Rightarrow> pystr \<Rightarrow> adapter \<Rightarrow> adapter" where
  "send_cancel py send_ok sid ad =
     (case dict_get (ad_sessions ad) sid of
        None \<Rightarrow> ad
      | Some sess \<Rightarrow>
          (case (rs_sock sess, active_stream_id sess) of
             (Some c, Some stream_id) \<Rightarrow>
               (case encode_frame py (build_cancel stream_id) (ad_max_response_bytes ad) of
                  Inl e \<Rightarrow> ad
                | Inr frame \<Rightarrow>
                    if send_ok
                    then set_session sid (sess\<lparr>rs_sock := Some (c\<lparr>conn_sent := conn_sent c @ frame\<rparr>)\<rparr>) ad
                    else ad)
           | _ \<Rightarrow> ad))"

end
