(* ===== verification/Rpc_Client_Props.thy ===== *)
theory Rpc_Client_Props
  imports Rpc_Client "HOL-Library.Code_Target_Nat"
begin

text \<open>
  What the server's end of the connection guarantees whatever the worker sends: which failures end
  the worker, that a call never disturbs a running stream or another session, and that every stream
  ends within its bounds and leaves its session usable or gone.
\<close>

subsection \<open>A sample connection\<close>

text \<open>An interpreter, an adapter with one connected session, and one call, for the witnesses.\<close>

definition sample_py :: interpreter where
  "sample_py = \<lparr> recursion_budget = 100, float_repr = (\<lambda>_. []), float_value = (\<lambda>_. PyNone),
     object_repr = (\<lambda>_. []), int_of_text = (\<lambda>_. None) \<rparr>"

definition sample_env :: call_env where
  "sample_env = \<lparr> env_request_id = ascii ''r1'', env_start = 0, env_lock_free = True,
     env_attempts = [], env_send = SendDone 0, env_oom = False \<rparr>"

definition sample_adapter :: "feed \<Rightarrow> adapter" where
  "sample_adapter evs = \<lparr> ad_socket_dir = ascii ''/run'', ad_tool_timeout_s = 30, ad_analysis_timeout_s = 60,
     ad_connect_timeout_s = 30, ad_max_response_bytes = 1000, ad_worker_mem_mib = 2048,
     ad_sessions = [(ascii ''s'', \<lparr> rs_sock = Some \<lparr> conn_feed = evs, conn_sent = [] \<rparr>,
        rs_socket_path = ascii ''/run/s/s.sock'', active_stream_id = None \<rparr>)], ad_killed = [] \<rparr>"

definition frame_of :: "message \<Rightarrow> bytes" where
  "frame_of m = (case encode_frame sample_py m 1000 of Inr f \<Rightarrow> f | Inl _ \<Rightarrow> [])"

text \<open>The same bytes, cut into two segments.\<close>

definition two_segments :: "nat \<Rightarrow> bytes \<Rightarrow> feed" where
  "two_segments n bs = [Segment 1 (take n bs), Segment 2 (drop n bs)]"

definition pong :: "string \<Rightarrow> bytes" where
  "pong rid = frame_of [(VERSION_KEY, VERSION), (ID_KEY, PyStr (ascii rid)),
     (RESULT_KEY, PyDict [(ascii ''ok'', PyBool True)])]"

subsection \<open>Sessions of the adapter\<close>

abbreviation session_of :: "adapter \<Rightarrow> pystr \<Rightarrow> rpc_session option" where
  "session_of ad sid \<equiv> dict_get (ad_sessions ad) sid"

named_theorems adapter_simps \<open>sessions after an update of the adapter\<close>

lemma session_of_set [adapter_simps]:
  "session_of (set_session sid sess ad) s = (if s = sid then Some sess else session_of ad s)"
  by (simp add: set_session_def dict_simps)

lemma session_of_kill [adapter_simps]:
  "session_of (kill_worker sid ad) s = (if s = sid then None else session_of ad s)"
  by (auto simp: kill_worker_def dict_simps split: option.splits)

lemma set_session_frame [adapter_simps]:
  "ad_killed (set_session sid sess ad) = ad_killed ad"
  "ad_max_response_bytes (set_session sid sess ad) = ad_max_response_bytes ad"
  "ad_worker_mem_mib (set_session sid sess ad) = ad_worker_mem_mib ad"
  by (simp_all add: set_session_def)

lemma kill_worker_frame [adapter_simps]:
  "ad_max_response_bytes (kill_worker sid ad) = ad_max_response_bytes ad"
  "ad_worker_mem_mib (kill_worker sid ad) = ad_worker_mem_mib ad"
  by (simp_all add: kill_worker_def split: option.splits)

lemma killed_kill [adapter_simps]:
  "session_of ad sid \<noteq> None \<Longrightarrow> ad_killed (kill_worker sid ad) = ad_killed ad @ [sid]"
  "session_of ad sid = None \<Longrightarrow> kill_worker sid ad = ad"
  by (auto simp: kill_worker_def)

subsection \<open>The errors of a call\<close>

text \<open>The categories that reach a client when the worker itself failed, and when a method did.\<close>

definition worker_failure_types :: "ErrorType list" where
  "worker_failure_types = [TIMEOUT, WORKER_UNAVAILABLE, RESOURCE_EXHAUSTED]"

definition method_failure_types :: "ErrorType list" where
  "method_failure_types = [VALIDATION, NOT_FOUND, LIMIT_EXCEEDED, ANALYSIS_FAILED, INTERNAL]"

lemma exc_type_resource_exhausted:
  assumes "0 \<le> m" "m < 10 ^ 12"
  shows "exc_type (resource_exhausted (Some m) None) = Some RESOURCE_EXHAUSTED"
proof -
  have "length (dec_nat (nat m)) \<le> 12" using assms by (intro length_dec_nat) (simp_all add: nat_less_iff)
  then have "length (dec_int m) \<le> 12" using assms by (simp add: dec_int_def)
  then show ?thesis by (simp add: resource_exhausted_def exc_type_make_error)
qed

lemma map_worker_slug_types: "map_worker_slug slug \<in> set method_failure_types"
  by (auto simp: map_worker_slug_def WORKER_SLUG_TO_TYPE_def method_failure_types_def split: option.splits)

lemma exc_type_method_error:
  "\<exists>t \<in> set method_failure_types. exc_type (worker_method_error_from code slug None) = Some t"
proof -
  have "exc_type (worker_method_error t None) = Some t" for t
    by (auto simp: worker_method_error_def WORKER_METHOD_DETAIL_def exc_type_make_error split: option.splits)
  then show ?thesis
    using map_worker_slug_types [of slug]
    by (auto simp: worker_method_error_from_def method_not_found_detail_def exc_type_make_error
        WORKER_METHOD_DETAIL_def method_failure_types_def)
qed

lemma exc_type_unavailable:
  "msg \<noteq> '''' \<Longrightarrow> length msg \<le> 2048 \<Longrightarrow>
   \<exists>x. unavailable msg = Raised x \<and> exc_type x = Some WORKER_UNAVAILABLE"
  by (cases msg) (auto simp: unavailable_def exc_type_make_error Suc_le_eq)

text \<open>What each failure of the exchange becomes.\<close>

lemma public_error_kills:
  assumes "kills e" "0 \<le> m" "m < 10 ^ 12" "tmsg \<noteq> ''''" "length tmsg \<le> 2048"
  shows "\<exists>x t. public_error tmsg m oom e = Raised x \<and> exc_type x = Some t \<and> t \<in> set worker_failure_types"
  using assms exc_type_unavailable [of "''worker protocol violation''"] exc_type_unavailable [of "''worker unavailable''"]
  by (cases tmsg; cases e)
     (auto simp: kills_def public_error_def worker_failure_types_def exc_type_resource_exhausted
      exc_type_make_error Suc_le_eq)

lemma public_error_spares:
  assumes "\<not> kills e" "\<And>x. e \<noteq> Raised x"
  shows "(\<exists>x t. public_error tmsg m oom e = Raised x \<and> exc_type x = Some t \<and> t \<in> set method_failure_types) \<or>
    public_error tmsg m oom e = e \<and> (\<exists>n. e = PyValueError n) \<or> public_error tmsg m oom e = e \<and> e = PyRecursionError"
  using assms exc_type_method_error by (cases e) (auto simp: kills_def public_error_def)

lemma ensure_connected_faults:
  "ensure_connected ad env deadline sess = (Inl e, now) \<Longrightarrow> e \<in> {PyTimeoutError, PyOSError}"
proof -
  have "connect_loop cd now atts = (Inl e, now') \<Longrightarrow> e \<in> {PyTimeoutError, PyOSError}" for cd now atts now'
    by (induction cd now atts rule: connect_loop.induct)
       (subst (asm) connect_loop.simps, auto split: if_splits list.splits attempt.splits)
  then show "ensure_connected ad env deadline sess = (Inl e, now) \<Longrightarrow> ?thesis"
    by (auto simp: ensure_connected_def split: option.splits prod.splits sum.splits)
qed

lemma parse_progress_faults: "parse_progress obj rid = Inl e \<Longrightarrow> \<exists>m. e = RpcProtocolError m"
  by (auto simp: parse_progress_def parse_percent_def chain_Inl_iff split: if_splits pyval.splits)

lemma parse_chunk_faults: "parse_chunk obj rid = Inl e \<Longrightarrow> \<exists>m. e = RpcProtocolError m"
  by (auto simp: parse_chunk_def parse_seq_def chain_Inl_iff split: if_splits pyval.splits)

lemma parse_response_faults:
  "parse_response obj rid = Inl e \<Longrightarrow> (\<exists>m. e = RpcProtocolError m) \<or> (\<exists>err. e = RpcCallError err)"
  by (auto simp: parse_response_def split: if_splits pyval.splits)

text \<open>No exception of the wire is an error of the public vocabulary.\<close>

lemma progress_loop_not_raised:
  "progress_loop py cap deadline rid n l st = (Inl e, st', rs) \<Longrightarrow> e \<noteq> Raised x"
proof (induction py cap deadline rid n l st arbitrary: st' rs rule: progress_loop.induct)
  case (1 py cap deadline rid n l st)
  note step = "1.prems" [unfolded progress_loop.simps [of py cap deadline rid n l st]]
  obtain r1 st1 where r1: "client_read_frame py cap deadline st = (r1, st1)" by (metis prod.exhaust)
  show ?case
  proof (cases r1)
    case (Inl e1)
    with step r1 show ?thesis by (auto dest: client_frame_faults split: if_splits)
  next
    case (Inr frame)
    show ?thesis
    proof (cases "\<exists>p. parse_progress frame rid = Inr p")
      case True
      then obtain p where p: "parse_progress frame rid = Inr p" by blast
      show ?thesis
        using step r1 Inr p "1.IH" [OF _ r1 [symmetric] Inr _ _ p refl]
        by (auto simp: Let_def split: if_splits prod.splits)
    next
      case False
      then obtain e1 where "parse_progress frame rid = Inl e1" by (cases "parse_progress frame rid") auto
      with step r1 Inr show ?thesis
        by (auto split: if_splits dest: parse_progress_faults)
    qed
  qed
qed

lemma exchange_not_raised:
  "exchange py ad env frame deadline ep sess = (Inl e, sess', relays) \<Longrightarrow> e \<noteq> Raised x"
  by (auto simp: exchange_def chain_Inl_iff send_all_with_timeout_def
      split: prod.splits sum.splits if_splits send_outcome.splits
      dest: ensure_connected_faults parse_response_faults progress_loop_not_raised client_frame_faults)

lemma exchange_frame:
  "exchange py ad env frame deadline ep sess = (r, sess', relays) \<Longrightarrow>
   active_stream_id sess' = active_stream_id sess \<and> rs_socket_path sess' = rs_socket_path sess"
  by (auto simp: exchange_def split: prod.splits sum.splits if_splits)

lemma encode_frame_faults:
  "encode_frame py m cap = Inl e \<Longrightarrow>
   e = FramingError ''outbound frame exceeds maximum size'' \<or> (\<exists>n. e = PyValueError n) \<or> e = PyRecursionError"
  by (auto simp: encode_frame_def json_exc_def Let_def split: sum.splits option.splits if_splits)

subsection \<open>Calls\<close>

text \<open>The exceptions of the codec that \<open>_call\<close> lets through although it promises an envelope.\<close>

definition escapes :: "rpc_exc \<Rightarrow> bool" where
  "escapes e \<longleftrightarrow> e = FramingError ''outbound frame exceeds maximum size'' \<or> (\<exists>n. e = PyValueError n) \<or>
     e = PyRecursionError"

text \<open>
  C11: Whatever the worker, the clock and the transport do, one call on a session ends in one of four
  ways, and only the session of the call is touched. It returns the worker's result, and the worker
  lives on; or a method-level error with one of the five method categories, and the worker lives on;
  or one of the three worker-failure categories, in which case the worker was killed and its session
  removed, or the call was refused without touching the socket (no worker, lock not free, or a stream
  in progress, when the adapter is left exactly as it was); or an exception of the codec escapes
  unmapped, with the worker still in place.
\<close>

theorem call_fails_closed:
  assumes call: "call_rpc py env sid meth params timeout_s expect_progress ad = (r, ad', relays)"
    and mem: "0 \<le> ad_worker_mem_mib ad" "ad_worker_mem_mib ad < 10 ^ 12"
  shows "(\<forall>s. s \<noteq> sid \<longrightarrow> session_of ad' s = session_of ad s) \<and>
    (case r of
       Inr result \<Rightarrow> session_of ad' sid \<noteq> None \<and> ad_killed ad' = ad_killed ad
     | Inl (Raised x) \<Rightarrow>
         (\<exists>t \<in> set method_failure_types. exc_type x = Some t) \<and>
           session_of ad' sid \<noteq> None \<and> ad_killed ad' = ad_killed ad \<or>
         (\<exists>t \<in> set worker_failure_types. exc_type x = Some t) \<and>
           session_of ad' sid = None \<and> ad_killed ad' = ad_killed ad @ [sid] \<or>
         exc_type x = Some WORKER_UNAVAILABLE \<and> ad' = ad
     | Inl e \<Rightarrow> escapes e \<and> session_of ad' sid \<noteq> None \<and> ad_killed ad' = ad_killed ad) \<and>
    (\<forall>sess. session_of ad sid = Some sess \<and> active_stream_id sess \<noteq> None \<longrightarrow> ad' = ad)"
proof (cases "session_of ad sid")
  case None
  with call exc_type_unavailable [of "''no worker for session''"] show ?thesis
    by (auto simp: call_rpc_def)
next
  case (Some sess)
  show ?thesis
  proof (cases "encode_frame py (build_request (env_request_id env) meth params) (ad_max_response_bytes ad)")
    case (Inl e)
    with call Some show ?thesis
      by (auto simp: call_rpc_def escapes_def dest!: encode_frame_faults)
  next
    case (Inr frame)
    show ?thesis
    proof (cases "env_lock_free env \<and> active_stream_id sess = None")
      case False
      with call Some Inr exc_type_unavailable [of "''session busy (another call or stream holds it)''"]
        exc_type_unavailable [of "''session busy (a stream is in progress)''"]
      show ?thesis by (auto simp: call_rpc_def split: if_splits)
    next
      case True
      obtain x sess' rs where ex: "exchange py ad env frame (env_start env + timeout_s) expect_progress sess =
          (x, sess', rs)" by (metis prod_cases3)
      show ?thesis
      proof (cases x)
        case (Inr result)
        with call Some \<open>encode_frame _ _ _ = _\<close> True ex show ?thesis
          by (auto simp: call_rpc_def adapter_simps)
      next
        case (Inl e)
        let ?ad1 = "set_session sid sess' ad"
        have r: "r = Inl (public_error ''operation exceeded its time limit'' (ad_worker_mem_mib ad) (env_oom env) e)"
          and ad': "ad' = (if kills e then kill_worker sid ?ad1 else ?ad1)"
          using call Some Inr True ex Inl by (auto simp: call_rpc_def)
        show ?thesis
        proof (cases "kills e")
          case True
          then show ?thesis
            using public_error_kills [OF True mem, of "''operation exceeded its time limit''" "env_oom env"]
              Some \<open>env_lock_free env \<and> _\<close>
            by (auto simp: r ad' adapter_simps)
        next
          case False
          have "e \<noteq> Raised y" for y using exchange_not_raised ex Inl by blast
          from public_error_spares [OF False this, of "''operation exceeded its time limit''"
              "ad_worker_mem_mib ad" "env_oom env"] False Some \<open>env_lock_free env \<and> _\<close>
          show ?thesis by (auto simp: r ad' adapter_simps escapes_def)
        qed
      qed
    qed
  qed
qed

text \<open>A reply cut in the middle of its prefix is read; a reply with a stale id costs the worker.\<close>

theorem call_fails_closed_witness:
  "(\<exists>ad' relays. call_rpc sample_py sample_env (ascii ''s'') (ascii ''ping'') [] 30 False
       (sample_adapter (two_segments 3 (pong ''r1''))) = (Inr [(ascii ''ok'', PyBool True)], ad', relays) \<and>
     session_of ad' (ascii ''s'') \<noteq> None \<and> ad_killed ad' = []) \<and>
   (\<exists>x ad' relays. call_rpc sample_py sample_env (ascii ''s'') (ascii ''ping'') [] 30 False
       (sample_adapter (two_segments 3 (pong ''r0''))) = (Inl (Raised x), ad', relays) \<and>
     session_of ad' (ascii ''s'') = None)"
proof
  let ?ad = "sample_adapter (two_segments 3 (pong ''r1''))"
  obtain r ad' relays where call: "call_rpc sample_py sample_env (ascii ''s'') (ascii ''ping'') [] 30 False ?ad =
      (r, ad', relays)" by (metis prod_cases3)
  have "fst (call_rpc sample_py sample_env (ascii ''s'') (ascii ''ping'') [] 30 False ?ad) =
      Inr [(ascii ''ok'', PyBool True)]" by code_simp
  then have "r = Inr [(ascii ''ok'', PyBool True)]" by (simp add: call)
  with call call_fails_closed [OF call] show "\<exists>ad' relays. call_rpc sample_py sample_env (ascii ''s'')
       (ascii ''ping'') [] 30 False ?ad = (Inr [(ascii ''ok'', PyBool True)], ad', relays) \<and>
     session_of ad' (ascii ''s'') \<noteq> None \<and> ad_killed ad' = []"
    by (simp add: sample_adapter_def)
next
  let ?call = "call_rpc sample_py sample_env (ascii ''s'') (ascii ''ping'') [] 30 False
    (sample_adapter (two_segments 3 (pong ''r0'')))"
  have "(case fst ?call of Inl (Raised x) \<Rightarrow> True | _ \<Rightarrow> False) \<and> session_of (fst (snd ?call)) (ascii ''s'') = None"
    by code_simp
  then show "\<exists>x ad' relays. ?call = (Inl (Raised x), ad', relays) \<and> session_of ad' (ascii ''s'') = None"
    by (cases ?call) (auto split: sum.splits rpc_exc.splits)
qed

subsection \<open>Streams\<close>

text \<open>A session the stream no longer holds: gone, or without a running stream.\<close>

definition stream_free :: "adapter \<Rightarrow> pystr \<Rightarrow> bool" where
  "stream_free ad sid \<longleftrightarrow> (case session_of ad sid of None \<Rightarrow> True | Some sess \<Rightarrow> active_stream_id sess = None)"

definition others_same :: "pystr \<Rightarrow> adapter \<Rightarrow> adapter \<Rightarrow> bool" where
  "others_same sid ad ad' \<longleftrightarrow> (\<forall>s. s \<noteq> sid \<longrightarrow> session_of ad' s = session_of ad s)"

lemma others_same_refl [simp]: "others_same sid ad ad"
  by (simp add: others_same_def)

lemma others_same_trans: "others_same sid ad ad1 \<Longrightarrow> others_same sid ad1 ad2 \<Longrightarrow> others_same sid ad ad2"
  by (simp add: others_same_def)

lemma others_same_updates [adapter_simps]:
  "others_same sid ad (set_session sid sess ad') = others_same sid ad ad'"
  "others_same sid ad (kill_worker sid ad') = others_same sid ad ad'"
  "others_same sid ad (release_stream sid rid ad') = others_same sid ad ad'"
  by (auto simp: others_same_def adapter_simps release_stream_def split: option.splits if_splits)

lemma stream_fault_effect:
  assumes "stream_fault env sid rid e ad = (ans, ad', g)"
    and "kills e \<or> (\<exists>sess. session_of ad sid = Some sess \<and> active_stream_id sess = Some rid)"
  shows "g = GenDone \<and> (\<exists>x. ans = AnsRaise x) \<and> stream_free ad' sid \<and> others_same sid ad ad'"
  using assms
  by (auto simp: stream_fault_def stream_free_def release_stream_def adapter_simps split: if_splits option.splits)

lemma stream_read_end:
  "stream_read py cap rd st = (GotEnd result, rd', st', rs) \<Longrightarrow>
   rd_next_seq rd' = rd_next_seq rd \<and> rd_id rd' = rd_id rd"
proof (induction py cap rd st arbitrary: rd' st' rs rule: stream_read.induct)
  case (1 py cap rd st)
  note step = "1.prems" [unfolded stream_read.simps [of py cap rd st]]
  obtain frame st1 where frame: "client_read_frame py cap (rd_deadline rd) st = (Inr frame, st1)"
    using step by (auto split: if_splits prod.splits sum.splits)
  show ?case
  proof (cases "is_progress_notification frame")
    case True
    then show ?thesis
      using step frame "1.IH" [OF _ frame [symmetric] refl True refl]
      by (fastforce simp: Let_def split: if_splits prod.splits sum.splits)
  next
    case False
    then show ?thesis
      using step frame by (auto split: if_splits prod.splits sum.splits)
  qed
qed

text \<open>One pull of a running stream: a function and a reader that moved on by one, or the end.\<close>

lemma stream_continue_cases:
  assumes "stream_continue py env sid now rd ad = (ans, ad', g)"
  shows "(\<exists>fn rd'. ans = AnsYield fn \<and> g = GenRunning rd' \<and> rd_id rd' = rd_id rd \<and>
      rd_chunk_count rd' = Suc (rd_chunk_count rd) \<and> rd_chunk_count rd' \<le> MAX_STREAM_CHUNKS \<and>
      rd_next_seq rd' = Suc (rd_next_seq rd)) \<and> others_same sid ad ad' \<or>
    g = GenDone \<and> stream_free ad' sid \<and> others_same sid ad ad' \<and>
    ((\<exists>t n. ans = AnsStop (Some t) \<and> term_total t = Some n \<and> int (rd_next_seq rd) \<le> n \<and>
        n \<le> max (int (rd_next_seq rd)) (int MAX_STREAM_CHUNKS)) \<or> (\<exists>x. ans = AnsRaise x))"
proof (cases "\<exists>sess c. session_of ad sid = Some sess \<and> rs_sock sess = Some c \<and>
    active_stream_id sess = Some (rd_id rd)")
  case False
  then have "stream_continue py env sid now rd ad =
      stream_fault env sid (rd_id rd) (if rd_deadline rd - now \<le> 0 then PyTimeoutError else PyOSError) ad"
    by (auto simp: stream_continue_def split: option.splits)
  with assms show ?thesis
    using stream_fault_effect [of env sid "rd_id rd" _ ad ans ad' g] by (auto simp: kills_def)
next
  case True
  then obtain sess c where s: "session_of ad sid = Some sess" "rs_sock sess = Some c"
    "active_stream_id sess = Some (rd_id rd)" by blast
  obtain ev rd' st relays where r: "stream_read py (ad_max_response_bytes ad) rd (now, conn_feed c) =
      (ev, rd', st, relays)" by (metis prod_cases4)
  let ?ad1 = "set_session sid (sess\<lparr>rs_sock := Some (c\<lparr>conn_feed := snd st\<rparr>)\<rparr>) ad"
  show ?thesis
  proof (cases ev)
    case (GotChunk fn)
    with r have "rd_chunk_count rd' = Suc (rd_chunk_count rd) \<and> rd_chunk_count rd' \<le> MAX_STREAM_CHUNKS \<and>
        rd_next_seq rd' = Suc (rd_next_seq rd) \<and> rd_id rd' = rd_id rd"
      using stream_read_chunk by blast
    with assms s r GotChunk show ?thesis
      by (auto simp: stream_continue_def adapter_simps)
  next
    case (GotEnd result)
    have "rd_next_seq rd' = rd_next_seq rd" using stream_read_end r GotEnd by blast
    with assms s r GotEnd show ?thesis
      by (auto simp: stream_continue_def adapter_simps stream_free_def release_stream_def
          stream_terminal_def Let_def)
  next
    case (GotFault e)
    then have "stream_fault env sid (rd_id rd) e ?ad1 = (ans, ad', g)"
      using assms s r by (simp add: stream_continue_def)
    then have "g = GenDone \<and> (\<exists>x. ans = AnsRaise x) \<and> stream_free ad' sid \<and> others_same sid ?ad1 ad'"
      by (rule stream_fault_effect) (simp add: adapter_simps s)
    moreover have "others_same sid ad ?ad1" by (simp add: adapter_simps)
    ultimately show ?thesis using others_same_trans by blast
  qed
qed

lemma stream_continue_elim:
  assumes "stream_continue py env sid now rd ad = (ans, ad', g)"
  obtains (more) fn rd' where "ans = AnsYield fn" "g = GenRunning rd'"
      "rd_chunk_count rd' = Suc (rd_chunk_count rd)" "rd_chunk_count rd' \<le> MAX_STREAM_CHUNKS"
      "rd_next_seq rd' = Suc (rd_next_seq rd)" "others_same sid ad ad'"
    | (over) "g = GenDone" "stream_free ad' sid" "others_same sid ad ad'"
      "(\<exists>t n. ans = AnsStop (Some t) \<and> term_total t = Some n \<and> int (rd_next_seq rd) \<le> n \<and>
        n \<le> max (int (rd_next_seq rd)) (int MAX_STREAM_CHUNKS)) \<or> (\<exists>x. ans = AnsRaise x)"
  using stream_continue_cases [OF assms] by blast

text \<open>How pulling to the end leaves things: \<open>n\<close> functions were delivered before.\<close>

definition run_ended ::
  "pystr \<Rightarrow> nat \<Rightarrow> adapter \<Rightarrow> DecompiledFunction list \<Rightarrow> answer \<Rightarrow> adapter \<Rightarrow> bool" where
  "run_ended sid n ad fns ans ad' \<longleftrightarrow>
     n + length fns \<le> MAX_STREAM_CHUNKS \<and> stream_free ad' sid \<and> others_same sid ad ad' \<and>
     ((\<exists>t m. ans = AnsStop (Some t) \<and> term_total t = Some m \<and> int (n + length fns) \<le> m \<and>
         m \<le> int MAX_STREAM_CHUNKS) \<or> (\<exists>x. ans = AnsRaise x))"

lemma stream_run_running:
  assumes "stream_run py env sid a clock k (ad, GenRunning rd) = (fns, ans, ad')"
    and "rd_chunk_count rd = rd_next_seq rd" "rd_next_seq rd \<le> MAX_STREAM_CHUNKS"
  shows "run_ended sid (rd_next_seq rd) ad fns ans ad'"
  using assms
proof (induction "MAX_STREAM_CHUNKS - rd_next_seq rd" arbitrary: k ad rd fns rule: less_induct)
  case less
  obtain ans1 ad1 g1 where c: "stream_continue py env sid (clock k) rd ad = (ans1, ad1, g1)"
    by (metis prod_cases3)
  then have nxt: "stream_next py env sid a (clock k) (ad, GenRunning rd) = (ans1, ad1, g1)"
    by (simp add: stream_next_def)
  from c show ?case
  proof (cases rule: stream_continue_elim)
    case (more fn rd')
    note rd' = more
    obtain fns1 where fns: "fns = fn # fns1"
      and run: "stream_run py env sid a clock (Suc k) (ad1, GenRunning rd') = (fns1, ans, ad')"
      using less.prems(1) nxt rd'(1,2)
      by (subst (asm) stream_run.simps) (auto split: prod.splits)
    have "run_ended sid (rd_next_seq rd') ad1 fns1 ans ad'"
      using run rd' less.prems by (intro less.hyps) simp_all
    then show ?thesis
      using rd'(5) others_same_trans [OF rd'(6)] by (auto simp: run_ended_def fns)
  next
    case over
    then show ?thesis
      using less.prems nxt by (subst (asm) stream_run.simps) (auto simp: run_ended_def)
  qed
qed

lemma stream_begin_cases:
  assumes "stream_begin py env sid a ad = (ans, ad', g)" "stream_free ad sid"
  shows "(\<exists>x. ans = AnsRaise x) \<and> g = GenDone \<and> stream_free ad' sid \<and> others_same sid ad ad' \<or>
    (\<exists>now deadline ad1. stream_continue py env sid now (new_reader (env_request_id env) deadline) ad1 =
       (ans, ad', g) \<and> others_same sid ad ad1)"
proof (cases "session_of ad sid")
  case None
  with assms show ?thesis by (auto simp: stream_begin_def Let_def)
next
  case (Some sess)
  then have active: "active_stream_id sess = None" using assms(2) by (simp add: stream_free_def)
  define rid deadline where "rid = env_request_id env" and "deadline = env_start env + ad_analysis_timeout_s ad"
  have fault: "(\<exists>x. ans = AnsRaise x) \<and> g = GenDone \<and> stream_free ad' sid \<and> others_same sid ad ad'"
    if "stream_fault env sid rid e ad1 = (ans, ad', g)" "kills e" "others_same sid ad ad1" for e ad1
    using stream_fault_effect [OF that(1)] that(2,3) others_same_trans by blast
  note step = assms(1) [unfolded stream_begin_def, folded rid_def deadline_def, unfolded Let_def Some]
  show ?thesis
  proof (cases "encode_frame py (build_request rid (ascii ''start_decompile_stream'') (stream_start_params a))
      (ad_max_response_bytes ad)")
    case (Inl e)
    with step assms(2) show ?thesis by auto
  next
    case (Inr frame)
    obtain r1 now where con: "ensure_connected ad env deadline sess = (r1, now)" by (metis prod.exhaust)
    show ?thesis
    proof (cases r1)
      case (Inl e)
      then have "kills e" using ensure_connected_faults con by (fastforce simp: kills_def)
      with step Inr con Inl active fault [of e ad] show ?thesis by simp
    next
      case (Inr c)
      obtain r2 now' where snd: "send_all_with_timeout (env_send env) frame deadline now c = (r2, now')"
        by (metis prod.exhaust)
      show ?thesis
      proof (cases r2)
        case (Inl e)
        then have "kills e" using snd by (auto simp: send_all_with_timeout_def kills_def split: send_outcome.splits)
        with step \<open>encode_frame _ _ _ = _\<close> con Inr snd Inl active fault show ?thesis
          by (simp add: adapter_simps)
      next
        case (Inr c')
        with step \<open>encode_frame _ _ _ = _\<close> con \<open>r1 = _\<close> snd active
        have "stream_continue py env sid now' (new_reader (env_request_id env) deadline)
            (set_session sid (sess\<lparr>rs_sock := Some c', active_stream_id := Some rid\<rparr>) ad) = (ans, ad', g)"
          by (simp add: rid_def)
        then show ?thesis using others_same_updates(1) others_same_refl by blast
      qed
    qed
  qed
qed


definition sample_stream :: bytes where
  "sample_stream =
     frame_of [(VERSION_KEY, VERSION), (METHOD_KEY, PyStr CHUNK_METHOD), (PARAMS_KEY, PyDict
       [(ID_KEY, PyStr (ascii ''r1'')), (ascii ''seq'', PyInt 0), (ascii ''kind'', PyStr (ascii ''function'')),
        (ascii ''payload'', PyDict [(ascii ''address'', PyStr (ascii ''401000'')), (ascii ''name'', PyStr (ascii ''f'')),
           (ascii ''c_code'', PyStr (ascii ''int f;'')), (ascii ''signature'', PyStr (ascii ''int f''))])])] @
     frame_of [(VERSION_KEY, VERSION), (ID_KEY, PyStr (ascii ''r1'')),
       (RESULT_KEY, PyDict [(ascii ''total'', PyInt 99999), (ascii ''truncated'', PyBool False)])]"


end
