(* ===== verification/Worker.thy ===== *)
theory Worker
  imports Wire Worker_Errors
begin

text \<open>
  The worker's dispatcher and socket loop (\<open>worker/dispatch.py\<close>), with the decompile stream of its
  backend (\<open>_jvm_bridge.py\<close>). The rest of the backend, which talks to Ghidra, is a parameter: a
  handler per method, the functions of the program, their decompilation. What the outside decides is
  an argument: the script of what the server sends, whether the socket is readable at each poll,
  which sends fail.
\<close>

subsection \<open>Codes and methods\<close>

definition SLUG_BY_CODE :: "(int, string) dict" where
  "SLUG_BY_CODE =
     [(CODE_INVALID_REQUEST, ''invalid-request''), (CODE_METHOD_NOT_FOUND, ''method-not-found''),
      (CODE_INVALID_PARAMS, ''invalid-params''), (CODE_NOT_FOUND, ''not-found''),
      (CODE_LIMIT_EXCEEDED, ''limit-exceeded''), (CODE_ANALYSIS_FAILED, ''analysis-failed''),
      (CODE_INTERNAL, ''internal-error'')]"

definition RPC_METHODS :: "string list" where
  "RPC_METHODS =
     [''import_binary'', ''analyze'', ''decompile_function'', ''disassemble'', ''get_pcode'',
      ''get_high_pcode'', ''data_flow_slice'', ''recover_struct'', ''deobfuscate_strings'',
      ''stack_frame'', ''basic_blocks'', ''list_data_types'', ''function_hash'',
      ''program_fingerprint'', ''crypto_instructions'', ''bsim_similarity'',
      ''find_similar_functions'', ''version_track'', ''binary_diff'', ''bsim_search_corpus'',
      ''list_functions'', ''get_function'', ''xrefs_to'', ''xrefs_from'', ''list_strings'',
      ''list_symbols'', ''get_symbol'', ''list_data'', ''get_data_type'', ''get_comments'',
      ''memory_map'', ''read_bytes'', ''emulate'', ''demangle'', ''search_bytes'',
      ''search_strings'', ''program_metadata'', ''call_graph'', ''referenced_strings'',
      ''function_cfg'', ''imports'', ''exports'', ''coverage'', ''identify_functions'',
      ''rename_function'', ''rename_symbol'', ''set_comment'', ''undo'',
      ''rename_local_variable'', ''rename_parameter'', ''set_function_signature'',
      ''apply_data_type'', ''apply_type_archive'', ''define_struct'', ''define_union'',
      ''define_types'', ''delete_type'', ''export_annotations'', ''start_decompile_stream'',
      ''ping'', ''shutdown'']"

definition is_rpc_method :: "pystr \<Rightarrow> bool" where
  "is_rpc_method m \<longleftrightarrow> m \<in> set (map ascii RPC_METHODS)"

subsection \<open>The connection and the backend\<close>

datatype poll = NotReadable | Readable | SelectError

record wconn =
  w_feed :: feed
  w_out :: "bytes list"
  w_polls :: "poll list"
  w_sends :: "bool list"

text \<open>\<open>sendall\<close>: the script says which sends fail; without an entry a send succeeds.\<close>

definition worker_send :: "bytes \<Rightarrow> wconn \<Rightarrow> (rpc_exc + unit) \<times> wconn" where
  "worker_send frame c =
     (if take 1 (w_sends c) = [False] then (Inl PyOSError, c\<lparr>w_sends := drop 1 (w_sends c)\<rparr>)
      else (Inr (), c\<lparr>w_out := w_out c @ [frame], w_sends := drop 1 (w_sends c)\<rparr>))"

text \<open>What a handler may raise: a \<open>WorkerError\<close>, an exception of the wire, anything else by class name.\<close>

datatype handler_exc = HWorkerError int pystr "pystr option" | HWire rpc_exc | HOther string

record 'f backend =
  be_has :: "pystr \<Rightarrow> bool"
  be_handler :: "pystr \<Rightarrow> message \<Rightarrow> handler_exc + message"
  be_analyze :: "message \<Rightarrow> (real \<times> int option \<times> pystr) list \<times> (handler_exc + message)"
  be_program :: "handler_exc option"
  be_functions :: "'f list"
  be_resolve :: "pystr \<Rightarrow> 'f option"
  be_decompile_one :: "'f \<Rightarrow> handler_exc + message"

subsection \<open>Emitters and the cancel poll\<close>

abbreviation WORKER_MIN_PROGRESS_INTERVAL_S :: real where
  "WORKER_MIN_PROGRESS_INTERVAL_S \<equiv> 1 / 4"

text \<open>\<open>emit_progress\<close>: \<open>ValueError\<close>, \<open>FramingError\<close> and \<open>OSError\<close> are swallowed.\<close>

definition emit_progress ::
  "interpreter \<Rightarrow> nat \<Rightarrow> pystr \<Rightarrow> real \<times> int option \<times> pystr \<Rightarrow> real option \<times> wconn \<Rightarrow>
   (rpc_exc + unit) \<times> real option \<times> wconn" where
  "emit_progress py cap rid ev s =
     (case (ev, s) of ((now, pc, ph), (last_emit, c)) \<Rightarrow>
        if (case last_emit of None \<Rightarrow> False | Some t \<Rightarrow> now - t < WORKER_MIN_PROGRESS_INTERVAL_S)
        then (Inr (), last_emit, c)
        else
          (case chain (build_progress rid pc ph) (\<lambda>m. encode_frame py m cap) of
             Inl PyRecursionError \<Rightarrow> (Inl PyRecursionError, last_emit, c)
           | Inl e \<Rightarrow> (Inr (), last_emit, c)
           | Inr frame \<Rightarrow>
               (case worker_send frame c of
                  (Inl e, c') \<Rightarrow> (Inr (), last_emit, c')
                | (Inr _, c') \<Rightarrow> (Inr (), Some now, c'))))"

fun emit_all_progress ::
  "interpreter \<Rightarrow> nat \<Rightarrow> pystr \<Rightarrow> (real \<times> int option \<times> pystr) list \<Rightarrow> real option \<times> wconn \<Rightarrow>
   (rpc_exc + unit) \<times> real option \<times> wconn" where
  "emit_all_progress py cap rid [] s = (Inr (), s)"
| "emit_all_progress py cap rid (ev # evs) s =
     (case emit_progress py cap rid ev s of
        (Inl e, s') \<Rightarrow> (Inl e, s')
      | (Inr _, s') \<Rightarrow> emit_all_progress py cap rid evs s')"

definition emit_chunk ::
  "interpreter \<Rightarrow> nat \<Rightarrow> pystr \<Rightarrow> int \<Rightarrow> pystr \<Rightarrow> message \<Rightarrow> wconn \<Rightarrow> (rpc_exc + unit) \<times> wconn" where
  "emit_chunk py cap rid sq kd pl c =
     (case chain (build_chunk rid sq kd pl) (\<lambda>m. encode_frame py m cap) of
        Inl e \<Rightarrow> (Inl e, c)
      | Inr frame \<Rightarrow> worker_send frame c)"

text \<open>Where the script of polls ends, the socket is not readable.\<close>

definition poll_cancel ::
  "interpreter \<Rightarrow> nat \<Rightarrow> pystr \<Rightarrow> bool \<times> wconn \<Rightarrow> (rpc_exc + bool) \<times> bool \<times> wconn" where
  "poll_cancel py cap rid s =
     (case s of (cancelled, c) \<Rightarrow>
        if cancelled then (Inr True, s)
        else
          let c1 = c\<lparr>w_polls := drop 1 (w_polls c)\<rparr> in
          if take 1 (w_polls c) = [SelectError]
          then (Inl (FramingError ''cancel poll: socket select failed''), False, c1)
          else if take 1 (w_polls c) \<noteq> [Readable] then (Inr False, False, c1)
          else
            (case worker_read_frame py cap (w_feed c) of
               (Inl e, f) \<Rightarrow> (Inl e, False, c1\<lparr>w_feed := f\<rparr>)
             | (Inr frame, f) \<Rightarrow>
                 if \<not> is_cancel_notification frame
                 then (Inl (RpcProtocolError ''unexpected non-$/cancel frame on the streaming socket''),
                       False, c1\<lparr>w_feed := f\<rparr>)
                 else
                   (case parse_cancel frame rid of
                      Inl e \<Rightarrow> (Inl e, False, c1\<lparr>w_feed := f\<rparr>)
                    | Inr cid \<Rightarrow> (Inr (cid = rid), cid = rid, c1\<lparr>w_feed := f\<rparr>))))"

subsection \<open>The decompile stream of the backend\<close>

definition py_int_of :: "interpreter \<Rightarrow> pyval \<Rightarrow> handler_exc + int" where
  "py_int_of py v =
     (case py_int py v of
        Some i \<Rightarrow> Inr i
      | None \<Rightarrow> Inl (HOther (if is_str v then ''ValueError'' else ''TypeError'')))"

definition get_default :: "message \<Rightarrow> string \<Rightarrow> pyval \<Rightarrow> pyval" where
  "get_default d k v = (case dict_get d (ascii k) of None \<Rightarrow> v | Some x \<Rightarrow> x)"

abbreviation MAX_RESULT_COUNT :: int where "MAX_RESULT_COUNT \<equiv> 10000"

definition clamp_count :: "int \<Rightarrow> int" where
  "clamp_count v = max 1 (min v MAX_RESULT_COUNT)"

definition stream_target_functions ::
  "'f backend \<Rightarrow> pystr list option \<Rightarrow> int \<Rightarrow> int \<Rightarrow> 'f list \<times> bool" where
  "stream_target_functions be names offset limit =
     (case names of
        Some ns \<Rightarrow> (List.map_filter (be_resolve be) ns, False)
      | None \<Rightarrow>
          (py_slice (be_functions be) offset (offset + limit),
           offset + limit < int (length (be_functions be))))"

definition terminal_summary :: "nat \<Rightarrow> bool \<Rightarrow> message" where
  "terminal_summary n truncated =
     [(ascii ''total'', PyInt (int n)), (ascii ''truncated'', PyBool truncated),
      (ascii ''done'', PyBool True)]"

fun decompile_loop ::
  "interpreter \<Rightarrow> nat \<Rightarrow> 'f backend \<Rightarrow> pystr \<Rightarrow> bool \<Rightarrow> nat \<Rightarrow> 'f list \<Rightarrow> bool \<times> wconn \<Rightarrow>
   (handler_exc + message) \<times> wconn" where
  "decompile_loop py cap be rid truncated sq [] s = (Inr (terminal_summary sq truncated), snd s)"
| "decompile_loop py cap be rid truncated sq (func # funcs) s =
     (case poll_cancel py cap rid s of
        (Inl e, s') \<Rightarrow> (Inl (HWire e), snd s')
      | (Inr True, s') \<Rightarrow> (Inr (terminal_summary sq False), snd s')
      | (Inr False, cancelled, c) \<Rightarrow>
          (case be_decompile_one be func of
             Inl e \<Rightarrow> (Inl e, c)
           | Inr pl \<Rightarrow>
               (case emit_chunk py cap rid (int sq) (ascii ''function'') pl c of
                  (Inl e, c') \<Rightarrow> (Inl (HWire e), c')
                | (Inr _, c') \<Rightarrow>
                    decompile_loop py cap be rid truncated (Suc sq) funcs (cancelled, c'))))"

definition backend_decompile_stream ::
  "interpreter \<Rightarrow> nat \<Rightarrow> 'f backend \<Rightarrow> pystr \<Rightarrow> message \<Rightarrow> wconn \<Rightarrow> (handler_exc + message) \<times> wconn" where
  "backend_decompile_stream py cap be rid params c =
     (let names = (case py_get params (ascii ''functions'') of
                     PyList fs \<Rightarrow> Some (map (py_str py) fs) | _ \<Rightarrow> None) in
      case chain (py_int_of py (get_default params ''offset'' (PyInt 0))) (\<lambda>off.
             chain (py_int_of py (get_default params ''limit'' (PyInt 100))) (\<lambda>l.
               Inr (max 0 off, clamp_count l))) of
        Inl e \<Rightarrow> (Inl e, c)
      | Inr (offset, limit) \<Rightarrow>
          (case be_program be of
             Some e \<Rightarrow> (Inl e, c)
           | None \<Rightarrow>
               (case stream_target_functions be names offset limit of
                  (funcs, truncated) \<Rightarrow> decompile_loop py cap be rid truncated 0 funcs (False, c))))"

subsection \<open>Dispatch\<close>

definition progress_opted_in :: "message \<Rightarrow> bool" where
  "progress_opted_in params \<longleftrightarrow> py_get params (ascii ''progress'') = PyBool True"

definition dispatch ::
  "interpreter \<Rightarrow> nat \<Rightarrow> 'f backend \<Rightarrow> pystr \<Rightarrow> pystr \<Rightarrow> message \<Rightarrow> wconn \<Rightarrow> (handler_exc + message) \<times> wconn" where
  "dispatch py cap be rid meth params c =
     (if meth = ascii ''ping'' then (Inr [(ascii ''ok'', PyBool True)], c)
      else if meth = ascii ''shutdown'' then (Inr [(ascii ''ok'', PyBool True)], c)
      else if \<not> be_has be meth
      then (Inl (HWorkerError CODE_METHOD_NOT_FOUND (ascii ''method not implemented'') None), c)
      else if meth = ascii ''analyze'' \<and> progress_opted_in params then
        (case be_analyze be params of
           (evs, r) \<Rightarrow>
             (case emit_all_progress py cap rid evs (None, c) of
                (Inl e, _, c') \<Rightarrow> (Inl (HWire e), c')
              | (Inr _, _, c') \<Rightarrow> (r, c')))
      else if meth = ascii ''start_decompile_stream'' then backend_decompile_stream py cap be rid params c
      else (be_handler be meth params, c))"

definition build_response :: "pyval \<Rightarrow> message \<Rightarrow> message" where
  "build_response request_id result =
     [(VERSION_KEY, VERSION), (ID_KEY, request_id), (RESULT_KEY, PyDict result)]"

definition redacted_detail :: "string \<Rightarrow> pystr" where
  "redacted_detail cls = ascii cls @ ascii '': unhandled worker exception''"

definition build_error :: "pyval \<Rightarrow> int \<Rightarrow> pystr \<Rightarrow> pystr option \<Rightarrow> message" where
  "build_error request_id code message det =
     (let slug = (case dict_get SLUG_BY_CODE code of None \<Rightarrow> ''internal-error'' | Some s \<Rightarrow> s);
          data = (ascii ''type'', PyStr (ascii slug)) #
                 (case det of None \<Rightarrow> [] | Some d \<Rightarrow> [(ascii ''detail'', PyStr d)])
      in [(VERSION_KEY, VERSION), (ID_KEY, request_id),
          (ERROR_KEY, PyDict [(ascii ''code'', PyInt code), (ascii ''message'', PyStr message),
             (ascii ''data'', PyDict data)])])"

text \<open>The class name of an exception of the wire; a subclass of \<open>OSError\<close> is named by its base.\<close>

definition exc_class :: "rpc_exc \<Rightarrow> string" where
  "exc_class e = (case e of
     PyValueError n \<Rightarrow> n | PyRecursionError \<Rightarrow> ''RecursionError'' | PyTimeoutError \<Rightarrow> ''TimeoutError''
   | RpcCallError _ \<Rightarrow> ''RpcCallError'' | Raised _ \<Rightarrow> ''GhidraMcpError'' | _ \<Rightarrow> ''OSError'')"

text \<open>\<open>Inl\<close>: a framing, protocol or end-of-file exception that leaves the function.\<close>

definition handle_request ::
  "interpreter \<Rightarrow> nat \<Rightarrow> 'f backend \<Rightarrow> message \<Rightarrow> wconn \<Rightarrow> (rpc_exc + message) \<times> wconn" where
  "handle_request py cap be obj c =
     (let request_id = py_get obj ID_KEY in
      case request_id of
        PyStr rid \<Rightarrow>
          if py_get obj VERSION_KEY \<noteq> VERSION
          then (Inr (build_error request_id CODE_INVALID_REQUEST (ascii ''invalid request envelope'') None), c)
          else
            (case py_get obj METHOD_KEY of
               PyStr meth \<Rightarrow>
                 if \<not> is_rpc_method meth
                 then (Inr (build_error request_id CODE_METHOD_NOT_FOUND (ascii ''unknown method'') None), c)
                 else
                   (case get_default obj ''params'' (PyDict []) of
                      PyDict params \<Rightarrow>
                        (case dispatch py cap be rid meth params c of
                           (Inr result, c') \<Rightarrow> (Inr (build_response request_id result), c')
                         | (Inl (HWorkerError code msg det), c') \<Rightarrow>
                             (Inr (build_error request_id code msg det), c')
                         | (Inl (HWire e), c') \<Rightarrow>
                             (case e of
                                FramingError _ \<Rightarrow> (Inl e, c')
                              | RpcProtocolError _ \<Rightarrow> (Inl e, c')
                              | PyEOFError \<Rightarrow> (Inl e, c')
                              | _ \<Rightarrow> (Inr (build_error request_id CODE_INTERNAL (ascii ''internal worker error'')
                                       (Some (redacted_detail (exc_class e)))), c'))
                         | (Inl (HOther cls), c') \<Rightarrow>
                             (Inr (build_error request_id CODE_INTERNAL (ascii ''internal worker error'')
                                     (Some (redacted_detail cls))), c'))
                    | _ \<Rightarrow>
                        (Inr (build_error request_id CODE_INVALID_PARAMS
                                (ascii ''params must be an object'') None), c))
             | _ \<Rightarrow> (Inr (build_error request_id CODE_METHOD_NOT_FOUND (ascii ''unknown method'') None), c))
      | _ \<Rightarrow>
          (Inr (build_error request_id CODE_INVALID_REQUEST (ascii ''invalid request envelope'') None), c))"

definition is_shutdown :: "message \<Rightarrow> bool" where
  "is_shutdown obj \<longleftrightarrow> py_get obj METHOD_KEY = PyStr (ascii ''shutdown'')"

subsection \<open>The loop\<close>

text \<open>How serving ends: the function returns, or an exception it does not catch leaves it.\<close>

datatype serve_end = Returned | Crashed rpc_exc

definition serve_caught :: "rpc_exc \<Rightarrow> bool" where
  "serve_caught e = (case e of
     FramingError _ \<Rightarrow> True | RpcProtocolError _ \<Rightarrow> True | PyEOFError \<Rightarrow> True | PyOSError \<Rightarrow> True | _ \<Rightarrow> False)"

text \<open>One turn: \<open>Inr\<close> when the loop goes on.\<close>

definition serve_step :: "interpreter \<Rightarrow> nat \<Rightarrow> 'f backend \<Rightarrow> wconn \<Rightarrow> (serve_end + unit) \<times> wconn" where
  "serve_step py cap be c =
     (case worker_read_frame py cap (w_feed c) of
        (Inl e, f) \<Rightarrow> (Inl (if serve_caught e then Returned else Crashed e), c\<lparr>w_feed := f\<rparr>)
      | (Inr obj, f) \<Rightarrow>
          (case handle_request py cap be obj (c\<lparr>w_feed := f\<rparr>) of
             (Inl e, c1) \<Rightarrow> (Inl Returned, c1)
           | (Inr response, c1) \<Rightarrow>
               (case encode_frame py response cap of
                  Inl e \<Rightarrow> (Inl (if serve_caught e then Returned else Crashed e), c1)
                | Inr frame \<Rightarrow>
                    (case worker_send frame c1 of
                       (Inl e, c2) \<Rightarrow> (Inl Returned, c2)
                     | (Inr _, c2) \<Rightarrow> (if is_shutdown obj then Inl Returned else Inr (), c2)))))"

subsection \<open>Serving always ends\<close>

abbreviation w_volume :: "wconn \<Rightarrow> nat" where
  "w_volume c \<equiv> feed_volume (w_feed c)"

lemma worker_send_feed: "worker_send frame c = (r, c') \<Longrightarrow> w_feed c' = w_feed c"
  by (auto simp: worker_send_def split: if_splits)

lemma emit_progress_feed: "emit_progress py cap rid ev s = (r, l, c') \<Longrightarrow> w_feed c' = w_feed (snd s)"
  by (auto simp: emit_progress_def dest!: worker_send_feed
      split: prod.splits if_splits sum.splits rpc_exc.splits)

lemma emit_all_progress_feed:
  "emit_all_progress py cap rid evs s = (r, l, c') \<Longrightarrow> w_feed c' = w_feed (snd s)"
proof (induction evs arbitrary: s)
  case (Cons ev evs)
  obtain r1 l1 c1 where e: "emit_progress py cap rid ev s = (r1, l1, c1)" by (metis prod_cases3)
  then have "w_feed c1 = w_feed (snd s)" by (rule emit_progress_feed)
  with Cons e show ?case by (cases r1) fastforce+
qed simp

lemma emit_chunk_feed: "emit_chunk py cap rid sq kd pl c = (r, c') \<Longrightarrow> w_feed c' = w_feed c"
  by (auto simp: emit_chunk_def dest!: worker_send_feed split: sum.splits)

lemma poll_cancel_volume:
  "poll_cancel py cap rid s = (r, b, c') \<Longrightarrow> w_volume c' \<le> w_volume (snd s)"
  by (auto simp: poll_cancel_def Let_def dest!: worker_frame_volume
      split: prod.splits if_splits sum.splits)

lemma decompile_loop_volume:
  "decompile_loop py cap be rid truncated sq funcs s = (r, c') \<Longrightarrow> w_volume c' \<le> w_volume (snd s)"
proof (induction funcs arbitrary: sq s)
  case (Cons func funcs)
  obtain p b c1 where p: "poll_cancel py cap rid s = (p, b, c1)" by (metis prod_cases3)
  then have v: "w_volume c1 \<le> w_volume (snd s)" by (rule poll_cancel_volume)
  show ?case
  proof (cases "\<exists>pl. p = Inr False \<and> be_decompile_one be func = Inr pl")
    case True
    then obtain pl where pl: "p = Inr False" "be_decompile_one be func = Inr pl" by blast
    obtain r2 c2 where e: "emit_chunk py cap rid (int sq) (ascii ''function'') pl c1 = (r2, c2)"
      by (metis prod.exhaust)
    then have f: "w_feed c2 = w_feed c1" by (rule emit_chunk_feed)
    show ?thesis
    proof (cases r2)
      case (Inl x)
      with Cons.prems p pl e f v show ?thesis by simp
    next
      case (Inr x)
      then have "w_volume c' \<le> w_volume c2" using Cons.IH [of "Suc sq" "(b, c2)"] Cons.prems p pl e by simp
      with v f show ?thesis by simp
    qed
  next
    case False
    with Cons.prems p v show ?thesis by (auto split: sum.splits bool.splits)
  qed
qed auto

lemma backend_decompile_stream_volume:
  "backend_decompile_stream py cap be rid params c = (r, c') \<Longrightarrow> w_volume c' \<le> w_volume c"
  by (auto simp: backend_decompile_stream_def Let_def dest!: decompile_loop_volume
      split: sum.splits option.splits prod.splits)

lemma dispatch_volume: "dispatch py cap be rid meth params c = (r, c') \<Longrightarrow> w_volume c' \<le> w_volume c"
  by (auto simp: dispatch_def dest!: emit_all_progress_feed backend_decompile_stream_volume
      split: if_splits prod.splits sum.splits)

lemma handle_request_volume: "handle_request py cap be obj c = (r, c') \<Longrightarrow> w_volume c' \<le> w_volume c"
  unfolding handle_request_def Let_def
  by (auto dest!: dispatch_volume
      split: pyval.splits if_splits prod.splits sum.splits handler_exc.splits rpc_exc.splits)

lemma serve_step_volume: "serve_step py cap be c = (Inr u, c') \<Longrightarrow> w_volume c' < w_volume c"
  by (fastforce simp: serve_step_def dest!: worker_frame_volume handle_request_volume worker_send_feed
      split: prod.splits sum.splits if_splits)

function serve_connection :: "interpreter \<Rightarrow> nat \<Rightarrow> 'f backend \<Rightarrow> wconn \<Rightarrow> serve_end \<times> wconn" where
  "serve_connection py cap be c =
     (case serve_step py cap be c of
        (Inl e, c') \<Rightarrow> (e, c')
      | (Inr _, c') \<Rightarrow> serve_connection py cap be c')"
  by pat_completeness auto
termination
  by (relation "measure (\<lambda>(_, _, _, c). w_volume c)") (auto dest!: sym serve_step_volume)

declare serve_connection.simps [simp del]

end
