(* ===== verification/Rpc_End_To_End.thy ===== *)
theory Rpc_End_To_End
  imports Rpc_Client_Props Worker
begin

text \<open>
  The two ends of the worker connection together: what the worker's dispatcher answers is what the
  server's call returns, however the bytes are cut into segments; a decompile stream arrives whole
  and in order; and what happens to a cancel that arrives after its stream has ended.
\<close>

subsection \<open>Replies\<close>

lemma parse_build_response: "parse_response (build_response (PyStr rid) result) rid = Inr result"
  by (simp add: parse_response_def build_response_def wire_simps)

definition reply_error :: "int \<Rightarrow> pystr \<Rightarrow> pystr option \<Rightarrow> RpcError" where
  "reply_error code msg det =
     \<lparr> rpc_code = code, rpc_message = take 512 msg,
       rpc_type_slug = Some (ascii (case dict_get SLUG_BY_CODE code of None \<Rightarrow> ''internal-error'' | Some s \<Rightarrow> s)),
       rpc_detail = map_option (take MAX_DETAIL_CHARS) det \<rparr>"

lemma parse_build_error:
  "parse_response (build_error (PyStr rid) code msg det) rid = Inl (RpcCallError (reply_error code msg det))"
  by (cases det)
     (simp_all add: parse_response_def build_error_def Let_def parse_error_def reply_error_def wire_simps)

lemma parse_foreign_error:
  "i \<noteq> PyStr rid \<Longrightarrow> parse_response (build_error i code msg det) rid =
     Inl (RpcProtocolError ''response id does not correlate to request'')"
  by (simp add: parse_response_def build_error_def Let_def wire_simps)

lemma wire_response [wire_simps]:
  "wire_value (PyDict (build_response (PyStr rid) result)) = wire_value (PyDict result)"
  by (simp add: build_response_def)

lemma wire_error [wire_simps]: "wire_value i \<Longrightarrow> wire_value (PyDict (build_error i code msg det))"
  by (cases det) (simp_all add: build_error_def Let_def)

text \<open>
  The reply to a request, by what dispatching it gave: \<open>None\<close> where the connection is closed
  instead. The error of each kind of exception is the one the dispatcher builds.
\<close>

definition reply_of :: "pystr \<Rightarrow> handler_exc + message \<Rightarrow> message option" where
  "reply_of rid out = (case out of
     Inr result \<Rightarrow> Some (build_response (PyStr rid) result)
   | Inl (HWorkerError code msg det) \<Rightarrow> Some (build_error (PyStr rid) code msg det)
   | Inl (HOther cls) \<Rightarrow>
       Some (build_error (PyStr rid) CODE_INTERNAL (ascii ''internal worker error'') (Some (redacted_detail cls)))
   | Inl (HWire e) \<Rightarrow>
       (case e of
          FramingError _ \<Rightarrow> None | RpcProtocolError _ \<Rightarrow> None | PyEOFError \<Rightarrow> None
        | _ \<Rightarrow> Some (build_error (PyStr rid) CODE_INTERNAL (ascii ''internal worker error'')
              (Some (redacted_detail (exc_class e))))))"

lemma handle_built_request:
  assumes "is_rpc_method meth" "dispatch py cap be rid meth params c = (out, c')"
  shows "handle_request py cap be (build_request rid meth params) c =
    (case reply_of rid out of
       Some m \<Rightarrow> (Inr m, c')
     | None \<Rightarrow> (case out of Inl (HWire e) \<Rightarrow> (Inl e, c') | _ \<Rightarrow> (Inl PyEOFError, c')))"
  using assms
  by (auto simp: handle_request_def build_request_def Let_def get_default_def reply_of_def wire_simps
      split: sum.splits handler_exc.splits rpc_exc.splits)

lemma handle_unknown_method:
  assumes "\<not> is_rpc_method meth"
  shows "handle_request py cap be (build_request rid meth params) c =
    (Inr (build_error (PyStr rid) CODE_METHOD_NOT_FOUND (ascii ''unknown method'') None), c)"
  using assms by (simp add: handle_request_def build_request_def wire_simps)

text \<open>One turn of the loop on a request that has arrived whole.\<close>

lemma serve_request:
  assumes enc: "encode_frame py obj cap = Inr frame" "wire_value (PyDict obj)"
    and fed: "feed_pending (w_feed c) = frame @ later"
    and handled: "\<And>f. handle_request py cap be obj (c\<lparr>w_feed := f\<rparr>) = (Inr m, c\<lparr>w_feed := f\<rparr>)"
    and reply: "encode_frame py m cap = Inr reply" "w_sends c = []"
    and step: "serve_step py cap be c = (u, c')"
  shows "w_out c' = w_out c @ [reply]" "feed_pending (w_feed c') = later" "w_sends c' = []"
    "u = (if is_shutdown obj then Inl Returned else Inr ())"
proof -
  obtain f where f: "worker_read_frame py cap (w_feed c) = (Inr obj, f)" "feed_pending f = later"
    by (rule worker_frame_pending [OF enc fed])
  with handled [of f] reply step
  show "w_out c' = w_out c @ [reply]" "feed_pending (w_feed c') = later" "w_sends c' = []"
    "u = (if is_shutdown obj then Inl Returned else Inr ())"
    by (auto simp: serve_step_def worker_send_def)
qed

subsection \<open>The server's side of one exchange\<close>

text \<open>A session that can take a call, and the bytes that will arrive before the deadline.\<close>

definition ready_session :: "adapter \<Rightarrow> call_env \<Rightarrow> pystr \<Rightarrow> conn \<Rightarrow> bool" where
  "ready_session ad env sid k \<longleftrightarrow>
     (\<exists>sess. session_of ad sid = Some sess \<and> active_stream_id sess = None \<and> rs_sock sess = Some k) \<and>
     env_lock_free env \<and> (\<exists>t. env_send env = SendDone t)"

definition sent_at :: "call_env \<Rightarrow> real" where
  "sent_at env = (case env_send env of SendDone t \<Rightarrow> max (env_start env) t | _ \<Rightarrow> env_start env)"

lemma call_reads_reply:
  assumes ready: "ready_session ad env sid k"
    and enc: "encode_frame py (build_request (env_request_id env) meth params) (ad_max_response_bytes ad) = Inr frame"
    and reply: "encode_frame py m (ad_max_response_bytes ad) = Inr reply" "wire_value (PyDict m)"
    and arrives: "client_pending (env_start env + timeout_s) (sent_at env, conn_feed k) = reply @ later"
  obtains ad' where "call_rpc py env sid meth params timeout_s False ad =
    (map_sum (public_error ''operation exceeded its time limit'' (ad_worker_mem_mib ad) (env_oom env)) id
       (parse_response m (env_request_id env)), ad', [])"
    and "(\<exists>e. parse_response m (env_request_id env) = Inl e \<and> kills e) \<longleftrightarrow> session_of ad' sid = None"
proof -
  obtain sess t where s: "session_of ad sid = Some sess" "active_stream_id sess = None" "rs_sock sess = Some k"
    "env_lock_free env" "env_send env = SendDone t" using ready by (auto simp: ready_session_def)
  obtain st where st: "client_read_frame py (ad_max_response_bytes ad) (env_start env + timeout_s)
      (max (env_start env) t, conn_feed k) = (Inr m, st)"
    using client_frame_pending [OF reply] arrives s(5) by (metis sent_at_def send_outcome.case(1))
  let ?ex = "exchange py ad env frame (env_start env + timeout_s) False sess"
  obtain sess' where ex: "?ex = (parse_response m (env_request_id env), sess', [])"
    using s st by (simp add: exchange_def ensure_connected_def send_all_with_timeout_def)
  show thesis
  proof (cases "parse_response m (env_request_id env)")
    case (Inl e)
    then show thesis
      using s enc ex by (intro that) (auto simp: call_rpc_def adapter_simps split: if_splits)
  next
    case (Inr r)
    then show thesis
      using s enc ex by (intro that) (auto simp: call_rpc_def adapter_simps)
  qed
qed

subsection \<open>A sample worker\<close>

definition sample_backend :: "nat backend" where
  "sample_backend = \<lparr> be_has = (\<lambda>_. True),
     be_handler = (\<lambda>meth params. if meth = ascii ''exports'' then Inr [(ascii ''n'', PyInt 7)]
        else Inl (HWorkerError CODE_NOT_FOUND (ascii ''no such thing'') (Some (ascii ''secret'')))),
     be_analyze = (\<lambda>_. ([], Inr [])), be_program = None, be_functions = [1, 2, 3],
     be_resolve = (\<lambda>n. Some (length n)),
     be_decompile_one = (\<lambda>n. Inr [(ascii ''address'', PyStr (ascii ''401000'')), (ascii ''name'', PyStr [48 + n]),
        (ascii ''c_code'', PyStr (ascii ''int f;'')), (ascii ''signature'', PyStr (ascii ''int f''))]) \<rparr>"

definition sample_worker :: "message \<Rightarrow> wconn" where
  "sample_worker m = \<lparr> w_feed = two_segments 7 (frame_of m), w_out = [], w_polls = [], w_sends = [] \<rparr>"

definition sample_served :: "message \<Rightarrow> wconn" where
  "sample_served m = snd (serve_step sample_py 1000 sample_backend (sample_worker m))"

text \<open>What the worker wrote, as it arrives at the server.\<close>

definition sample_replies :: "message \<Rightarrow> feed" where
  "sample_replies m = two_segments 3 (concat (w_out (sample_served m)))"

subsection \<open>Calls, end to end\<close>

text \<open>The requests that are answered by one frame: all but a stream and an analysis with progress.\<close>

definition plain_request :: "pystr \<Rightarrow> message \<Rightarrow> bool" where
  "plain_request meth params \<longleftrightarrow>
     meth \<noteq> ascii ''start_decompile_stream'' \<and> \<not> (meth = ascii ''analyze'' \<and> progress_opted_in params)"

lemma dispatch_plain:
  assumes "plain_request meth params"
  shows "dispatch py cap be rid meth params c = (fst (dispatch py cap be rid meth params c0), c)"
  using assms by (auto simp: dispatch_def plain_request_def)

text \<open>What the client gets for each outcome of a handler that is answered.\<close>

definition client_view :: "handler_exc + message \<Rightarrow> rpc_exc + message" where
  "client_view out = (case out of
     Inr result \<Rightarrow> Inr result
   | Inl (HWorkerError code msg det) \<Rightarrow>
       Inl (Raised (worker_method_error_from code (rpc_type_slug (reply_error code msg det)) None))
   | Inl _ \<Rightarrow> Inl (Raised (worker_method_error INTERNAL None)))"

lemma client_view_reply:
  assumes "reply_of rid out = Some m"
  shows "map_sum (public_error tmsg mem oom) id (parse_response m rid) = client_view out \<and>
    \<not> (\<exists>e. parse_response m rid = Inl e \<and> kills e)"
proof -
  have internal: "worker_method_error_from CODE_INTERNAL (rpc_type_slug (reply_error CODE_INTERNAL msg det)) None =
      worker_method_error INTERNAL None" for msg det
    by (simp add: worker_method_error_from_def reply_error_def CODE_INTERNAL_def SLUG_BY_CODE_def
        CODE_INVALID_REQUEST_def CODE_METHOD_NOT_FOUND_def CODE_INVALID_PARAMS_def CODE_NOT_FOUND_def
        CODE_LIMIT_EXCEEDED_def CODE_ANALYSIS_FAILED_def map_worker_slug_def WORKER_SLUG_TO_TYPE_def)
  have code: "rpc_code (reply_error code msg det) = code" for code msg det
    by (simp add: reply_error_def)
  show ?thesis
    using assms internal
    by (auto simp: reply_of_def client_view_def parse_build_response parse_build_error public_error_def
        kills_def code split: sum.splits handler_exc.splits rpc_exc.splits if_splits)
qed

text \<open>
  C10: A call returns what the worker's handler returned. If the request arrives whole at the worker's
  loop and the frames the worker writes arrive at the server before the deadline, cut into segments
  of any size, then the call's outcome is the outcome of dispatching the method: the result object
  unchanged, or the public error of the handler's code and of nothing else, and the worker stays.
\<close>

theorem call_end_to_end:
  assumes ready: "ready_session ad env sid k" "ad_max_response_bytes ad = cap"
    and request: "is_rpc_method meth" "plain_request meth params" "wire_value (PyDict params)"
      "encode_frame py (build_request (env_request_id env) meth params) cap = Inr frame"
    and worker: "feed_pending (w_feed c) = frame @ later" "w_sends c = []" "serve_step py cap be c = (u, c')"
    and outcome: "out = fst (dispatch py cap be (env_request_id env) meth params c)"
      "reply_of (env_request_id env) out = Some m" "wire_value (PyDict m)" "encode_frame py m cap = Inr reply"
    and arrives: "client_pending (env_start env + timeout_s) (sent_at env, conn_feed k) =
      concat (drop (length (w_out c)) (w_out c')) @ extra"
  shows "\<exists>ad'. call_rpc py env sid meth params timeout_s False ad = (client_view out, ad', []) \<and>
    session_of ad' sid \<noteq> None"
proof -
  let ?obj = "build_request (env_request_id env) meth params"
  have disp: "dispatch py cap be (env_request_id env) meth params (c\<lparr>w_feed := f\<rparr>) = (out, c\<lparr>w_feed := f\<rparr>)" for f
    using dispatch_plain [OF request(2), of py cap be "env_request_id env" "c\<lparr>w_feed := f\<rparr>" c]
    by (simp add: outcome(1))
  have handled: "handle_request py cap be ?obj (c\<lparr>w_feed := f\<rparr>) = (Inr m, c\<lparr>w_feed := f\<rparr>)" for f
    using handle_built_request [OF request(1) disp] by (simp add: outcome(2))
  have "wire_value (PyDict ?obj)" using request(3) by (simp only: wire_request)
  from serve_request(1) [OF request(4) this worker(1) handled outcome(4) worker(2,3)]
  have "concat (drop (length (w_out c)) (w_out c')) = reply" by simp
  with arrives have arr: "client_pending (env_start env + timeout_s) (sent_at env, conn_feed k) = reply @ extra"
    by simp
  obtain ad' where "call_rpc py env sid meth params timeout_s False ad =
      (map_sum (public_error ''operation exceeded its time limit'' (ad_worker_mem_mib ad) (env_oom env)) id
        (parse_response m (env_request_id env)), ad', [])"
    "(\<exists>e. parse_response m (env_request_id env) = Inl e \<and> kills e) \<longleftrightarrow> session_of ad' sid = None"
    by (rule call_reads_reply [OF ready(1) request(4) [folded ready(2)] outcome(4) [folded ready(2)] outcome(3) arr])
  with client_view_reply [OF outcome(2)] show ?thesis by auto
qed

text \<open>A handler that fails with a detail of the machine: the client learns the code's error only.\<close>

theorem call_end_to_end_witness:
  "\<exists>ad'. call_rpc sample_py sample_env (ascii ''s'') (ascii ''get_symbol'') [(ascii ''name'', PyStr (ascii ''T''))] 30 False
     (sample_adapter (sample_replies (build_request (ascii ''r1'') (ascii ''get_symbol'')
        [(ascii ''name'', PyStr (ascii ''T''))]))) =
     (Inl (Raised (worker_method_error NOT_FOUND None)), ad', []) \<and>
   session_of ad' (ascii ''s'') \<noteq> None"
proof -
  let ?params = "[(ascii ''name'', PyStr (ascii ''T''))]"
  let ?req = "build_request (ascii ''r1'') (ascii ''get_symbol'') ?params"
  let ?out = "Inl (HWorkerError CODE_NOT_FOUND (ascii ''no such thing'') (Some (ascii ''secret'')))"
  let ?m = "build_error (PyStr (ascii ''r1'')) CODE_NOT_FOUND (ascii ''no such thing'') (Some (ascii ''secret''))"
  have "\<exists>ad'. call_rpc sample_py sample_env (ascii ''s'') (ascii ''get_symbol'') ?params 30 False
      (sample_adapter (sample_replies ?req)) = (client_view ?out, ad', []) \<and> session_of ad' (ascii ''s'') \<noteq> None"
  proof (rule call_end_to_end [where cap = 1000 and be = sample_backend and c = "sample_worker ?req"
        and c' = "sample_served ?req" and frame = "frame_of ?req" and reply = "frame_of ?m" and m = ?m
        and later = "[]" and extra = "[]"])
    show "ready_session (sample_adapter (sample_replies ?req)) sample_env (ascii ''s'')
        \<lparr> conn_feed = sample_replies ?req, conn_sent = [] \<rparr>"
      by (simp add: ready_session_def sample_adapter_def sample_env_def)
    show "serve_step sample_py 1000 sample_backend (sample_worker ?req) = (Inr (), sample_served ?req)"
      by code_simp
    show "wire_value (PyDict ?m)" by (rule wire_error) simp
  qed (code_simp | simp add: sample_adapter_def)+
  then show ?thesis
    by (simp add: client_view_def reply_error_def worker_method_error_from_def SLUG_BY_CODE_def
        CODE_INVALID_REQUEST_def CODE_METHOD_NOT_FOUND_def CODE_INVALID_PARAMS_def CODE_NOT_FOUND_def
        map_worker_slug_def WORKER_SLUG_TO_TYPE_def)
qed

text \<open>
  The tools \<open>ramdisk_list\<close> and \<open>list_cache_components\<close> can never succeed. Their methods are
  missing from the worker's allow-list, so whatever the backend implements, the worker answers the
  request with method-not-found without consulting it, and the client gets the not-found error that
  tells it to rebuild the worker image.
\<close>

theorem listing_tools_unreachable:
  assumes ready: "ready_session ad env sid k" "ad_max_response_bytes ad = cap"
    and meth: "meth \<in> {ascii ''ramdisk_list'', ascii ''list_cache_components''}"
    and request: "wire_value (PyDict params)"
      "encode_frame py (build_request (env_request_id env) meth params) cap = Inr frame"
    and worker: "feed_pending (w_feed c) = frame @ later" "w_sends c = []" "serve_step py cap be c = (u, c')"
    and fits: "encode_frame py (build_error (PyStr (env_request_id env)) CODE_METHOD_NOT_FOUND
        (ascii ''unknown method'') None) cap = Inr reply"
    and arrives: "client_pending (env_start env + ad_tool_timeout_s ad) (sent_at env, conn_feed k) =
      concat (drop (length (w_out c)) (w_out c')) @ extra"
  shows "\<exists>ad'. tool_call py env sid meth params ad =
    (Inl (Raised (make_error NOT_FOUND method_not_found_detail None)), ad', [])"
proof -
  let ?obj = "build_request (env_request_id env) meth params"
  let ?m = "build_error (PyStr (env_request_id env)) CODE_METHOD_NOT_FOUND (ascii ''unknown method'') None"
  have "\<not> is_rpc_method meth" using meth by (auto simp: is_rpc_method_def RPC_METHODS_def)
  then have handled: "handle_request py cap be ?obj (c\<lparr>w_feed := f\<rparr>) = (Inr ?m, c\<lparr>w_feed := f\<rparr>)" for f
    by (rule handle_unknown_method)
  have "wire_value (PyDict ?obj)" using request(1) by (simp only: wire_request)
  from serve_request(1) [OF request(2) this worker(1) handled fits worker(2,3)]
  have "concat (drop (length (w_out c)) (w_out c')) = reply" by simp
  with arrives have arr: "client_pending (env_start env + ad_tool_timeout_s ad) (sent_at env, conn_feed k) = reply @ extra"
    by simp
  have wire: "wire_value (PyDict ?m)" by (rule wire_error) simp
  obtain ad' where "call_rpc py env sid meth params (ad_tool_timeout_s ad) False ad =
      (map_sum (public_error ''operation exceeded its time limit'' (ad_worker_mem_mib ad) (env_oom env)) id
        (parse_response ?m (env_request_id env)), ad', [])"
    by (rule call_reads_reply [OF ready(1) request(2) [folded ready(2)] fits [folded ready(2)] wire arr])
  then show ?thesis
    by (simp add: tool_call_def parse_build_error public_error_def reply_error_def
        worker_method_error_from_def CODE_METHOD_NOT_FOUND_def)
qed

text \<open>With a worker whose backend implements the listing.\<close>

theorem listing_tools_unreachable_witness:
  "\<exists>ad'. tool_call sample_py sample_env (ascii ''s'') (ascii ''ramdisk_list'') []
     (sample_adapter (sample_replies (build_request (ascii ''r1'') (ascii ''ramdisk_list'') []))) =
     (Inl (Raised (make_error NOT_FOUND method_not_found_detail None)), ad', [])"
proof -
  let ?req = "build_request (ascii ''r1'') (ascii ''ramdisk_list'') []"
  show ?thesis
  proof (rule listing_tools_unreachable [where cap = 1000 and be = sample_backend and c = "sample_worker ?req"
        and c' = "sample_served ?req" and frame = "frame_of ?req" and later = "[]" and extra = "[]"
        and reply = "frame_of (build_error (PyStr (ascii ''r1'')) CODE_METHOD_NOT_FOUND (ascii ''unknown method'') None)"])
    show "ready_session (sample_adapter (sample_replies ?req)) sample_env (ascii ''s'')
        \<lparr> conn_feed = sample_replies ?req, conn_sent = [] \<rparr>"
      by (simp add: ready_session_def sample_adapter_def sample_env_def)
    show "serve_step sample_py 1000 sample_backend (sample_worker ?req) = (Inr (), sample_served ?req)"
      by code_simp
  qed (code_simp | simp add: sample_adapter_def)+
qed

text \<open>
  A cancel that reaches the worker after its stream has ended costs the worker's life. The loop
  treats the notification as a request, and answers it with an error that has no id; no one is
  waiting for that frame, so the next call reads it as its own reply, finds the id does not
  correlate, kills the worker and reports it unavailable, though nothing was wrong with it.
\<close>

theorem late_cancel_kills_worker:
  assumes ready: "ready_session ad env sid k" "ad_max_response_bytes ad = cap"
    and cancel: "encode_frame py (build_cancel old_id) cap = Inr cf"
    and worker: "feed_pending (w_feed c) = cf @ later" "w_sends c = []" "serve_step py cap be c = (u, c')"
    and fits: "encode_frame py (build_error PyNone CODE_INVALID_REQUEST
        (ascii ''invalid request envelope'') None) cap = Inr reply"
      "encode_frame py (build_request (env_request_id env) meth params) cap = Inr frame"
    and arrives: "client_pending (env_start env + timeout_s) (sent_at env, conn_feed k) =
      concat (drop (length (w_out c)) (w_out c')) @ extra"
  shows "u = Inr () \<and>
    (\<exists>ad'. call_rpc py env sid meth params timeout_s False ad =
        (Inl (unavailable ''worker protocol violation''), ad', []) \<and>
      session_of ad' sid = None)"
proof -
  let ?m = "build_error PyNone CODE_INVALID_REQUEST (ascii ''invalid request envelope'') None"
  have handled: "handle_request py cap be (build_cancel old_id) (c\<lparr>w_feed := f\<rparr>) = (Inr ?m, c\<lparr>w_feed := f\<rparr>)" for f
    by (simp add: handle_request_def build_cancel_def wire_simps)
  have "wire_value (PyDict (build_cancel old_id))" by (simp add: build_cancel_def)
  note served = serve_request [OF cancel this worker(1) handled fits(1) worker(2,3)]
  have "u = Inr ()"
    using served(4) by (simp add: is_shutdown_def build_cancel_def CANCEL_METHOD_def wire_simps)
  have arr: "client_pending (env_start env + timeout_s) (sent_at env, conn_feed k) = reply @ extra"
    using arrives served(1) by simp
  have wire: "wire_value (PyDict ?m)" by (rule wire_error) simp
  have "parse_response ?m (env_request_id env) =
      Inl (RpcProtocolError ''response id does not correlate to request'')"
    by (rule parse_foreign_error) simp
  moreover obtain ad' where "call_rpc py env sid meth params timeout_s False ad =
      (map_sum (public_error ''operation exceeded its time limit'' (ad_worker_mem_mib ad) (env_oom env)) id
        (parse_response ?m (env_request_id env)), ad', [])"
    "(\<exists>e. parse_response ?m (env_request_id env) = Inl e \<and> kills e) \<longleftrightarrow> session_of ad' sid = None"
    by (rule call_reads_reply [OF ready(1) fits(2) [folded ready(2)] fits(1) [folded ready(2)] wire arr])
  ultimately show ?thesis using \<open>u = Inr ()\<close> by (simp add: public_error_def kills_def)
qed

text \<open>A cancel for a finished stream, and then a ping.\<close>

theorem late_cancel_kills_worker_witness:
  "\<exists>ad'. call_rpc sample_py sample_env (ascii ''s'') (ascii ''ping'') [] 30 False
     (sample_adapter (sample_replies (build_cancel (ascii ''r0'')))) =
     (Inl (unavailable ''worker protocol violation''), ad', []) \<and>
   session_of ad' (ascii ''s'') = None"
proof -
  let ?req = "build_cancel (ascii ''r0'')"
  have "Inr () = (Inr () :: serve_end + unit) \<and> ?thesis"
  proof (rule late_cancel_kills_worker [where old_id = "ascii ''r0''" and cap = 1000 and be = sample_backend
        and c = "sample_worker ?req" and c' = "sample_served ?req" and cf = "frame_of ?req" and later = "[]" and extra = "[]"
        and reply = "frame_of (build_error PyNone CODE_INVALID_REQUEST (ascii ''invalid request envelope'') None)"
        and frame = "frame_of (build_request (ascii ''r1'') (ascii ''ping'') [])"])
    show "ready_session (sample_adapter (sample_replies ?req)) sample_env (ascii ''s'')
        \<lparr> conn_feed = sample_replies ?req, conn_sent = [] \<rparr>"
      by (simp add: ready_session_def sample_adapter_def sample_env_def)
    show "serve_step sample_py 1000 sample_backend (sample_worker ?req) = (Inr (), sample_served ?req)"
      by code_simp
  qed (code_simp | simp add: sample_adapter_def)+
  then show ?thesis ..
qed

end
