(* ===== verification/Rpc_Stream_Props.thy ===== *)
theory Rpc_Stream_Props
  imports Rpc_End_To_End
begin

text \<open>
  A decompile stream through both ends of the connection: what the worker's loop writes for the
  functions of the request, and that the server's generator delivers exactly those, in order.
\<close>

subsection \<open>What the worker writes\<close>

text \<open>The frames of the chunks from a sequence number on; \<open>None\<close> where one does not fit.\<close>

fun stream_frames :: "interpreter \<Rightarrow> nat \<Rightarrow> pystr \<Rightarrow> nat \<Rightarrow> message list \<Rightarrow> bytes list option" where
  "stream_frames py cap rid sq [] = Some []"
| "stream_frames py cap rid sq (pl # pls) =
     (case chain (build_chunk rid (int sq) (ascii ''function'') pl) (\<lambda>m. encode_frame py m cap) of
        Inl e \<Rightarrow> None
      | Inr f \<Rightarrow> map_option (Cons f) (stream_frames py cap rid (Suc sq) pls))"

lemma decompile_loop_frames:
  assumes "list_all2 (\<lambda>f pl. be_decompile_one be f = Inr pl) funcs pls"
    and "stream_frames py cap rid sq pls = Some fs" "w_polls c = []" "w_sends c = []"
  shows "decompile_loop py cap be rid tr sq funcs (False, c) =
    (Inr (terminal_summary (sq + length funcs) tr), c\<lparr>w_out := w_out c @ fs\<rparr>)"
  using assms
proof (induction funcs pls arbitrary: sq c fs rule: list_all2_induct)
  case (Cons f funcs pl pls)
  from Cons.prems(1) obtain g gs where
    g: "chain (build_chunk rid (int sq) (ascii ''function'') pl) (\<lambda>m. encode_frame py m cap) = Inr g"
    and gs: "stream_frames py cap rid (Suc sq) pls = Some gs" "fs = g # gs"
    by (auto split: sum.splits)
  let ?c = "c\<lparr>w_out := w_out c @ [g]\<rparr>"
  have "decompile_loop py cap be rid tr (Suc sq) funcs (False, ?c) =
      (Inr (terminal_summary (Suc sq + length funcs) tr), ?c\<lparr>w_out := w_out ?c @ gs\<rparr>)"
    by (rule Cons.IH) (use gs Cons.prems in simp_all)
  moreover have "emit_chunk py cap rid (int sq) (ascii ''function'') pl c = (Inr (), ?c)"
    unfolding emit_chunk_def g using Cons.prems(3) by (cases c) (simp add: worker_send_def)
  moreover have "poll_cancel py cap rid (False, c) = (Inr False, False, c)"
    using Cons.prems(2) by (cases c) (simp add: poll_cancel_def Let_def)
  ultimately show ?case using Cons.hyps(1) gs(2) by simp
qed simp

subsection \<open>What the server reads\<close>

lemma chunk_vocabulary: "ascii ''function'' \<in> set CHUNK_KINDS"
  by (simp add: CHUNK_KINDS_def)

lemma build_chunk_function:
  "build_chunk rid (int sq) (ascii ''function'') pl =
     Inr [(VERSION_KEY, VERSION), (METHOD_KEY, PyStr CHUNK_METHOD),
        (PARAMS_KEY, PyDict [(ID_KEY, PyStr rid), (ascii ''seq'', PyInt (int sq)),
           (ascii ''kind'', PyStr (ascii ''function'')), (ascii ''payload'', PyDict pl)])]"
  by (simp add: build_chunk_def chunk_vocabulary)

lemma chunk_message:
  assumes "build_chunk rid (int sq) (ascii ''function'') pl = Inr m"
  shows "parse_chunk m rid = Inr \<lparr> chunk_id = rid, chunk_seq = int sq, chunk_kind = ascii ''function'',
      chunk_payload = pl \<rparr>"
    and "is_chunk_notification m" "\<not> is_progress_notification m"
    and "wire_value (PyDict m) = wire_value (PyDict pl)"
proof -
  have "(case (int sq, ascii ''function'', pl) of (sq, kd, pl) \<Rightarrow> build_chunk rid sq kd pl) = Inr m"
    using assms by simp
  from chunk_note.parse_build [OF this] chunk_note.built_is_note [OF this]
  show "parse_chunk m rid = Inr \<lparr> chunk_id = rid, chunk_seq = int sq, chunk_kind = ascii ''function'',
      chunk_payload = pl \<rparr>" and is_note: "is_chunk_notification m" by simp_all
  show "\<not> is_progress_notification m"
    using is_note methods_distinct(1) by (auto simp: is_chunk_notification_def is_progress_notification_def)
  show "wire_value (PyDict m) = wire_value (PyDict pl)"
    using assms by (fastforce simp: build_chunk_function)
qed

lemma read_chunk_frame:
  assumes "build_chunk (rd_id rd) (int (rd_next_seq rd)) (ascii ''function'') pl = Inr m"
    and "encode_frame py m cap = Inr frame" "wire_value (PyDict pl)" "build_decompiled py pl = Inr fn"
    and "client_pending (rd_deadline rd) st = frame @ rest" "fst st < rd_deadline rd"
    and "rd_chunk_count rd < MAX_STREAM_CHUNKS"
  obtains st' where "stream_read py cap rd st =
      (GotChunk fn, rd\<lparr>rd_chunk_count := rd_chunk_count rd + 1, rd_next_seq := rd_next_seq rd + 1\<rparr>, st', [])"
    and "client_pending (rd_deadline rd) st' = rest"
proof -
  note m = chunk_message [OF assms(1)]
  obtain st' where st': "client_read_frame py cap (rd_deadline rd) st = (Inr m, st')"
    "client_pending (rd_deadline rd) st' = rest"
    using client_frame_pending [OF assms(2) _ assms(5)] assms(3) m(4) by metis
  have "take_chunk py m rd =
      (Inr fn, rd\<lparr>rd_chunk_count := rd_chunk_count rd + 1, rd_next_seq := rd_next_seq rd + 1\<rparr>)"
    using assms(4,7) m(1) by (simp add: take_chunk_def Let_def)
  with st' m(2,3) assms(6) that show thesis by (simp add: stream_read.simps [of py cap rd st])
qed

lemma read_end_frame:
  assumes "encode_frame py (build_response (PyStr (rd_id rd)) result) cap = Inr frame" "wire_value (PyDict result)"
    and "client_pending (rd_deadline rd) st = frame @ rest" "fst st < rd_deadline rd"
  obtains st' where "stream_read py cap rd st = (GotEnd result, rd, st', [])"
proof -
  let ?m = "build_response (PyStr (rd_id rd)) result"
  have r: "parse_response ?m (rd_id rd) = Inr result" by (rule parse_build_response)
  then have "\<not> is_progress_notification ?m" "\<not> is_chunk_notification ?m"
    using progress_note.response_not_note chunk_note.response_not_note by blast+
  moreover obtain st' where "client_read_frame py cap (rd_deadline rd) st = (Inr ?m, st')"
    using client_frame_pending [OF assms(1) _ assms(3)] assms(2) wire_response by metis
  ultimately show thesis using r assms(4) that by (simp add: stream_read.simps [of py cap rd st])
qed

subsection \<open>Pulling\<close>

text \<open>A stream that is running on a connected session.\<close>

definition streaming :: "adapter \<Rightarrow> pystr \<Rightarrow> stream_reader \<Rightarrow> conn \<Rightarrow> bool" where
  "streaming ad sid rd k \<longleftrightarrow>
     (\<exists>sess. session_of ad sid = Some sess \<and> rs_sock sess = Some k \<and> active_stream_id sess = Some (rd_id rd))"

lemma continue_chunk:
  assumes "streaming ad sid rd k"
    and "stream_read py (ad_max_response_bytes ad) rd (now, conn_feed k) = (GotChunk fn, rd', st, rs)"
    and "rd_id rd' = rd_id rd"
  obtains ad' where "stream_continue py env sid now rd ad = (AnsYield fn, ad', GenRunning rd')"
    and "streaming ad' sid rd' (k\<lparr>conn_feed := snd st\<rparr>)" "ad_max_response_bytes ad' = ad_max_response_bytes ad"
  using assms by (fastforce simp: streaming_def stream_continue_def adapter_simps)

lemma continue_end:
  assumes "streaming ad sid rd k"
    and "stream_read py (ad_max_response_bytes ad) rd (now, conn_feed k) = (GotEnd result, rd, st, rs)"
  obtains ad' where "stream_continue py env sid now rd ad =
      (AnsStop (Some (stream_terminal py result (rd_next_seq rd))), ad', GenDone)"
  using assms by (fastforce simp: streaming_def stream_continue_def)

text \<open>
  The whole of a stream: the frames of the payloads, then the terminal response. The first pull
  happens at \<open>now\<close>, which the generator knows from the send; the others at the times of the clock.
\<close>

definition run_from ::
  "interpreter \<Rightarrow> call_env \<Rightarrow> pystr \<Rightarrow> DecompileStreamIn \<Rightarrow> (nat \<Rightarrow> real) \<Rightarrow> nat \<Rightarrow> answer \<times> adapter \<times> gen \<Rightarrow>
   DecompiledFunction list \<times> answer \<times> adapter" where
  "run_from py env sid a clock i s =
     (case s of
        (AnsYield fn, ad', g') \<Rightarrow>
          (case stream_run py env sid a clock (Suc i) (ad', g') of
             (fns, end_answer, ad'') \<Rightarrow> (fn # fns, end_answer, ad''))
      | (ans, ad', g') \<Rightarrow> ([], ans, ad'))"

lemma stream_run_unfold:
  "stream_run py env sid a clock i (ad, GenRunning rd) =
     run_from py env sid a clock i (stream_continue py env sid (clock i) rd ad)"
  "stream_run py env sid a clock i (ad, GenNew) =
     run_from py env sid a clock i (stream_begin py env sid a ad)"
  by (subst stream_run.simps, simp add: run_from_def stream_next_def)+

lemma prompt_client_pending:
  "client_pending deadline (now, evs) = bs \<Longrightarrow> bs \<noteq> [] \<Longrightarrow> now' < deadline \<Longrightarrow>
   client_pending deadline (now', evs) = bs"
  by (auto simp: client_pending_def split: if_splits)

lemma run_delivers:
  assumes "streaming ad sid rd k" "ad_max_response_bytes ad = cap"
    and "stream_frames py cap (rd_id rd) (rd_next_seq rd) pls = Some fs"
    and "list_all2 (\<lambda>pl fn. wire_value (PyDict pl) \<and> build_decompiled py pl = Inr fn) pls fns"
    and "encode_frame py (build_response (PyStr (rd_id rd)) result) cap = Inr last_frame" "wire_value (PyDict result)"
    and "client_pending (rd_deadline rd) (now, conn_feed k) = concat fs @ last_frame @ extra"
    and "now < rd_deadline rd" "\<forall>j. clock j < rd_deadline rd"
    and "rd_chunk_count rd + length pls \<le> MAX_STREAM_CHUNKS"
  shows "\<exists>ad'. run_from py env sid a clock i (stream_continue py env sid now rd ad) =
    (fns, AnsStop (Some (stream_terminal py result (rd_next_seq rd + length pls))), ad')"
  using assms
proof (induction pls arbitrary: ad rd k fs fns now i)
  case Nil
  then have pend: "client_pending (rd_deadline rd) (now, conn_feed k) = last_frame @ extra" by simp
  obtain st where "stream_read py cap rd (now, conn_feed k) = (GotEnd result, rd, st, [])"
    using read_end_frame [OF Nil.prems(5,6) pend] Nil.prems(8) by auto
  then obtain ad' where "stream_continue py env sid now rd ad =
      (AnsStop (Some (stream_terminal py result (rd_next_seq rd))), ad', GenDone)"
    using continue_end [OF Nil.prems(1)] Nil.prems(2) by metis
  with Nil.prems(4) show ?case by (simp add: run_from_def)
next
  case (Cons pl pls)
  then obtain fn fns' where fns: "fns = fn # fns'" "wire_value (PyDict pl)" "build_decompiled py pl = Inr fn"
    "list_all2 (\<lambda>pl fn. wire_value (PyDict pl) \<and> build_decompiled py pl = Inr fn) pls fns'"
    by (cases fns) auto
  obtain m g gs where m: "build_chunk (rd_id rd) (int (rd_next_seq rd)) (ascii ''function'') pl = Inr m"
    "encode_frame py m cap = Inr g" and gs: "stream_frames py cap (rd_id rd) (Suc (rd_next_seq rd)) pls = Some gs"
    "fs = g # gs"
    using Cons.prems(3) by (auto split: sum.splits)
  let ?rd = "rd\<lparr>rd_chunk_count := rd_chunk_count rd + 1, rd_next_seq := rd_next_seq rd + 1\<rparr>"
  let ?rest = "concat gs @ last_frame @ extra"
  have pend: "client_pending (rd_deadline rd) (now, conn_feed k) = g @ ?rest"
    using Cons.prems(7) by (simp add: gs(2))
  have room: "rd_chunk_count rd < MAX_STREAM_CHUNKS" using Cons.prems(10) by simp
  obtain st where st: "stream_read py cap rd (now, conn_feed k) = (GotChunk fn, ?rd, st, [])"
    "client_pending (rd_deadline rd) st = ?rest"
    using read_chunk_frame [OF m fns(2,3) pend _ room] Cons.prems(8) by auto
  obtain ad1 where ad1: "stream_continue py env sid now rd ad = (AnsYield fn, ad1, GenRunning ?rd)"
    "streaming ad1 sid ?rd (k\<lparr>conn_feed := snd st\<rparr>)" "ad_max_response_bytes ad1 = cap"
    using continue_chunk [OF Cons.prems(1), of py now fn ?rd st "[]" env] st(1) Cons.prems(2) by auto
  have "last_frame \<noteq> []"
    using frame_roundtrip [OF Cons.prems(5)] Cons.prems(6) wire_response by (metis append_is_Nil_conv)
  then have "client_pending (rd_deadline rd) (clock (Suc i), snd st) = ?rest"
    using prompt_client_pending [of "rd_deadline rd" "fst st" "snd st"] st(2) Cons.prems(9) by simp
  then have "\<exists>ad'. run_from py env sid a clock (Suc i) (stream_continue py env sid (clock (Suc i)) ?rd ad1) =
      (fns', AnsStop (Some (stream_terminal py result (rd_next_seq ?rd + length pls))), ad')"
    using gs(1) fns(4) Cons.prems(5,6,9,10)
    by (intro Cons.IH [OF ad1(2,3)]) (simp_all del: wire_value.simps)
  then show ?case
    by (auto simp: ad1(1) run_from_def [of _ _ _ _ _ _ "(AnsYield _, _)"] stream_run_unfold fns(1))
qed

subsection \<open>Streams, end to end\<close>

lemma wire_start_params: "wire_value (PyDict (stream_start_params a))"
  by (auto simp: stream_start_params_def split: option.splits)

lemma wire_summary: "wire_value (PyDict (terminal_summary n tr))"
  by (simp add: terminal_summary_def)

lemma stream_terminal_summary:
  "n \<le> MAX_STREAM_CHUNKS \<Longrightarrow>
   stream_terminal py (terminal_summary n tr) n = \<lparr> term_total = Some (int n), term_truncated = tr \<rparr>"
  by (simp add: stream_terminal_def terminal_summary_def Let_def py_int_def)

lemma backend_start_params:
  "backend_decompile_stream py cap be rid (stream_start_params a) c =
     (case be_program be of
        Some e \<Rightarrow> (Inl e, c)
      | None \<Rightarrow>
          (case stream_target_functions be (ds_functions a) (max 0 (ds_offset a)) (clamp_count (ds_limit a)) of
             (funcs, tr) \<Rightarrow> decompile_loop py cap be rid tr 0 funcs (False, c)))"
proof -
  have names: "map (py_str py \<circ> PyStr) fs = fs" for fs
    by (induction fs) (simp_all add: py_str_def)
  show ?thesis
    by (cases "ds_functions a"; cases "be_program be")
       (simp_all add: backend_decompile_stream_def stream_start_params_def Let_def get_default_def
        py_int_of_def py_int_def wire_simps names)
qed


text \<open>Two of the three functions of the sample program, each reply cut into two segments.\<close>

definition sample_window :: DecompileStreamIn where
  "sample_window = \<lparr> ds_functions = None, ds_offset = 0, ds_limit = 2 \<rparr>"

definition sample_payload :: "nat \<Rightarrow> message" where
  "sample_payload n = (case be_decompile_one sample_backend n of Inr pl \<Rightarrow> pl | Inl _ \<Rightarrow> [])"

definition sample_function :: "nat \<Rightarrow> DecompiledFunction" where
  "sample_function n = (case build_decompiled sample_py (sample_payload n) of Inr fn \<Rightarrow> fn)"


end
