(* ===== verification/Auth.thy ===== *)
theory Auth
  imports Py_Codec Pyval
begin

text \<open>
  The authentication strategies of the HTTP shell (\<open>server/auth.py\<close>): principals and their
  capabilities, the five authenticators and their construction. The checks of a JSON web token
  (signature, issuer, audience, times) belong to a library: what it returns for a token is an
  argument, \<open>None\<close> where it raises.
\<close>

subsection \<open>Constants\<close>

definition BEARER_PREFIX :: pystr where "BEARER_PREFIX = ascii ''bearer ''"

abbreviation MIN_BEARER_TOKEN_LEN :: nat where "MIN_BEARER_TOKEN_LEN \<equiv> 16"
abbreviation MAX_PRINCIPAL_ID_LEN :: nat where "MAX_PRINCIPAL_ID_LEN \<equiv> 256"

definition MTLS_PRINCIPAL_FIELDS :: "string list" where
  "MTLS_PRINCIPAL_FIELDS = [''cn'', ''san-dns'', ''san-uri'', ''san-email'', ''dn'']"

definition SAN_FIELD_TAGS :: "(string, string) dict" where
  "SAN_FIELD_TAGS = [(''san-dns'', ''DNS''), (''san-uri'', ''URI''), (''san-email'', ''email'')]"

definition OAUTH_ALLOWED_ALGORITHMS :: "string list" where
  "OAUTH_ALLOWED_ALGORITHMS =
     [''RS256'', ''RS384'', ''RS512'', ''ES256'', ''ES384'', ''ES512'', ''PS256'', ''PS384'', ''PS512'', ''EdDSA'']"

definition CAP_READ :: string where "CAP_READ = ''read''"
definition CAP_WRITE :: string where "CAP_WRITE = ''write''"

definition ALL_CAPABILITIES :: "string set" where
  "ALL_CAPABILITIES = {CAP_READ, CAP_WRITE}"

subsection \<open>Strings\<close>

text \<open>
  \<open>str.lower\<close> on the characters that can become one of \<open>bearer\<close>; no other character has one of
  these letters as its lower case.
\<close>

definition lower_char :: "nat \<Rightarrow> nat" where
  "lower_char c = (if 65 \<le> c \<and> c \<le> 90 then c + 32 else c)"

definition py_isascii :: "pystr \<Rightarrow> bool" where
  "py_isascii s \<longleftrightarrow> list_all (\<lambda>c. c < 128) s"

text \<open>\<open>str.split()\<close>: the words between runs of white space.\<close>

fun split_words :: "pystr \<Rightarrow> pystr \<Rightarrow> pystr list" where
  "split_words acc [] = (if acc = [] then [] else [acc])"
| "split_words acc (c # cs) =
     (if py_space c then (if acc = [] then split_words [] cs else acc # split_words [] cs)
      else split_words (acc @ [c]) cs)"

definition py_split :: "pystr \<Rightarrow> pystr list" where
  "py_split s = split_words [] s"

text \<open>\<open>hmac.compare_digest\<close> on two strings raises \<open>TypeError\<close> unless both are ASCII.\<close>

definition compare_digest :: "pystr \<Rightarrow> pystr \<Rightarrow> bool option" where
  "compare_digest a b = (if py_isascii a \<and> py_isascii b then Some (a = b) else None)"

definition valid_principal_id :: "pystr \<Rightarrow> bool" where
  "valid_principal_id value \<longleftrightarrow>
     value \<noteq> [] \<and> length value \<le> MAX_PRINCIPAL_ID_LEN \<and> \<not> list_ex (\<lambda>c. c < 0x20 \<or> c = 0x7F) value"

subsection \<open>Principals and contexts\<close>

record Principal =
  principal_id :: pystr
  capabilities :: "string set"

abbreviation full_principal :: "pystr \<Rightarrow> Principal" where
  "full_principal i \<equiv> \<lparr> principal_id = i, capabilities = ALL_CAPABILITIES \<rparr>"

record AuthContext =
  authorization :: "pystr option"
  peer_certificate :: pyval
  ctx_headers :: "(pystr, pystr) dict"

definition token_scopes :: "(pystr, pyval) dict \<Rightarrow> pystr list" where
  "token_scopes claims =
     (case py_get claims (ascii ''scope'') of PyStr s \<Rightarrow> py_split s | _ \<Rightarrow> []) @
     (case py_get claims (ascii ''scp'') of
        PyStr s \<Rightarrow> py_split s
      | PyList vs \<Rightarrow> List.map_filter (\<lambda>v. case v of PyStr s \<Rightarrow> Some s | _ \<Rightarrow> None) vs
      | _ \<Rightarrow> [])"

subsection \<open>Certificates\<close>

text \<open>A tuple and a list are told apart nowhere; a pair is a sequence of length two.\<close>

definition cn_pair :: "pyval \<Rightarrow> pystr option" where
  "cn_pair p = (case p of
     PyList [k, PyStr v] \<Rightarrow> if k = PyStr (ascii ''commonName'') then Some v else None
   | _ \<Rightarrow> None)"

definition first_some :: "('a \<Rightarrow> 'b option) \<Rightarrow> 'a list \<Rightarrow> 'b option" where
  "first_some f xs = (case List.map_filter f xs of [] \<Rightarrow> None | y # _ \<Rightarrow> Some y)"

definition cn_from_subject :: "pyval \<Rightarrow> pystr option" where
  "cn_from_subject subject = (case subject of
     PyList rdns \<Rightarrow>
       first_some (\<lambda>rdn. case rdn of PyList pairs \<Rightarrow> first_some cn_pair pairs | _ \<Rightarrow> None) rdns
   | _ \<Rightarrow> None)"

definition dn_part :: "pyval \<Rightarrow> pystr option" where
  "dn_part p = (case p of PyList [PyStr k, PyStr v] \<Rightarrow> Some (k @ ascii ''='' @ v) | _ \<Rightarrow> None)"

fun join_commas :: "pystr list \<Rightarrow> pystr" where
  "join_commas [] = []"
| "join_commas [s] = s"
| "join_commas (s # t # ss) = s @ ascii '','' @ join_commas (t # ss)"

definition dn_from_subject :: "pyval \<Rightarrow> pystr option" where
  "dn_from_subject subject = (case subject of
     PyList rdns \<Rightarrow>
       (let parts = concat (map (\<lambda>rdn. case rdn of
              PyList pairs \<Rightarrow> List.map_filter dn_part pairs | _ \<Rightarrow> []) rdns)
        in if parts = [] then None else Some (join_commas parts))
   | _ \<Rightarrow> None)"

definition first_san :: "pyval \<Rightarrow> string \<Rightarrow> pystr option" where
  "first_san san tag = (case san of
     PyList pairs \<Rightarrow>
       first_some (\<lambda>p. case p of
         PyList [k, PyStr v] \<Rightarrow> if k = PyStr (ascii tag) then Some v else None | _ \<Rightarrow> None) pairs
   | _ \<Rightarrow> None)"

subsection \<open>The authenticators\<close>

record OAuthResource =
  oauth_principal_claim :: pystr
  oauth_algorithms :: "string list"
  oauth_write_scope :: "pystr option"

datatype authenticator =
    BearerAuthenticator pystr
  | MultiTokenBearerAuthenticator "(pystr, pystr) dict"
  | NullAuthenticator
  | MtlsAuthenticator string
  | ReverseProxyMtlsAuthenticator pystr pystr pystr
  | OAuthResourceAuthenticator OAuthResource

text \<open>The token after the scheme, which is compared without case; \<open>None\<close> without that scheme.\<close>

definition bearer_token :: "AuthContext \<Rightarrow> pystr option" where
  "bearer_token ctx = (case authorization ctx of
     None \<Rightarrow> None
   | Some header \<Rightarrow>
       if map lower_char (take (length BEARER_PREFIX) header) \<noteq> BEARER_PREFIX then None
       else Some (py_strip (drop (length BEARER_PREFIX) header)))"

text \<open>Every configured token is compared, and a match is remembered; \<open>None\<close> is a \<open>TypeError\<close>.\<close>

fun scan_tokens :: "pystr \<Rightarrow> (pystr, pystr) dict \<Rightarrow> pystr option \<Rightarrow> pystr option option" where
  "scan_tokens presented [] matched = Some matched"
| "scan_tokens presented ((token, pid) # rest) matched =
     (case compare_digest presented token of
        None \<Rightarrow> None
      | Some eq \<Rightarrow> scan_tokens presented rest (if eq then Some pid else matched))"

definition capabilities_from_claims :: "OAuthResource \<Rightarrow> (pystr, pyval) dict \<Rightarrow> string set" where
  "capabilities_from_claims cfg claims = (case oauth_write_scope cfg of
     None \<Rightarrow> ALL_CAPABILITIES
   | Some scope \<Rightarrow> if scope \<in> set (token_scopes claims) then ALL_CAPABILITIES else {CAP_READ})"

definition mtls_value :: "string \<Rightarrow> (pystr, pyval) dict \<Rightarrow> pystr option" where
  "mtls_value principal_field cert =
     (if principal_field = ''cn'' then cn_from_subject (py_get cert (ascii ''subject''))
      else if principal_field = ''dn'' then dn_from_subject (py_get cert (ascii ''subject''))
      else (case dict_get SAN_FIELD_TAGS principal_field of
              None \<Rightarrow> None
            | Some tag \<Rightarrow> first_san (py_get cert (ascii ''subjectAltName'')) tag))"

text \<open>The outer \<open>None\<close> is an exception that leaves \<open>authenticate\<close>, the inner one a rejection.\<close>

definition bearer_authenticate :: "pystr \<Rightarrow> AuthContext \<Rightarrow> Principal option option" where
  "bearer_authenticate expected ctx =
     (case bearer_token ctx of
        None \<Rightarrow> Some None
      | Some presented \<Rightarrow>
          if \<not> py_isascii presented then Some None
          else
            (case compare_digest presented expected of
               None \<Rightarrow> None
             | Some False \<Rightarrow> Some None
             | Some True \<Rightarrow> Some (Some (full_principal (ascii ''bearer'')))))"

definition multi_token_authenticate :: "(pystr, pystr) dict \<Rightarrow> AuthContext \<Rightarrow> Principal option option" where
  "multi_token_authenticate tokens ctx =
     (case bearer_token ctx of
        None \<Rightarrow> Some None
      | Some presented \<Rightarrow>
          if \<not> py_isascii presented then Some None
          else
            (case scan_tokens presented tokens None of
               None \<Rightarrow> None
             | Some None \<Rightarrow> Some None
             | Some (Some pid) \<Rightarrow> Some (Some (full_principal pid))))"

definition null_authenticate :: "AuthContext \<Rightarrow> Principal option option" where
  "null_authenticate ctx = Some (Some (full_principal (ascii ''local'')))"

definition mtls_authenticate :: "string \<Rightarrow> AuthContext \<Rightarrow> Principal option option" where
  "mtls_authenticate principal_field ctx =
     (case peer_certificate ctx of
        PyDict cert \<Rightarrow>
          (case mtls_value principal_field cert of
             None \<Rightarrow> Some None
           | Some value \<Rightarrow>
               if value = [] \<or> \<not> valid_principal_id value then Some None
               else Some (Some (full_principal value)))
      | _ \<Rightarrow> Some None)"

definition proxy_authenticate :: "pystr \<Rightarrow> pystr \<Rightarrow> pystr \<Rightarrow> AuthContext \<Rightarrow> Principal option option" where
  "proxy_authenticate secret secret_header identity_header ctx =
     (case dict_get (ctx_headers ctx) secret_header of
        None \<Rightarrow> Some None
      | Some presented \<Rightarrow>
          if \<not> py_isascii presented then Some None
          else
            (case compare_digest presented secret of
               None \<Rightarrow> None
             | Some False \<Rightarrow> Some None
             | Some True \<Rightarrow>
                 (case dict_get (ctx_headers ctx) identity_header of
                    None \<Rightarrow> Some None
                  | Some identity \<Rightarrow>
                      if valid_principal_id identity then Some (Some (full_principal identity))
                      else Some None)))"

text \<open>\<open>verify\<close> is the JWT library's verdict on a token: the claims, or none on any failure.\<close>

definition oauth_authenticate ::
  "(pystr \<Rightarrow> (pystr, pyval) dict option) \<Rightarrow> OAuthResource \<Rightarrow> AuthContext \<Rightarrow> Principal option option" where
  "oauth_authenticate verify cfg ctx =
     (case bearer_token ctx of
        None \<Rightarrow> Some None
      | Some token \<Rightarrow>
          if token = [] then Some None
          else
            (case verify token of
               None \<Rightarrow> Some None
             | Some claims \<Rightarrow>
                 (case py_get claims (oauth_principal_claim cfg) of
                    PyStr pid \<Rightarrow>
                      if pid = [] then Some None
                      else Some (Some \<lparr> principal_id = pid, capabilities = capabilities_from_claims cfg claims \<rparr>)
                  | _ \<Rightarrow> Some None)))"

fun authenticate ::
  "(pystr \<Rightarrow> (pystr, pyval) dict option) \<Rightarrow> authenticator \<Rightarrow> AuthContext \<Rightarrow> Principal option option" where
  "authenticate verify (BearerAuthenticator expected) ctx = bearer_authenticate expected ctx"
| "authenticate verify (MultiTokenBearerAuthenticator tokens) ctx = multi_token_authenticate tokens ctx"
| "authenticate verify NullAuthenticator ctx = null_authenticate ctx"
| "authenticate verify (MtlsAuthenticator principal_field) ctx = mtls_authenticate principal_field ctx"
| "authenticate verify (ReverseProxyMtlsAuthenticator secret secret_header identity_header) ctx =
     proxy_authenticate secret secret_header identity_header ctx"
| "authenticate verify (OAuthResourceAuthenticator cfg) ctx = oauth_authenticate verify cfg ctx"

subsection \<open>Construction\<close>

record auth_options =
  opt_bearer_token :: "pystr option"
  opt_bearer_tokens :: "(pystr, pystr) dict"
  opt_mtls_field :: string
  opt_oauth_issuer :: "pystr option"
  opt_oauth_audience :: "pystr option"
  opt_oauth_jwks_uri :: "pystr option"
  opt_oauth :: OAuthResource
  opt_proxy_secret :: "pystr option"
  opt_proxy_secret_header :: pystr
  opt_proxy_identity_header :: pystr

text \<open>\<open>__post_init__\<close> of each class; \<open>False\<close> is the \<open>ValueError\<close>.\<close>

fun post_init :: "authenticator \<Rightarrow> bool" where
  "post_init (BearerAuthenticator token) \<longleftrightarrow> length token \<ge> MIN_BEARER_TOKEN_LEN"
| "post_init (MultiTokenBearerAuthenticator tokens) \<longleftrightarrow>
     tokens \<noteq> [] \<and> list_all (\<lambda>(token, _). length token \<ge> MIN_BEARER_TOKEN_LEN) tokens"
| "post_init NullAuthenticator \<longleftrightarrow> True"
| "post_init (MtlsAuthenticator principal_field) \<longleftrightarrow> principal_field \<in> set MTLS_PRINCIPAL_FIELDS"
| "post_init (ReverseProxyMtlsAuthenticator secret _ _) \<longleftrightarrow> length secret \<ge> MIN_BEARER_TOKEN_LEN"
| "post_init (OAuthResourceAuthenticator cfg) \<longleftrightarrow>
     oauth_algorithms cfg \<noteq> [] \<and> list_all (\<lambda>alg. alg \<in> set OAUTH_ALLOWED_ALGORITHMS) (oauth_algorithms cfg)"

definition constructed :: "authenticator \<Rightarrow> authenticator option" where
  "constructed a = (if post_init a then Some a else None)"

definition set_default :: "'k \<Rightarrow> 'v \<Rightarrow> ('k, 'v) dict \<Rightarrow> ('k, 'v) dict" where
  "set_default k v d = (if dict_get d k = None then dict_set k v d else d)"

definition build_authenticator :: "string \<Rightarrow> auth_options \<Rightarrow> authenticator option" where
  "build_authenticator auth_mode opts =
     (if auth_mode = ''none'' then constructed NullAuthenticator
      else if auth_mode = ''bearer'' then
        (let tokens = (case opt_bearer_token opts of
               None \<Rightarrow> opt_bearer_tokens opts
             | Some t \<Rightarrow> set_default t (ascii ''bearer'') (opt_bearer_tokens opts))
         in if tokens = [] then None else constructed (MultiTokenBearerAuthenticator tokens))
      else if auth_mode = ''mtls'' then constructed (MtlsAuthenticator (opt_mtls_field opts))
      else if auth_mode = ''mtls-proxy'' then
        (case opt_proxy_secret opts of
           None \<Rightarrow> None
         | Some secret \<Rightarrow>
             if secret = [] then None
             else constructed (ReverseProxyMtlsAuthenticator secret (opt_proxy_secret_header opts)
                    (opt_proxy_identity_header opts)))
      else if auth_mode = ''oauth'' then
        (if opt_oauth_issuer opts = None \<or> opt_oauth_audience opts = None \<or> opt_oauth_jwks_uri opts = None
         then None else constructed (OAuthResourceAuthenticator (opt_oauth opts)))
      else None)"

end
