(* ===== verification/Registry.thy ===== *)
theory Registry
  imports Session_Props Validation Envelope Report_Store Auth
begin

text \<open>
  The tool registry (\<open>tools/registry.py\<close>): the handler of every tool, the table of handlers, and the
  dispatch chokepoint with its capability check, in-flight marks and worker guard. The arguments
  are what the schema of a tool accepted: scalar attributes as a dictionary, structured ones typed.
  The worker port is an argument: what it returns for a call is not assumed; that it was called is
  logged. Other threads work on the session table between the operations of a call.
\<close>

subsection \<open>The world of a call\<close>

type_synonym attrs = "(pystr, pyval) dict"

datatype tool_in =
    Plain attrs
  | SignatureIn SetFunctionSignatureIn
  | ApplyTypeIn TypeRef attrs
  | CompositeIn pystr "FieldSpec list" attrs
  | BatchIn "CompositeSpec list"
  | DocumentIn AnnotationDocument
  | ExportIn "(pystr \<times> pystr) list" "pystr list"

text \<open>
  The log is chronological: an operation met a session table with a clock, or a method of the port
  was called for a session.
\<close>

datatype log_entry = Met sm_env SessionManager | Called string pystr tool_in

record world =
  w_sm :: SessionManager
  w_reports :: ReportStore
  w_log :: "log_entry list"

text \<open>
  What is outside: the environment of the n-th step, what other threads did to the session table
  before it, the answers of the port, and the composition of a report from what its handler
  collected (manifest, findings, page, atlas).
\<close>

type_synonym report = "pyval \<times> pyval list \<times> pystr option \<times> AtlasData option"

record outside =
  env_at :: "nat \<Rightarrow> sm_env"
  others :: "nat \<Rightarrow> SessionManager \<Rightarrow> SessionManager"
  port_answer :: "nat \<Rightarrow> string \<Rightarrow> pystr \<Rightarrow> tool_in \<Rightarrow> exc + attrs"
  compose :: "attrs \<Rightarrow> attrs list \<Rightarrow> report"

type_synonym 'a tool_m = "world \<Rightarrow> (exc + 'a) \<times> world"

definition after :: "'a tool_m \<Rightarrow> ('a \<Rightarrow> 'b tool_m) \<Rightarrow> 'b tool_m" where
  "after f g w = (case f w of (Inl e, w') \<Rightarrow> (Inl e, w') | (Inr x, w') \<Rightarrow> g x w')"

definition lift :: "exc + 'a \<Rightarrow> 'a tool_m" where
  "lift r w = (r, w)"

definition finally_do :: "'a tool_m \<Rightarrow> (world \<Rightarrow> world) \<Rightarrow> 'a tool_m" where
  "finally_do f g w = (case f w of (r, w') \<Rightarrow> (r, g w'))"

definition sessions_do :: "outside \<Rightarrow> (sm_env \<Rightarrow> SessionManager \<Rightarrow> (exc + 'a) \<times> SessionManager) \<Rightarrow> 'a tool_m" where
  "sessions_do out op w =
     (let n = length (w_log w); env = env_at out n; m = others out n (w_sm w) in
      case op env m of (r, m') \<Rightarrow> (r, w\<lparr>w_sm := m', w_log := w_log w @ [Met env m]\<rparr>))"

definition call_port :: "outside \<Rightarrow> string \<Rightarrow> pystr \<Rightarrow> tool_in \<Rightarrow> attrs tool_m" where
  "call_port out meth sid a w =
     (port_answer out (length (w_log w)) meth sid a, w\<lparr>w_log := w_log w @ [Called meth sid a]\<rparr>)"

abbreviation attr :: "attrs \<Rightarrow> string \<Rightarrow> pyval" where
  "attr a k \<equiv> py_get a (ascii k)"

definition str_attr :: "attrs \<Rightarrow> string \<Rightarrow> pystr" where
  "str_attr a k = (case attr a k of PyStr s \<Rightarrow> s | _ \<Rightarrow> [])"

definition flag :: "attrs \<Rightarrow> string \<Rightarrow> bool" where
  "flag a k \<longleftrightarrow> attr a k = PyBool True"

definition items :: "pyval \<Rightarrow> pyval list" where
  "items v = (case v of PyList vs \<Rightarrow> vs | _ \<Rightarrow> [])"

definition item_attr :: "pyval \<Rightarrow> string \<Rightarrow> pyval" where
  "item_attr v k = (case v of PyDict d \<Rightarrow> attr d k | _ \<Rightarrow> PyNone)"

text \<open>\<open>if x is not None: check(x)\<close>\<close>

definition optional :: "(pyval \<Rightarrow> exc + 'a) \<Rightarrow> pyval \<Rightarrow> exc + unit" where
  "optional check v = (if v = PyNone then Inr () else checked (check v))"

definition require_args :: "string \<Rightarrow> exc" where
  "require_args d = validation_error d"

subsection \<open>Results\<close>

datatype tool_out =
    OutInfo SessionInfo
  | OutClosed pystr bool
  | OutWriteState pystr bool bool
  | OutWorker attrs
  | OutExport attrs "(pystr \<times> pyval Untrusted option \<times> int option) option"
  | OutReport StoredReport
  | OutImport pystr nat nat nat "(nat \<times> string \<times> ErrorType option) list"

definition worker_out :: "attrs tool_m \<Rightarrow> tool_out tool_m" where
  "worker_out f = after f (\<lambda>r. lift (Inr (OutWorker r)))"

subsection \<open>Owner-scoped operations of a call\<close>

definition authorized :: "outside \<Rightarrow> pystr \<Rightarrow> pystr \<Rightarrow> SessionInfo tool_m" where
  "authorized out caller sid = sessions_do out (\<lambda>env. authorize env sid caller)"

definition consented :: "outside \<Rightarrow> bool \<Rightarrow> pystr \<Rightarrow> pystr \<Rightarrow> SessionInfo tool_m" where
  "consented out structural caller sid =
     sessions_do out (\<lambda>env. require_write_consent structural env sid caller)"

text \<open>A read tool: authorize, check the arguments, delegate. A write tool: consent first.\<close>

definition read_tool :: "string \<Rightarrow> (attrs \<Rightarrow> exc + unit) \<Rightarrow> outside \<Rightarrow> pystr \<Rightarrow> pystr \<Rightarrow> attrs \<Rightarrow> tool_out tool_m" where
  "read_tool meth check out caller sid a =
     after (authorized out caller sid) (\<lambda>_.
     after (lift (check a)) (\<lambda>_.
       worker_out (call_port out meth sid (Plain a))))"

definition write_tool ::
  "string \<Rightarrow> bool \<Rightarrow> exc + unit \<Rightarrow> tool_in \<Rightarrow> outside \<Rightarrow> pystr \<Rightarrow> pystr \<Rightarrow> attrs tool_m" where
  "write_tool meth structural check a out caller sid =
     after (consented out structural caller sid) (\<lambda>_.
     after (lift check) (\<lambda>_.
       call_port out meth sid a))"

subsection \<open>Session lifecycle handlers\<close>

definition merge_session_info :: "SessionInfo \<Rightarrow> attrs \<Rightarrow> SessionInfo" where
  "merge_session_info authoritative worker =
     authoritative\<lparr>info_binary_sha256 := (case attr worker ''binary_sha256'' of PyStr s \<Rightarrow> Some s | _ \<Rightarrow> None)\<rparr>"

definition handle_session_create :: "outside \<Rightarrow> pystr \<Rightarrow> tool_out tool_m" where
  "handle_session_create out caller =
     after (sessions_do out (\<lambda>env. create env caller)) (\<lambda>info. lift (Inr (OutInfo info)))"

text \<open>\<open>Path(ref).name\<close>: the last part of the path; trailing slashes and dots do not count.\<close>

definition path_parts :: "pystr \<Rightarrow> pystr list" where
  "path_parts ref =
     (let cut = foldr (\<lambda>c acc. if c = 47 then [] # acc else (case acc of [] \<Rightarrow> [[c]] | p # ps \<Rightarrow> (c # p) # ps)) ref [[]]
      in filter (\<lambda>p. p \<noteq> [] \<and> p \<noteq> ascii ''.'') cut)"

definition path_name :: "pystr \<Rightarrow> pystr" where
  "path_name ref = (case rev (path_parts ref) of [] \<Rightarrow> [] | p # _ \<Rightarrow> p)"

definition handle_session_import :: "outside \<Rightarrow> pystr \<Rightarrow> pystr \<Rightarrow> attrs \<Rightarrow> tool_out tool_m" where
  "handle_session_import out caller sid a =
     after (authorized out caller sid) (\<lambda>authoritative.
     after (sessions_do out (\<lambda>env. ensure_worker env sid caller)) (\<lambda>_.
     after (call_port out ''import_binary'' sid (Plain a)) (\<lambda>imported.
     after (case attr imported ''binary_sha256'' of
              PyStr sha \<Rightarrow>
                sessions_do out (\<lambda>env. record_binary_hash sha
                  (case attr imported ''binary_size'' of PyInt n \<Rightarrow> Some n | _ \<Rightarrow> None)
                  (Some (path_name (str_attr a ''source_ref''))) env sid caller)
            | _ \<Rightarrow> lift (Inr ())) (\<lambda>_.
       lift (Inr (OutInfo (merge_session_info authoritative imported)))))))"

definition profile_of :: "attrs \<Rightarrow> analysis_profile" where
  "profile_of a =
     (if str_attr a ''profile'' = ascii ''light'' then Profile_light
      else if str_attr a ''profile'' = ascii ''deep'' then Profile_deep else Profile_default)"

definition handle_session_analyze :: "outside \<Rightarrow> pystr \<Rightarrow> pystr \<Rightarrow> attrs \<Rightarrow> tool_out tool_m" where
  "handle_session_analyze out caller sid a =
     after (authorized out caller sid) (\<lambda>authoritative.
     after (call_port out ''analyze'' sid (Plain a)) (\<lambda>analyzed.
     after (sessions_do out (\<lambda>env. record_analysis_profile (profile_of a) env sid caller)) (\<lambda>_.
       lift (Inr (OutInfo ((merge_session_info authoritative analyzed)
                             \<lparr>info_analysis_profile := Some (profile_of a)\<rparr>))))))"

definition handle_session_status :: "outside \<Rightarrow> pystr \<Rightarrow> pystr \<Rightarrow> tool_out tool_m" where
  "handle_session_status out caller sid =
     after (authorized out caller sid) (\<lambda>info. lift (Inr (OutInfo info)))"

definition handle_session_close :: "outside \<Rightarrow> pystr \<Rightarrow> pystr \<Rightarrow> tool_out tool_m" where
  "handle_session_close out caller sid =
     after (sessions_do out (\<lambda>env. evict env sid (ascii ''close'') (Some caller))) (\<lambda>wiped.
       lift (Inr (OutClosed sid wiped)))"

subsection \<open>Read handlers\<close>

abbreviation no_check :: "attrs \<Rightarrow> exc + unit" where
  "no_check \<equiv> \<lambda>_. Inr ()"

abbreviation name_in :: "string \<Rightarrow> attrs \<Rightarrow> exc + unit" where
  "name_in k a \<equiv> checked (validate_name (attr a k))"

abbreviation opt_name_in :: "string \<Rightarrow> attrs \<Rightarrow> exc + unit" where
  "opt_name_in k a \<equiv> optional validate_name (attr a k)"

text \<open>The range tools take a start address or a function.\<close>

definition check_range_or_function :: "attrs \<Rightarrow> exc + unit" where
  "check_range_or_function a =
     chain (optional parse_address (attr a ''start'')) (\<lambda>_.
     chain (opt_name_in ''function'' a) (\<lambda>_.
       if attr a ''start'' = PyNone \<and> attr a ''function'' = PyNone
       then Inl (require_args ''either 'start' or 'function' must be provided'') else Inr ()))"

definition handle_decompile_function :: "outside \<Rightarrow> pystr \<Rightarrow> pystr \<Rightarrow> attrs \<Rightarrow> tool_out tool_m" where
  "handle_decompile_function = read_tool ''decompile_function'' (name_in ''function'')"

definition handle_disassemble :: "outside \<Rightarrow> pystr \<Rightarrow> pystr \<Rightarrow> attrs \<Rightarrow> tool_out tool_m" where
  "handle_disassemble = read_tool ''disassemble'' check_range_or_function"

definition handle_get_pcode :: "outside \<Rightarrow> pystr \<Rightarrow> pystr \<Rightarrow> attrs \<Rightarrow> tool_out tool_m" where
  "handle_get_pcode = read_tool ''get_pcode'' check_range_or_function"

definition handle_get_high_pcode :: "outside \<Rightarrow> pystr \<Rightarrow> pystr \<Rightarrow> attrs \<Rightarrow> tool_out tool_m" where
  "handle_get_high_pcode = read_tool ''get_high_pcode'' (name_in ''function'')"

definition handle_data_flow_slice :: "outside \<Rightarrow> pystr \<Rightarrow> pystr \<Rightarrow> attrs \<Rightarrow> tool_out tool_m" where
  "handle_data_flow_slice = read_tool ''data_flow_slice'' (name_in ''function'')"

definition handle_recover_struct :: "outside \<Rightarrow> pystr \<Rightarrow> pystr \<Rightarrow> attrs \<Rightarrow> tool_out tool_m" where
  "handle_recover_struct = read_tool ''recover_struct'' (name_in ''function'')"

definition handle_deobfuscate_strings :: "outside \<Rightarrow> pystr \<Rightarrow> pystr \<Rightarrow> attrs \<Rightarrow> tool_out tool_m" where
  "handle_deobfuscate_strings = read_tool ''deobfuscate_strings'' (opt_name_in ''function'')"

definition handle_stack_frame :: "outside \<Rightarrow> pystr \<Rightarrow> pystr \<Rightarrow> attrs \<Rightarrow> tool_out tool_m" where
  "handle_stack_frame = read_tool ''stack_frame'' (name_in ''function'')"

definition handle_basic_blocks :: "outside \<Rightarrow> pystr \<Rightarrow> pystr \<Rightarrow> attrs \<Rightarrow> tool_out tool_m" where
  "handle_basic_blocks = read_tool ''basic_blocks'' (name_in ''function'')"

definition handle_list_data_types :: "outside \<Rightarrow> pystr \<Rightarrow> pystr \<Rightarrow> attrs \<Rightarrow> tool_out tool_m" where
  "handle_list_data_types = read_tool ''list_data_types'' (opt_name_in ''name_contains'')"

definition handle_function_hash :: "outside \<Rightarrow> pystr \<Rightarrow> pystr \<Rightarrow> attrs \<Rightarrow> tool_out tool_m" where
  "handle_function_hash = read_tool ''function_hash'' (name_in ''function'')"

definition handle_program_fingerprint :: "outside \<Rightarrow> pystr \<Rightarrow> pystr \<Rightarrow> attrs \<Rightarrow> tool_out tool_m" where
  "handle_program_fingerprint = read_tool ''program_fingerprint'' no_check"

definition handle_family_match :: "outside \<Rightarrow> pystr \<Rightarrow> pystr \<Rightarrow> attrs \<Rightarrow> tool_out tool_m" where
  "handle_family_match = read_tool ''family_match'' no_check"

definition handle_bsim_similarity :: "outside \<Rightarrow> pystr \<Rightarrow> pystr \<Rightarrow> attrs \<Rightarrow> tool_out tool_m" where
  "handle_bsim_similarity = read_tool ''bsim_similarity'' (\<lambda>a. chain (name_in ''function_a'' a) (\<lambda>_. name_in ''function_b'' a))"

definition handle_find_similar_functions :: "outside \<Rightarrow> pystr \<Rightarrow> pystr \<Rightarrow> attrs \<Rightarrow> tool_out tool_m" where
  "handle_find_similar_functions = read_tool ''find_similar_functions'' (name_in ''function'')"

definition handle_list_functions :: "outside \<Rightarrow> pystr \<Rightarrow> pystr \<Rightarrow> attrs \<Rightarrow> tool_out tool_m" where
  "handle_list_functions = read_tool ''list_functions'' (opt_name_in ''name_contains'')"

definition handle_get_function :: "outside \<Rightarrow> pystr \<Rightarrow> pystr \<Rightarrow> attrs \<Rightarrow> tool_out tool_m" where
  "handle_get_function = read_tool ''get_function'' (name_in ''function'')"

definition handle_xrefs_to :: "outside \<Rightarrow> pystr \<Rightarrow> pystr \<Rightarrow> attrs \<Rightarrow> tool_out tool_m" where
  "handle_xrefs_to = read_tool ''xrefs_to'' (name_in ''target'')"

definition handle_xrefs_from :: "outside \<Rightarrow> pystr \<Rightarrow> pystr \<Rightarrow> attrs \<Rightarrow> tool_out tool_m" where
  "handle_xrefs_from = read_tool ''xrefs_from'' (name_in ''target'')"

definition handle_list_strings :: "outside \<Rightarrow> pystr \<Rightarrow> pystr \<Rightarrow> attrs \<Rightarrow> tool_out tool_m" where
  "handle_list_strings = read_tool ''list_strings'' no_check"

definition handle_ramdisk_list :: "outside \<Rightarrow> pystr \<Rightarrow> pystr \<Rightarrow> attrs \<Rightarrow> tool_out tool_m" where
  "handle_ramdisk_list = read_tool ''ramdisk_list'' no_check"

definition handle_list_cache_components :: "outside \<Rightarrow> pystr \<Rightarrow> pystr \<Rightarrow> attrs \<Rightarrow> tool_out tool_m" where
  "handle_list_cache_components = read_tool ''list_cache_components'' no_check"

definition handle_list_symbols :: "outside \<Rightarrow> pystr \<Rightarrow> pystr \<Rightarrow> attrs \<Rightarrow> tool_out tool_m" where
  "handle_list_symbols = read_tool ''list_symbols'' (opt_name_in ''name_contains'')"

definition handle_get_symbol :: "outside \<Rightarrow> pystr \<Rightarrow> pystr \<Rightarrow> attrs \<Rightarrow> tool_out tool_m" where
  "handle_get_symbol = read_tool ''get_symbol'' (name_in ''identifier'')"

definition handle_list_data :: "outside \<Rightarrow> pystr \<Rightarrow> pystr \<Rightarrow> attrs \<Rightarrow> tool_out tool_m" where
  "handle_list_data = read_tool ''list_data'' no_check"

definition handle_get_data_type :: "outside \<Rightarrow> pystr \<Rightarrow> pystr \<Rightarrow> attrs \<Rightarrow> tool_out tool_m" where
  "handle_get_data_type = read_tool ''get_data_type'' (name_in ''name'')"

definition handle_get_comments :: "outside \<Rightarrow> pystr \<Rightarrow> pystr \<Rightarrow> attrs \<Rightarrow> tool_out tool_m" where
  "handle_get_comments = read_tool ''get_comments'' (\<lambda>a. optional parse_address (attr a ''address''))"

definition handle_memory_map :: "outside \<Rightarrow> pystr \<Rightarrow> pystr \<Rightarrow> attrs \<Rightarrow> tool_out tool_m" where
  "handle_memory_map = read_tool ''memory_map'' no_check"

definition handle_read_bytes :: "outside \<Rightarrow> pystr \<Rightarrow> pystr \<Rightarrow> attrs \<Rightarrow> tool_out tool_m" where
  "handle_read_bytes = read_tool ''read_bytes'' (\<lambda>a. chain (parse_address (attr a ''address'')) (\<lambda>offset.
       checked (validate_byte_range (PyInt offset) (attr a ''length''))))"

definition handle_emulate :: "outside \<Rightarrow> pystr \<Rightarrow> pystr \<Rightarrow> attrs \<Rightarrow> tool_out tool_m" where
  "handle_emulate = read_tool ''emulate'' (\<lambda>a. chain (parse_address (attr a ''start'')) (\<lambda>_.
       chain (optional parse_address (attr a ''stop_at'')) (\<lambda>_.
       chain (for_each (\<lambda>v. checked (parse_address (item_attr v ''address''))) (items (attr a ''write_memory''))) (\<lambda>_.
         for_each (\<lambda>v. checked (parse_address (item_attr v ''address''))) (items (attr a ''read_memory''))))))"

definition handle_demangle :: "outside \<Rightarrow> pystr \<Rightarrow> pystr \<Rightarrow> attrs \<Rightarrow> tool_out tool_m" where
  "handle_demangle = read_tool ''demangle'' no_check"

definition handle_search_bytes :: "outside \<Rightarrow> pystr \<Rightarrow> pystr \<Rightarrow> attrs \<Rightarrow> tool_out tool_m" where
  "handle_search_bytes = read_tool ''search_bytes'' (\<lambda>a. checked (validate_byte_pattern (attr a ''pattern_hex'')))"

definition handle_search_strings :: "outside \<Rightarrow> pystr \<Rightarrow> pystr \<Rightarrow> attrs \<Rightarrow> tool_out tool_m" where
  "handle_search_strings = read_tool ''search_strings'' (\<lambda>a. checked (validate_query (attr a ''query'')))"

definition handle_program_metadata :: "outside \<Rightarrow> pystr \<Rightarrow> pystr \<Rightarrow> attrs \<Rightarrow> tool_out tool_m" where
  "handle_program_metadata = read_tool ''program_metadata'' no_check"

definition handle_call_graph :: "outside \<Rightarrow> pystr \<Rightarrow> pystr \<Rightarrow> attrs \<Rightarrow> tool_out tool_m" where
  "handle_call_graph = read_tool ''call_graph'' (opt_name_in ''root'')"

definition handle_callees :: "outside \<Rightarrow> pystr \<Rightarrow> pystr \<Rightarrow> attrs \<Rightarrow> tool_out tool_m" where
  "handle_callees = read_tool ''callees'' (name_in ''function'')"

definition handle_callers :: "outside \<Rightarrow> pystr \<Rightarrow> pystr \<Rightarrow> attrs \<Rightarrow> tool_out tool_m" where
  "handle_callers = read_tool ''callers'' (name_in ''function'')"

definition handle_analysis_order :: "outside \<Rightarrow> pystr \<Rightarrow> pystr \<Rightarrow> attrs \<Rightarrow> tool_out tool_m" where
  "handle_analysis_order = read_tool ''analysis_order'' (opt_name_in ''root'')"

definition handle_function_context :: "outside \<Rightarrow> pystr \<Rightarrow> pystr \<Rightarrow> attrs \<Rightarrow> tool_out tool_m" where
  "handle_function_context = read_tool ''function_context'' (name_in ''function'')"

definition handle_cyclomatic_complexity :: "outside \<Rightarrow> pystr \<Rightarrow> pystr \<Rightarrow> attrs \<Rightarrow> tool_out tool_m" where
  "handle_cyclomatic_complexity = read_tool ''cyclomatic_complexity'' (name_in ''function'')"

definition handle_list_imports :: "outside \<Rightarrow> pystr \<Rightarrow> pystr \<Rightarrow> attrs \<Rightarrow> tool_out tool_m" where
  "handle_list_imports = read_tool ''list_imports'' no_check"

definition handle_list_exports :: "outside \<Rightarrow> pystr \<Rightarrow> pystr \<Rightarrow> attrs \<Rightarrow> tool_out tool_m" where
  "handle_list_exports = read_tool ''list_exports'' no_check"

definition handle_coverage :: "outside \<Rightarrow> pystr \<Rightarrow> pystr \<Rightarrow> attrs \<Rightarrow> tool_out tool_m" where
  "handle_coverage = read_tool ''coverage'' no_check"

definition handle_ioc_scan :: "outside \<Rightarrow> pystr \<Rightarrow> pystr \<Rightarrow> attrs \<Rightarrow> tool_out tool_m" where
  "handle_ioc_scan = read_tool ''ioc_scan'' no_check"

definition handle_crypto_constant_scan :: "outside \<Rightarrow> pystr \<Rightarrow> pystr \<Rightarrow> attrs \<Rightarrow> tool_out tool_m" where
  "handle_crypto_constant_scan = read_tool ''crypto_constant_scan'' no_check"

definition handle_crypto_detect :: "outside \<Rightarrow> pystr \<Rightarrow> pystr \<Rightarrow> attrs \<Rightarrow> tool_out tool_m" where
  "handle_crypto_detect = read_tool ''crypto_detect'' no_check"

definition handle_capability_scan :: "outside \<Rightarrow> pystr \<Rightarrow> pystr \<Rightarrow> attrs \<Rightarrow> tool_out tool_m" where
  "handle_capability_scan = read_tool ''capability_scan'' no_check"

definition handle_secret_scan :: "outside \<Rightarrow> pystr \<Rightarrow> pystr \<Rightarrow> attrs \<Rightarrow> tool_out tool_m" where
  "handle_secret_scan = read_tool ''secret_scan'' no_check"

definition handle_call_graph_metrics :: "outside \<Rightarrow> pystr \<Rightarrow> pystr \<Rightarrow> attrs \<Rightarrow> tool_out tool_m" where
  "handle_call_graph_metrics = read_tool ''call_graph_metrics'' (opt_name_in ''root'')"

definition handle_program_summary :: "outside \<Rightarrow> pystr \<Rightarrow> pystr \<Rightarrow> attrs \<Rightarrow> tool_out tool_m" where
  "handle_program_summary = read_tool ''program_summary'' no_check"

definition handle_identify_functions :: "outside \<Rightarrow> pystr \<Rightarrow> pystr \<Rightarrow> attrs \<Rightarrow> tool_out tool_m" where
  "handle_identify_functions = read_tool ''identify_functions'' no_check"

text \<open>The tools that load their own binaries make sure of a worker.\<close>

definition loading_tool :: "string \<Rightarrow> outside \<Rightarrow> pystr \<Rightarrow> pystr \<Rightarrow> attrs \<Rightarrow> tool_out tool_m" where
  "loading_tool meth out caller sid a =
     after (authorized out caller sid) (\<lambda>_.
     after (sessions_do out (\<lambda>env. ensure_worker env sid caller)) (\<lambda>_.
       worker_out (call_port out meth sid (Plain a))))"

definition handle_version_track :: "outside \<Rightarrow> pystr \<Rightarrow> pystr \<Rightarrow> attrs \<Rightarrow> tool_out tool_m" where
  "handle_version_track = loading_tool ''version_track''"

definition handle_binary_diff :: "outside \<Rightarrow> pystr \<Rightarrow> pystr \<Rightarrow> attrs \<Rightarrow> tool_out tool_m" where
  "handle_binary_diff = loading_tool ''binary_diff''"

definition handle_bsim_search_corpus :: "outside \<Rightarrow> pystr \<Rightarrow> pystr \<Rightarrow> attrs \<Rightarrow> tool_out tool_m" where
  "handle_bsim_search_corpus = loading_tool ''bsim_search_corpus''"

subsection \<open>Write handlers\<close>

definition handle_session_enable_writes :: "outside \<Rightarrow> pystr \<Rightarrow> pystr \<Rightarrow> attrs \<Rightarrow> tool_out tool_m" where
  "handle_session_enable_writes out caller sid a =
     after (sessions_do out (\<lambda>env. enable_writes (flag a ''allow_structural'') env sid caller)) (\<lambda>info.
       lift (Inr (OutWriteState sid (info_writes_enabled info) (info_allow_structural info))))"

definition handle_session_disable_writes :: "outside \<Rightarrow> pystr \<Rightarrow> pystr \<Rightarrow> tool_out tool_m" where
  "handle_session_disable_writes out caller sid =
     after (sessions_do out (\<lambda>env. disable_writes env sid caller)) (\<lambda>info.
       lift (Inr (OutWriteState sid (info_writes_enabled info) (info_allow_structural info))))"

definition handle_session_undo :: "outside \<Rightarrow> pystr \<Rightarrow> pystr \<Rightarrow> attrs \<Rightarrow> tool_out tool_m" where
  "handle_session_undo out caller sid a =
     worker_out (write_tool ''undo'' False (Inr ()) (Plain a) out caller sid)"

definition handle_rename_function :: "outside \<Rightarrow> pystr \<Rightarrow> pystr \<Rightarrow> attrs \<Rightarrow> tool_out tool_m" where
  "handle_rename_function out caller sid a =
     worker_out (write_tool ''rename_function'' False
       (checked (validate_write_name (attr a ''new_name''))) (Plain a) out caller sid)"

definition handle_rename_symbol :: "outside \<Rightarrow> pystr \<Rightarrow> pystr \<Rightarrow> attrs \<Rightarrow> tool_out tool_m" where
  "handle_rename_symbol out caller sid a =
     worker_out (write_tool ''rename_symbol'' False
       (checked (validate_write_name (attr a ''new_name''))) (Plain a) out caller sid)"

text \<open>The comment that is written is the normalised one.\<close>

definition handle_set_comment :: "outside \<Rightarrow> pystr \<Rightarrow> pystr \<Rightarrow> attrs \<Rightarrow> tool_out tool_m" where
  "handle_set_comment out caller sid a =
     after (consented out False caller sid) (\<lambda>_.
     after (lift (parse_address (attr a ''address''))) (\<lambda>_.
     after (lift (if attr a ''text'' = PyNone then Inr a
                  else chain (validate_comment_text (attr a ''text'')) (\<lambda>t. Inr (dict_set (ascii ''text'') t a)))) (\<lambda>a'.
     after (call_port out ''set_comment'' sid (Plain a')) (\<lambda>result.
     after (if flag result ''applied''
            then sessions_do out (\<lambda>env. record_comment_target (str_attr result ''address'')
                   (str_attr result ''comment_type'') (attr a' ''text'' = PyNone) env sid caller)
            else lift (Inr ())) (\<lambda>_.
       lift (Inr (OutWorker result)))))))"

definition handle_rename_local_variable :: "outside \<Rightarrow> pystr \<Rightarrow> pystr \<Rightarrow> attrs \<Rightarrow> tool_out tool_m" where
  "handle_rename_local_variable out caller sid a =
     worker_out (write_tool ''rename_local_variable'' True
       (chain (validate_name (attr a ''function'')) (\<lambda>_.
        chain (validate_target_ref (attr a ''variable'')) (\<lambda>_.
          checked (validate_write_name (attr a ''new_name''))))) (Plain a) out caller sid)"

definition handle_rename_parameter :: "outside \<Rightarrow> pystr \<Rightarrow> pystr \<Rightarrow> attrs \<Rightarrow> tool_out tool_m" where
  "handle_rename_parameter out caller sid a =
     worker_out (write_tool ''rename_parameter'' True
       (chain (validate_name (attr a ''function'')) (\<lambda>_.
        chain (validate_target_ref (attr a ''parameter'')) (\<lambda>_.
          checked (validate_write_name (attr a ''new_name''))))) (Plain a) out caller sid)"

definition handle_set_function_signature ::
  "outside \<Rightarrow> pystr \<Rightarrow> pystr \<Rightarrow> SetFunctionSignatureIn \<Rightarrow> tool_out tool_m" where
  "handle_set_function_signature out caller sid sig =
     worker_out (write_tool ''set_function_signature'' True (validate_signature sig) (SignatureIn sig) out caller sid)"

definition handle_apply_data_type :: "outside \<Rightarrow> pystr \<Rightarrow> pystr \<Rightarrow> TypeRef \<Rightarrow> attrs \<Rightarrow> tool_out tool_m" where
  "handle_apply_data_type out caller sid ref a =
     worker_out (write_tool ''apply_data_type'' True
       (chain (parse_address (attr a ''address'')) (\<lambda>_. validate_type_ref ref)) (ApplyTypeIn ref a) out caller sid)"

definition handle_apply_type_archive :: "outside \<Rightarrow> pystr \<Rightarrow> pystr \<Rightarrow> attrs \<Rightarrow> tool_out tool_m" where
  "handle_apply_type_archive out caller sid a =
     worker_out (write_tool ''apply_type_archive'' True (Inr ()) (Plain a) out caller sid)"

text \<open>A composite that was defined is remembered as authored by the session.\<close>

definition define_composite ::
  "string \<Rightarrow> composite_kind \<Rightarrow> outside \<Rightarrow> pystr \<Rightarrow> pystr \<Rightarrow> pystr \<Rightarrow> FieldSpec list \<Rightarrow> attrs \<Rightarrow> tool_out tool_m" where
  "define_composite meth kind out caller sid name fs a =
     after (write_tool meth True (validate_composite name fs kind) (CompositeIn name fs a) out caller sid) (\<lambda>result.
     after (if flag result ''applied''
            then sessions_do out (\<lambda>env. record_composite_target (str_attr result ''name'') env sid caller)
            else lift (Inr ())) (\<lambda>_.
       lift (Inr (OutWorker result))))"

definition handle_define_struct ::
  "outside \<Rightarrow> pystr \<Rightarrow> pystr \<Rightarrow> pystr \<Rightarrow> FieldSpec list \<Rightarrow> attrs \<Rightarrow> tool_out tool_m" where
  "handle_define_struct = define_composite ''define_struct'' Struct"

definition handle_define_union ::
  "outside \<Rightarrow> pystr \<Rightarrow> pystr \<Rightarrow> pystr \<Rightarrow> FieldSpec list \<Rightarrow> attrs \<Rightarrow> tool_out tool_m" where
  "handle_define_union = define_composite ''define_union'' Union"

fun record_all :: "outside \<Rightarrow> pystr \<Rightarrow> pystr \<Rightarrow> pyval list \<Rightarrow> unit tool_m" where
  "record_all out caller sid [] = lift (Inr ())"
| "record_all out caller sid (v # vs) =
     after (sessions_do out (\<lambda>env. record_composite_target
        (case item_attr v ''name'' of PyStr s \<Rightarrow> s | _ \<Rightarrow> []) env sid caller)) (\<lambda>_.
       record_all out caller sid vs)"

definition handle_define_types :: "outside \<Rightarrow> pystr \<Rightarrow> pystr \<Rightarrow> CompositeSpec list \<Rightarrow> tool_out tool_m" where
  "handle_define_types out caller sid types =
     after (write_tool ''define_types'' True (validate_types_batch types) (BatchIn types) out caller sid) (\<lambda>result.
     after (if flag result ''applied'' then record_all out caller sid (items (attr result ''types''))
            else lift (Inr ())) (\<lambda>_.
       lift (Inr (OutWorker result))))"

definition no_such_type :: exc where
  "no_such_type = new_error \<lparr> err_type = NOT_FOUND, title = ascii ''No such session-authored type'',
     detail = ascii ''The named type was not created by this session and cannot be deleted.'',
     status = Some 404, correlation_id = None, retryable = False \<rparr>"

definition handle_delete_type :: "outside \<Rightarrow> pystr \<Rightarrow> pystr \<Rightarrow> attrs \<Rightarrow> tool_out tool_m" where
  "handle_delete_type out caller sid a =
     after (consented out True caller sid) (\<lambda>_.
     after (lift (validate_write_name (attr a ''name''))) (\<lambda>_.
     after (sessions_do out (\<lambda>env. is_composite_target (str_attr a ''name'') env sid caller)) (\<lambda>mine.
     after (lift (if mine then Inr () else Inl no_such_type)) (\<lambda>_.
     after (call_port out ''delete_type'' sid (Plain a)) (\<lambda>result.
     after (if flag result ''deleted''
            then sessions_do out (\<lambda>env. forget_composite_target (str_attr a ''name'') env sid caller)
            else lift (Inr ())) (\<lambda>_.
       lift (Inr (OutWorker result))))))))"

subsection \<open>Annotations and reports\<close>

text \<open>
  The exported document is the worker's; the block that names the binary is overwritten by what the
  server knows of it.
\<close>

definition handle_session_export_annotations :: "outside \<Rightarrow> pystr \<Rightarrow> pystr \<Rightarrow> tool_out tool_m" where
  "handle_session_export_annotations out caller sid =
     after (authorized out caller sid) (\<lambda>info.
     after (sessions_do out (\<lambda>env. export_targets env sid caller)) (\<lambda>(comments, composites).
     after (call_port out ''export_annotations'' sid (ExportIn comments composites)) (\<lambda>result.
       case info_binary_sha256 info of
         None \<Rightarrow> lift (Inr (OutExport result None))
       | Some sha \<Rightarrow>
           after (sessions_do out (\<lambda>env. get_binary_name env sid caller)) (\<lambda>name.
             lift (Inr (OutExport result
               (Some (sha, map_option (\<lambda>n. wrap (PyStr n) BINARY False None []) name, info_binary_size info))))))))"

text \<open>
  The report: the export, and with an atlas the summary, the call graph, the functions and the
  references to the most referenced functions; the composition of the texts is outside.
\<close>

abbreviation MAX_ATLAS_XREF_TARGETS :: nat where "MAX_ATLAS_XREF_TARGETS \<equiv> 16"
abbreviation MAX_ATLAS_XREFS_PER_TARGET :: int where "MAX_ATLAS_XREFS_PER_TARGET \<equiv> 64"
abbreviation MAX_ATLAS_XREFS :: nat where "MAX_ATLAS_XREFS \<equiv> 1000"

definition model_of :: "(string \<times> pyval) list \<Rightarrow> attrs" where
  "model_of kvs = map (\<lambda>(k, v). (ascii k, v)) kvs"

definition worker_attrs :: "tool_out \<Rightarrow> attrs" where
  "worker_attrs r = (case r of OutWorker a \<Rightarrow> a | OutExport a _ \<Rightarrow> a | _ \<Rightarrow> [])"

fun pull_xrefs :: "outside \<Rightarrow> pystr \<Rightarrow> pystr \<Rightarrow> pyval list \<Rightarrow> pyval list \<Rightarrow> attrs list \<Rightarrow> attrs list tool_m" where
  "pull_xrefs out caller sid [] xrefs results = lift (Inr results)"
| "pull_xrefs out caller sid (ranking # rankings) xrefs results =
     (if length xrefs \<ge> MAX_ATLAS_XREFS then lift (Inr results)
      else
        after (handle_xrefs_to out caller sid (model_of
                 [(''session_id'', PyStr sid), (''target'', item_attr ranking ''address''),
                  (''limit'', PyInt MAX_ATLAS_XREFS_PER_TARGET)])) (\<lambda>r.
          pull_xrefs out caller sid rankings
            (xrefs @ take (MAX_ATLAS_XREFS - length xrefs) (items (attr (worker_attrs r) ''xrefs'')))
            (results @ [worker_attrs r])))"

definition gather_atlas :: "outside \<Rightarrow> pystr \<Rightarrow> pystr \<Rightarrow> attrs list tool_m" where
  "gather_atlas out caller sid =
     after (handle_program_summary out caller sid
              (model_of [(''session_id'', PyStr sid), (''include_call_graph'', PyBool True)])) (\<lambda>summary.
     after (handle_call_graph out caller sid (model_of
              [(''session_id'', PyStr sid), (''max_nodes'', PyInt 2000), (''max_edges'', PyInt 8000)])) (\<lambda>graph.
     after (handle_list_functions out caller sid
              (model_of [(''session_id'', PyStr sid), (''limit'', PyInt 2000)])) (\<lambda>functions.
     after (pull_xrefs out caller sid
              (take MAX_ATLAS_XREF_TARGETS
                (items (item_attr (attr (worker_attrs summary) ''call_graph_metrics'') ''top_fan_in''))) [] []) (\<lambda>xrefs.
       lift (Inr (worker_attrs summary # worker_attrs graph # worker_attrs functions # xrefs))))))"

definition store_report :: "outside \<Rightarrow> pystr \<Rightarrow> report \<Rightarrow> tool_out tool_m" where
  "store_report out sid rep w =
     (let env = env_at out (length (w_log w)) in
      case rep of (man, fs, page, atl) \<Rightarrow>
        (case put_report (fresh_id env) (now env) sid man fs page atl (w_reports w) of
           (stored, rs) \<Rightarrow> (Inr (OutReport stored), w\<lparr>w_reports := rs\<rparr>)))"

definition handle_session_generate_report :: "outside \<Rightarrow> pystr \<Rightarrow> pystr \<Rightarrow> attrs \<Rightarrow> tool_out tool_m" where
  "handle_session_generate_report out caller sid a =
     after (authorized out caller sid) (\<lambda>_.
     after (handle_session_export_annotations out caller sid) (\<lambda>export.
     after (if flag a ''atlas'' then gather_atlas out caller sid else lift (Inr [])) (\<lambda>parts.
       store_report out sid (compose out a (worker_attrs export # parts)))))"

text \<open>Replaying an entry of a document: the live validator, then the handler of the write.\<close>

definition entry_kind :: "Entry \<Rightarrow> string" where
  "entry_kind e = (case e of
     RenameFunctionEntry _ _ \<Rightarrow> ''rename_function'' | RenameSymbolEntry _ _ \<Rightarrow> ''rename_symbol''
   | RenameLocalVariableEntry _ _ _ \<Rightarrow> ''rename_local_variable''
   | RenameParameterEntry _ _ _ \<Rightarrow> ''rename_parameter'' | SetCommentEntry _ _ _ \<Rightarrow> ''set_comment''
   | SetFunctionSignatureEntry _ \<Rightarrow> ''set_function_signature'' | ApplyDataTypeEntry _ _ _ \<Rightarrow> ''apply_data_type''
   | DefineTypesEntry _ \<Rightarrow> ''define_types'' | DefineStructEntry _ _ _ \<Rightarrow> ''define_struct''
   | DefineUnionEntry _ _ \<Rightarrow> ''define_union'')"

definition STRUCTURAL_ENTRY_KINDS :: "string list" where
  "STRUCTURAL_ENTRY_KINDS =
     [''rename_local_variable'', ''rename_parameter'', ''set_function_signature'', ''apply_data_type'',
      ''define_struct'', ''define_union'', ''define_types'']"

definition replay_entry :: "outside \<Rightarrow> pystr \<Rightarrow> pystr \<Rightarrow> Entry \<Rightarrow> tool_out tool_m" where
  "replay_entry out caller sid e =
     (let model = (\<lambda>kvs. model_of ((''session_id'', PyStr sid) # kvs)) in
      after (lift (validate_entry e)) (\<lambda>_.
        case e of
          RenameFunctionEntry f n \<Rightarrow>
            handle_rename_function out caller sid (model [(''function'', PyStr f), (''new_name'', PyStr n)])
        | RenameSymbolEntry i n \<Rightarrow>
            handle_rename_symbol out caller sid (model [(''identifier'', PyStr i), (''new_name'', PyStr n)])
        | RenameLocalVariableEntry f v n \<Rightarrow>
            handle_rename_local_variable out caller sid
              (model [(''function'', PyStr f), (''variable'', PyStr v), (''new_name'', PyStr n)])
        | RenameParameterEntry f p n \<Rightarrow>
            handle_rename_parameter out caller sid
              (model [(''function'', PyStr f), (''parameter'', PyStr p), (''new_name'', PyStr n)])
        | SetCommentEntry ad ct t \<Rightarrow>
            handle_set_comment out caller sid
              (model [(''address'', PyStr ad), (''comment_type'', PyStr ct), (''text'', opt_str t)])
        | SetFunctionSignatureEntry sig \<Rightarrow> handle_set_function_signature out caller sid sig
        | ApplyDataTypeEntry ad ref clear \<Rightarrow>
            handle_apply_data_type out caller sid ref
              (model [(''address'', PyStr ad), (''clear_existing'', PyBool clear)])
        | DefineTypesEntry types \<Rightarrow> handle_define_types out caller sid types
        | DefineStructEntry n fs packed \<Rightarrow>
            handle_define_struct out caller sid n fs (model [(''name'', PyStr n), (''packed'', PyBool packed)])
        | DefineUnionEntry n fs \<Rightarrow> handle_define_union out caller sid n fs (model [(''name'', PyStr n)])))"

text \<open>The per-entry loop: a \<open>GhidraMcpError\<close> is an outcome, any other exception leaves the handler.\<close>

fun replay_all ::
  "outside \<Rightarrow> pystr \<Rightarrow> pystr \<Rightarrow> nat \<Rightarrow> Entry list \<Rightarrow> (nat \<times> string \<times> ErrorType option) list tool_m" where
  "replay_all out caller sid i [] w = (Inr [], w)"
| "replay_all out caller sid i (e # es) w =
     (case replay_entry out caller sid e w of
        (Inl (GhidraMcpError env), w') \<Rightarrow>
          (case replay_all out caller sid (Suc i) es w' of
             (r, w'') \<Rightarrow> (map_sum id (Cons (i, entry_kind e, Some (err_type env))) r, w''))
      | (Inl x, w') \<Rightarrow> (Inl x, w')
      | (Inr _, w') \<Rightarrow>
          (case replay_all out caller sid (Suc i) es w' of
             (r, w'') \<Rightarrow> (map_sum id (Cons (i, entry_kind e, None)) r, w'')))"

definition lowered :: "pystr \<Rightarrow> pystr" where
  "lowered s = map lower_char s"

definition handle_session_import_annotations ::
  "outside \<Rightarrow> pystr \<Rightarrow> pystr \<Rightarrow> AnnotationDocument \<Rightarrow> tool_out tool_m" where
  "handle_session_import_annotations out caller sid doc =
     after (lift (validate_annotation_document doc)) (\<lambda>_.
     after (authorized out caller sid) (\<lambda>info.
     after (lift (if map_option lowered (info_binary_sha256 info) \<noteq> Some (lowered (doc_sha256 doc))
                  then Inl (validation_error ''annotation document does not match this session's binary'')
                  else Inr ())) (\<lambda>_.
     after (consented out False caller sid) (\<lambda>_.
     after (if list_ex (\<lambda>e. entry_kind e \<in> set STRUCTURAL_ENTRY_KINDS) (entries doc)
            then after (consented out True caller sid) (\<lambda>_. lift (Inr ())) else lift (Inr ())) (\<lambda>_.
     after (replay_all out caller sid 0 (entries doc)) (\<lambda>outcomes.
       let total = length (entries doc); applied = length (filter (\<lambda>(_, _, reason). reason = None) outcomes)
       in lift (Inr (OutImport sid total applied (total - applied) outcomes))))))))"

subsection \<open>Streaming handlers\<close>

text \<open>An explicit set of functions bounds the job; a bound of zero is refused by the model class.\<close>

definition to_server_stream_start :: "attrs \<Rightarrow> exc + attrs" where
  "to_server_stream_start a = (case attr a ''functions'' of
     PyList fs \<Rightarrow>
       if fs = [] then Inl PydanticError
       else Inr (model_of [(''session_id'', attr a ''session_id''), (''offset'', PyInt 0),
              (''limit'', PyInt (int (length fs))), (''functions'', PyList fs)])
   | _ \<Rightarrow> Inr (model_of [(''session_id'', attr a ''session_id''), (''offset'', PyInt 0), (''limit'', PyInt 100),
              (''functions'', PyNone)]))"

definition job_handle :: "pystr \<Rightarrow> pyval \<Rightarrow> tool_in" where
  "job_handle sid job = Plain (model_of [(''session_id'', PyStr sid), (''job_id'', job)])"

definition terminal_name :: "pyval \<Rightarrow> bool" where
  "terminal_name v \<longleftrightarrow> v \<in> {PyStr (ascii ''done''), PyStr (ascii ''error''), PyStr (ascii ''cancelled'')}"

definition handle_start_decompile_stream :: "outside \<Rightarrow> pystr \<Rightarrow> pystr \<Rightarrow> attrs \<Rightarrow> tool_out tool_m" where
  "handle_start_decompile_stream out caller sid a =
     after (authorized out caller sid) (\<lambda>_.
     after (lift (to_server_stream_start a)) (\<lambda>server_args.
     after (call_port out ''start_decompile_stream'' sid (Plain server_args)) (\<lambda>started.
     after (call_port out ''job_status'' sid (job_handle sid (attr started ''job_id''))) (\<lambda>st.
       lift (Inr (OutWorker (model_of
         [(''job'', attr started ''job_id''), (''total_estimate'', attr st ''total''), (''state'', attr st ''state'')])))))))"

definition chunk_out :: "pyval \<Rightarrow> pyval" where
  "chunk_out c = PyDict (model_of
     [(''seq'', item_attr c ''seq''), (''address'', item_attr (item_attr c ''function'') ''address''),
      (''name'', item_attr (item_attr c ''function'') ''name''), (''code'', item_attr (item_attr c ''function'') ''c_code''),
      (''signature'', item_attr (item_attr c ''function'') ''signature'')])"

definition handle_fetch_job_results :: "outside \<Rightarrow> pystr \<Rightarrow> pystr \<Rightarrow> attrs \<Rightarrow> tool_out tool_m" where
  "handle_fetch_job_results out caller sid a =
     after (authorized out caller sid) (\<lambda>_.
     after (call_port out ''fetch_job_results'' sid (Plain (model_of
              [(''session_id'', PyStr sid), (''job_id'', attr a ''job''), (''cursor'', attr a ''cursor''),
               (''limit'', attr a ''limit'')]))) (\<lambda>r.
       lift (Inr (OutWorker (model_of
         [(''chunks'', PyList (map chunk_out (items (attr r ''chunks'')))), (''next_cursor'', attr r ''cursor''),
          (''done'', attr r ''done''), (''truncated'', attr r ''truncated'')])))))"

definition handle_job_status :: "outside \<Rightarrow> pystr \<Rightarrow> pystr \<Rightarrow> attrs \<Rightarrow> tool_out tool_m" where
  "handle_job_status out caller sid a =
     after (authorized out caller sid) (\<lambda>_.
     after (call_port out ''job_status'' sid (job_handle sid (attr a ''job''))) (\<lambda>st.
       lift (Inr (OutWorker (model_of
         [(''state'', attr st ''state''), (''phase'', attr st ''state''), (''done'', PyBool (terminal_name (attr st ''state''))),
          (''total'', attr st ''total''), (''buffered'', attr st ''buffered''), (''eta_seconds'', attr st ''eta_seconds''),
          (''started_at'', attr st ''elapsed_seconds'')])))))"

definition handle_cancel_job :: "outside \<Rightarrow> pystr \<Rightarrow> pystr \<Rightarrow> attrs \<Rightarrow> tool_out tool_m" where
  "handle_cancel_job out caller sid a =
     after (authorized out caller sid) (\<lambda>_.
     after (call_port out ''cancel_job'' sid (job_handle sid (attr a ''job''))) (\<lambda>st.
       lift (Inr (OutWorker (model_of [(''cancelled'', PyBool (terminal_name (attr st ''state'')))])))))"

subsection \<open>The table\<close>

definition TIER1_TOOL_NAMES :: "string list" where
  "TIER1_TOOL_NAMES =
     [''session_create'', ''session_import'', ''session_analyze'', ''session_status'', ''session_close'',
      ''decompile_function'', ''disassemble'', ''get_pcode'', ''get_high_pcode'', ''data_flow_slice'',
      ''recover_struct'', ''deobfuscate_strings'', ''stack_frame'', ''basic_blocks'',
      ''list_data_types'', ''function_hash'', ''program_fingerprint'', ''family_match'',
      ''bsim_similarity'', ''find_similar_functions'', ''version_track'', ''binary_diff'',
      ''bsim_search_corpus'', ''list_functions'', ''get_function'', ''xrefs_to'', ''xrefs_from'',
      ''list_strings'', ''ramdisk_list'', ''list_cache_components'', ''list_symbols'', ''get_symbol'',
      ''list_data'', ''get_data_type'', ''get_comments'', ''memory_map'', ''read_bytes'', ''emulate'',
      ''demangle'', ''search_bytes'', ''search_strings'', ''program_metadata'', ''call_graph'',
      ''callees'', ''callers'', ''analysis_order'', ''function_context'', ''cyclomatic_complexity'',
      ''list_imports'', ''list_exports'', ''coverage'', ''ioc_scan'', ''crypto_constant_scan'',
      ''crypto_detect'', ''capability_scan'', ''secret_scan'', ''call_graph_metrics'',
      ''program_summary'', ''identify_functions'', ''session_enable_writes'', ''session_disable_writes'',
      ''session_undo'', ''rename_function'', ''rename_symbol'', ''set_comment'',
      ''rename_local_variable'', ''rename_parameter'', ''set_function_signature'', ''apply_data_type'',
      ''apply_type_archive'', ''define_struct'', ''define_union'', ''define_types'', ''delete_type'',
      ''session_export_annotations'', ''session_import_annotations'', ''session_generate_report'',
      ''start_decompile_stream'', ''fetch_job_results'', ''job_status'', ''cancel_job'']"

definition WRITE_TOOLS :: "string list" where
  "WRITE_TOOLS =
     [''session_enable_writes'', ''session_disable_writes'', ''session_undo'', ''rename_function'',
      ''rename_symbol'', ''set_comment'', ''rename_local_variable'', ''rename_parameter'',
      ''set_function_signature'', ''apply_data_type'', ''apply_type_archive'', ''define_struct'',
      ''define_union'', ''define_types'', ''delete_type'', ''session_import_annotations'']"

definition NO_WORKER_REQUIRED_TOOLS :: "string list" where
  "NO_WORKER_REQUIRED_TOOLS =
     [''session_import'', ''session_status'', ''session_close'', ''session_enable_writes'',
      ''session_disable_writes'', ''session_generate_report'']"

text \<open>
  A handler takes the arguments its schema class accepts; a model of another class cannot be built
  from the same arguments, which is the \<open>ValidationError\<close> of the other branches.
\<close>

type_synonym handler = "outside \<Rightarrow> pystr \<Rightarrow> pystr \<Rightarrow> tool_in \<Rightarrow> tool_out tool_m"

definition plain :: "(outside \<Rightarrow> pystr \<Rightarrow> pystr \<Rightarrow> attrs \<Rightarrow> tool_out tool_m) \<Rightarrow> handler" where
  "plain h out caller sid a = (case a of Plain d \<Rightarrow> h out caller sid d | _ \<Rightarrow> lift (Inl PydanticError))"

definition signed :: "(outside \<Rightarrow> pystr \<Rightarrow> pystr \<Rightarrow> SetFunctionSignatureIn \<Rightarrow> tool_out tool_m) \<Rightarrow> handler" where
  "signed h out caller sid a = (case a of SignatureIn sig \<Rightarrow> h out caller sid sig | _ \<Rightarrow> lift (Inl PydanticError))"

definition typed :: "(outside \<Rightarrow> pystr \<Rightarrow> pystr \<Rightarrow> TypeRef \<Rightarrow> attrs \<Rightarrow> tool_out tool_m) \<Rightarrow> handler" where
  "typed h out caller sid a = (case a of ApplyTypeIn ref d \<Rightarrow> h out caller sid ref d | _ \<Rightarrow> lift (Inl PydanticError))"

definition composite ::
  "(outside \<Rightarrow> pystr \<Rightarrow> pystr \<Rightarrow> pystr \<Rightarrow> FieldSpec list \<Rightarrow> attrs \<Rightarrow> tool_out tool_m) \<Rightarrow> handler" where
  "composite h out caller sid a =
     (case a of CompositeIn n fs d \<Rightarrow> h out caller sid n fs d | _ \<Rightarrow> lift (Inl PydanticError))"

definition batch :: "(outside \<Rightarrow> pystr \<Rightarrow> pystr \<Rightarrow> CompositeSpec list \<Rightarrow> tool_out tool_m) \<Rightarrow> handler" where
  "batch h out caller sid a = (case a of BatchIn types \<Rightarrow> h out caller sid types | _ \<Rightarrow> lift (Inl PydanticError))"

definition document :: "(outside \<Rightarrow> pystr \<Rightarrow> pystr \<Rightarrow> AnnotationDocument \<Rightarrow> tool_out tool_m) \<Rightarrow> handler" where
  "document h out caller sid a = (case a of DocumentIn doc \<Rightarrow> h out caller sid doc | _ \<Rightarrow> lift (Inl PydanticError))"

definition HANDLERS :: "(string, handler) dict" where
  "HANDLERS =
     [(''session_create'', (\<lambda>out caller sid a. handle_session_create out caller)),
      (''session_import'', plain handle_session_import),
      (''session_analyze'', plain handle_session_analyze),
      (''session_status'', (\<lambda>out caller sid a. handle_session_status out caller sid)),
      (''session_close'', (\<lambda>out caller sid a. handle_session_close out caller sid)),
      (''decompile_function'', plain handle_decompile_function),
      (''disassemble'', plain handle_disassemble),
      (''get_pcode'', plain handle_get_pcode),
      (''get_high_pcode'', plain handle_get_high_pcode),
      (''data_flow_slice'', plain handle_data_flow_slice),
      (''recover_struct'', plain handle_recover_struct),
      (''deobfuscate_strings'', plain handle_deobfuscate_strings),
      (''stack_frame'', plain handle_stack_frame),
      (''basic_blocks'', plain handle_basic_blocks),
      (''list_data_types'', plain handle_list_data_types),
      (''function_hash'', plain handle_function_hash),
      (''program_fingerprint'', plain handle_program_fingerprint),
      (''family_match'', plain handle_family_match),
      (''bsim_similarity'', plain handle_bsim_similarity),
      (''find_similar_functions'', plain handle_find_similar_functions),
      (''version_track'', plain handle_version_track),
      (''binary_diff'', plain handle_binary_diff),
      (''bsim_search_corpus'', plain handle_bsim_search_corpus),
      (''list_functions'', plain handle_list_functions),
      (''get_function'', plain handle_get_function),
      (''xrefs_to'', plain handle_xrefs_to),
      (''xrefs_from'', plain handle_xrefs_from),
      (''list_strings'', plain handle_list_strings),
      (''ramdisk_list'', plain handle_ramdisk_list),
      (''list_cache_components'', plain handle_list_cache_components),
      (''list_symbols'', plain handle_list_symbols),
      (''get_symbol'', plain handle_get_symbol),
      (''list_data'', plain handle_list_data),
      (''get_data_type'', plain handle_get_data_type),
      (''get_comments'', plain handle_get_comments),
      (''memory_map'', plain handle_memory_map),
      (''read_bytes'', plain handle_read_bytes),
      (''emulate'', plain handle_emulate),
      (''demangle'', plain handle_demangle),
      (''search_bytes'', plain handle_search_bytes),
      (''search_strings'', plain handle_search_strings),
      (''program_metadata'', plain handle_program_metadata),
      (''call_graph'', plain handle_call_graph),
      (''callees'', plain handle_callees),
      (''callers'', plain handle_callers),
      (''analysis_order'', plain handle_analysis_order),
      (''function_context'', plain handle_function_context),
      (''cyclomatic_complexity'', plain handle_cyclomatic_complexity),
      (''list_imports'', plain handle_list_imports),
      (''list_exports'', plain handle_list_exports),
      (''coverage'', plain handle_coverage),
      (''ioc_scan'', plain handle_ioc_scan),
      (''crypto_constant_scan'', plain handle_crypto_constant_scan),
      (''crypto_detect'', plain handle_crypto_detect),
      (''capability_scan'', plain handle_capability_scan),
      (''secret_scan'', plain handle_secret_scan),
      (''call_graph_metrics'', plain handle_call_graph_metrics),
      (''program_summary'', plain handle_program_summary),
      (''identify_functions'', plain handle_identify_functions),
      (''session_enable_writes'', plain handle_session_enable_writes),
      (''session_disable_writes'', (\<lambda>out caller sid a. handle_session_disable_writes out caller sid)),
      (''session_undo'', plain handle_session_undo),
      (''rename_function'', plain handle_rename_function),
      (''rename_symbol'', plain handle_rename_symbol),
      (''set_comment'', plain handle_set_comment),
      (''rename_local_variable'', plain handle_rename_local_variable),
      (''rename_parameter'', plain handle_rename_parameter),
      (''set_function_signature'', signed handle_set_function_signature),
      (''apply_data_type'', typed handle_apply_data_type),
      (''apply_type_archive'', plain handle_apply_type_archive),
      (''define_struct'', composite handle_define_struct),
      (''define_union'', composite handle_define_union),
      (''define_types'', batch handle_define_types),
      (''delete_type'', plain handle_delete_type),
      (''session_export_annotations'', (\<lambda>out caller sid a. handle_session_export_annotations out caller sid)),
      (''session_import_annotations'', document handle_session_import_annotations),
      (''session_generate_report'', plain handle_session_generate_report),
      (''start_decompile_stream'', plain handle_start_decompile_stream),
      (''fetch_job_results'', plain handle_fetch_job_results),
      (''job_status'', plain handle_job_status),
      (''cancel_job'', plain handle_cancel_job)]"

subsection \<open>The dispatch chokepoint\<close>

definition required_capability :: "string \<Rightarrow> string" where
  "required_capability name = (if name \<in> set WRITE_TOOLS then CAP_WRITE else CAP_READ)"

definition capability_denied :: exc where
  "capability_denied = new_error \<lparr> err_type = FORBIDDEN, title = ascii ''Forbidden'',
     detail = ascii ''The access token lacks the capability required for this tool.'',
     status = Some 403, correlation_id = None, retryable = False \<rparr>"

definition authorize_capability :: "Principal \<Rightarrow> string \<Rightarrow> exc + unit" where
  "authorize_capability p name =
     (if required_capability name \<in> capabilities p then Inr () else Inl capability_denied)"

definition mark :: "outside \<Rightarrow> (sm_env \<Rightarrow> SessionManager \<Rightarrow> SessionManager) \<Rightarrow> world \<Rightarrow> world" where
  "mark out op w =
     (let n = length (w_log w); env = env_at out n; m = others out n (w_sm w)
      in w\<lparr>w_sm := op env m, w_log := w_log w @ [Met env m]\<rparr>)"

text \<open>
  \<open>_bind\<close>, and \<open>_bind_analyze\<close> with its relay of progress left out: the capability check, the schema
  (what it made of the arguments is an argument), the in-flight mark with its release in a
  \<open>finally\<close>, the worker guard, the handler. The principal is what the context's resolver gives for
  the request; it gives the same at every use.
\<close>

definition guarded_handler :: "outside \<Rightarrow> string \<Rightarrow> handler \<Rightarrow> pystr \<Rightarrow> pystr \<Rightarrow> tool_in \<Rightarrow> tool_out tool_m" where
  "guarded_handler out name h caller sid a =
     after (if name \<notin> set NO_WORKER_REQUIRED_TOOLS
            then sessions_do out (\<lambda>env. require_worker_started env sid caller) else lift (Inr ())) (\<lambda>_.
       h out caller sid a)"

text \<open>
  The schema classes: \<open>SessionCreateIn\<close> has no \<open>session_id\<close> and forbids an extra field, every other
  input class requires one.
\<close>

definition schema_session :: "string \<Rightarrow> pystr option \<times> tool_in \<Rightarrow> exc + pystr option \<times> tool_in" where
  "schema_session name model =
     (if (fst model = None) = (name = ''session_create'') then Inr model else Inl PydanticError)"

definition bound ::
  "outside \<Rightarrow> exc + Principal \<Rightarrow> string \<Rightarrow> exc + pystr option \<times> tool_in \<Rightarrow> tool_out tool_m" where
  "bound out resolved name parsed =
     after (lift resolved) (\<lambda>p.
     after (lift (authorize_capability p name)) (\<lambda>_.
     after (lift parsed) (\<lambda>model.
     after (lift (schema_session name model)) (\<lambda>(session, a).
       case dict_get HANDLERS name of
         None \<Rightarrow> lift (Inl KeyError)
       | Some h \<Rightarrow>
           (case session of
              None \<Rightarrow> h out (principal_id p) [] a
            | Some sid \<Rightarrow>
                (\<lambda>w. finally_do (guarded_handler out name h (principal_id p) sid a)
                   (mark out (\<lambda>env. end_call env sid (Some (principal_id p))))
                   (mark out (\<lambda>env. begin_call env sid (Some (principal_id p))) w)))))))"

subsection \<open>The error boundary of the server\<close>

definition validation_envelope :: "pystr \<Rightarrow> ErrorEnvelope" where
  "validation_envelope cid = \<lparr> err_type = VALIDATION, title = ascii ''Invalid arguments'',
     detail = ascii ''One or more arguments failed validation.'', status = Some 400,
     correlation_id = Some cid, retryable = False \<rparr>"

definition internal_envelope :: "pystr \<Rightarrow> ErrorEnvelope" where
  "internal_envelope cid = \<lparr> err_type = INTERNAL, title = ascii ''Internal error'',
     detail = ascii ''An unexpected error occurred. The incident was logged for investigation.'',
     status = Some 500, correlation_id = Some cid, retryable = False \<rparr>"

definition to_envelope :: "pystr \<Rightarrow> exc \<Rightarrow> ErrorEnvelope" where
  "to_envelope cid e = (case e of
     GhidraMcpError env \<Rightarrow> if correlation_id env = None then env\<lparr>correlation_id := Some cid\<rparr> else env
   | PydanticError \<Rightarrow> validation_envelope cid
   | _ \<Rightarrow> internal_envelope cid)"

definition tool_answer ::
  "outside \<Rightarrow> pystr \<Rightarrow> exc + Principal \<Rightarrow> string \<Rightarrow> exc + pystr option \<times> tool_in \<Rightarrow> world \<Rightarrow>
   (ErrorEnvelope + tool_out) \<times> world" where
  "tool_answer out cid resolved name parsed w =
     (case bound out resolved name parsed w of (r, w') \<Rightarrow> (map_sum (to_envelope cid) id r, w'))"

text \<open>The resolver of the HTTP transport reads the principal the authentication layer left.\<close>

definition http_principal :: "Principal option \<Rightarrow> exc + Principal" where
  "http_principal stashed = (case stashed of
     Some p \<Rightarrow> Inr p
   | None \<Rightarrow> Inl (new_error \<lparr> err_type = INTERNAL, title = ascii ''Internal error'',
       detail = ascii ''Authenticated principal missing from the request context.'',
       status = Some 500, correlation_id = None, retryable = False \<rparr>))"

end
