(* ===== verification/Registry_Props.thy ===== *)
theory Registry_Props
  imports Registry Session_Machine
begin

text \<open>
  Complete mediation at the tool boundary: every method of the worker port a tool call invokes is
  covered by an ownership check of the same call, and every write by a consent check.
\<close>

subsection \<open>Logs\<close>

definition WRITE_METHODS :: "string list" where
  "WRITE_METHODS = [''undo'', ''rename_function'', ''rename_symbol'', ''set_comment'']"

definition STRUCTURAL_METHODS :: "string list" where
  "STRUCTURAL_METHODS =
     [''rename_local_variable'', ''rename_parameter'', ''set_function_signature'', ''apply_data_type'',
      ''apply_type_archive'', ''define_struct'', ''define_union'', ''define_types'', ''delete_type'']"

text \<open>How much a session must have granted: to be live and owned, to be writable, structurally.\<close>

definition needs :: "string \<Rightarrow> nat" where
  "needs meth = (if meth \<in> set STRUCTURAL_METHODS then 3 else if meth \<in> set WRITE_METHODS then 2 else 1)"

definition grants :: "nat \<Rightarrow> pystr \<Rightarrow> pystr \<Rightarrow> sm_env \<Rightarrow> SessionManager \<Rightarrow> bool" where
  "grants k caller sid env m \<longleftrightarrow> live_owned env sid caller m \<and>
     (\<exists>s. dict_get (sessions m) sid = Some s \<and> (k \<ge> 2 \<longrightarrow> writes_enabled s) \<and> (k \<ge> 3 \<longrightarrow> allow_structural s))"

definition checked_to :: "nat \<Rightarrow> pystr \<Rightarrow> pystr \<Rightarrow> log_entry list \<Rightarrow> bool" where
  "checked_to k caller sid lg \<longleftrightarrow> k = 0 \<or> (\<exists>env m. Met env m \<in> set lg \<and> grants k caller sid env m)"

definition mediated :: "pystr \<Rightarrow> pystr \<Rightarrow> log_entry list \<Rightarrow> bool" where
  "mediated caller sid lg \<longleftrightarrow>
     (\<forall>before meth sid' a later. lg = before @ Called meth sid' a # later \<longrightarrow>
        sid' = sid \<and> checked_to (needs meth) caller sid before)"

lemma mediated_Nil [simp]: "mediated caller sid []"
  by (simp add: mediated_def)

lemma mediated_Met [simp]: "mediated caller sid (lg @ [Met env m]) \<longleftrightarrow> mediated caller sid lg"
proof
  show "mediated caller sid lg" if "mediated caller sid (lg @ [Met env m])"
    using that unfolding mediated_def by (metis append.assoc append_Cons)
next
  assume med: "mediated caller sid lg"
  show "mediated caller sid (lg @ [Met env m])"
    unfolding mediated_def
  proof (intro allI impI)
    fix before meth sid' a later
    assume eq: "lg @ [Met env m] = before @ Called meth sid' a # later"
    then obtain later' where "later = later' @ [Met env m]" "lg = before @ Called meth sid' a # later'"
      by (cases later rule: rev_cases) auto
    with med show "sid' = sid \<and> checked_to (needs meth) caller sid before" unfolding mediated_def by blast
  qed
qed

lemma mediated_Called [simp]:
  "mediated caller sid (lg @ [Called meth sid' a]) \<longleftrightarrow>
     mediated caller sid lg \<and> sid' = sid \<and> checked_to (needs meth) caller sid lg"
proof
  assume med: "mediated caller sid (lg @ [Called meth sid' a])"
  then have "mediated caller sid lg"
    unfolding mediated_def by (metis append.assoc append_Cons)
  with med show "mediated caller sid lg \<and> sid' = sid \<and> checked_to (needs meth) caller sid lg"
    unfolding mediated_def by blast
next
  assume h: "mediated caller sid lg \<and> sid' = sid \<and> checked_to (needs meth) caller sid lg"
  show "mediated caller sid (lg @ [Called meth sid' a])"
    unfolding mediated_def
  proof (intro allI impI)
    fix before meth' sid'' a' later
    assume eq: "lg @ [Called meth sid' a] = before @ Called meth' sid'' a' # later"
    show "sid'' = sid \<and> checked_to (needs meth') caller sid before"
    proof (cases later rule: rev_cases)
      case Nil
      then show ?thesis using eq h by simp
    next
      case (snoc later' e)
      then have "lg = before @ Called meth' sid'' a' # later'" using eq by simp
      then show ?thesis using h unfolding mediated_def by blast
    qed
  qed
qed

lemma checked_to_more: "checked_to k caller sid lg \<Longrightarrow> checked_to k caller sid (lg @ rest)"
  by (auto simp: checked_to_def)

lemma checked_to_le: "checked_to k caller sid lg \<Longrightarrow> j \<le> k \<Longrightarrow> checked_to j caller sid lg"
  unfolding checked_to_def grants_def by (cases "j = 0") (auto dest: order_trans)

subsection \<open>A logic for tool calls\<close>

text \<open>
  \<open>mediates\<close>: from a lg that has been checked to \<open>k\<close>, the lg only grows and stays mediated.
\<close>

definition mediates :: "pystr \<Rightarrow> pystr \<Rightarrow> nat \<Rightarrow> 'a tool_m \<Rightarrow> bool" where
  "mediates caller sid k f \<longleftrightarrow>
     (\<forall>w. checked_to k caller sid (w_log w) \<longrightarrow> mediated caller sid (w_log w) \<longrightarrow>
        mediated caller sid (w_log (snd (f w))) \<and> (\<exists>rest. w_log (snd (f w)) = w_log w @ rest))"

definition ensures :: "pystr \<Rightarrow> pystr \<Rightarrow> nat \<Rightarrow> 'a tool_m \<Rightarrow> bool" where
  "ensures caller sid k f \<longleftrightarrow> (\<forall>w x w'. f w = (Inr x, w') \<longrightarrow> checked_to k caller sid (w_log w'))"

named_theorems mediation \<open>rules of the logic, as conditional rewrite rules\<close>

lemma mediates_after_check:
  assumes f: "mediates caller sid k f" "ensures caller sid j f" and g: "\<And>x. mediates caller sid (max k j) (g x)"
  shows "mediates caller sid k (after f g)"
  unfolding mediates_def
proof (intro allI impI)
  fix w :: world assume w: "checked_to k caller sid (w_log w)" "mediated caller sid (w_log w)"
  obtain r w1 where fw: "f w = (r, w1)" by (cases "f w")
  with f(1) w obtain rest where w1: "mediated caller sid (w_log w1)" "w_log w1 = w_log w @ rest"
    unfolding mediates_def by (metis snd_conv)
  show "mediated caller sid (w_log (snd (after f g w))) \<and> (\<exists>rest. w_log (snd (after f g w)) = w_log w @ rest)"
  proof (cases r)
    case (Inl e)
    then show ?thesis using fw w1 by (auto simp: after_def)
  next
    case (Inr x)
    have "checked_to j caller sid (w_log w1)" using f(2) fw Inr unfolding ensures_def by blast
    moreover have "checked_to k caller sid (w_log w1)" using w(1) w1(2) by (simp add: checked_to_more)
    ultimately have "checked_to (max k j) caller sid (w_log w1)" by (simp add: max_def)
    then show ?thesis using g [of x] w1 fw Inr unfolding mediates_def by (fastforce simp: after_def)
  qed
qed

lemma ensures_0 [simp]: "ensures caller sid 0 f"
  by (simp add: ensures_def checked_to_def)

lemma mediates_after [mediation]:
  "mediates caller sid k f \<Longrightarrow> (\<And>x. mediates caller sid k (g x)) \<Longrightarrow> mediates caller sid k (after f g)"
  using mediates_after_check [of caller sid k f 0 g] by simp

lemma mediates_lift [mediation]: "mediates caller sid k (lift r)"
  by (simp add: mediates_def lift_def)

lemma mediates_sessions [mediation]: "mediates caller sid k (sessions_do out op)"
  by (auto simp: mediates_def sessions_do_def Let_def split: prod.splits)

lemma mediates_port [mediation]: "needs meth \<le> k \<Longrightarrow> mediates caller sid k (call_port out meth sid a)"
  by (auto simp: mediates_def call_port_def intro: checked_to_le)

lemma mediates_If [mediation]:
  "(b \<Longrightarrow> mediates caller sid k f) \<Longrightarrow> (\<not> b \<Longrightarrow> mediates caller sid k g) \<Longrightarrow>
   mediates caller sid k (if b then f else g)"
  by simp

lemma mediates_weaken: "mediates caller sid 0 f \<Longrightarrow> mediates caller sid k f"
  by (auto simp: mediates_def checked_to_def)

lemma ensures_sessions:
  assumes "\<And>env m r. fst (op env m) = Inr r \<Longrightarrow> grants k caller sid env m"
  shows "ensures caller sid k (sessions_do out op)"
proof -
  have "checked_to k caller sid (w_log w')" if "sessions_do out op w = (Inr x, w')" for w :: world and x w'
  proof -
    let ?env = "env_at out (length (w_log w))" and ?m = "others out (length (w_log w)) (w_sm w)"
    from that have "fst (op ?env ?m) = Inr x" "w_log w' = w_log w @ [Met ?env ?m]"
      by (auto simp: sessions_do_def Let_def split: prod.splits)
    with assms [of ?env ?m x] show ?thesis by (auto simp: checked_to_def)
  qed
  then show ?thesis by (simp add: ensures_def)
qed

lemma granted_owner:
  assumes "fst (authorize env sid caller m) = Inr info"
  shows "grants 1 caller sid env m"
proof -
  have "live_owned env sid caller m"
    using authorize.denied [of env sid caller m] assms by (cases "live_owned env sid caller m") auto
  then show ?thesis by (auto simp: grants_def elim: get_live_granted)
qed

lemma granted_consent:
  assumes "fst (require_write_consent structural env sid caller m) = Inr info"
  shows "grants (if structural then 3 else 2) caller sid env m"
proof -
  have live: "live_owned env sid caller m"
    using require_write_consent.denied [of env sid caller m structural] assms
    by (cases "live_owned env sid caller m") auto
  then obtain s where s: "dict_get (sessions m) sid = Some s" "owner s = caller"
    "get_live_locked env sid caller m = (Inr (s\<lparr>last_used_mono := now env\<rparr>),
       m\<lparr>sessions := dict_set sid (s\<lparr>last_used_mono := now env\<rparr>) (sessions m)\<rparr>)"
    by (rule get_live_granted)
  with assms have "writes_enabled s" "structural \<longrightarrow> allow_structural s"
    by (auto simp: require_write_consent_def with_live_def split: if_splits)
  then show ?thesis using live s(1) by (auto simp: grants_def)
qed

lemma ensures_authorized: "ensures caller sid 1 (authorized out caller sid)"
  unfolding authorized_def by (rule ensures_sessions) (erule granted_owner)

lemma ensures_consented: "ensures caller sid (if structural then 3 else 2) (consented out structural caller sid)"
  unfolding consented_def by (rule ensures_sessions) (erule granted_consent)

lemma mediates_authorized [mediation]:
  "(\<And>x. mediates caller sid (max k 1) (g x)) \<Longrightarrow> mediates caller sid k (after (authorized out caller sid) g)"
  by (rule mediates_after_check [OF _ ensures_authorized]) (simp_all add: authorized_def mediation)

lemma mediates_consented [mediation]:
  "(\<And>x. mediates caller sid (max k (if structural then 3 else 2)) (g x)) \<Longrightarrow>
   mediates caller sid k (after (consented out structural caller sid) g)"
  by (rule mediates_after_check [OF _ ensures_consented]) (simp_all add: consented_def mediation)

lemma mediates_checks [mediation]:
  "mediates caller sid k (authorized out caller sid)" "mediates caller sid k (consented out structural caller sid)"
  by (simp_all add: authorized_def consented_def mediation)

subsection \<open>The handlers\<close>

lemmas method_levels = needs_def STRUCTURAL_METHODS_def WRITE_METHODS_def

lemma mediates_read_tool:
  "needs meth = 1 \<Longrightarrow> mediates caller sid k (read_tool meth check out caller sid a)"
  by (simp add: read_tool_def worker_out_def mediation)

lemma mediates_loading_tool:
  "needs meth = 1 \<Longrightarrow> mediates caller sid k (loading_tool meth out caller sid a)"
  by (simp add: loading_tool_def worker_out_def mediation)

lemma mediates_write_tool:
  "needs meth = (if structural then 3 else 2) \<Longrightarrow>
   mediates caller sid k (write_tool meth structural check a out caller sid)"
  by (simp add: write_tool_def mediation)

lemmas read_handlers =
  handle_decompile_function_def handle_disassemble_def handle_get_pcode_def handle_get_high_pcode_def
  handle_data_flow_slice_def handle_recover_struct_def handle_deobfuscate_strings_def
  handle_stack_frame_def handle_basic_blocks_def handle_list_data_types_def handle_function_hash_def
  handle_program_fingerprint_def handle_family_match_def handle_bsim_similarity_def
  handle_find_similar_functions_def handle_list_functions_def handle_get_function_def
  handle_xrefs_to_def handle_xrefs_from_def handle_list_strings_def handle_ramdisk_list_def
  handle_list_cache_components_def handle_list_symbols_def handle_get_symbol_def handle_list_data_def
  handle_get_data_type_def handle_get_comments_def handle_memory_map_def handle_read_bytes_def
  handle_emulate_def handle_demangle_def handle_search_bytes_def handle_search_strings_def
  handle_program_metadata_def handle_call_graph_def handle_callees_def handle_callers_def
  handle_analysis_order_def handle_function_context_def handle_cyclomatic_complexity_def
  handle_list_imports_def handle_list_exports_def handle_coverage_def handle_ioc_scan_def
  handle_crypto_constant_scan_def handle_crypto_detect_def handle_capability_scan_def
  handle_secret_scan_def handle_call_graph_metrics_def handle_program_summary_def
  handle_identify_functions_def

lemma mediates_read_handlers [mediation]:
  "mediates caller sid k (handle_decompile_function out caller sid a)"
  "mediates caller sid k (handle_disassemble out caller sid a)"
  "mediates caller sid k (handle_get_pcode out caller sid a)"
  "mediates caller sid k (handle_get_high_pcode out caller sid a)"
  "mediates caller sid k (handle_data_flow_slice out caller sid a)"
  "mediates caller sid k (handle_recover_struct out caller sid a)"
  "mediates caller sid k (handle_deobfuscate_strings out caller sid a)"
  "mediates caller sid k (handle_stack_frame out caller sid a)"
  "mediates caller sid k (handle_basic_blocks out caller sid a)"
  "mediates caller sid k (handle_list_data_types out caller sid a)"
  "mediates caller sid k (handle_function_hash out caller sid a)"
  "mediates caller sid k (handle_program_fingerprint out caller sid a)"
  "mediates caller sid k (handle_family_match out caller sid a)"
  "mediates caller sid k (handle_bsim_similarity out caller sid a)"
  "mediates caller sid k (handle_find_similar_functions out caller sid a)"
  "mediates caller sid k (handle_list_functions out caller sid a)"
  "mediates caller sid k (handle_get_function out caller sid a)"
  "mediates caller sid k (handle_xrefs_to out caller sid a)"
  "mediates caller sid k (handle_xrefs_from out caller sid a)"
  "mediates caller sid k (handle_list_strings out caller sid a)"
  "mediates caller sid k (handle_ramdisk_list out caller sid a)"
  "mediates caller sid k (handle_list_cache_components out caller sid a)"
  "mediates caller sid k (handle_list_symbols out caller sid a)"
  "mediates caller sid k (handle_get_symbol out caller sid a)"
  "mediates caller sid k (handle_list_data out caller sid a)"
  "mediates caller sid k (handle_get_data_type out caller sid a)"
  "mediates caller sid k (handle_get_comments out caller sid a)"
  "mediates caller sid k (handle_memory_map out caller sid a)"
  "mediates caller sid k (handle_read_bytes out caller sid a)"
  "mediates caller sid k (handle_emulate out caller sid a)"
  "mediates caller sid k (handle_demangle out caller sid a)"
  "mediates caller sid k (handle_search_bytes out caller sid a)"
  "mediates caller sid k (handle_search_strings out caller sid a)"
  "mediates caller sid k (handle_program_metadata out caller sid a)"
  "mediates caller sid k (handle_call_graph out caller sid a)"
  "mediates caller sid k (handle_callees out caller sid a)"
  "mediates caller sid k (handle_callers out caller sid a)"
  "mediates caller sid k (handle_analysis_order out caller sid a)"
  "mediates caller sid k (handle_function_context out caller sid a)"
  "mediates caller sid k (handle_cyclomatic_complexity out caller sid a)"
  "mediates caller sid k (handle_list_imports out caller sid a)"
  "mediates caller sid k (handle_list_exports out caller sid a)"
  "mediates caller sid k (handle_coverage out caller sid a)"
  "mediates caller sid k (handle_ioc_scan out caller sid a)"
  "mediates caller sid k (handle_crypto_constant_scan out caller sid a)"
  "mediates caller sid k (handle_crypto_detect out caller sid a)"
  "mediates caller sid k (handle_capability_scan out caller sid a)"
  "mediates caller sid k (handle_secret_scan out caller sid a)"
  "mediates caller sid k (handle_call_graph_metrics out caller sid a)"
  "mediates caller sid k (handle_program_summary out caller sid a)"
  "mediates caller sid k (handle_identify_functions out caller sid a)"
  by (simp_all add: read_handlers mediates_read_tool method_levels)

lemma mediates_loading_handlers [mediation]:
  "mediates caller sid k (handle_version_track out caller sid a)"
  "mediates caller sid k (handle_binary_diff out caller sid a)"
  "mediates caller sid k (handle_bsim_search_corpus out caller sid a)"
  by (simp_all add: handle_version_track_def handle_binary_diff_def handle_bsim_search_corpus_def
      mediates_loading_tool method_levels)

lemma mediates_session_handlers [mediation]:
  "mediates caller sid k (handle_session_import out caller sid a)"
  "mediates caller sid k (handle_session_analyze out caller sid a)"
  "mediates caller sid k (handle_session_status out caller sid)"
  "mediates caller sid k (handle_session_close out caller sid)"
  "mediates caller sid k (handle_session_create out caller)"
  by (simp_all add: handle_session_import_def handle_session_analyze_def handle_session_status_def
      handle_session_close_def handle_session_create_def mediation method_levels split: pyval.split)

lemma mediates_write_handlers [mediation]:
  "mediates caller sid k (handle_session_enable_writes out caller sid a)"
  "mediates caller sid k (handle_session_disable_writes out caller sid)"
  "mediates caller sid k (handle_session_undo out caller sid a)"
  "mediates caller sid k (handle_rename_function out caller sid a)"
  "mediates caller sid k (handle_rename_symbol out caller sid a)"
  "mediates caller sid k (handle_set_comment out caller sid a)"
  "mediates caller sid k (handle_rename_local_variable out caller sid a)"
  "mediates caller sid k (handle_rename_parameter out caller sid a)"
  "mediates caller sid k (handle_set_function_signature out caller sid sig)"
  "mediates caller sid k (handle_apply_data_type out caller sid ref a)"
  "mediates caller sid k (handle_apply_type_archive out caller sid a)"
  by (simp_all add: handle_session_enable_writes_def handle_session_disable_writes_def handle_session_undo_def
      handle_rename_function_def handle_rename_symbol_def handle_set_comment_def handle_rename_local_variable_def
      handle_rename_parameter_def handle_set_function_signature_def handle_apply_data_type_def
      handle_apply_type_archive_def worker_out_def mediation mediates_write_tool method_levels)

lemma mediates_record_all [mediation]: "mediates caller sid k (record_all out caller sid vs)"
  by (induction vs) (simp_all add: mediation)

lemma mediates_type_handlers [mediation]:
  "mediates caller sid k (handle_define_struct out caller sid n fs a)"
  "mediates caller sid k (handle_define_union out caller sid n fs a)"
  "mediates caller sid k (handle_define_types out caller sid types)"
  "mediates caller sid k (handle_delete_type out caller sid a)"
  by (simp_all add: handle_define_struct_def handle_define_union_def define_composite_def handle_define_types_def
      handle_delete_type_def mediation mediates_write_tool method_levels)

lemma mediates_export [mediation]: "mediates caller sid k (handle_session_export_annotations out caller sid)"
  by (simp add: handle_session_export_annotations_def mediation method_levels split: prod.split option.split)

lemma mediates_pull_xrefs [mediation]: "mediates caller sid k (pull_xrefs out caller sid rankings xrefs results)"
  by (induction rankings arbitrary: xrefs results) (simp_all add: mediation)

lemma mediates_store_report [mediation]: "mediates caller sid k (store_report out sid rep)"
  by (simp add: mediates_def store_report_def Let_def split: prod.split)

lemma mediates_report [mediation]: "mediates caller sid k (handle_session_generate_report out caller sid a)"
  by (simp add: handle_session_generate_report_def gather_atlas_def mediation)

lemma mediates_replay_entry [mediation]: "mediates caller sid k (replay_entry out caller sid e)"
  by (simp add: replay_entry_def Let_def mediation split: Entry.split)

lemma mediates_replay_from_0: "mediates caller sid 0 (replay_all out caller sid i es)"
proof (induction es arbitrary: i)
  case (Cons e es)
  have step: "mediates caller sid 0 (replay_entry out caller sid e)" by (rule mediates_replay_entry)
  show ?case
    unfolding mediates_def
  proof (intro allI impI)
    fix w :: world assume w: "mediated caller sid (w_log w)"
    obtain r w1 where fw: "replay_entry out caller sid e w = (r, w1)" by (cases "replay_entry out caller sid e w")
    obtain r' w2 where fr: "replay_all out caller sid (Suc i) es w1 = (r', w2)"
      by (cases "replay_all out caller sid (Suc i) es w1")
    from step w fw have w1: "mediated caller sid (w_log w1)" "\<exists>x. w_log w1 = w_log w @ x"
      by (auto simp: mediates_def checked_to_def dest!: spec [of _ w])
    from Cons.IH [of "Suc i"] w1(1) fr have w2: "mediated caller sid (w_log w2)" "\<exists>x. w_log w2 = w_log w1 @ x"
      by (auto simp: mediates_def checked_to_def dest!: spec [of _ w1])
    show "mediated caller sid (w_log (snd (replay_all out caller sid i (e # es) w))) \<and>
        (\<exists>x. w_log (snd (replay_all out caller sid i (e # es) w)) = w_log w @ x)"
      using w1 w2 fw fr by (auto split: sum.split exc.split)
  qed
qed (simp add: mediates_def)

lemma mediates_replay_all [mediation]: "mediates caller sid k (replay_all out caller sid i es)"
  by (rule mediates_weaken) (rule mediates_replay_from_0)

lemma mediates_import [mediation]: "mediates caller sid k (handle_session_import_annotations out caller sid doc)"
  by (simp add: handle_session_import_annotations_def mediation Let_def)

lemma mediates_stream_handlers [mediation]:
  "mediates caller sid k (handle_start_decompile_stream out caller sid a)"
  "mediates caller sid k (handle_fetch_job_results out caller sid a)"
  "mediates caller sid k (handle_job_status out caller sid a)"
  "mediates caller sid k (handle_cancel_job out caller sid a)"
  by (simp_all add: handle_start_decompile_stream_def handle_fetch_job_results_def handle_job_status_def
      handle_cancel_job_def mediation method_levels)

subsection \<open>The table\<close>

text \<open>The contract of a table of handlers, and what the chokepoint makes of it.\<close>

locale tool_table =
  fixes handlers :: "(string, handler) dict"
  assumes handler_mediates: "dict_get handlers name = Some h \<Longrightarrow> mediates caller sid 0 (h out caller sid a)"
begin

lemma guarded_mediates:
  assumes "dict_get handlers name = Some h"
  shows "mediates caller sid 0 (guarded_handler out name h caller sid a)"
  by (simp add: guarded_handler_def mediation handler_mediates [OF assms])

lemma marked_mediates:
  assumes "dict_get handlers name = Some h" "w_log w = []"
  shows "mediated caller sid (w_log (snd (finally_do (guarded_handler out name h caller sid a)
    (mark out ending) (mark out beginning w))))"
proof -
  let ?w = "mark out beginning w"
  have "mediated caller sid (w_log ?w)" using assms(2) mediated_Met [of caller sid "[]"] by (simp add: mark_def Let_def)
  then have "mediated caller sid (w_log (snd (guarded_handler out name h caller sid a ?w)))"
    using guarded_mediates [OF assms(1), of caller sid out a] by (simp add: mediates_def checked_to_def)
  then show ?thesis by (simp add: finally_do_def mark_def Let_def case_prod_beta)
qed

end

lemmas schema_wrappers = plain_def signed_def typed_def composite_def batch_def document_def

lemma mediates_wrapped [mediation]:
  "(\<And>d. mediates caller sid k (f out caller sid d)) \<Longrightarrow> mediates caller sid k (plain f out caller sid a)"
  "(\<And>sig. mediates caller sid k (fs out caller sid sig)) \<Longrightarrow> mediates caller sid k (signed fs out caller sid a)"
  "(\<And>ref d. mediates caller sid k (ft out caller sid ref d)) \<Longrightarrow> mediates caller sid k (typed ft out caller sid a)"
  "(\<And>n m d. mediates caller sid k (fc out caller sid n m d)) \<Longrightarrow> mediates caller sid k (composite fc out caller sid a)"
  "(\<And>ts. mediates caller sid k (fb out caller sid ts)) \<Longrightarrow> mediates caller sid k (batch fb out caller sid a)"
  "(\<And>doc. mediates caller sid k (fd out caller sid doc)) \<Longrightarrow> mediates caller sid k (document fd out caller sid a)"
  by (simp_all add: schema_wrappers mediation split: tool_in.split)

lemma handlers_mediate: "\<forall>(name, h) \<in> set HANDLERS. mediates caller sid 0 (h out caller sid a)"
  unfolding HANDLERS_def by (simp only: list.set ball_simps prod.case mediation simp_thms insert_iff ball_Un)

interpretation tier1: tool_table HANDLERS
  by unfold_locales (use handlers_mediate in \<open>fastforce dest: map_of_SomeD\<close>)

subsection \<open>Complete mediation\<close>

text \<open>
  C5: Complete mediation. In one call of any tool, by any principal with any arguments, whatever the
  port answers and whatever other threads do to the session table meanwhile: a method of the worker
  port is only ever called for the session the request names, and only after an operation of the same
  call found that session live and owned by the caller; a method that writes only after it was found
  with write consent, a structural one with structural consent; and the write tools only run at all
  for a principal with the write capability.
\<close>

theorem tool_calls_mediated:
  assumes fresh: "w_log w = []"
    and run: "bound out resolved name parsed w = (r, w')"
    and called: "w_log w' = before @ Called meth sid a # later"
  shows "\<exists>p s. resolved = Inr p \<and> required_capability name \<in> capabilities p \<and>
    (\<exists>args. parsed = Inr (Some sid, args)) \<and>
    (\<exists>env m. Met env m \<in> set before \<and> live_owned env sid (principal_id p) m \<and>
       dict_get (sessions m) sid = Some s \<and>
       (meth \<in> set WRITE_METHODS \<union> set STRUCTURAL_METHODS \<longrightarrow> writes_enabled s) \<and>
       (meth \<in> set STRUCTURAL_METHODS \<longrightarrow> allow_structural s))"
proof -
  have no_call: "Called meth sid a \<notin> set (w_log w)" using fresh by simp
  obtain p session args where p: "resolved = Inr p" "required_capability name \<in> capabilities p"
    "parsed = Inr (session, args)"
    using run no_call called
    by (auto simp: bound_def after_def lift_def authorize_capability_def split: sum.splits prod.splits if_splits)
  obtain h where h: "dict_get HANDLERS name = Some h"
    using run no_call called p
    by (cases "dict_get HANDLERS name")
       (auto simp: bound_def after_def lift_def authorize_capability_def schema_session_def split: if_splits)
  have session: "(session = None) = (name = ''session_create'')"
    using run no_call called p by (auto simp: bound_def after_def lift_def authorize_capability_def schema_session_def
        split: if_splits)
  let ?c = "principal_id p"
  obtain sid0 where med: "mediated ?c sid0 (w_log w')" and sid0: "session = Some sid0"
  proof (cases session)
    case (Some sid0)
    then have "w' = snd (finally_do (guarded_handler out name h ?c sid0 args)
        (mark out (\<lambda>env. end_call env sid0 (Some ?c))) (mark out (\<lambda>env. begin_call env sid0 (Some ?c)) w))"
      using run p h session by (simp add: bound_def after_def lift_def authorize_capability_def schema_session_def)
    with tier1.marked_mediates [OF h fresh] Some show thesis by (intro that) simp_all
  next
    case None
    then have "h = (\<lambda>out caller sid a. handle_session_create out caller)"
      using h session by (simp add: HANDLERS_def)
    then have "w' = snd (handle_session_create out ?c w)"
      using run p h None session
      by (simp add: bound_def after_def lift_def authorize_capability_def schema_session_def)
    then have "Called meth sid a \<notin> set (w_log w')"
      using no_call by (auto simp: handle_session_create_def after_def lift_def sessions_do_def Let_def
          split: prod.splits sum.splits)
    with called show thesis by simp
  qed
  from med called have "sid = sid0" "checked_to (needs meth) ?c sid0 before" unfolding mediated_def by blast+
  moreover have "needs meth \<noteq> 0" by (simp add: needs_def)
  ultimately show ?thesis
    using p sid0 by (fastforce simp: checked_to_def grants_def needs_def split: if_splits)
qed


definition demo_outside :: outside where
  "demo_outside = \<lparr> env_at = \<lambda>_. demo_env, others = \<lambda>_ m. m, port_answer = \<lambda>_ _ _ _. Inr [],
     compose = \<lambda>_ _. (PyNone, [], None, None) \<rparr>"

definition demo_world :: "SessionManager \<Rightarrow> world" where
  "demo_world m = \<lparr> w_sm = m, w_reports = \<lparr> max_per_session = 1, max_bytes_per_session = 1, by_session = [] \<rparr>,
     w_log = [] \<rparr>"

definition demo_alice :: Principal where
  "demo_alice = full_principal (ascii ''alice'')"

lemmas demo_call_defs = demo_outside_def demo_world_def demo_alice_def bound_def after_def lift_def
  authorize_capability_def required_capability_def WRITE_TOOLS_def CAP_READ_def CAP_WRITE_def ALL_CAPABILITIES_def
  schema_session_def finally_do_def mark_def guarded_handler_def NO_WORKER_REQUIRED_TOOLS_def
  sessions_do_def call_port_def worker_out_def write_tool_def consented_def authorized_def

lemmas demo_session_defs = demo_granted_def demo_sessions require_write_consent_def enable_writes_def with_live_def
  get_live_locked_def flush_evicted_def is_expired_def ttl_expired_def Let_def new_session_def
  demo_manager_def new_manager_def demo_env_def begin_call_def end_call_def require_worker_started_def

lemma demo_structural_call:
  "\<exists>before later. w_log (snd (bound demo_outside (Inr demo_alice) ''apply_type_archive''
      (Inr (Some (ascii ''s1''), Plain [])) (demo_world demo_granted)))
   = before @ Called ''apply_type_archive'' (ascii ''s1'') (Plain []) # later"
proof -
  have table: "dict_get HANDLERS ''apply_type_archive'' = Some (plain handle_apply_type_archive)"
    by (simp add: HANDLERS_def)
  have quiet: "evict_bound demo_state" "pending_evicted demo_state = []" by (simp_all add: demo_defs)
  show ?thesis
    unfolding in_set_conv_decomp [symmetric]
    by (simp add: table quiet plain_def handle_apply_type_archive_def demo_call_defs demo_session_defs)
qed

theorem tool_calls_mediated_witness:
  "\<exists>before later env m s.
     w_log (snd (bound demo_outside (Inr demo_alice) ''apply_type_archive''
       (Inr (Some (ascii ''s1''), Plain [])) (demo_world demo_granted)))
     = before @ Called ''apply_type_archive'' (ascii ''s1'') (Plain []) # later \<and>
     Met env m \<in> set before \<and> dict_get (sessions m) (ascii ''s1'') = Some s \<and> allow_structural s"
proof -
  let ?run = "bound demo_outside (Inr demo_alice) ''apply_type_archive'' (Inr (Some (ascii ''s1''), Plain []))
     (demo_world demo_granted)"
  obtain before later where lg: "w_log (snd ?run)
      = before @ Called ''apply_type_archive'' (ascii ''s1'') (Plain []) # later"
    using demo_structural_call by blast
  have fresh: "w_log (demo_world demo_granted) = []" by (simp add: demo_world_def)
  from tool_calls_mediated [OF fresh prod.collapse [symmetric] lg] lg
  show ?thesis by (auto simp: STRUCTURAL_METHODS_def)
qed

end
