(* ===== verification/Registry_Calls.thy ===== *)
theory Registry_Calls
  imports Registry_Props
begin

text \<open>
  Two behaviours of single tool calls: the import of an annotation document is bound to the binary
  of its session before anything is replayed, and a tool that needs a worker is refused, before its
  handler runs, on a session that has none.
\<close>

subsection \<open>Importing annotations\<close>

lemma authorized_info:
  assumes "authorized out caller sid w = (Inr info, w')"
  obtains env m s where "w_log w' = w_log w @ [Met env m]" "live_owned env sid caller m"
    "dict_get (sessions m) sid = Some s" "info_binary_sha256 info = binary_sha256 s"
proof -
  let ?env = "env_at out (length (w_log w))" and ?m = "others out (length (w_log w)) (w_sm w)"
  from assms have r: "fst (authorize ?env sid caller ?m) = Inr info" and lg: "w_log w' = w_log w @ [Met ?env ?m]"
    by (auto simp: authorized_def sessions_do_def Let_def split: prod.splits)
  have live: "live_owned ?env sid caller ?m"
    using authorize.denied [of ?env sid caller ?m] r by (cases "live_owned ?env sid caller ?m") auto
  then obtain s where s: "dict_get (sessions ?m) sid = Some s" "owner s = caller"
    "get_live_locked ?env sid caller ?m = (Inr (s\<lparr>last_used_mono := now ?env\<rparr>),
       ?m\<lparr>sessions := dict_set sid (s\<lparr>last_used_mono := now ?env\<rparr>) (sessions ?m)\<rparr>)"
    by (rule get_live_granted)
  have "info_binary_sha256 info = binary_sha256 s"
    using r s(3) by (auto simp: authorize_def with_live_def to_info_def split: if_splits)
  with lg live s(1) show thesis by (rule that)
qed

lemma consented_grants:
  assumes "consented out structural caller sid w = (Inr info, w')"
  obtains env m where "w_log w' = w_log w @ [Met env m]" "grants (if structural then 3 else 2) caller sid env m"
proof -
  let ?env = "env_at out (length (w_log w))" and ?m = "others out (length (w_log w)) (w_sm w)"
  from assms have "fst (require_write_consent structural ?env sid caller ?m) = Inr info"
    "w_log w' = w_log w @ [Met ?env ?m]"
    by (auto simp: consented_def sessions_do_def Let_def split: prod.splits)
  from that [OF this(2) granted_consent [OF this(1)]] show thesis .
qed

text \<open>What a composed action that calls the port must have been through first.\<close>

abbreviation calls :: "world \<Rightarrow> bool" where
  "calls w \<equiv> \<exists>meth sid a. Called meth sid a \<in> set (w_log w)"

lemma quiet_steps:
  "\<not> calls w \<Longrightarrow> \<not> calls (snd (lift r w))"
  "\<not> calls w \<Longrightarrow> \<not> calls (snd (authorized out caller sid w))"
  "\<not> calls w \<Longrightarrow> \<not> calls (snd (consented out structural caller sid w))"
  by (auto simp: lift_def authorized_def consented_def sessions_do_def Let_def split: prod.splits)

lemma quiet_mediated: "\<not> calls w \<Longrightarrow> mediated caller sid (w_log w)"
  unfolding mediated_def by (metis in_set_conv_decomp)

lemma replay_all_grows:
  assumes "\<not> calls w" and "replay_all out caller sid i es w = (r, w')"
  obtains rest where "w_log w' = w_log w @ rest"
  using mediates_replay_from_0 [of caller sid out i es] quiet_mediated [OF assms(1), of caller sid] assms(2) that
  by (auto simp: mediates_def checked_to_def dest!: spec [of _ w])

lemma called_after:
  assumes "before @ Called meth sid a # later = pre @ rest" and "\<forall>x\<in>set pre. x \<noteq> Called meth sid a"
  shows "set pre \<subseteq> set before"
proof -
  from assms(1) consider k where "before = pre @ k" | k where "pre = before @ k" "k \<noteq> []"
    by (metis append_eq_append_conv2 append_Nil2)
  then show ?thesis
  proof cases
    case 2
    with assms(1) have "hd k = Called meth sid a" by (cases k) auto
    with 2 assms(2) show ?thesis by (cases k) auto
  qed auto
qed

definition structural_document :: "AnnotationDocument \<Rightarrow> bool" where
  "structural_document doc \<longleftrightarrow> list_ex (\<lambda>e. entry_kind e \<in> set STRUCTURAL_ENTRY_KINDS) (entries doc)"

lemma import_stages:
  assumes run: "handle_session_import_annotations out caller sid doc w = (r, w')"
    and q0: "\<not> calls w" and calls: "calls w'"
  obtains info w1 x w2 w3 r' where "validate_annotation_document doc = Inr ()"
    "authorized out caller sid w = (Inr info, w1)"
    "map_option lowered (info_binary_sha256 info) = Some (lowered (doc_sha256 doc))"
    "consented out False caller sid w1 = (Inr x, w2)"
    "if structural_document doc then \<exists>y. consented out True caller sid w2 = (Inr y, w3) else w3 = w2"
    "replay_all out caller sid 0 (entries doc) w3 = (r', w')" "\<not> calls w3"
proof -
  note defs = handle_session_import_annotations_def after_def lift_def structural_document_def [symmetric] Let_def
  obtain r1 w1 where 1: "authorized out caller sid w = (r1, w1)" by (cases "authorized out caller sid w")
  with quiet_steps(2) [OF q0, of out caller sid] have q1: "\<not> calls w1" by simp
  obtain r2 w2 where 2: "consented out False caller sid w1 = (r2, w2)" by (cases "consented out False caller sid w1")
  with quiet_steps(3) [OF q1, of out False caller sid] have q2: "\<not> calls w2" by simp
  obtain r3 w3 where 3: "consented out True caller sid w2 = (r3, w3)" by (cases "consented out True caller sid w2")
  with quiet_steps(3) [OF q2, of out True caller sid] have q3: "\<not> calls w3" by simp
  have valid: "validate_annotation_document doc = Inr ()"
    using run q0 calls by (cases "validate_annotation_document doc") (auto simp: defs)
  obtain info where info: "r1 = Inr info" using run q1 calls valid 1 by (cases r1) (auto simp: defs)
  have bind: "map_option lowered (info_binary_sha256 info) = Some (lowered (doc_sha256 doc))"
    using run q1 calls valid 1 info by (auto simp: defs split: if_splits)
  obtain x where x: "r2 = Inr x" using run q2 calls valid 1 info bind 2 by (cases r2) (auto simp: defs)
  show thesis
  proof (cases "structural_document doc")
    case True
    obtain y where y: "r3 = Inr y" using run q3 calls valid 1 info bind 2 x 3 True by (cases r3) (auto simp: defs)
    have "w' = snd (replay_all out caller sid 0 (entries doc) w3)"
      using run valid 1 info bind 2 x 3 True y by (auto simp: defs split: prod.splits sum.splits)
    then show thesis using that valid 1 info bind 2 x 3 True y q3 by (metis prod.collapse)
  next
    case False
    have "w' = snd (replay_all out caller sid 0 (entries doc) w2)"
      using run valid 1 info bind 2 x False by (auto simp: defs split: prod.splits sum.splits)
    then show thesis using that valid 1 info bind 2 x False q2 by (metis prod.collapse)
  qed
qed

text \<open>
  C7: The import of an annotation document is bound to its binary. Whatever the port answers and
  other threads do: the first call to the worker, and every other, comes only after the whole document
  was found valid, after the caller's own live session was found to hold a program whose recorded
  hash is, letter case aside, the one the document names, and after the session was found writable
  by the caller; if any one entry of the document is structural, after it was found to allow
  structural changes, so such a document is refused whole before any entry of it is replayed.
\<close>

theorem import_bound_to_binary:
  assumes fresh: "w_log w = []"
    and run: "handle_session_import_annotations out caller sid doc w = (r, w')"
    and called: "w_log w' = before @ Called meth sid' a # later"
  shows "sid' = sid \<and> validate_annotation_document doc = Inr () \<and>
    (\<exists>env m s. Met env m \<in> set before \<and> live_owned env sid caller m \<and>
       dict_get (sessions m) sid = Some s \<and>
       map_option lowered (binary_sha256 s) = Some (lowered (doc_sha256 doc))) \<and>
    (\<exists>env m s. Met env m \<in> set before \<and> live_owned env sid caller m \<and>
       dict_get (sessions m) sid = Some s \<and> writes_enabled s) \<and>
    (structural_document doc \<longrightarrow>
       (\<exists>env m s. Met env m \<in> set before \<and> live_owned env sid caller m \<and>
          dict_get (sessions m) sid = Some s \<and> allow_structural s))"
proof -
  have calls: "calls w'" using called by auto
  have q0: "\<not> calls w" using fresh by simp
  from import_stages [OF run q0 calls] obtain info w1 x w2 w3 r' where
    valid: "validate_annotation_document doc = Inr ()" and
    au: "authorized out caller sid w = (Inr info, w1)" and
    bind: "map_option lowered (info_binary_sha256 info) = Some (lowered (doc_sha256 doc))" and
    co: "consented out False caller sid w1 = (Inr x, w2)" and
    st: "if structural_document doc then \<exists>y. consented out True caller sid w2 = (Inr y, w3) else w3 = w2" and
    rp: "replay_all out caller sid 0 (entries doc) w3 = (r', w')" "\<not> calls w3" .
  obtain rest where rest: "w_log w' = w_log w3 @ rest" using replay_all_grows [OF rp(2,1)] .
  have pre: "set (w_log w3) \<subseteq> set before"
    by (rule called_after [of before meth sid' a later _ rest]) (use called rest rp(2) in auto)
  have "mediated caller sid (w_log w')"
    using mediates_replay_from_0 [of caller sid out 0 "entries doc"] quiet_mediated [OF rp(2), of caller sid] rp(1)
    by (auto simp: mediates_def checked_to_def dest!: spec [of _ w3])
  then have sid: "sid' = sid" using called unfolding mediated_def by blast
  obtain env1 m1 s1 where 1: "w_log w1 = w_log w @ [Met env1 m1]" "live_owned env1 sid caller m1"
    "dict_get (sessions m1) sid = Some s1" "info_binary_sha256 info = binary_sha256 s1"
    using authorized_info [OF au] .
  obtain env2 m2 where 2: "w_log w2 = w_log w1 @ [Met env2 m2]" "grants 2 caller sid env2 m2"
    using consented_grants [OF co] by auto
  have grow: "set (w_log w2) \<subseteq> set (w_log w3)"
  proof (cases "structural_document doc")
    case True
    with st obtain y where "consented out True caller sid w2 = (Inr y, w3)" by auto
    then show ?thesis by (rule consented_grants) auto
  qed (use st in simp)
  have structural: "\<exists>env m. Met env m \<in> set (w_log w3) \<and> grants 3 caller sid env m" if "structural_document doc"
  proof -
    from st that obtain y where "consented out True caller sid w2 = (Inr y, w3)" by auto
    then show ?thesis by (rule consented_grants) auto
  qed
  have "Met env1 m1 \<in> set before" "Met env2 m2 \<in> set before" using 1(1) 2(1) grow pre by auto
  moreover have "map_option lowered (binary_sha256 s1) = Some (lowered (doc_sha256 doc))" using bind 1(4) by simp
  moreover have "structural_document doc \<longrightarrow> (\<exists>env m s. Met env m \<in> set before \<and> live_owned env sid caller m \<and>
      dict_get (sessions m) sid = Some s \<and> allow_structural s)"
  proof
    assume "structural_document doc"
    then obtain env m where "Met env m \<in> set (w_log w3)" "grants 3 caller sid env m" using structural by blast
    with pre show "\<exists>env m s. Met env m \<in> set before \<and> live_owned env sid caller m \<and>
        dict_get (sessions m) sid = Some s \<and> allow_structural s"
      unfolding grants_def by (metis le_refl subsetD)
  qed
  moreover have "\<exists>env m s. Met env m \<in> set before \<and> live_owned env sid caller m \<and>
      dict_get (sessions m) sid = Some s \<and> writes_enabled s"
    using 2(2) calculation(2) unfolding grants_def by (metis le_refl)
  ultimately show ?thesis using sid valid 1(2,3) by blast
qed

subsection \<open>Tools that need a worker\<close>

lemma handler_names: "map fst HANDLERS = TIER1_TOOL_NAMES"
  by (simp add: HANDLERS_def TIER1_TOOL_NAMES_def)

text \<open>
  C40: Tools before an import. On a live session that was opened but never imported into, every tool
  except the six the code exempts (and \<open>session_create\<close>) is answered with the one failed-precondition
  error, whoever may call it and whatever its arguments: nothing is asked of the port, no worker is
  started, and the session stays in the table, again at rest. This holds of the tools that load binaries of
  their own as well, although their handlers would start the worker themselves.
\<close>

theorem unimported_session_refused:
  assumes quiet: "\<And>n m. others out n m = m" and fresh: "w_log w = []"
    and tool: "name \<in> set TIER1_TOOL_NAMES" "name \<notin> set NO_WORKER_REQUIRED_TOOLS" "name \<noteq> ''session_create''"
    and cap: "required_capability name \<in> capabilities p"
    and s: "dict_get (sessions (w_sm w)) sid = Some s" "owner s = principal_id p" "state s \<noteq> EVICTED"
      "\<not> worker_started s" "in_flight s = 0"
    and live: "\<not> ttl_expired s (now (env_at out 1))"
    and run: "bound out (Inr p) name (Inr (Some sid, a)) w = (r, w')"
  shows "r = Inl (no_binary_imported None) \<and> \<not> calls w' \<and> 
    (\<exists>es. effects (w_sm w') = effects (w_sm w) @ es \<and> (\<forall>x. StartWorker x \<notin> set es)) \<and>
    (\<exists>t. dict_get (sessions (w_sm w')) sid = Some (s\<lparr>last_used_mono := t\<rparr>))"
proof -
  let ?p = "principal_id p"
  let ?e0 = "env_at out 0" and ?e1 = "env_at out 1" and ?e2 = "env_at out 2"
  let ?m1 = "begin_call ?e0 sid (Some ?p) (w_sm w)"
  obtain h where h: "dict_get HANDLERS name = Some h"
    using tool(1) handler_names by (metis map_of_eq_None_iff not_None_eq list.set_map)
  have m1: "?m1 = (w_sm w)\<lparr>sessions := dict_set sid (s\<lparr>in_flight := 1, last_used_mono := now ?e0\<rparr>) (sessions (w_sm w))\<rparr>"
    using s by (simp add: begin_call_def)
  let ?s2 = "s\<lparr>in_flight := 1, last_used_mono := now ?e1\<rparr>"
  have "\<exists>es. fst (require_worker_started ?e1 sid ?p ?m1) = Inl (no_binary_imported None) \<and>
      dict_get (sessions (snd (require_worker_started ?e1 sid ?p ?m1))) sid = Some ?s2 \<and>
      effects (snd (require_worker_started ?e1 sid ?p ?m1)) = effects (w_sm w) @ es \<and> (\<forall>x. StartWorker x \<notin> set es)"
    using s live by (simp add: m1 require_worker_started_def with_live_def get_live_locked_def is_expired_def
        ttl_expired_def flush_evicted_def Let_def dict_simps) auto
  then obtain es m2 where guard: "require_worker_started ?e1 sid ?p ?m1 = (Inl (no_binary_imported None), m2)"
    and m2: "dict_get (sessions m2) sid = Some ?s2" "effects m2 = effects (w_sm w) @ es" "\<forall>x. StartWorker x \<notin> set es"
    by (metis prod.collapse)
  have "guarded_handler out name h ?p sid a (mark out (\<lambda>env. begin_call env sid (Some ?p)) w) =
      (Inl (no_binary_imported None), w\<lparr>w_sm := m2, w_log := [Met ?e0 (w_sm w), Met ?e1 ?m1]\<rparr>)"
    using guard fresh tool(2) by (simp add: guarded_handler_def after_def sessions_do_def mark_def Let_def quiet)
  then have "r = Inl (no_binary_imported None)"
    "w' = mark out (\<lambda>env. end_call env sid (Some ?p)) (w\<lparr>w_sm := m2, w_log := [Met ?e0 (w_sm w), Met ?e1 ?m1]\<rparr>)"
    using run h cap tool(3) by (simp_all add: bound_def after_def lift_def authorize_capability_def
        schema_session_def finally_do_def)
  moreover have "dict_get (sessions (end_call ?e2 sid (Some ?p) m2)) sid = Some (s\<lparr>last_used_mono := now ?e2\<rparr>)"
    using m2(1) s(2,3,5) by (simp add: end_call_def dict_simps)
  moreover have "effects (end_call ?e2 sid (Some ?p) m2) = effects m2"
    by (simp add: end_call_def split: option.split)
  ultimately show ?thesis using m2(2,3) by (auto simp: mark_def Let_def quiet numeral_2_eq_2)
qed

definition demo_opened :: SessionManager where
  "demo_opened = sm_exec demo_env (Create (ascii ''alice'')) demo_manager"

theorem unimported_session_refused_witness:
  "fst (bound demo_outside (Inr demo_alice) ''binary_diff'' (Inr (Some (ascii ''s1''), Plain [])) (demo_world demo_opened))
   = Inl (no_binary_imported None)"
proof -
  have s: "dict_get (sessions demo_opened) (ascii ''s1'') = Some (new_session demo_env (ascii ''alice'') demo_manager)"
    by (simp add: demo_opened_def demo_defs)
  show ?thesis
    by (rule unimported_session_refused [where name = "''binary_diff''" and sid = "ascii ''s1''" and p = demo_alice
          and s = "new_session demo_env (ascii ''alice'') demo_manager", THEN conjunct1, OF _ _ _ _ _ _ _ _ _ _ _ _ prod.collapse [symmetric]])
      (simp_all add: s demo_outside_def demo_world_def demo_alice_def TIER1_TOOL_NAMES_def NO_WORKER_REQUIRED_TOOLS_def
        required_capability_def WRITE_TOOLS_def ALL_CAPABILITIES_def new_session_def demo_env_def ttl_expired_def
        demo_manager_def new_manager_def)
qed

subsection \<open>A document at work\<close>

definition demo_hash :: pystr where
  "demo_hash = replicate 64 97"

definition demo_document :: AnnotationDocument where
  "demo_document = \<lparr> schema_version = 1, doc_sha256 = replicate 64 65,
     entries = [RenameLocalVariableEntry (ascii ''main'') (ascii ''v1'') (ascii ''count'')] \<rparr>"

definition demo_imported :: SessionManager where
  "demo_imported = snd (record_binary_hash demo_hash None None demo_env (ascii ''s1'') (ascii ''alice'') demo_granted)"


lemma demo_entry_valid:
  "validate_entry (RenameLocalVariableEntry (ascii ''main'') (ascii ''v1'') (ascii ''count'')) = Inr ()"
  by (simp add: validate_name_def validate_target_ref_def validate_write_name_def ascii_def MAX_NAME_LEN_def
      name_char_ok_def is_control_def UNICODE_SEPARATORS_def write_name_lead_def write_name_rest_def)

lemma demo_document_valid: "validate_annotation_document demo_document = Inr ()"
  by (simp add: validate_annotation_document_def demo_document_def demo_entry_valid
      SUPPORTED_ANNOTATION_SCHEMA_VERSIONS_def MAX_ANNOTATION_ENTRIES_def list_all_iff is_hex_digit_def
      del: validate_entry.simps)

lemma demo_document_shape:
  "structural_document demo_document" "map lower_char demo_hash = map lower_char (doc_sha256 demo_document)"
  by (simp_all add: structural_document_def demo_document_def STRUCTURAL_ENTRY_KINDS_def demo_hash_def lower_char_def entry_kind_def)

lemma demo_imported_stable:
  "\<exists>info. authorize demo_env (ascii ''s1'') (ascii ''alice'') demo_imported = (Inr info, demo_imported) \<and>
     info_binary_sha256 info = Some demo_hash"
  "\<exists>info. require_write_consent b demo_env (ascii ''s1'') (ascii ''alice'') demo_imported = (Inr info, demo_imported)"
proof -
  have quiet: "evict_bound demo_state" "pending_evicted demo_state = []" by (simp_all add: demo_defs)
  have flush: "demo_state\<lparr>pending_evicted := [], sessions := x\<rparr> = demo_state\<lparr>sessions := x\<rparr>" for x
    by (simp add: demo_defs)
  show "\<exists>info. authorize demo_env (ascii ''s1'') (ascii ''alice'') demo_imported = (Inr info, demo_imported) \<and>
     info_binary_sha256 info = Some demo_hash"
    by (simp add: demo_imported_def record_binary_hash_def authorize_def to_info_def quiet flush demo_session_defs)
  show "\<exists>info. require_write_consent b demo_env (ascii ''s1'') (ascii ''alice'') demo_imported = (Inr info, demo_imported)"
    by (simp add: demo_imported_def record_binary_hash_def quiet flush demo_session_defs)
qed


lemma demo_steps:
  assumes "w_sm w = demo_imported"
  shows "\<exists>info. authorized demo_outside (ascii ''alice'') (ascii ''s1'') w
      = (Inr info, w\<lparr>w_log := w_log w @ [Met demo_env demo_imported]\<rparr>) \<and> info_binary_sha256 info = Some demo_hash"
    and "\<exists>info. consented demo_outside b (ascii ''alice'') (ascii ''s1'') w
      = (Inr info, w\<lparr>w_log := w_log w @ [Met demo_env demo_imported]\<rparr>)"
  using demo_imported_stable(1) demo_imported_stable(2) [of b] assms
  by (auto simp: authorized_def consented_def sessions_do_def demo_outside_def Let_def)

lemma demo_import_calls:
  "\<exists>before a later. w_log (snd (handle_session_import_annotations demo_outside (ascii ''alice'') (ascii ''s1'')
      demo_document (demo_world demo_imported)))
   = before @ Called ''rename_local_variable'' (ascii ''s1'') a # later"
proof -
  let ?w0 = "demo_world demo_imported"
  define met where "met w = w\<lparr>w_log := w_log w @ [Met demo_env demo_imported]\<rparr>" for w :: world
  have met: "w_sm (met w) = w_sm w" for w by (simp add: met_def)
  have sm: "w_sm ?w0 = demo_imported" by (simp add: demo_world_def)
  have steps: "w_sm w = demo_imported \<Longrightarrow> \<exists>info. authorized demo_outside (ascii ''alice'') (ascii ''s1'') w = (Inr info, met w) \<and>
      info_binary_sha256 info = Some demo_hash"
    "w_sm w = demo_imported \<Longrightarrow> \<exists>info. consented demo_outside b (ascii ''alice'') (ascii ''s1'') w = (Inr info, met w)"
    for w b using demo_steps(1) [of w] demo_steps(2) [of w b] by (simp_all add: met_def)
  obtain i0 where 0: "authorized demo_outside (ascii ''alice'') (ascii ''s1'') ?w0 = (Inr i0, met ?w0)"
    "info_binary_sha256 i0 = Some demo_hash"
    using steps(1) [OF sm] by blast
  obtain i1 where 1: "consented demo_outside False (ascii ''alice'') (ascii ''s1'') (met ?w0) = (Inr i1, met (met ?w0))"
    using steps(2) [of "met ?w0" False] sm met by auto
  obtain i2 where 2: "consented demo_outside True (ascii ''alice'') (ascii ''s1'') (met (met ?w0)) = (Inr i2, met (met (met ?w0)))"
    using steps(2) [of "met (met ?w0)" True] sm met by auto
  obtain i3 where 3: "consented demo_outside True (ascii ''alice'') (ascii ''s1'') (met (met (met ?w0)))
      = (Inr i3, met (met (met (met ?w0))))"
    using steps(2) [of "met (met (met ?w0))" True] sm met by auto
  have valid: "chain (validate_name (PyStr (ascii ''main''))) (\<lambda>_. chain (validate_target_ref (PyStr (ascii ''v1'')))
      (\<lambda>_. checked (validate_write_name (PyStr (ascii ''count''))))) = Inr ()"
    using demo_entry_valid by simp
  have call: "Called ''rename_local_variable'' (ascii ''s1'') (Plain a) \<in>
      set (w_log (snd (call_port demo_outside ''rename_local_variable'' (ascii ''s1'') (Plain a) w)))" for a and w :: world
    by (simp add: call_port_def)
  have doc: "entries demo_document = [RenameLocalVariableEntry (ascii ''main'') (ascii ''v1'') (ascii ''count'')]"
    by (simp add: demo_document_def)
  let ?a = "model_of [(''session_id'', PyStr (ascii ''s1'')), (''function'', PyStr (ascii ''main'')),
     (''variable'', PyStr (ascii ''v1'')), (''new_name'', PyStr (ascii ''count''))]"
  have attrs: "attr ?a ''function'' = PyStr (ascii ''main'')" "attr ?a ''variable'' = PyStr (ascii ''v1'')"
    "attr ?a ''new_name'' = PyStr (ascii ''count'')"
    by (simp_all add: model_of_def ascii_def py_get_def)
  obtain r w' where c: "call_port demo_outside ''rename_local_variable'' (ascii ''s1'') (Plain ?a) (met (met (met (met ?w0))))
      = (Inr r, w')"
    by (simp add: call_port_def demo_outside_def)
  have "Called ''rename_local_variable'' (ascii ''s1'') (Plain ?a) \<in> set (w_log w')"
    using call [of ?a "met (met (met (met ?w0)))"] c by simp
  moreover have "replay_entry demo_outside (ascii ''alice'') (ascii ''s1'')
      (RenameLocalVariableEntry (ascii ''main'') (ascii ''v1'') (ascii ''count'')) (met (met (met ?w0))) = (Inr (OutWorker r), w')"
    using 3 c by (simp add: replay_entry_def handle_rename_local_variable_def worker_out_def write_tool_def after_def
        lift_def attrs valid demo_entry_valid del: validate_entry.simps)
  then have "w_log (snd (handle_session_import_annotations demo_outside (ascii ''alice'') (ascii ''s1'')
      demo_document ?w0)) = w_log w'"
    using 0 1 2 demo_document_shape by (simp add: handle_session_import_annotations_def after_def lift_def
        demo_document_valid lowered_def structural_document_def doc Let_def)
  ultimately show ?thesis unfolding in_set_conv_decomp by metis
qed

theorem import_bound_to_binary_witness:
  "\<exists>before a later env m s. w_log (snd (handle_session_import_annotations demo_outside (ascii ''alice'') (ascii ''s1'')
      demo_document (demo_world demo_imported)))
   = before @ Called ''rename_local_variable'' (ascii ''s1'') a # later \<and>
   Met env m \<in> set before \<and> dict_get (sessions m) (ascii ''s1'') = Some s \<and> allow_structural s"
proof -
  obtain before a later where lg: "w_log (snd (handle_session_import_annotations demo_outside (ascii ''alice'') (ascii ''s1'')
      demo_document (demo_world demo_imported)))
   = before @ Called ''rename_local_variable'' (ascii ''s1'') a # later"
    using demo_import_calls by blast
  have fresh: "w_log (demo_world demo_imported) = []" by (simp add: demo_world_def)
  from import_bound_to_binary [OF fresh prod.collapse [symmetric] lg] demo_document_shape(1) lg
  show ?thesis by blast
qed

end
