(* ===== verification/Py_Text.thy ===== *)
theory Py_Text
  imports Py_Codec
begin

text \<open>
  More of Python's text: the digits of Unicode, \<open>int(s, 16)\<close> beyond ASCII, splitting and partitioning.
\<close>

subsection \<open>Digits\<close>

text \<open>
  The first code point of each run of ten decimal digits, and the runs of the other characters for
  which \<open>str.isdigit\<close> holds (Unicode 15, the tables of Python 3.12).
\<close>

definition decimal_zeros :: "nat list" where
  "decimal_zeros =
     [0x30, 0x660, 0x6F0, 0x7C0, 0x966, 0x9E6, 0xA66, 0xAE6, 0xB66, 0xBE6, 0xC66, 0xCE6, 0xD66, 0xDE6,
      0xE50, 0xED0, 0xF20, 0x1040, 0x1090, 0x17E0, 0x1810, 0x1946, 0x19D0, 0x1A80, 0x1A90, 0x1B50,
      0x1BB0, 0x1C40, 0x1C50, 0xA620, 0xA8D0, 0xA900, 0xA9D0, 0xA9F0, 0xAA50, 0xABF0, 0xFF10, 0x104A0,
      0x10D30, 0x11066, 0x110F0, 0x11136, 0x111D0, 0x112F0, 0x11450, 0x114D0, 0x11650, 0x116C0, 0x11730,
      0x118E0, 0x11950, 0x11C50, 0x11D50, 0x11DA0, 0x11F50, 0x16A60, 0x16AC0, 0x16B50, 0x1D7CE, 0x1D7D8,
      0x1D7E2, 0x1D7EC, 0x1D7F6, 0x1E140, 0x1E2F0, 0x1E4F0, 0x1E950, 0x1FBF0]"

definition other_digits :: "(nat \<times> nat) list" where
  "other_digits =
     [(0xB2, 2), (0xB9, 1), (0x1369, 9), (0x19DA, 1), (0x2070, 1), (0x2074, 6), (0x2080, 10), (0x2460, 9),
      (0x2474, 9), (0x2488, 9), (0x24EA, 1), (0x24F5, 9), (0x24FF, 1), (0x2776, 9), (0x2780, 9), (0x278A, 9),
      (0x10A40, 4), (0x10E60, 9), (0x11052, 9), (0x1F100, 11)]"

definition decimal_value :: "nat \<Rightarrow> nat option" where
  "decimal_value c = map_option (\<lambda>z. c - z) (find (\<lambda>z. z \<le> c \<and> c < z + 10) decimal_zeros)"

definition digit_char :: "nat \<Rightarrow> bool" where
  "digit_char c \<longleftrightarrow> decimal_value c \<noteq> None \<or> list_ex (\<lambda>(a, n). a \<le> c \<and> c < a + n) other_digits"

definition py_isdigit :: "pystr \<Rightarrow> bool" where
  "py_isdigit s \<longleftrightarrow> s \<noteq> [] \<and> list_all digit_char s"

text \<open>\<open>str.partition\<close> and \<open>str.rpartition\<close> on one character, \<open>str.split\<close>, \<open>str.strip\<close> of given characters.\<close>

definition partition_at :: "nat \<Rightarrow> pystr \<Rightarrow> pystr \<times> bool \<times> pystr" where
  "partition_at c s = (takeWhile (\<lambda>x. x \<noteq> c) s, c \<in> set s, drop 1 (dropWhile (\<lambda>x. x \<noteq> c) s))"

definition rpartition_at :: "nat \<Rightarrow> pystr \<Rightarrow> pystr \<times> bool \<times> pystr" where
  "rpartition_at c s =
     (if c \<in> set s
      then (case partition_at c (rev s) of (after, _, before) \<Rightarrow> (rev before, True, rev after))
      else ([], False, s))"

fun split_at :: "nat \<Rightarrow> pystr \<Rightarrow> pystr list" where
  "split_at c [] = [[]]"
| "split_at c (x # s) =
     (if x = c then [] # split_at c s
      else (case split_at c s of [] \<Rightarrow> [[x]] | part # parts \<Rightarrow> (x # part) # parts))"

text \<open>\<open>sep.join(parts)\<close>\<close>

fun join_with :: "pystr \<Rightarrow> pystr list \<Rightarrow> pystr" where
  "join_with sep [] = []"
| "join_with sep [p] = p"
| "join_with sep (p # ps) = p @ sep @ join_with sep ps"

definition strip_chars :: "pystr \<Rightarrow> pystr \<Rightarrow> pystr" where
  "strip_chars cs s = rev (dropWhile (\<lambda>c. c \<in> set cs) (rev (dropWhile (\<lambda>c. c \<in> set cs) s)))"

subsection \<open>Integers in base 16\<close>

text \<open>
  \<open>int\<close> first turns the decimal digits and blanks beyond ASCII into ASCII ones; any other character
  becomes one that no base accepts.
\<close>

definition int_ascii :: "nat \<Rightarrow> nat" where
  "int_ascii c = (if c < 128 then c else if py_space c then 32
     else (case decimal_value c of Some d \<Rightarrow> 48 + d | None \<Rightarrow> 63))"

definition int_base16 :: "pystr \<Rightarrow> int option" where
  "int_base16 s = py_int16 (map int_ascii s)"

end
