(* ===== verification/Config.thy ===== *)
theory Config
  imports Auth Resource_Limits Py_Text
begin

text \<open>
  Startup configuration (\<open>config.py\<close>): the readers of environment variables, the checks of bind
  address, bearer tokens, algorithms and key-set address, the fail-closed rules of the HTTP transport
  and \<open>load_config\<close>. The environment is a dictionary from names to texts. A choice read against an
  allow-list is an element of that list. The two places where Python consults Unicode tables beyond
  the digits, \<open>str.lower\<close> on a header name and the checks \<open>urlsplit\<close> makes of a network location, are
  the fields of \<open>text_lib\<close>.
\<close>

record text_lib =
  str_lower :: "pystr \<Rightarrow> pystr"
  netloc_faulty :: "pystr \<Rightarrow> bool"

type_synonym environ = "(pystr, pystr) dict"

subsection \<open>Decimal integers\<close>

text \<open>
  \<open>int(text)\<close> of a text of digits: a digit that is not decimal, or more than 4300 of them, is a
  \<open>ValueError\<close>.
\<close>

definition decimal_number :: "pystr \<Rightarrow> int" where
  "decimal_number s = foldl (\<lambda>n c. 10 * n + int (the (decimal_value c))) 0 s"

definition py_int10 :: "pystr \<Rightarrow> exc + int" where
  "py_int10 s =
     (if length s > 4300 \<or> \<not> list_all (\<lambda>c. decimal_value c \<noteq> None) s
      then Inl (ValueError (ascii ''invalid literal for int()'')) else Inr (decimal_number s))"

subsection \<open>Constants\<close>

definition VALID_LOG_LEVELS :: "string list" where
  "VALID_LOG_LEVELS = [''DEBUG'', ''INFO'', ''WARNING'', ''ERROR'']"

definition VALID_LOG_FORMATS :: "string list" where "VALID_LOG_FORMATS = [''json'', ''text'']"
definition VALID_TRANSPORTS :: "string list" where "VALID_TRANSPORTS = [''stdio'', ''http'']"
definition PREFLIGHT_MODES :: "string list" where "PREFLIGHT_MODES = [''warn'', ''reject'', ''off'']"

definition VALID_HTTP_AUTH :: "string list" where
  "VALID_HTTP_AUTH = [''none'', ''bearer'', ''mtls'', ''oauth'', ''mtls-proxy'']"

definition OAUTH_DEFAULT_ALGORITHMS :: "string list" where
  "OAUTH_DEFAULT_ALGORITHMS = [''RS256'', ''ES256'']"

definition LOOPBACK_HOSTS :: "pystr list" where
  "LOOPBACK_HOSTS = [ascii ''127.0.0.1'', ascii ''::1'', ascii ''localhost'']"

definition JWKS_LOOPBACK_HOSTS :: "pystr list" where
  "JWKS_LOOPBACK_HOSTS = [ascii ''localhost'', ascii ''127.0.0.1'', ascii ''::1'']"

definition PRINCIPAL_ID_CHARS :: pystr where
  "PRINCIPAL_ID_CHARS = ascii ''abcdefghijklmnopqrstuvwxyzABCDEFGHIJKLMNOPQRSTUVWXYZ0123456789._-''"

abbreviation MAX_CONFIG_STR_LEN :: nat where "MAX_CONFIG_STR_LEN \<equiv> 512"
abbreviation MAX_OAUTH_CLAIM_LEN :: nat where "MAX_OAUTH_CLAIM_LEN \<equiv> 64"
abbreviation MAX_TOKEN_ID_LEN :: nat where "MAX_TOKEN_ID_LEN \<equiv> 64"
abbreviation MAX_BEARER_TOKENS_LEN :: nat where "MAX_BEARER_TOKENS_LEN \<equiv> 8192"

subsection \<open>Readers\<close>

definition startup_error :: "string \<Rightarrow> exc" where
  "startup_error d =
     new_error \<lparr> err_type = VALIDATION, title = ascii ''Invalid configuration'', detail = ascii d,
       status = Some 500, correlation_id = None, retryable = False \<rparr>"

definition variable_error :: "string \<Rightarrow> string \<Rightarrow> exc" where
  "variable_error name fault = startup_error (''environment variable '' @ name @ '' '' @ fault)"

text \<open>The stripped value of a variable; \<open>None\<close> if it is absent or blank.\<close>

definition env_text :: "environ \<Rightarrow> string \<Rightarrow> pystr option" where
  "env_text env name = (case dict_get env (ascii name) of
     None \<Rightarrow> None
   | Some raw \<Rightarrow> (if py_strip raw = [] then None else Some (py_strip raw)))"

definition read_int :: "environ \<Rightarrow> string \<Rightarrow> exc + int option" where
  "read_int env name =
     (case env_text env name of
        None \<Rightarrow> Inr None
      | Some txt \<Rightarrow>
          if \<not> py_isdigit txt then Inl (variable_error name ''must be a non-negative integer'')
          else chain (py_int10 txt) (\<lambda>n. Inr (Some n)))"

definition read_positive_int :: "environ \<Rightarrow> string \<Rightarrow> int \<Rightarrow> exc + int" where
  "read_positive_int env name fallback =
     chain (read_int env name) (\<lambda>v.
       case v of
         None \<Rightarrow> Inr fallback
       | Some n \<Rightarrow> if n < 1 then Inl (variable_error name ''must be a positive integer'') else Inr n)"

definition read_choice :: "environ \<Rightarrow> string \<Rightarrow> string \<Rightarrow> string list \<Rightarrow> exc + string" where
  "read_choice env name fallback allowed =
     (case env_text env name of
        None \<Rightarrow> Inr fallback
      | Some txt \<Rightarrow>
          (case find (\<lambda>a. ascii a = txt) allowed of
             None \<Rightarrow> Inl (variable_error name ''has an unsupported value'')
           | Some a \<Rightarrow> Inr a))"

definition read_str :: "environ \<Rightarrow> string \<Rightarrow> pystr \<Rightarrow> bool \<Rightarrow> exc + pystr" where
  "read_str env name fallback required =
     (case env_text env name of
        None \<Rightarrow> if required then Inl (variable_error name ''is required'') else Inr fallback
      | Some txt \<Rightarrow>
          if length txt > MAX_CONFIG_STR_LEN then Inl (variable_error name ''is too long'')
          else if list_ex (\<lambda>c. c < 0x20 \<or> c = 0x7F) txt
          then Inl (variable_error name ''contains control characters'')
          else Inr txt)"

text \<open>\<open>_read_str(src, name, "", required=False) or None\<close>.\<close>

definition or_none :: "pystr \<Rightarrow> pystr option" where
  "or_none s = (if s = [] then None else Some s)"

definition read_opt :: "environ \<Rightarrow> string \<Rightarrow> exc + pystr option" where
  "read_opt env name = chain (read_str env name [] False) (\<lambda>s. Inr (or_none s))"

subsection \<open>Bind address and key-set address\<close>

definition host_of_bind :: "pystr \<Rightarrow> pystr" where
  "host_of_bind bind_text = strip_chars (ascii ''[]'') (fst (rpartition_at 58 bind_text))"

text \<open>\<open>(is_unix_socket, is_network)\<close>.\<close>

definition parse_bind :: "pystr \<Rightarrow> exc + bool \<times> bool" where
  "parse_bind bind_text =
     (if take 5 bind_text = ascii ''unix:'' then
        (if length bind_text \<le> 5
         then Inl (variable_error ''VIVARIUM_HTTP_BIND'' ''unix bind needs a path'') else Inr (True, False))
      else
        (case rpartition_at 58 bind_text of (host, sep, port) \<Rightarrow>
           let fault = Inl (variable_error ''VIVARIUM_HTTP_BIND'' ''must be host:port or unix:/path'') in
           if \<not> sep \<or> \<not> py_isdigit port then fault
           else chain (py_int10 port) (\<lambda>n.
             if \<not> (1 \<le> n \<and> n \<le> 65535) then fault
             else Inr (False, host_of_bind bind_text \<notin> set LOOPBACK_HOSTS))))"

text \<open>What \<open>urlparse\<close> makes of an address: its scheme and the host of its network location.\<close>

definition ascii_alpha :: "nat \<Rightarrow> bool" where
  "ascii_alpha c \<longleftrightarrow> 65 \<le> c \<and> c \<le> 90 \<or> 97 \<le> c \<and> c \<le> 122"

definition scheme_char :: "nat \<Rightarrow> bool" where
  "scheme_char c \<longleftrightarrow> ascii_alpha c \<or> 48 \<le> c \<and> c \<le> 57 \<or> c \<in> set (ascii ''+-.'')"

definition split_scheme :: "pystr \<Rightarrow> pystr \<times> pystr" where
  "split_scheme url =
     (case partition_at 58 url of (before, found, after) \<Rightarrow>
        if found \<and> before \<noteq> [] \<and> ascii_alpha (hd before) \<and> list_all scheme_char before
        then (map lower_char before, after) else ([], url))"

definition hostname :: "text_lib \<Rightarrow> pystr \<Rightarrow> pystr option" where
  "hostname lib netloc =
     (let hostinfo = snd (snd (rpartition_at 64 netloc));
          (_, open_br, bracketed) = partition_at 91 hostinfo;
          name = (if open_br then fst (partition_at 93 bracketed) else fst (partition_at 58 hostinfo))
      in if name = [] then None
         else (case partition_at 37 name of (addr, zoned, zone) \<Rightarrow>
           Some (str_lower lib addr @ (if zoned then 37 # zone else []))))"

definition urlparse :: "text_lib \<Rightarrow> pystr \<Rightarrow> exc + pystr \<times> pystr option" where
  "urlparse lib address =
     (case split_scheme (filter (\<lambda>c. c \<notin> {9, 10, 13}) (dropWhile (\<lambda>c. c \<le> 32) address)) of (scheme, rest) \<Rightarrow>
        let netloc = (if take 2 rest = ascii ''//'' then takeWhile (\<lambda>c. c \<notin> set (ascii ''/?#'')) (drop 2 rest) else [])
        in if (91 \<in> set netloc) \<noteq> (93 \<in> set netloc) \<or> netloc \<noteq> [] \<and> netloc_faulty lib netloc
           then Inl (ValueError (ascii ''Invalid URL'')) else Inr (scheme, hostname lib netloc))"

definition require_safe_jwks_uri :: "text_lib \<Rightarrow> pystr \<Rightarrow> exc + unit" where
  "require_safe_jwks_uri lib jwks_uri =
     chain (urlparse lib jwks_uri) (\<lambda>(scheme, host).
       if scheme = ascii ''https'' then Inr ()
       else if scheme = ascii ''http'' \<and> (\<exists>h \<in> set JWKS_LOOPBACK_HOSTS. host = Some h) then Inr ()
       else Inl (startup_error ''oauth JWKS URI must be https (http is allowed only to localhost)''))"

subsection \<open>Bearer tokens and algorithms\<close>

definition validate_principal_id :: "pystr \<Rightarrow> exc + pystr" where
  "validate_principal_id pid =
     (if pid = [] then Inl (variable_error ''VIVARIUM_HTTP_BEARER_TOKENS'' ''has an empty id'')
      else if length pid > MAX_TOKEN_ID_LEN then Inl (variable_error ''VIVARIUM_HTTP_BEARER_TOKENS'' ''has too long an id'')
      else if list_ex (\<lambda>c. c \<notin> set PRINCIPAL_ID_CHARS) pid
      then Inl (variable_error ''VIVARIUM_HTTP_BEARER_TOKENS'' ''id has disallowed characters'')
      else Inr pid)"

text \<open>The closure \<open>_add\<close>.\<close>

definition add_token :: "pystr \<Rightarrow> pystr \<Rightarrow> (pystr, pystr) dict \<Rightarrow> exc + (pystr, pystr) dict" where
  "add_token token pid tokens =
     (if length token < MIN_BEARER_TOKEN_LEN
      then Inl (variable_error ''VIVARIUM_HTTP_BEARER_TOKENS'' ''token is too short (min 16 characters)'')
      else if (case dict_get tokens token of None \<Rightarrow> False | Some other \<Rightarrow> other \<noteq> pid)
      then Inl (variable_error ''VIVARIUM_HTTP_BEARER_TOKENS'' ''maps one token to two principals'')
      else Inr (dict_set token pid tokens))"

fun token_items :: "pystr list \<Rightarrow> (pystr, pystr) dict \<Rightarrow> exc + (pystr, pystr) dict" where
  "token_items [] tokens = Inr tokens"
| "token_items (item # items) tokens =
     (if item = [] then token_items items tokens
      else (case partition_at 58 item of (pid, sep, token) \<Rightarrow>
        if \<not> sep then Inl (variable_error ''VIVARIUM_HTTP_BEARER_TOKENS'' ''entries must be id:token'')
        else chain (validate_principal_id (py_strip pid)) (\<lambda>p.
          chain (add_token (py_strip token) p tokens) (\<lambda>ts. token_items items ts))))"

definition load_bearer_tokens :: "environ \<Rightarrow> pystr option \<Rightarrow> exc + (pystr, pystr) dict" where
  "load_bearer_tokens env single_token =
     (let raw = (case dict_get env (ascii ''VIVARIUM_HTTP_BEARER_TOKENS'') of None \<Rightarrow> [] | Some r \<Rightarrow> r)
      in if length raw > MAX_BEARER_TOKENS_LEN then Inl (variable_error ''VIVARIUM_HTTP_BEARER_TOKENS'' ''is too long'')
         else chain (if py_strip raw = [] then Inr []
                     else token_items (map py_strip (concat (map (split_at 44) (split_at 10 raw)))) []) (\<lambda>tokens.
           case single_token of None \<Rightarrow> Inr tokens | Some t \<Rightarrow> add_token t (ascii ''bearer'') tokens))"

fun algorithm_parts :: "pystr list \<Rightarrow> string list \<Rightarrow> exc + string list" where
  "algorithm_parts [] algs = Inr algs"
| "algorithm_parts (part # parts) algs =
     (if part = [] then algorithm_parts parts algs
      else (case find (\<lambda>a. ascii a = part) OAUTH_ALLOWED_ALGORITHMS of
        None \<Rightarrow> Inl (variable_error ''VIVARIUM_HTTP_OAUTH_ALGORITHMS'' ''has an unsupported algorithm'')
      | Some a \<Rightarrow> algorithm_parts parts (if a \<in> set algs then algs else algs @ [a])))"

definition load_oauth_algorithms :: "environ \<Rightarrow> exc + string list" where
  "load_oauth_algorithms env =
     chain (read_str env ''VIVARIUM_HTTP_OAUTH_ALGORITHMS'' [] False) (\<lambda>raw.
       if raw = [] then Inr OAUTH_DEFAULT_ALGORITHMS
       else chain (algorithm_parts (map py_strip (split_at 44 raw)) []) (\<lambda>algs.
         if algs = [] then Inl (variable_error ''VIVARIUM_HTTP_OAUTH_ALGORITHMS'' ''must list at least one algorithm'')
         else Inr algs))"

subsection \<open>HTTP configuration\<close>

record HttpConfig =
  hc_bind :: pystr
  hc_is_network :: bool
  hc_is_unix_socket :: bool
  hc_tls_cert :: "pystr option"
  hc_tls_key :: "pystr option"
  hc_auth_mode :: string
  hc_bearer_token :: "pystr option"
  hc_cors_origins :: "pystr list"
  hc_rate_per_second :: int
  hc_rate_burst :: int
  hc_max_body_bytes :: int
  hc_bearer_tokens :: "(pystr, pystr) dict"
  hc_tls_client_ca :: "pystr option"
  hc_mtls_principal_field :: string
  hc_oauth_issuer :: "pystr option"
  hc_oauth_audience :: "pystr option"
  hc_oauth_jwks_uri :: "pystr option"
  hc_oauth_principal_claim :: pystr
  hc_oauth_algorithms :: "string list"
  hc_oauth_leeway_s :: int
  hc_oauth_write_scope :: "pystr option"
  hc_proxy_shared_secret :: "pystr option"
  hc_proxy_secret_header :: pystr
  hc_proxy_identity_header :: pystr

definition unless :: "bool \<Rightarrow> string \<Rightarrow> exc + unit" where
  "unless bad d = (if bad then Inl (startup_error d) else Inr ())"

text \<open>The fail-closed rules at the end of \<open>_load_http_config\<close>, in the order of the source.\<close>

definition http_rules :: "text_lib \<Rightarrow> HttpConfig \<Rightarrow> exc + unit" where
  "http_rules lib h =
     chain (unless (hc_is_network h \<and> hc_tls_cert h = None)
              ''a non-loopback HTTP bind requires TLS (set cert and key)'') (\<lambda>_.
     chain (unless (hc_is_network h \<and> hc_auth_mode h = ''none'')
              ''a non-loopback HTTP bind requires an authenticator (auth must not be none)'') (\<lambda>_.
     chain (unless (hc_auth_mode h = ''bearer'' \<and> hc_bearer_tokens h = [])
              ''bearer auth requires at least one token of at least 16 characters'') (\<lambda>_.
     chain (unless (hc_auth_mode h = ''mtls-proxy'' \<and>
              (case hc_proxy_shared_secret h of None \<Rightarrow> True | Some s \<Rightarrow> length s < MIN_BEARER_TOKEN_LEN))
              ''mtls-proxy auth requires a shared secret of at least 16 characters'') (\<lambda>_.
     chain (unless (hc_auth_mode h = ''mtls'' \<and> hc_tls_client_ca h = None)
              ''mTLS auth requires a client-CA bundle (set the client CA path)'') (\<lambda>_.
     chain (unless (hc_auth_mode h = ''mtls'' \<and> hc_tls_cert h = None)
              ''mTLS auth requires server TLS (set cert and key)'') (\<lambda>_.
     chain (if hc_auth_mode h = ''oauth'' then
              (case hc_oauth_jwks_uri h of
                 None \<Rightarrow> Inl (startup_error ''oauth auth requires an issuer, an audience, and a JWKS URI'')
               | Some uri \<Rightarrow>
                   if hc_oauth_issuer h = None \<or> hc_oauth_audience h = None
                   then Inl (startup_error ''oauth auth requires an issuer, an audience, and a JWKS URI'')
                   else require_safe_jwks_uri lib uri)
            else Inr ()) (\<lambda>_.
     unless (ascii ''*'' \<in> set (hc_cors_origins h))
       ''HTTP CORS origins must be explicit; '*' is not allowed'')))))))"

definition bounded_name :: "string \<Rightarrow> pystr \<Rightarrow> exc + unit" where
  "bounded_name name s = (if length s > MAX_OAUTH_CLAIM_LEN then Inl (variable_error name ''is too long'') else Inr ())"

definition header_name :: "text_lib \<Rightarrow> string \<Rightarrow> pystr \<Rightarrow> pystr" where
  "header_name lib fallback s = (if str_lower lib s = [] then ascii fallback else str_lower lib s)"

definition origins_of :: "pystr \<Rightarrow> pystr list" where
  "origins_of raw = filter (\<lambda>p. p \<noteq> []) (map py_strip (split_at 44 raw))"

definition load_http_config :: "text_lib \<Rightarrow> environ \<Rightarrow> exc + HttpConfig" where
  "load_http_config lib env =
     chain (read_str env ''VIVARIUM_HTTP_BIND'' (ascii ''127.0.0.1:8765'') False) (\<lambda>bind_text.
     chain (parse_bind bind_text) (\<lambda>(is_unix, is_network).
     chain (read_opt env ''VIVARIUM_HTTP_TLS_CERT'') (\<lambda>tls_cert.
     chain (read_opt env ''VIVARIUM_HTTP_TLS_KEY'') (\<lambda>tls_key.
     chain (unless ((tls_cert = None) \<noteq> (tls_key = None)) ''HTTP TLS cert and key must both be set or both unset'') (\<lambda>_.
     chain (read_choice env ''VIVARIUM_HTTP_AUTH'' (if is_network then ''bearer'' else ''none'') VALID_HTTP_AUTH) (\<lambda>auth_mode.
     chain (read_opt env ''VIVARIUM_HTTP_TLS_CLIENT_CA'') (\<lambda>client_ca.
     chain (read_choice env ''VIVARIUM_HTTP_MTLS_PRINCIPAL_FIELD'' ''cn'' MTLS_PRINCIPAL_FIELDS) (\<lambda>mtls_field.
     chain (read_opt env ''VIVARIUM_HTTP_OAUTH_ISSUER'') (\<lambda>issuer.
     chain (read_opt env ''VIVARIUM_HTTP_OAUTH_AUDIENCE'') (\<lambda>audience.
     chain (read_opt env ''VIVARIUM_HTTP_OAUTH_JWKS_URI'') (\<lambda>jwks_uri.
     chain (read_str env ''VIVARIUM_HTTP_OAUTH_PRINCIPAL_CLAIM'' (ascii ''sub'') False) (\<lambda>claim.
     chain (bounded_name ''VIVARIUM_HTTP_OAUTH_PRINCIPAL_CLAIM'' claim) (\<lambda>_.
     chain (load_oauth_algorithms env) (\<lambda>algorithms.
     chain (read_positive_int env ''VIVARIUM_HTTP_OAUTH_LEEWAY_SECONDS'' 30) (\<lambda>leeway.
     chain (read_opt env ''VIVARIUM_HTTP_OAUTH_WRITE_SCOPE'') (\<lambda>write_scope.
     chain (case write_scope of None \<Rightarrow> Inr () | Some s \<Rightarrow> bounded_name ''VIVARIUM_HTTP_OAUTH_WRITE_SCOPE'' s) (\<lambda>_.
     chain (read_opt env ''VIVARIUM_HTTP_PROXY_SHARED_SECRET'') (\<lambda>secret.
     chain (read_str env ''VIVARIUM_HTTP_PROXY_SECRET_HEADER'' [] False) (\<lambda>secret_header.
     chain (read_str env ''VIVARIUM_HTTP_PROXY_IDENTITY_HEADER'' [] False) (\<lambda>identity_header.
     chain (read_opt env ''VIVARIUM_HTTP_BEARER_TOKEN'') (\<lambda>single_token.
     chain (load_bearer_tokens env single_token) (\<lambda>tokens.
     chain (read_str env ''VIVARIUM_HTTP_CORS_ORIGINS'' [] False) (\<lambda>cors_raw.
     chain (read_positive_int env ''VIVARIUM_HTTP_RATE_PER_SECOND'' 10) (\<lambda>per_second.
     chain (read_positive_int env ''VIVARIUM_HTTP_RATE_BURST'' 20) (\<lambda>rate_burst.
     chain (read_positive_int env ''VIVARIUM_HTTP_MAX_BODY_BYTES'' 1048576) (\<lambda>body_bytes.
     let h = \<lparr> hc_bind = bind_text, hc_is_network = is_network, hc_is_unix_socket = is_unix,
           hc_tls_cert = tls_cert, hc_tls_key = tls_key, hc_auth_mode = auth_mode,
           hc_bearer_token = single_token, hc_cors_origins = origins_of cors_raw,
           hc_rate_per_second = per_second, hc_rate_burst = rate_burst, hc_max_body_bytes = body_bytes,
           hc_bearer_tokens = tokens, hc_tls_client_ca = client_ca, hc_mtls_principal_field = mtls_field,
           hc_oauth_issuer = issuer, hc_oauth_audience = audience, hc_oauth_jwks_uri = jwks_uri,
           hc_oauth_principal_claim = claim, hc_oauth_algorithms = algorithms, hc_oauth_leeway_s = leeway,
           hc_oauth_write_scope = write_scope, hc_proxy_shared_secret = secret,
           hc_proxy_secret_header = header_name lib ''x-proxy-auth'' secret_header,
           hc_proxy_identity_header = header_name lib ''x-client-cert-subject'' identity_header \<rparr>
     in chain (http_rules lib h) (\<lambda>_. Inr h)))))))))))))))))))))))))))"

subsection \<open>The server's configuration\<close>

record Config =
  log_level :: string
  log_format :: string
  session_ttl_s :: int
  session_idle_s :: int
  limits :: Limits
  worker_image :: pystr
  worker_runtime :: pystr
  worker_uid :: int
  worker_gid :: int
  rpc_socket_dir :: pystr
  import_root :: pystr
  worker_resources :: WorkerResources
  transport :: string
  http :: "HttpConfig option"
  worker_preflight_mode :: string
  session_reap_interval_s :: int
  metrics_snapshot_interval_s :: int
  readiness_cache_ttl_s :: int

text \<open>The two loops that collect the overrides that are set.\<close>

fun read_overrides :: "environ \<Rightarrow> (string \<times> string) list \<Rightarrow> (pystr, pyval) dict \<Rightarrow> exc + (pystr, pyval) dict" where
  "read_overrides env [] overrides = Inr overrides"
| "read_overrides env ((name, key) # table) overrides =
     chain (read_int env name) (\<lambda>v.
       read_overrides env table (case v of None \<Rightarrow> overrides | Some n \<Rightarrow> dict_set (ascii key) (PyInt n) overrides))"

definition limit_variables :: "(string \<times> string) list" where
  "limit_variables =
     [(''VIVARIUM_MAX_SESSIONS'', ''max_sessions''),
      (''VIVARIUM_MAX_SESSIONS_PER_OWNER'', ''max_sessions_per_owner''),
      (''VIVARIUM_MAX_BINARY_BYTES'', ''max_binary_bytes''),
      (''VIVARIUM_ANALYSIS_TIMEOUT_SECONDS'', ''analysis_timeout_s''),
      (''VIVARIUM_TOOL_TIMEOUT_SECONDS'', ''tool_timeout_s''),
      (''VIVARIUM_MAX_RESPONSE_BYTES'', ''max_response_bytes''),
      (''VIVARIUM_MAX_STREAM_BUFFER_CHUNKS'', ''max_stream_buffer_chunks''),
      (''VIVARIUM_MAX_STREAM_REPLAY_CHUNKS'', ''max_stream_replay_chunks'')]"

definition worker_variables :: "(string \<times> string) list" where
  "worker_variables =
     [(''VIVARIUM_WORKER_MEM_MIB'', ''mem_mib''), (''VIVARIUM_WORKER_CPUS'', ''cpus''),
      (''VIVARIUM_WORKER_PIDS'', ''pids''), (''VIVARIUM_WORKER_TMPFS_SCRATCH_MIB'', ''tmpfs_scratch_mib''),
      (''VIVARIUM_WORKER_TMPFS_PROJECT_MIB'', ''tmpfs_project_mib'')]"

definition load_config :: "text_lib \<Rightarrow> environ \<Rightarrow> exc + Config" where
  "load_config lib env =
     chain (read_choice env ''VIVARIUM_LOG_LEVEL'' ''INFO'' VALID_LOG_LEVELS) (\<lambda>level.
     chain (read_choice env ''VIVARIUM_LOG_FORMAT'' ''json'' VALID_LOG_FORMATS) (\<lambda>format.
     chain (read_positive_int env ''VIVARIUM_SESSION_TTL_SECONDS'' 3600) (\<lambda>ttl.
     chain (read_positive_int env ''VIVARIUM_SESSION_IDLE_SECONDS'' 900) (\<lambda>idle.
     chain (unless (idle > ttl) ''session idle timeout must not exceed the session TTL'') (\<lambda>_.
     chain (read_positive_int env ''VIVARIUM_SESSION_REAP_INTERVAL_SECONDS'' 60) (\<lambda>reap.
     chain (read_positive_int env ''VIVARIUM_METRICS_SNAPSHOT_INTERVAL_SECONDS'' 60) (\<lambda>snapshot.
     chain (read_positive_int env ''VIVARIUM_READINESS_CACHE_TTL_SECONDS'' 1) (\<lambda>readiness.
     chain (read_str env ''VIVARIUM_WORKER_IMAGE'' [] True) (\<lambda>image.
     chain (read_str env ''VIVARIUM_WORKER_RUNTIME'' (ascii ''runsc'') False) (\<lambda>runtime.
     chain (read_positive_int env ''VIVARIUM_WORKER_UID'' 65532) (\<lambda>uid.
     chain (read_positive_int env ''VIVARIUM_WORKER_GID'' 65532) (\<lambda>gid.
     chain (read_str env ''VIVARIUM_RPC_SOCKET_DIR'' (ascii ''/run/vivarium'') False) (\<lambda>socket_dir.
     chain (read_str env ''VIVARIUM_IMPORT_ROOT'' (ascii ''/work/imports'') False) (\<lambda>imports.
     chain (read_choice env ''VIVARIUM_WORKER_PREFLIGHT'' ''warn'' PREFLIGHT_MODES) (\<lambda>preflight.
     chain (read_choice env ''VIVARIUM_TRANSPORT'' ''stdio'' VALID_TRANSPORTS) (\<lambda>transp.
     chain (if transp = ''http'' then map_sum id Some (load_http_config lib env) else Inr None) (\<lambda>web.
     chain (read_overrides env limit_variables []) (\<lambda>overrides.
     chain (resolve_limits (Some overrides)) (\<lambda>lims.
     chain (unless (idle < analysis_timeout_s lims)
       ''session idle timeout must be at least the analysis timeout (a long analysis must not be able to idle-evict its own session)'') (\<lambda>_.
     chain (read_overrides env worker_variables []) (\<lambda>worker_overrides.
     chain (resolve_worker_resources (Some worker_overrides)) (\<lambda>resources.
     Inr \<lparr> log_level = level, log_format = format, session_ttl_s = ttl, session_idle_s = idle, limits = lims,
       worker_image = image, worker_runtime = runtime, worker_uid = uid, worker_gid = gid,
       rpc_socket_dir = socket_dir, import_root = imports, worker_resources = resources,
       transport = transp, http = web, worker_preflight_mode = preflight, session_reap_interval_s = reap,
       metrics_snapshot_interval_s = snapshot, readiness_cache_ttl_s = readiness \<rparr>))))))))))))))))))))))"

end
