(* ===== verification/Config_Props.thy ===== *)
theory Config_Props
  imports Config
begin

text \<open>
  What a configuration that loads guarantees, and how loading fails. The readers are related to what
  they return once; the property of \<open>load_config\<close> collects them. Faults are followed through the
  sequence of readers by \<open>fails_with\<close>.
\<close>

subsection \<open>Outcomes\<close>

definition outcome_of :: "exc + 'a \<Rightarrow> ('a \<Rightarrow> bool) \<Rightarrow> (exc \<Rightarrow> bool) \<Rightarrow> bool" where
  "outcome_of r P F \<longleftrightarrow> (case r of Inr x \<Rightarrow> P x | Inl e \<Rightarrow> F e)"

named_theorems outcome_intros \<open>what a reader returns and how it fails\<close>

lemma outcome_Inr [simp]: "outcome_of (Inr x) P F \<longleftrightarrow> P x" and outcome_Inl [simp]: "outcome_of (Inl e) P F \<longleftrightarrow> F e"
  by (simp_all add: outcome_of_def)

lemma outcome_chain: "outcome_of r P F \<Longrightarrow> (\<And>x. P x \<Longrightarrow> outcome_of (f x) Q F) \<Longrightarrow> outcome_of (chain r f) Q F"
  by (cases r) simp_all

lemma outcome_mono: "outcome_of r P F \<Longrightarrow> (\<And>x. P x \<Longrightarrow> Q x) \<Longrightarrow> outcome_of r Q F"
  by (cases r) simp_all

lemma outcome_map: "outcome_of r (\<lambda>x. P (f x)) F \<Longrightarrow> outcome_of (map_sum id f r) P F"
  by (cases r) simp_all

text \<open>
  The faults of a start: a validation error, or a \<open>ValueError\<close> of the standard library, which needs a
  value with digits that are not decimal, one of more than 4300 characters, or one that is no address.
\<close>

definition odd_value :: "text_lib \<Rightarrow> pystr \<Rightarrow> bool" where
  "odd_value lib raw \<longleftrightarrow> length raw > 4300 \<or> (\<exists>c \<in> set raw. digit_char c \<and> decimal_value c = None) \<or>
     (\<exists>e. urlparse lib (py_strip raw) = Inl e)"

definition start_fault :: "text_lib \<Rightarrow> environ \<Rightarrow> exc \<Rightarrow> bool" where
  "start_fault lib env e \<longleftrightarrow> exc_type e = Some VALIDATION \<or>
     (\<exists>m. e = ValueError m) \<and> (\<exists>name raw. dict_get env name = Some raw \<and> odd_value lib raw)"

definition from_env :: "environ \<Rightarrow> pystr \<Rightarrow> bool" where
  "from_env env s \<longleftrightarrow> (\<exists>name raw. dict_get env name = Some raw \<and> s = py_strip raw)"

lemma startup_error_type: "d \<noteq> [] \<Longrightarrow> length d \<le> 2048 \<Longrightarrow> exc_type (startup_error d) = Some VALIDATION"
  by (cases d) (simp_all add: startup_error_def new_error_def envelope_fields_ok_def exc_type_def)

lemma startup_fault [simp]: "d \<noteq> [] \<Longrightarrow> length d \<le> 2048 \<Longrightarrow> start_fault lib env (startup_error d)"
  by (simp add: start_fault_def startup_error_type)

lemma variable_fault [simp]:
  "length name \<le> 1000 \<Longrightarrow> length why \<le> 1000 \<Longrightarrow> start_fault lib env (variable_error name why)"
  unfolding variable_error_def by (rule startup_fault) simp_all

lemma set_py_strip: "set (py_strip s) \<subseteq> set s"
  by (auto simp: py_strip_def dest!: set_dropWhileD)

lemma length_py_strip: "length (py_strip s) \<le> length s"
  using length_dropWhile_le [of py_space "rev (dropWhile py_space s)"] length_dropWhile_le [of py_space s]
  unfolding py_strip_def by simp

text \<open>A number read from a part of a value.\<close>

lemma py_int10_outcome:
  assumes "py_isdigit s" "from_env env t" "set s \<subseteq> set t" "length s \<le> length t"
  shows "outcome_of (py_int10 s) (\<lambda>_. True) (start_fault lib env)"
proof (cases "py_int10 s")
  case (Inl e)
  obtain name raw where raw: "dict_get env name = Some raw" "t = py_strip raw" using assms(2) unfolding from_env_def by blast
  from Inl have "e = ValueError (ascii ''invalid literal for int()'')" by (auto simp: py_int10_def split: if_splits)
  moreover have "odd_value lib raw"
    using Inl assms(1,3,4) set_py_strip [of raw] length_py_strip [of raw] unfolding raw(2)
    by (auto simp: py_int10_def odd_value_def py_isdigit_def list_all_iff split: if_splits)
  ultimately show ?thesis using raw(1) Inl by (auto simp: start_fault_def)
qed simp

subsection \<open>The readers\<close>

lemma env_text_from: "env_text env name = Some w \<Longrightarrow> from_env env w \<and> w \<noteq> []"
  unfolding env_text_def from_env_def by (simp split: option.splits if_splits) blast

lemma read_int_outcome:
  assumes "length name \<le> 1000" shows "outcome_of (read_int env name) (\<lambda>_. True) (start_fault lib env)"
proof (cases "env_text env name")
  case (Some w)
  show ?thesis
  proof (cases "py_isdigit w")
    case True
    have "outcome_of (chain (py_int10 w) (\<lambda>n. Inr (Some n))) (\<lambda>_. True) (start_fault lib env)"
      using py_int10_outcome [OF True] env_text_from [OF Some] by (intro outcome_chain) auto
    with True Some show ?thesis by (simp add: read_int_def)
  qed (use assms Some in \<open>simp add: read_int_def\<close>)
qed (simp add: read_int_def)

lemma read_positive_int_outcome [outcome_intros]:
  assumes "length name \<le> 1000" "1 \<le> n"
  shows "outcome_of (read_positive_int env name n) (\<lambda>v. 1 \<le> v) (start_fault lib env)"
  unfolding read_positive_int_def
  by (rule outcome_chain [OF read_int_outcome]) (use assms in \<open>simp_all split: option.split\<close>)

lemma read_choice_outcome [outcome_intros]:
  assumes "length name \<le> 1000" "a \<in> set allowed"
  shows "outcome_of (read_choice env name a allowed) (\<lambda>v. v \<in> set allowed) (start_fault lib env)"
  using assms by (auto simp: read_choice_def find_Some_iff split: option.split)

lemma read_str_outcome [outcome_intros]:
  assumes "length name \<le> 1000"
  shows "outcome_of (read_str env name a required)
    (\<lambda>s. \<not> required \<and> s = a \<or> from_env env s \<and> s \<noteq> [] \<and> length s \<le> MAX_CONFIG_STR_LEN) (start_fault lib env)"
  using assms by (auto simp: read_str_def dest: env_text_from split: option.split)

lemma read_opt_outcome [outcome_intros]:
  assumes "length name \<le> 1000"
  shows "outcome_of (read_opt env name) (\<lambda>r. \<forall>s. r = Some s \<longrightarrow> from_env env s \<and> s \<noteq> []) (start_fault lib env)"
  unfolding read_opt_def
  by (rule outcome_chain [OF read_str_outcome [OF assms]]) (auto simp: or_none_def)

lemma unless_outcome [outcome_intros]:
  "d \<noteq> [] \<Longrightarrow> length d \<le> 2048 \<Longrightarrow> outcome_of (unless bad d) (\<lambda>_. \<not> bad) (start_fault lib env)"
  by (simp add: unless_def)

lemma bounded_name_outcome [outcome_intros]:
  "length name \<le> 1000 \<Longrightarrow> outcome_of (bounded_name name s) (\<lambda>_. length s \<le> MAX_OAUTH_CLAIM_LEN) (start_fault lib env)"
  by (simp add: bounded_name_def)

lemma rpartition_parts: "rpartition_at c s = (x, b, y) \<Longrightarrow> set y \<subseteq> set s \<and> length y \<le> length s"
  using set_takeWhileD length_takeWhile_le [of "\<lambda>x. x \<noteq> c" "rev s"]
  by (auto simp: rpartition_at_def partition_at_def split: if_splits dest!: set_takeWhileD)

lemma default_bind: "parse_bind (ascii ''127.0.0.1:8765'') = Inr (False, False)"
proof -
  have parts: "rpartition_at 58 (ascii ''127.0.0.1:8765'') = (ascii ''127.0.0.1'', True, ascii ''8765'')"
    by (simp add: rpartition_at_def partition_at_def ascii_def)
  have "decimal_value c = Some (c - 48)" if "48 \<le> c" "c < 58" for c
    using that by (simp add: decimal_value_def decimal_zeros_def)
  then have "py_isdigit (ascii ''8765'')" "py_int10 (ascii ''8765'') = Inr 8765"
    by (simp_all add: py_isdigit_def digit_char_def py_int10_def decimal_number_def ascii_def)
  then show ?thesis
    unfolding parse_bind_def parts by (simp add: Let_def host_of_bind_def parts) (simp add: ascii_def strip_chars_def LOOPBACK_HOSTS_def)
qed

lemma parse_bind_outcome [outcome_intros]:
  assumes "b = ascii ''127.0.0.1:8765'' \<or> from_env env b"
  shows "outcome_of (parse_bind b) (\<lambda>(u, n). \<not> (u \<and> n) \<and> (\<not> u \<longrightarrow> (n \<longleftrightarrow> host_of_bind b \<notin> set LOOPBACK_HOSTS))) (start_fault lib env)"
proof (cases "from_env env b")
  case True
  obtain host sep port where p: "rpartition_at 58 b = (host, sep, port)" by (cases "rpartition_at 58 b")
  have number: "outcome_of (py_int10 port) (\<lambda>_. True) (start_fault lib env)" if "py_isdigit port"
    using py_int10_outcome [OF that True] rpartition_parts [OF p] by blast
  have "outcome_of (chain (py_int10 port) (\<lambda>n. if \<not> (1 \<le> n \<and> n \<le> 65535)
      then Inl (variable_error ''VIVARIUM_HTTP_BIND'' ''must be host:port or unix:/path'')
      else Inr (False, host_of_bind b \<notin> set LOOPBACK_HOSTS)))
    (\<lambda>(u, n). \<not> (u \<and> n) \<and> (\<not> u \<longrightarrow> (n \<longleftrightarrow> host_of_bind b \<notin> set LOOPBACK_HOSTS))) (start_fault lib env)" if "py_isdigit port"
    by (rule outcome_chain [OF number [OF that]]) simp
  then show ?thesis by (simp add: parse_bind_def p Let_def)
next
  case False
  with assms have b: "b = ascii ''127.0.0.1:8765''" by simp
  show ?thesis unfolding b default_bind by simp code_simp
qed

text \<open>The identifiers and tokens that may enter the token map.\<close>

definition token_id_ok :: "pystr \<Rightarrow> bool" where
  "token_id_ok pid \<longleftrightarrow> pid \<noteq> [] \<and> length pid \<le> MAX_TOKEN_ID_LEN \<and> set pid \<subseteq> set PRINCIPAL_ID_CHARS"

definition tokens_ok :: "(pystr, pystr) dict \<Rightarrow> bool" where
  "tokens_ok tokens \<longleftrightarrow> dict_ok tokens \<and>
     (\<forall>(token, pid) \<in> set tokens. MIN_BEARER_TOKEN_LEN \<le> length token \<and> token_id_ok pid)"

lemma validate_principal_id_outcome: "outcome_of (validate_principal_id pid) token_id_ok (start_fault lib env)"
  by (auto simp: validate_principal_id_def token_id_ok_def list_ex_iff)

lemma add_token_outcome:
  assumes "tokens_ok tokens" "token_id_ok pid"
  shows "outcome_of (add_token token pid tokens) (\<lambda>ts. tokens_ok ts \<and> dict_get ts token = Some pid) (start_fault lib env)"
  using assms by (auto simp: add_token_def tokens_ok_def dict_simps dict_set_mem)

lemma token_items_outcome:
  "tokens_ok tokens \<Longrightarrow> outcome_of (token_items items tokens) tokens_ok (start_fault lib env)"
proof (induction items tokens rule: token_items.induct)
  case (2 item items tokens)
  show ?case
  proof (cases "item = []")
    case False
    obtain pid sep token where p: "partition_at 58 item = (pid, sep, token)" by (cases "partition_at 58 item")
    have "outcome_of (chain (validate_principal_id (py_strip pid)) (\<lambda>p.
        chain (add_token (py_strip token) p tokens) (\<lambda>ts. token_items items ts))) tokens_ok (start_fault lib env)" if sep
      by (rule outcome_chain [OF validate_principal_id_outcome], rule outcome_chain [OF add_token_outcome])
         (use "2.IH"(2) [OF False p [symmetric] refl] "2.prems" that in auto)
    then show ?thesis using False p by simp
  qed (use 2 in simp)
qed simp

lemma bearer_id_ok: "token_id_ok (ascii ''bearer'')"
  by (simp add: token_id_ok_def PRINCIPAL_ID_CHARS_def ascii_def)

lemma load_bearer_tokens_outcome [outcome_intros]:
  "outcome_of (load_bearer_tokens env single)
     (\<lambda>ts. tokens_ok ts \<and> (\<forall>t. single = Some t \<longrightarrow> dict_get ts t = Some (ascii ''bearer''))) (start_fault lib env)"
proof -
  have nil: "tokens_ok []" by (simp add: tokens_ok_def)
  let ?raw = "case dict_get env (ascii ''VIVARIUM_HTTP_BEARER_TOKENS'') of None \<Rightarrow> [] | Some r \<Rightarrow> r"
  let ?items = "if py_strip ?raw = [] then Inr []
    else token_items (map py_strip (concat (map (split_at 44) (split_at 10 ?raw)))) []"
  let ?single = "\<lambda>tokens. case single of None \<Rightarrow> Inr tokens | Some t \<Rightarrow> add_token t (ascii ''bearer'') tokens"
  let ?ok = "\<lambda>ts. tokens_ok ts \<and> (\<forall>t. single = Some t \<longrightarrow> dict_get ts t = Some (ascii ''bearer''))"
  have items: "outcome_of ?items tokens_ok (start_fault lib env)"
    using nil token_items_outcome [OF nil] by simp
  have single: "outcome_of (?single tokens) ?ok (start_fault lib env)" if "tokens_ok tokens" for tokens
    using add_token_outcome [OF that bearer_id_ok] that by (cases single) simp_all
  have all: "outcome_of (chain ?items ?single) ?ok (start_fault lib env)"
    by (rule outcome_chain [OF items single])
  show ?thesis
  proof (cases "length ?raw > MAX_BEARER_TOKENS_LEN")
    case True
    then show ?thesis by (simp add: load_bearer_tokens_def Let_def)
  next
    case False
    then have "load_bearer_tokens env single = chain ?items ?single"
      by (simp only: load_bearer_tokens_def Let_def if_False)
    then show ?thesis using all by (simp only:)
  qed
qed

definition algorithms_ok :: "string list \<Rightarrow> bool" where
  "algorithms_ok algs \<longleftrightarrow> algs \<noteq> [] \<and> distinct algs \<and> set algs \<subseteq> set OAUTH_ALLOWED_ALGORITHMS"

lemma algorithm_parts_outcome:
  "distinct algs \<Longrightarrow> set algs \<subseteq> set OAUTH_ALLOWED_ALGORITHMS \<Longrightarrow>
   outcome_of (algorithm_parts parts algs) (\<lambda>as. distinct as \<and> set as \<subseteq> set OAUTH_ALLOWED_ALGORITHMS) (start_fault lib env)"
proof (induction parts algs rule: algorithm_parts.induct)
  case (2 part parts algs)
  show ?case
  proof (cases "part = []")
    case False
    show ?thesis
    proof (cases "find (\<lambda>a. ascii a = part) OAUTH_ALLOWED_ALGORITHMS")
      case (Some a)
      then have "a \<in> set OAUTH_ALLOWED_ALGORITHMS" by (auto simp: find_Some_iff)
      then have "outcome_of (algorithm_parts parts (if a \<in> set algs then algs else algs @ [a]))
          (\<lambda>as. distinct as \<and> set as \<subseteq> set OAUTH_ALLOWED_ALGORITHMS) (start_fault lib env)"
        using "2.prems" by (intro "2.IH"(2) [OF False Some]) auto
      with False Some show ?thesis by simp
    qed (use False in simp)
  qed (use 2 in simp)
qed simp

lemma default_algorithms_ok: "algorithms_ok OAUTH_DEFAULT_ALGORITHMS"
  by (simp add: algorithms_ok_def OAUTH_DEFAULT_ALGORITHMS_def OAUTH_ALLOWED_ALGORITHMS_def)

lemma load_oauth_algorithms_outcome [outcome_intros]:
  "outcome_of (load_oauth_algorithms env) algorithms_ok (start_fault lib env)"
proof -
  have parts: "outcome_of (chain (algorithm_parts ps []) (\<lambda>algs. if algs = []
        then Inl (variable_error ''VIVARIUM_HTTP_OAUTH_ALGORITHMS'' ''must list at least one algorithm'') else Inr algs))
      algorithms_ok (start_fault lib env)" for ps
    by (rule outcome_chain [OF algorithm_parts_outcome]) (simp_all add: algorithms_ok_def)
  show ?thesis
    unfolding load_oauth_algorithms_def
    by (rule outcome_chain [OF read_str_outcome]) (use parts default_algorithms_ok in auto)
qed

definition jwks_safe :: "text_lib \<Rightarrow> pystr \<Rightarrow> bool" where
  "jwks_safe lib uri \<longleftrightarrow> (\<exists>scheme host. urlparse lib uri = Inr (scheme, host) \<and>
     (scheme = ascii ''https'' \<or> scheme = ascii ''http'' \<and> (\<exists>h \<in> set JWKS_LOOPBACK_HOSTS. host = Some h)))"

lemma require_safe_jwks_uri_outcome:
  assumes "from_env env uri"
  shows "outcome_of (require_safe_jwks_uri lib uri) (\<lambda>_. jwks_safe lib uri) (start_fault lib env)"
proof (cases "urlparse lib uri")
  case (Inl e)
  obtain name raw where raw: "dict_get env name = Some raw" "uri = py_strip raw" using assms unfolding from_env_def by blast
  have "odd_value lib raw" using Inl raw(2) by (auto simp: odd_value_def)
  moreover have "\<exists>m. e = ValueError m" using Inl by (auto simp: urlparse_def Let_def split: prod.splits if_splits)
  ultimately show ?thesis using Inl raw(1) by (auto simp: require_safe_jwks_uri_def start_fault_def)
next
  case (Inr r)
  then show ?thesis by (cases r) (auto simp: require_safe_jwks_uri_def jwks_safe_def)
qed

subsection \<open>A configuration that boots\<close>

text \<open>The posture of the HTTP transport: what each mode needs is there.\<close>

definition mode_ready :: "text_lib \<Rightarrow> HttpConfig \<Rightarrow> bool" where
  "mode_ready lib h \<longleftrightarrow>
     (hc_auth_mode h = ''bearer'' \<longrightarrow> hc_bearer_tokens h \<noteq> []) \<and>
     (hc_auth_mode h = ''mtls'' \<longrightarrow> hc_tls_client_ca h \<noteq> None \<and> hc_tls_cert h \<noteq> None) \<and>
     (hc_auth_mode h = ''mtls-proxy'' \<longrightarrow>
        (\<exists>s. hc_proxy_shared_secret h = Some s \<and> MIN_BEARER_TOKEN_LEN \<le> length s)) \<and>
     (hc_auth_mode h = ''oauth'' \<longrightarrow> hc_oauth_issuer h \<noteq> None \<and> hc_oauth_audience h \<noteq> None \<and>
        (\<exists>uri. hc_oauth_jwks_uri h = Some uri \<and> jwks_safe lib uri))"

definition safe_http :: "text_lib \<Rightarrow> HttpConfig \<Rightarrow> bool" where
  "safe_http lib h \<longleftrightarrow>
     (hc_is_network h \<longrightarrow> hc_tls_cert h \<noteq> None \<and> hc_auth_mode h \<noteq> ''none'') \<and>
     (hc_tls_cert h = None \<longleftrightarrow> hc_tls_key h = None) \<and>
     \<not> (hc_is_unix_socket h \<and> hc_is_network h) \<and>
     (\<not> hc_is_unix_socket h \<and> \<not> hc_is_network h \<longrightarrow> host_of_bind (hc_bind h) \<in> set LOOPBACK_HOSTS) \<and>
     hc_auth_mode h \<in> set VALID_HTTP_AUTH \<and> mode_ready lib h \<and> tokens_ok (hc_bearer_tokens h) \<and>
     (\<forall>t. hc_bearer_token h = Some t \<longrightarrow> dict_get (hc_bearer_tokens h) t = Some (ascii ''bearer'')) \<and>
     hc_mtls_principal_field h \<in> set MTLS_PRINCIPAL_FIELDS \<and> algorithms_ok (hc_oauth_algorithms h) \<and>
     ascii ''*'' \<notin> set (hc_cors_origins h) \<and>
     1 \<le> hc_rate_per_second h \<and> 1 \<le> hc_rate_burst h \<and> 1 \<le> hc_max_body_bytes h \<and> 1 \<le> hc_oauth_leeway_s h"

lemma http_rules_outcome:
  assumes "\<forall>uri. hc_oauth_jwks_uri h = Some uri \<longrightarrow> from_env env uri"
  shows "outcome_of (http_rules lib h) (\<lambda>_. (hc_is_network h \<longrightarrow> hc_tls_cert h \<noteq> None \<and> hc_auth_mode h \<noteq> ''none'') \<and>
    mode_ready lib h \<and> ascii ''*'' \<notin> set (hc_cors_origins h)) (start_fault lib env)"
proof -
  have oauth: "outcome_of (if hc_auth_mode h = ''oauth'' then
        (case hc_oauth_jwks_uri h of
           None \<Rightarrow> Inl (startup_error ''oauth auth requires an issuer, an audience, and a JWKS URI'')
         | Some uri \<Rightarrow>
             if hc_oauth_issuer h = None \<or> hc_oauth_audience h = None
             then Inl (startup_error ''oauth auth requires an issuer, an audience, and a JWKS URI'')
             else require_safe_jwks_uri lib uri)
      else Inr ())
    (\<lambda>_. hc_auth_mode h = ''oauth'' \<longrightarrow> hc_oauth_issuer h \<noteq> None \<and> hc_oauth_audience h \<noteq> None \<and>
        (\<exists>uri. hc_oauth_jwks_uri h = Some uri \<and> jwks_safe lib uri)) (start_fault lib env)"
    using assms by (auto intro!: outcome_mono [OF require_safe_jwks_uri_outcome] split: option.split)
  show ?thesis
    unfolding http_rules_def
    by (intro outcome_chain [OF unless_outcome] outcome_chain [OF oauth] outcome_mono [OF unless_outcome])
       (auto simp: mode_ready_def not_less split: option.splits)
qed

lemma outcome_pair: "(\<And>x y. p = (x, y) \<Longrightarrow> outcome_of (f x y) Q F) \<Longrightarrow> outcome_of (case p of (x, y) \<Rightarrow> f x y) Q F"
  by (cases p) simp

lemma optional_name_outcome [outcome_intros]:
  "length name \<le> 1000 \<Longrightarrow> outcome_of (case s of None \<Rightarrow> Inr () | Some w \<Rightarrow> bounded_name name w)
     (\<lambda>_. \<forall>w. s = Some w \<longrightarrow> length w \<le> MAX_OAUTH_CLAIM_LEN) (start_fault lib env)"
  by (cases s) (simp_all add: bounded_name_def)

lemmas outcome_steps = outcome_intros [THEN outcome_chain] http_rules_outcome [THEN outcome_chain]

lemma load_http_config_outcome: "outcome_of (load_http_config lib env) (safe_http lib) (start_fault lib env)"
  unfolding load_http_config_def Let_def
  by (intro outcome_steps outcome_pair)
     (auto simp: safe_http_def VALID_HTTP_AUTH_def MTLS_PRINCIPAL_FIELDS_def)

subsection \<open>Limits from the environment\<close>

definition keys_in :: "pystr list \<Rightarrow> (pystr, pyval) dict \<Rightarrow> bool" where
  "keys_in known ov \<longleftrightarrow> fst ` set ov \<subseteq> set known"

lemma read_overrides_outcome:
  assumes "\<forall>(name, key) \<in> set table. length name \<le> 1000 \<and> ascii key \<in> set known"
  shows "keys_in known ov \<Longrightarrow> outcome_of (read_overrides env table ov) (keys_in known) (start_fault lib env)"
  using assms
proof (induction env table ov rule: read_overrides.induct)
  case (2 env name key table ov)
  have keys: "keys_in known (dict_set (ascii key) (PyInt n) ov)" for n
    using "2.prems" unfolding keys_in_def by (auto simp: dom_map_of_conv_image_fst [symmetric] dict_simps update_conv')
  show ?case
    unfolding read_overrides.simps
    by (rule outcome_chain [OF read_int_outcome])
       (use "2.IH" "2.prems" keys in \<open>auto split: option.split\<close>)
qed (simp add: keys_in_def)

lemma clamp_outcome:
  assumes "\<forall>k \<in> set known. length k \<le> 100" "length noun \<le> 100"
  shows "keys_in known ov \<Longrightarrow> outcome_of (clamp_overrides noun known ceil ov acc) (\<lambda>_. True) (start_fault lib env)"
  using assms
proof (induction noun known ceil ov acc rule: clamp_overrides.induct)
  case (2 noun known ceil key val rest acc)
  have err: "start_fault lib env (limits_validation_error d)" if "d \<noteq> []" "length d \<le> 1000" for d
    using that by (cases d) (simp_all add: start_fault_def limits_validation_error_def new_error_def envelope_fields_ok_def exc_type_def)
  have key: "key \<in> set known" "length key \<le> 100" "keys_in known rest" using 2 by (auto simp: keys_in_def)
  show ?case using 2 key by (auto simp: quoted_def intro!: err)
qed simp

lemma limit_table: "\<forall>(name, key) \<in> set limit_variables. length name \<le> 1000 \<and> ascii key \<in> set limit_fields"
  by (simp add: limit_variables_def limit_fields_def)

lemma worker_table: "\<forall>(name, key) \<in> set worker_variables. length name \<le> 1000 \<and> ascii key \<in> set worker_fields"
  by (simp add: worker_variables_def worker_fields_def)

lemma resolve_limits_outcome:
  assumes "keys_in limit_fields ov"
  shows "outcome_of (resolve_limits (Some ov)) within_ceilings (start_fault lib env)"
proof (cases "resolve_limits (Some ov)")
  case (Inl e)
  have "outcome_of (clamp_overrides (ascii ''limit'') limit_fields limit_ceiling ov []) (\<lambda>_. True) (start_fault lib env)"
    by (rule clamp_outcome [OF _ _ assms]) (simp_all add: limit_fields_def)
  then show ?thesis using Inl by (auto simp: resolve_limits_def map_sum_eq_Inl split: if_splits)
qed (use within_ceilings_resolve in simp)

definition worker_within :: "WorkerResources \<Rightarrow> bool" where
  "worker_within w \<longleftrightarrow> 1 \<le> mem_mib w \<and> mem_mib w \<le> 32768 \<and> 1 \<le> cpus w \<and> cpus w \<le> 16 \<and>
     1 \<le> pids w \<and> pids w \<le> 4096 \<and> 1 \<le> tmpfs_scratch_mib w \<and> tmpfs_scratch_mib w \<le> 16384 \<and>
     1 \<le> tmpfs_project_mib w \<and> tmpfs_project_mib w \<le> 32768"

lemma worker_resources_within:
  assumes r: "clamp_overrides noun worker_fields worker_ceiling ov [] = Inr r"
  shows "worker_within (worker_resources_of r)"
proof -
  have ceilings: "worker_ceiling (ascii ''mem_mib'') = 32768" "worker_ceiling (ascii ''cpus'') = 16"
    "worker_ceiling (ascii ''pids'') = 4096" "worker_ceiling (ascii ''tmpfs_scratch_mib'') = 16384"
    "worker_ceiling (ascii ''tmpfs_project_mib'') = 32768"
    by (simp_all add: worker_ceiling_def WORKER_HARD_CEILINGS_def ascii_def)
  have f: "1 \<le> dflt r k d \<and> dflt r k d \<le> worker_ceiling (ascii k)" if "1 \<le> d" "d \<le> worker_ceiling (ascii k)" for k d
    using r that by (rule wrk.dflt_in_range)
  show ?thesis
    using f [of 4096 "''mem_mib''"] f [of 2 "''cpus''"] f [of 512 "''pids''"] f [of 2048 "''tmpfs_scratch_mib''"]
      f [of 4096 "''tmpfs_project_mib''"]
    by (simp add: ceilings worker_within_def worker_resources_of_def default_worker_resources_def)
qed

lemma resolve_worker_outcome:
  assumes "keys_in worker_fields ov"
  shows "outcome_of (resolve_worker_resources (Some ov)) worker_within (start_fault lib env)"
proof (cases "clamp_overrides (ascii ''worker resource'') worker_fields worker_ceiling ov []")
  case (Inl e)
  have "outcome_of (clamp_overrides (ascii ''worker resource'') worker_fields worker_ceiling ov []) (\<lambda>_. True) (start_fault lib env)"
    by (rule clamp_outcome [OF _ _ assms]) (simp_all add: worker_fields_def)
  then show ?thesis using Inl by (auto simp: resolve_worker_resources_def worker_within_def default_worker_resources_def)
qed (use worker_resources_within in \<open>auto simp: resolve_worker_resources_def worker_within_def default_worker_resources_def\<close>)

subsection \<open>The whole configuration\<close>

definition safe_config :: "text_lib \<Rightarrow> Config \<Rightarrow> bool" where
  "safe_config lib c \<longleftrightarrow>
     worker_image c \<noteq> [] \<and> 1 \<le> worker_uid c \<and> 1 \<le> worker_gid c \<and>
     within_ceilings (limits c) \<and> worker_within (worker_resources c) \<and>
     analysis_timeout_s (limits c) \<le> session_idle_s c \<and> session_idle_s c \<le> session_ttl_s c \<and>
     1 \<le> session_reap_interval_s c \<and> 1 \<le> metrics_snapshot_interval_s c \<and> 1 \<le> readiness_cache_ttl_s c \<and>
     log_level c \<in> set VALID_LOG_LEVELS \<and> worker_preflight_mode c \<in> set PREFLIGHT_MODES \<and>
     (transport c = ''http'' \<longleftrightarrow> http c \<noteq> None) \<and> (\<forall>h. http c = Some h \<longrightarrow> safe_http lib h)"

lemma transport_outcome:
  "outcome_of (if tr = ''http'' then map_sum id Some (load_http_config lib env) else Inr None)
     (\<lambda>web. (tr = ''http'' \<longleftrightarrow> web \<noteq> None) \<and> (\<forall>h. web = Some h \<longrightarrow> safe_http lib h)) (start_fault lib env)"
  by (auto intro!: outcome_map outcome_mono [OF load_http_config_outcome])

lemmas config_steps = transport_outcome [THEN outcome_chain]
  read_overrides_outcome [OF limit_table, THEN outcome_chain] read_overrides_outcome [OF worker_table, THEN outcome_chain]
  resolve_limits_outcome [THEN outcome_chain] resolve_worker_outcome [THEN outcome_chain]

lemma load_config_outcome: "outcome_of (load_config lib env) (safe_config lib) (start_fault lib env)"
  unfolding load_config_def
  by (intro outcome_steps config_steps)
     (auto simp: safe_config_def keys_in_def VALID_LOG_LEVELS_def VALID_LOG_FORMATS_def PREFLIGHT_MODES_def VALID_TRANSPORTS_def)

subsection \<open>Environments written as literals\<close>

definition environ_of :: "(string \<times> string) list \<Rightarrow> environ" where
  "environ_of kvs = map (\<lambda>(k, v). (ascii k, ascii v)) kvs"

definition plain_text :: "string \<Rightarrow> bool" where
  "plain_text v \<longleftrightarrow> v \<noteq> [] \<and> length v \<le> MAX_CONFIG_STR_LEN \<and> list_all (\<lambda>c. (0x20 :: nat) < of_char c \<and> of_char c < (0x7F :: nat)) v"

lemma environ_of_get: "dict_get (environ_of kvs) (ascii k) = map_option ascii (map_of kvs k)"
  by (induction kvs) (auto simp: environ_of_def)

lemma plain_strip: "plain_text v \<Longrightarrow> py_strip (ascii v) = ascii v"
proof (rule py_strip_id)
  assume v: "plain_text v"
  then have "\<not> py_space (of_char c)" if "c \<in> set v" for c
    using that by (auto simp: plain_text_def py_space_def list_all_iff dest!: bspec)
  with v show "ascii v \<noteq> []" "\<not> py_space (hd (ascii v))" "\<not> py_space (last (ascii v))"
    by (auto simp: plain_text_def ascii_def hd_map last_map)
qed

lemma env_text_environ_of:
  assumes "list_all (\<lambda>(_, v). plain_text v) kvs"
  shows "env_text (environ_of kvs) name = map_option ascii (map_of kvs name)"
proof (cases "map_of kvs name")
  case (Some v)
  then have "plain_text v" using assms by (auto simp: list_all_iff dest!: map_of_SomeD)
  then show ?thesis using Some plain_strip by (simp add: env_text_def environ_of_get plain_text_def)
qed (simp add: env_text_def environ_of_get)

lemma plain_read_str:
  assumes "list_all (\<lambda>(_, v). plain_text v) kvs"
  shows "read_str (environ_of kvs) name a required = (case map_of kvs name of
    None \<Rightarrow> if required then Inl (variable_error name ''is required'') else Inr a | Some v \<Rightarrow> Inr (ascii v))"
proof (cases "map_of kvs name")
  case (Some v)
  then have "plain_text v" using assms by (auto simp: list_all_iff dest!: map_of_SomeD)
  then have "\<not> list_ex (\<lambda>c. c < 0x20 \<or> c = 0x7F) (ascii v)" "length v \<le> MAX_CONFIG_STR_LEN"
    by (auto simp: plain_text_def list_ex_iff list_all_iff ascii_def)
  then show ?thesis using Some by (simp add: read_str_def env_text_environ_of [OF assms])
qed (simp add: read_str_def env_text_environ_of [OF assms])

lemma plain_read_opt:
  assumes "list_all (\<lambda>(_, v). plain_text v) kvs"
  shows "read_opt (environ_of kvs) name = Inr (map_option ascii (map_of kvs name))"
proof (cases "map_of kvs name")
  case (Some v)
  then have "v \<noteq> []" using assms by (auto simp: list_all_iff plain_text_def dest!: map_of_SomeD)
  with Some show ?thesis by (simp add: read_opt_def plain_read_str [OF assms] or_none_def)
qed (simp add: read_opt_def plain_read_str [OF assms] or_none_def)

definition demo_lib :: text_lib where
  "demo_lib = \<lparr> str_lower = map lower_char, netloc_faulty = (\<lambda>_. False) \<rparr>"

definition network_variables :: "(string \<times> string) list" where
  "network_variables =
     [(''VIVARIUM_WORKER_IMAGE'', ''worker''), (''VIVARIUM_TRANSPORT'', ''http''),
      (''VIVARIUM_HTTP_BIND'', ''0.0.0.0:8443''), (''VIVARIUM_HTTP_TLS_CERT'', ''/c''),
      (''VIVARIUM_HTTP_TLS_KEY'', ''/k''), (''VIVARIUM_HTTP_BEARER_TOKEN'', ''0123456789abcdef'')]"

lemma network_plain: "list_all (\<lambda>(_, v). plain_text v) network_variables"
  by (simp add: network_variables_def plain_text_def)

lemmas network_readers = env_text_environ_of [OF network_plain] plain_read_str [OF network_plain] plain_read_opt [OF network_plain]
  read_choice_def read_positive_int_def read_int_def

lemma network_bind: "parse_bind (ascii ''0.0.0.0:8443'') = Inr (False, True)"
proof -
  have parts: "rpartition_at 58 (ascii ''0.0.0.0:8443'') = (ascii ''0.0.0.0'', True, ascii ''8443'')"
    by (simp add: rpartition_at_def partition_at_def ascii_def)
  have "decimal_value c = Some (c - 48)" if "48 \<le> c" "c < 58" for c
    using that by (simp add: decimal_value_def decimal_zeros_def)
  then have "py_isdigit (ascii ''8443'')" "py_int10 (ascii ''8443'') = Inr 8443"
    by (simp_all add: py_isdigit_def digit_char_def py_int10_def decimal_number_def ascii_def)
  then show ?thesis
    unfolding parse_bind_def parts by (simp add: Let_def host_of_bind_def parts) (simp add: ascii_def strip_chars_def LOOPBACK_HOSTS_def)
qed

lemma network_tokens: "load_bearer_tokens (environ_of network_variables) (Some (ascii ''0123456789abcdef'')) =
    Inr [(ascii ''0123456789abcdef'', ascii ''bearer'')]"
  by (simp add: load_bearer_tokens_def Let_def environ_of_get add_token_def del: chain_Inr_iff)
    (simp add: network_variables_def py_strip_def)

lemma network_algorithms: "load_oauth_algorithms (environ_of network_variables) = Inr OAUTH_DEFAULT_ALGORITHMS"
  by (simp add: load_oauth_algorithms_def network_readers del: chain_Inr_iff) (simp add: network_variables_def)

lemma origins_of_Nil: "origins_of [] = []"
  by (simp add: origins_of_def py_strip_def)

lemma network_http: "\<exists>h. load_http_config demo_lib (environ_of network_variables) = Inr h \<and> hc_is_network h"
  unfolding load_http_config_def
  by (simp add: network_readers network_tokens network_algorithms del: chain_Inr_iff)
   (simp add: network_variables_def network_bind network_tokens [unfolded network_variables_def]
      unless_def bounded_name_def Let_def http_rules_def origins_of_Nil del: chain_Inr_iff)

lemma network_overrides: "read_overrides (environ_of network_variables) limit_variables [] = Inr []"
  "read_overrides (environ_of network_variables) worker_variables [] = Inr []"
  by (simp_all add: limit_variables_def worker_variables_def network_readers del: chain_Inr_iff)
     (simp_all add: network_variables_def)

lemma network_config:
  obtains c h where "load_config demo_lib (environ_of network_variables) = Inr c" "http c = Some h" "hc_is_network h"
proof -
  obtain h where h: "load_http_config demo_lib (environ_of network_variables) = Inr h" "hc_is_network h"
    using network_http by blast
  have "map_of network_variables ''VIVARIUM_WORKER_IMAGE'' = Some ''worker''" by (simp add: network_variables_def)
  have "\<exists>c. load_config demo_lib (environ_of network_variables) = Inr c \<and> http c = Some h"
    unfolding load_config_def
    by (simp add: network_readers h network_overrides resolve_limits_def resolve_worker_resources_def del: chain_Inr_iff)
     (simp add: network_variables_def h [unfolded network_variables_def] VALID_TRANSPORTS_def default_limits_def
        network_overrides [unfolded network_variables_def] unless_def del: chain_Inr_iff)
  with h(2) that show thesis by blast
qed
text \<open>
  A digit that is not decimal passes the allow-list of \<open>_read_int\<close>, and \<open>int\<close> then raises its own error.
\<close>

definition superscript_environ :: environ where
  "superscript_environ = [(ascii ''VIVARIUM_SESSION_TTL_SECONDS'', [0xB2])]"

lemma superscript_value_error:
  "load_config lib superscript_environ = Inl (ValueError (ascii ''invalid literal for int()''))"
proof -
  have digit: "py_isdigit [0xB2]" "py_strip [0xB2] = [0xB2]"
    by (simp_all add: py_isdigit_def digit_char_def other_digits_def py_strip_def py_space_def)
  have "decimal_value 0xB2 = None" by (simp add: decimal_value_def decimal_zeros_def)
  then have "py_int10 [0xB2] = Inl (ValueError (ascii ''invalid literal for int()''))" by (simp add: py_int10_def)
  then have "read_int superscript_environ ''VIVARIUM_SESSION_TTL_SECONDS'' = Inl (ValueError (ascii ''invalid literal for int()''))"
    by (simp add: read_int_def env_text_def superscript_environ_def digit)
  then show ?thesis
    by (simp add: load_config_def read_choice_def env_text_def read_positive_int_def del: chain_Inr_iff)
      (simp add: superscript_environ_def)
qed

text \<open>An address with the scheme \<open>https\<close> and no host passes.\<close>

lemma hostless_jwks_accepted:
  "require_safe_jwks_uri lib (ascii ''https:keys'') = Inr () \<and> urlparse lib (ascii ''https:keys'') = Inr (ascii ''https'', None)"
proof -
  have "urlparse lib (ascii ''https:keys'') = Inr (ascii ''https'', None)"
    by (simp add: urlparse_def split_scheme_def partition_at_def hostname_def rpartition_at_def ascii_alpha_def
        scheme_char_def lower_char_def ascii_def Let_def)
  then show ?thesis by (simp add: require_safe_jwks_uri_def)
qed

text \<open>
  C9: What loads is safe. If \<open>load_config\<close> returns, whatever the environment contains, every limit lies
  between 1 and its hard ceiling, the idle timeout between the analysis timeout and the lifetime, the
  worker never runs as root, and the HTTP transport is configured exactly if it is selected: a network
  address then has TLS and an authenticator, each mode of authentication what it needs, every bearer
  token 16 characters and a principal of safe characters, a key-set address HTTPS or a loopback host,
  only public-key algorithms, no wildcard origin.
\<close>

theorem loaded_config_safe:
  assumes "load_config lib env = Inr c"
  shows "safe_config lib c"
  using load_config_outcome [of lib env] assms by simp

theorem loaded_config_safe_witness:
  "\<exists>c. load_config demo_lib (environ_of network_variables) = Inr c \<and> safe_config demo_lib c"
proof -
  obtain c where c: "load_config demo_lib (environ_of network_variables) = Inr c" by (rule network_config)
  with loaded_config_safe [OF c] show ?thesis by blast
qed

text \<open>
  C23: How loading fails. It raises a validation error, or a \<open>ValueError\<close> of the standard library; the
  latter only if some variable has a digit that is not decimal, more than 4300 characters, or a text
  that \<open>urlparse\<close> rejects.
\<close>

theorem config_fails_closed:
  assumes "load_config lib env = Inl e"
  shows "exc_type e = Some VALIDATION \<or>
    (\<exists>m. e = ValueError m) \<and> (\<exists>name raw. dict_get env name = Some raw \<and> odd_value lib raw)"
  using load_config_outcome [of lib env] assms by (simp add: start_fault_def)

theorem config_fails_closed_witness:
  "\<exists>name raw. dict_get superscript_environ name = Some raw \<and> odd_value demo_lib raw"
  using config_fails_closed [OF superscript_value_error, of demo_lib] by (simp add: exc_type_def)

end
