(* ===== verification/Http_Edge.thy ===== *)
theory Http_Edge
  imports Auth
begin

text \<open>
  The middleware of the HTTP transport (\<open>server/http_middleware.py\<close>) and its composition
  (\<open>build_http_asgi_app\<close>, \<open>server/app.py\<close>): health probes, the body-size check, the token-bucket
  rate limiter, authentication and the security headers. The wrapped application and the CORS
  layer of the web framework are arguments. Floating-point clocks and rates are real numbers.
\<close>

subsection \<open>Requests and responses\<close>

record scope =
  scope_type :: string
  scope_method :: "string option"
  scope_path :: string
  scope_headers :: "(bytes \<times> bytes) list"
  scope_client :: "pystr option"
  scope_extensions :: pyval
  scope_principal :: "Principal option"

record response =
  resp_status :: int
  resp_headers :: "(string \<times> string) list"
  resp_detail :: string

text \<open>What a request comes to: a response, and the scope the wrapped application saw if it was
  reached; \<open>None\<close> for the response is an exception that leaves the application.\<close>

type_synonym outcome = "response option \<times> scope option"

definition header :: "scope \<Rightarrow> bytes \<Rightarrow> bytes option" where
  "header sc name = map_of (scope_headers sc) name"

definition latin1 :: "bytes \<Rightarrow> pystr" where
  "latin1 bs = map unat bs"

fun header_map :: "(bytes \<times> bytes) list \<Rightarrow> (pystr, pystr) dict \<Rightarrow> (pystr, pystr) dict" where
  "header_map [] out = out"
| "header_map ((key, value) # rest) out =
     header_map rest (if dict_get out (latin1 key) = None then dict_set (latin1 key) (latin1 value) out else out)"

definition peer_cert_of :: "scope \<Rightarrow> pyval" where
  "peer_cert_of sc = (case scope_extensions sc of
     PyDict exts \<Rightarrow> (case py_get exts (ascii ''tls'') of
       PyDict tls \<Rightarrow> py_get tls (ascii ''peercert'') | _ \<Rightarrow> PyNone)
   | _ \<Rightarrow> PyNone)"

definition send_error :: "int \<Rightarrow> string \<Rightarrow> response" where
  "send_error st d = \<lparr> resp_status = st, resp_headers = [(''content-type'', ''application/json'')], resp_detail = d \<rparr>"

definition send_bare :: "int \<Rightarrow> response" where
  "send_bare st = \<lparr> resp_status = st, resp_headers = [(''content-length'', ''0'')], resp_detail = [] \<rparr>"

subsection \<open>Readiness\<close>

record CachedReadiness =
  rd_value :: bool
  rd_computed_at :: "real option"

definition new_readiness :: CachedReadiness where
  "new_readiness = \<lparr> rd_value = False, rd_computed_at = None \<rparr>"

text \<open>The predicate and the clock readings of one call are arguments.\<close>

definition readiness_fresh :: "real \<Rightarrow> CachedReadiness \<Rightarrow> real \<Rightarrow> bool" where
  "readiness_fresh ttl c t \<longleftrightarrow> (case rd_computed_at c of None \<Rightarrow> False | Some s \<Rightarrow> t - s < ttl)"

definition cached_ready :: "real \<Rightarrow> bool \<Rightarrow> real \<Rightarrow> CachedReadiness \<Rightarrow> bool \<times> CachedReadiness" where
  "cached_ready ttl ready t c =
     (if readiness_fresh ttl c t then (rd_value c, c)
      else (ready, \<lparr> rd_value = ready, rd_computed_at = Some t \<rparr>))"

subsection \<open>The rate limiter\<close>

abbreviation MAX_RATE_LIMIT_BUCKETS :: nat where "MAX_RATE_LIMIT_BUCKETS \<equiv> 8192"

record RateLimiter =
  rate :: real
  burst :: real
  buckets :: "(pystr, real \<times> real) dict"

definition move_to_end :: "'k \<Rightarrow> 'v \<Rightarrow> ('k, 'v) dict \<Rightarrow> ('k, 'v) dict" where
  "move_to_end k v d = filter (\<lambda>(k', _). k' \<noteq> k) d @ [(k, v)]"

definition allow :: "real \<Rightarrow> pystr \<Rightarrow> RateLimiter \<Rightarrow> bool \<times> RateLimiter" where
  "allow t key rl =
     (let (tokens0, latest) = (case dict_get (buckets rl) key of None \<Rightarrow> (burst rl, t) | Some b \<Rightarrow> b);
          tokens = min (burst rl) (tokens0 + (t - latest) * rate rl);
          allowed = (tokens \<ge> 1);
          bs = move_to_end key (if allowed then tokens - 1 else tokens, t) (buckets rl)
      in (allowed, rl\<lparr>buckets := if length bs > MAX_RATE_LIMIT_BUCKETS then tl bs else bs\<rparr>))"

subsection \<open>The layers\<close>

text \<open>
  What the layers keep between requests, and an application over it. \<open>request_env\<close> is what a request
  finds outside: the clock and the answer of the readiness predicate, should it be asked.
\<close>

record EdgeState =
  es_limiter :: RateLimiter
  es_readiness :: CachedReadiness

type_synonym asgi = "scope \<Rightarrow> EdgeState \<Rightarrow> outcome \<times> EdgeState"

record request_env =
  req_now :: real
  req_capacity :: bool

definition health_layer :: "real \<Rightarrow> request_env \<Rightarrow> asgi \<Rightarrow> asgi" where
  "health_layer ttl env app sc es =
     (if scope_type sc = ''http'' \<and> scope_method sc \<in> {Some ''GET'', Some ''HEAD''} then
        if scope_path sc = ''/healthz'' then ((Some (send_bare 200), None), es)
        else if scope_path sc = ''/readyz'' then
          (case cached_ready ttl (req_capacity env) (req_now env) (es_readiness es) of
             (ready, c) \<Rightarrow> ((Some (send_bare (if ready then 200 else 503)), None), es\<lparr>es_readiness := c\<rparr>))
        else app sc es
      else app sc es)"

definition ascii_digits :: "bytes \<Rightarrow> bool" where
  "ascii_digits bs \<longleftrightarrow> bs \<noteq> [] \<and> list_all (\<lambda>b. 48 \<le> unat b \<and> unat b \<le> 57) bs"

definition digits_int :: "bytes \<Rightarrow> int" where
  "digits_int bs = foldl (\<lambda>acc b. acc * 10 + (int (unat b) - 48)) 0 bs"

text \<open>\<open>int\<close> refuses a text of more than 4300 digits.\<close>

definition size_layer :: "int \<Rightarrow> asgi \<Rightarrow> asgi" where
  "size_layer max_body_bytes app sc es =
     (if scope_type sc \<noteq> ''http'' then app sc es
      else
        (case header sc (byte_lit ''content-length'') of
           None \<Rightarrow> app sc es
         | Some declared \<Rightarrow>
             if \<not> ascii_digits declared then app sc es
             else if length declared > 4300 then ((None, None), es)
             else if digits_int declared > max_body_bytes then
               ((Some (send_error 413 ''Request body exceeds the limit.''), None), es)
             else app sc es))"

definition client_key :: "scope \<Rightarrow> pystr" where
  "client_key sc = (case scope_client sc of None \<Rightarrow> ascii ''local'' | Some host \<Rightarrow> host)"

definition rate_layer :: "request_env \<Rightarrow> asgi \<Rightarrow> asgi" where
  "rate_layer env app sc es =
     (if scope_type sc \<noteq> ''http'' then app sc es
      else
        (case allow (req_now env) (client_key sc) (es_limiter es) of
           (allowed, rl) \<Rightarrow>
             if \<not> allowed
             then ((Some (send_error 429 ''Rate limit exceeded; retry later.''), None), es\<lparr>es_limiter := rl\<rparr>)
             else app sc (es\<lparr>es_limiter := rl\<rparr>)))"

definition auth_context :: "scope \<Rightarrow> AuthContext" where
  "auth_context sc =
     \<lparr> authorization = (case header sc (byte_lit ''authorization'') of
          None \<Rightarrow> None | Some v \<Rightarrow> if v = [] then None else Some (latin1 v)),
       peer_certificate = peer_cert_of sc,
       ctx_headers = header_map (scope_headers sc) [] \<rparr>"

definition auth_layer :: "(pystr \<Rightarrow> (pystr, pyval) dict option) \<Rightarrow> authenticator \<Rightarrow> asgi \<Rightarrow> asgi" where
  "auth_layer verify auth app sc es =
     (if scope_type sc \<noteq> ''http'' \<or> scope_method sc = Some ''OPTIONS'' then app sc es
      else
        (case authenticate verify auth (auth_context sc) of
           None \<Rightarrow> ((Some (send_error 500 ''Authentication error.''), None), es)
         | Some None \<Rightarrow> ((Some (send_error 401 ''Authentication required.''), None), es)
         | Some (Some p) \<Rightarrow> app (sc\<lparr>scope_principal := Some p\<rparr>) es))"

definition security_headers :: "bool \<Rightarrow> (string \<times> string) list" where
  "security_headers hsts =
     [(''x-content-type-options'', ''nosniff''), (''referrer-policy'', ''no-referrer''), (''x-frame-options'', ''DENY'')] @
     (if hsts then [(''strict-transport-security'', ''max-age=63072000; includeSubDomains'')] else [])"

definition on_response :: "(response \<Rightarrow> response) \<Rightarrow> outcome \<times> EdgeState \<Rightarrow> outcome \<times> EdgeState" where
  "on_response f res = (case res of ((r, seen), es) \<Rightarrow> ((map_option f r, seen), es))"

definition headers_layer :: "bool \<Rightarrow> asgi \<Rightarrow> asgi" where
  "headers_layer hsts app sc es =
     (if scope_type sc \<noteq> ''http'' then app sc es
      else on_response (\<lambda>x. x\<lparr>resp_headers := resp_headers x @ security_headers hsts\<rparr>) (app sc es))"

subsection \<open>The stack\<close>

record HttpStack =
  http_auth :: authenticator
  http_max_body_bytes :: int
  http_hsts :: bool
  http_cors_origins :: "pystr list"
  http_readiness_ttl :: real

text \<open>
  The CORS layer is an argument: it may answer a request itself, and may change the headers of the
  response to another.
\<close>

record cors_layer =
  cors_answers :: "scope \<Rightarrow> response option"
  cors_decorates :: "scope \<Rightarrow> response \<Rightarrow> response"

definition cors_wrap :: "cors_layer \<Rightarrow> asgi \<Rightarrow> asgi" where
  "cors_wrap cors app sc es = (case cors_answers cors sc of
     Some r \<Rightarrow> ((Some r, None), es)
   | None \<Rightarrow> on_response (cors_decorates cors sc) (app sc es))"

text \<open>The wrapped application, and that it was reached.\<close>

definition inner_app :: "(scope \<Rightarrow> response option) \<Rightarrow> asgi" where
  "inner_app inner sc es = ((inner sc, Some sc), es)"

definition build_http_asgi_app ::
  "HttpStack \<Rightarrow> (pystr \<Rightarrow> (pystr, pyval) dict option) \<Rightarrow> cors_layer \<Rightarrow> (scope \<Rightarrow> response option) \<Rightarrow>
   request_env \<Rightarrow> asgi" where
  "build_http_asgi_app http verify cors inner env =
     (let guarded = size_layer (http_max_body_bytes http)
            (rate_layer env (auth_layer verify (http_auth http) (inner_app inner)));
          guarded = (if http_cors_origins http \<noteq> [] then cors_wrap cors guarded else guarded)
      in health_layer (http_readiness_ttl http) env (headers_layer (http_hsts http) guarded))"

end
