(* ===== verification/Http_Props.thy ===== *)
theory Http_Props
  imports Http_Edge
begin

text \<open>
  Properties of the HTTP edge: what a request must present to reach the wrapped application, and how
  many requests of a client the rate limiter lets through.
\<close>

lemmas authenticators [simp] = bearer_authenticate_def multi_token_authenticate_def null_authenticate_def
  mtls_authenticate_def proxy_authenticate_def oauth_authenticate_def

subsection \<open>Credentials\<close>

text \<open>What a request has to present for a principal, by the mode of authentication.\<close>

definition configured_tokens :: "auth_options \<Rightarrow> (pystr, pystr) dict" where
  "configured_tokens opts = (case opt_bearer_token opts of
     None \<Rightarrow> opt_bearer_tokens opts
   | Some t \<Rightarrow> set_default t (ascii ''bearer'') (opt_bearer_tokens opts))"

definition credential ::
  "string \<Rightarrow> auth_options \<Rightarrow> (pystr \<Rightarrow> (pystr, pyval) dict option) \<Rightarrow> AuthContext \<Rightarrow> Principal \<Rightarrow> bool" where
  "credential mode opts verify ctx p \<longleftrightarrow>
     mode = ''none'' \<and> p = full_principal (ascii ''local'')
   \<or> mode = ''bearer'' \<and> capabilities p = ALL_CAPABILITIES \<and>
       (\<exists>t. bearer_token ctx = Some t \<and> dict_get (configured_tokens opts) t = Some (principal_id p) \<and>
          length t \<ge> MIN_BEARER_TOKEN_LEN)
   \<or> mode = ''mtls'' \<and> capabilities p = ALL_CAPABILITIES \<and> valid_principal_id (principal_id p) \<and>
       (\<exists>cert. peer_certificate ctx = PyDict cert \<and> mtls_value (opt_mtls_field opts) cert = Some (principal_id p))
   \<or> mode = ''mtls-proxy'' \<and> capabilities p = ALL_CAPABILITIES \<and> valid_principal_id (principal_id p) \<and>
       (\<exists>secret. opt_proxy_secret opts = Some secret \<and> length secret \<ge> MIN_BEARER_TOKEN_LEN \<and>
          dict_get (ctx_headers ctx) (opt_proxy_secret_header opts) = Some secret \<and>
          dict_get (ctx_headers ctx) (opt_proxy_identity_header opts) = Some (principal_id p))
   \<or> mode = ''oauth'' \<and> principal_id p \<noteq> [] \<and>
       (\<exists>t claims. bearer_token ctx = Some t \<and> verify t = Some claims \<and>
          py_get claims (oauth_principal_claim (opt_oauth opts)) = PyStr (principal_id p) \<and>
          (CAP_WRITE \<in> capabilities p \<longleftrightarrow>
             (\<forall>sc. oauth_write_scope (opt_oauth opts) = Some sc \<longrightarrow> sc \<in> set (token_scopes claims))))"

lemma dict_ok_set_default: "dict_ok d \<Longrightarrow> dict_ok (set_default k v d)"
  by (simp add: set_default_def)

lemma scan_tokens_match:
  assumes "dict_ok tokens" "scan_tokens presented tokens m = Some r"
  shows "r = (case dict_get tokens presented of None \<Rightarrow> m | Some pid \<Rightarrow> Some pid)"
  using assms
proof (induction tokens arbitrary: m)
  case (Cons e tokens)
  obtain token pid where e: "e = (token, pid)" by (cases e)
  from Cons.prems e have ok: "dict_ok tokens" and new: "dict_get tokens token = None"
    by (auto simp: dict_ok_def map_of_eq_None_iff image_iff)
  from Cons.prems(2) have "scan_tokens presented tokens (if presented = token then Some pid else m) = Some r"
    by (auto simp: e compare_digest_def split: option.splits if_splits)
  from Cons.IH [OF ok this] show ?case using new by (auto simp: e split: option.splits)
qed simp

lemma constructed_SomeD: "constructed a = Some b \<Longrightarrow> b = a \<and> post_init a"
  by (auto simp: constructed_def split: if_splits)

lemma write_granted:
  "CAP_WRITE \<in> capabilities_from_claims cfg claims \<longleftrightarrow>
     (\<forall>sc. oauth_write_scope cfg = Some sc \<longrightarrow> sc \<in> set (token_scopes claims))"
  by (auto simp: capabilities_from_claims_def ALL_CAPABILITIES_def CAP_READ_def CAP_WRITE_def split: option.splits)

lemma bearer_accepts:
  assumes ok: "dict_ok tokens" and init: "post_init (MultiTokenBearerAuthenticator tokens)"
    and auth: "authenticate verify (MultiTokenBearerAuthenticator tokens) ctx = Some (Some p)"
  shows "capabilities p = ALL_CAPABILITIES \<and> (\<exists>t. bearer_token ctx = Some t \<and>
    dict_get tokens t = Some (principal_id p) \<and> length t \<ge> MIN_BEARER_TOKEN_LEN)"
proof -
  from auth obtain t pid where t: "bearer_token ctx = Some t" "scan_tokens t tokens None = Some (Some pid)"
    "p = full_principal pid" by (auto split: option.splits if_splits)
  from scan_tokens_match [OF ok t(2)] have "dict_get tokens t = Some pid" by (auto split: option.splits)
  moreover from this init have "length t \<ge> MIN_BEARER_TOKEN_LEN"
    by (auto simp: list_all_iff dest: map_of_SomeD)
  ultimately show ?thesis using t by auto
qed

text \<open>Each mode accepts only who presents its credential.\<close>

lemma authenticate_credential:
  assumes built: "build_authenticator mode opts = Some auth" and ok: "dict_ok (opt_bearer_tokens opts)"
    and auth: "authenticate verify auth ctx = Some (Some p)"
  shows "credential mode opts verify ctx p"
proof -
  have ok': "dict_ok (configured_tokens opts)"
    using ok by (auto simp: configured_tokens_def dict_ok_set_default split: option.splits)
  consider (none) "mode = ''none''" "auth = NullAuthenticator"
    | (bearer) "mode = ''bearer''" "auth = MultiTokenBearerAuthenticator (configured_tokens opts)" "post_init auth"
    | (mtls) "mode = ''mtls''" "auth = MtlsAuthenticator (opt_mtls_field opts)"
    | (proxy) secret where "mode = ''mtls-proxy''" "opt_proxy_secret opts = Some secret" "post_init auth"
        "auth = ReverseProxyMtlsAuthenticator secret (opt_proxy_secret_header opts) (opt_proxy_identity_header opts)"
    | (oauth) "mode = ''oauth''" "auth = OAuthResourceAuthenticator (opt_oauth opts)"
    using built
    by (auto simp: build_authenticator_def configured_tokens_def Let_def split: if_splits option.splits
        dest!: constructed_SomeD)
  then show ?thesis
  proof cases
    case none
    then show ?thesis using auth by (auto simp: credential_def)
  next
    case bearer
    then show ?thesis using bearer_accepts [OF ok'] auth by (auto simp: credential_def)
  next
    case mtls
    then show ?thesis using auth by (auto simp: credential_def split: pyval.splits option.splits if_splits)
  next
    case proxy
    then show ?thesis using auth
      by (auto simp: credential_def compare_digest_def split: option.splits if_splits bool.splits)
  next
    case oauth
    then show ?thesis using auth
      by (auto simp: credential_def write_granted split: option.splits if_splits pyval.splits)
  qed
qed

text \<open>
  One configured token with a character outside ASCII makes every comparison that reaches it raise:
  no bearer request is accepted any more, whatever token it presents.
\<close>

lemma nonascii_token_refuses_all:
  assumes "(token, pid) \<in> set tokens" "\<not> py_isascii token"
  shows "\<nexists>p. authenticate verify (MultiTokenBearerAuthenticator tokens) ctx = Some (Some p)"
proof -
  have "scan_tokens presented tokens m = None" for presented m
    using assms by (induction tokens arbitrary: m) (auto simp: compare_digest_def split: option.splits)
  then show ?thesis by (auto split: option.splits if_splits)
qed

subsection \<open>Who reaches the application\<close>

named_theorems layer_simps \<open>the layers of the stack\<close>

lemma on_response_seen [layer_simps]: "snd (fst (on_response f res)) = snd (fst res)"
  by (simp add: on_response_def case_prod_beta)

lemma rate_layer_seen:
  "snd (fst (rate_layer env app sc es)) = Some seen \<Longrightarrow> \<exists>es'. snd (fst (app sc es')) = Some seen"
  by (auto simp: rate_layer_def split: if_splits prod.splits)

lemma size_layer_seen:
  "snd (fst (size_layer n app sc es)) = Some seen \<Longrightarrow> snd (fst (app sc es)) = Some seen"
  by (auto simp: size_layer_def split: if_splits option.splits)

lemma cors_wrap_seen:
  "snd (fst (cors_wrap cors app sc es)) = Some seen \<Longrightarrow> snd (fst (app sc es)) = Some seen"
  by (auto simp: cors_wrap_def layer_simps split: option.splits)

lemma headers_layer_seen [layer_simps]: "snd (fst (headers_layer hsts app sc es)) = snd (fst (app sc es))"
  by (simp add: headers_layer_def layer_simps)

lemma health_layer_seen:
  "snd (fst (health_layer ttl env app sc es)) = Some seen \<Longrightarrow> snd (fst (app sc es)) = Some seen"
  by (auto simp: health_layer_def split: if_splits prod.splits)

lemma stack_seen:
  assumes "snd (fst (build_http_asgi_app http verify cors inner env sc es)) = Some seen"
  shows "\<exists>es'. snd (fst (auth_layer verify (http_auth http) (inner_app inner) sc es')) = Some seen"
  using assms
  by (auto simp: build_http_asgi_app_def Let_def layer_simps split: if_splits
      dest!: health_layer_seen cors_wrap_seen size_layer_seen rate_layer_seen)

lemma edge_admits:
  assumes built: "build_authenticator mode opts = Some (http_auth http)" "dict_ok (opt_bearer_tokens opts)"
    and fresh: "scope_principal sc = None"
    and reached: "snd (fst (build_http_asgi_app http verify cors inner env sc es)) = Some seen"
  shows "scope_type sc = ''http'' \<and> scope_method sc \<noteq> Some ''OPTIONS'' \<and>
      (\<exists>p. seen = sc\<lparr>scope_principal := Some p\<rparr> \<and> credential mode opts verify (auth_context sc) p) \<or>
    (scope_type sc \<noteq> ''http'' \<or> scope_method sc = Some ''OPTIONS'') \<and> seen = sc \<and> scope_principal seen = None"
proof -
  obtain es' where "snd (fst (auth_layer verify (http_auth http) (inner_app inner) sc es')) = Some seen"
    using stack_seen [OF reached] by blast
  then consider (exempt) "scope_type sc \<noteq> ''http'' \<or> scope_method sc = Some ''OPTIONS''" "seen = sc"
    | (admitted) p where "scope_type sc = ''http''" "scope_method sc \<noteq> Some ''OPTIONS''"
        "authenticate verify (http_auth http) (auth_context sc) = Some (Some p)" "seen = sc\<lparr>scope_principal := Some p\<rparr>"
    by (auto simp: auth_layer_def inner_app_def split: if_splits option.splits)
  then show ?thesis
  proof cases
    case exempt
    then show ?thesis using fresh by simp
  next
    case admitted
    then show ?thesis using authenticate_credential [OF built admitted(3)] by auto
  qed
qed

text \<open>
  C6: Default deny. If the application behind the edge is reached, then the request was either not an
  HTTP request or an \<open>OPTIONS\<close> request, and it carries no principal, or the scope it gets carries
  exactly the principal whose credential the request presented: a configured bearer token of at least
  16 characters, the field of a verified certificate, the proxy's secret with a well-formed identity,
  or a token the verifier accepts, with the write capability only if its scopes include the
  configured one. The rest of the scope is unchanged.
\<close>

theorem edge_default_deny:
  assumes built: "build_authenticator mode opts = Some (http_auth http)" "dict_ok (opt_bearer_tokens opts)"
    and fresh: "scope_principal sc = None"
    and reached: "snd (fst (build_http_asgi_app http verify cors inner env sc es)) = Some seen"
  shows "scope_type sc = ''http'' \<and> scope_method sc \<noteq> Some ''OPTIONS'' \<and>
      (\<exists>p. seen = sc\<lparr>scope_principal := Some p\<rparr> \<and> credential mode opts verify (auth_context sc) p) \<or>
    (scope_type sc \<noteq> ''http'' \<or> scope_method sc = Some ''OPTIONS'') \<and> seen = sc \<and> scope_principal seen = None"
  using edge_admits [OF assms] .

text \<open>A request with its scheme in mixed case, through a stack with one token.\<close>

definition demo_options :: auth_options where
  "demo_options = \<lparr> opt_bearer_token = None,
     opt_bearer_tokens = [(ascii ''0123456789abcdef'', ascii ''alice'')], opt_mtls_field = ''cn'',
     opt_oauth_issuer = None, opt_oauth_audience = None, opt_oauth_jwks_uri = None,
     opt_oauth = \<lparr> oauth_principal_claim = ascii ''sub'', oauth_algorithms = [''RS256''], oauth_write_scope = None \<rparr>,
     opt_proxy_secret = None, opt_proxy_secret_header = ascii ''x-proxy-auth'',
     opt_proxy_identity_header = ascii ''x-client-cert-subject'' \<rparr>"

definition demo_stack :: HttpStack where
  "demo_stack = \<lparr> http_auth = MultiTokenBearerAuthenticator [(ascii ''0123456789abcdef'', ascii ''alice'')],
     http_max_body_bytes = 1000, http_hsts = False, http_cors_origins = [], http_readiness_ttl = 1 \<rparr>"

definition demo_scope :: scope where
  "demo_scope = \<lparr> scope_type = ''http'', scope_method = Some ''POST'', scope_path = ''/mcp'',
     scope_headers = [(byte_lit ''content-length'', byte_lit ''12''),
       (byte_lit ''authorization'', byte_lit ''BeArEr 0123456789abcdef'')],
     scope_client = Some (ascii ''10.0.0.1''), scope_extensions = PyNone, scope_principal = None \<rparr>"

definition demo_edge :: EdgeState where
  "demo_edge = \<lparr> es_limiter = \<lparr> rate = 1, burst = 1, buckets = [] \<rparr>, es_readiness = new_readiness \<rparr>"

definition demo_cors :: cors_layer where
  "demo_cors = \<lparr> cors_answers = (\<lambda>_. None), cors_decorates = (\<lambda>_ r. r) \<rparr>"

lemma of_char_byte: "(of_char c :: nat) < 256"
  by simp

lemma latin1_byte_lit: "latin1 (byte_lit s) = ascii s"
  by (simp add: latin1_def byte_lit_def ascii_def unat_of_nat of_char_byte)

lemma byte_lit_eq: "byte_lit s = byte_lit t \<longleftrightarrow> s = t"
proof
  assume "byte_lit s = byte_lit t"
  then have "ascii s = ascii t" by (metis latin1_byte_lit)
  then show "s = t" by (simp add: ascii_def inj_map_eq_map [OF inj_of_char])
qed simp

theorem edge_default_deny_witness:
  "credential ''bearer'' demo_options (\<lambda>_. None) (auth_context demo_scope) (full_principal (ascii ''alice''))"
proof -
  let ?app = "build_http_asgi_app demo_stack (\<lambda>_. None) demo_cors (\<lambda>_. None) \<lparr> req_now = 0, req_capacity = True \<rparr>
    demo_scope demo_edge"
  have built: "build_authenticator ''bearer'' demo_options = Some (http_auth demo_stack)" by code_simp
  have tokens: "dict_ok (opt_bearer_tokens demo_options)" by (simp add: demo_options_def dict_ok_def)
  have fresh: "scope_principal demo_scope = None" by (simp add: demo_scope_def)
  have auth: "authorization (auth_context demo_scope) = Some (ascii ''BeArEr 0123456789abcdef'')"
    by (simp add: auth_context_def header_def demo_scope_def byte_lit_eq latin1_byte_lit) (simp add: byte_lit_def)
  have token: "bearer_token (auth_context demo_scope) = Some (ascii ''0123456789abcdef'')"
    unfolding bearer_token_def auth option.case by code_simp
  have size: "header demo_scope (byte_lit ''content-length'') = Some (byte_lit ''12'')"
    by (simp add: header_def demo_scope_def)
  have digits: "ascii_digits (byte_lit ''12'') \<and> length (byte_lit ''12'') \<le> 4300 \<and> digits_int (byte_lit ''12'') \<le> 1000"
    by code_simp
  have found: "authenticate (\<lambda>_. None) (http_auth demo_stack) (auth_context demo_scope)
      = Some (Some (full_principal (ascii ''alice'')))"
    by (simp add: token demo_stack_def compare_digest_def py_isascii_def ascii_def)
  have limits: "http_max_body_bytes demo_stack = 1000" "http_cors_origins demo_stack = []" by (simp_all add: demo_stack_def)
  have kind: "scope_type demo_scope = ''http''" "scope_method demo_scope = Some ''POST''" by (simp_all add: demo_scope_def)
  have "map_option principal_id (Option.bind (snd (fst ?app)) scope_principal) = Some (ascii ''alice'')"
    using digits by (simp add: build_http_asgi_app_def health_layer_def headers_layer_def on_response_def size_layer_def
        rate_layer_def auth_layer_def inner_app_def kind size limits found allow_def demo_edge_def Let_def
        move_to_end_def case_prod_beta)
  then obtain seen p where reached: "snd (fst ?app) = Some seen" "scope_principal seen = Some p"
    "principal_id p = ascii ''alice''" by (auto split: bind_splits)
  from edge_default_deny [OF built tokens fresh reached(1)] reached(2)
  have "credential ''bearer'' demo_options (\<lambda>_. None) (auth_context demo_scope) p" by auto
  moreover from this reached(3) have "p = full_principal (ascii ''alice'')"
    by (cases p) (simp add: credential_def)
  ultimately show ?thesis by simp
qed

text \<open>
  The distinguished name is joined without escaping its parts, so two subjects that a certificate
  authority tells apart can be one principal.
\<close>

lemma dn_principals_collide:
  fixes subj :: "(string \<times> string) list \<Rightarrow> pyval"
  defines "subj \<equiv> \<lambda>rdns. PyDict [(ascii ''subject'', PyList (map (\<lambda>(k, v). PyList [PyList [PyStr (ascii k), PyStr (ascii v)]]) rdns))]"
  shows "subj [(''commonName'', ''alice''), (''organizationName'', ''acme'')] \<noteq>
      subj [(''commonName'', ''alice,organizationName=acme'')]"
    and "authenticate verify (MtlsAuthenticator ''dn'')
        (ctx\<lparr>peer_certificate := subj [(''commonName'', ''alice''), (''organizationName'', ''acme'')]\<rparr>) =
      authenticate verify (MtlsAuthenticator ''dn'')
        (ctx\<lparr>peer_certificate := subj [(''commonName'', ''alice,organizationName=acme'')]\<rparr>)"
  by (simp_all add: subj_def mtls_value_def dn_from_subject_def dn_part_def py_get_def map_filter_simps Let_def ascii_def)

subsection \<open>The rate limiter\<close>

text \<open>The tokens a client could spend at a time; a run of requests; how often a bucket is dropped.\<close>

definition available :: "RateLimiter \<Rightarrow> pystr \<Rightarrow> real \<Rightarrow> real" where
  "available rl k t = (case dict_get (buckets rl) k of
     None \<Rightarrow> burst rl
   | Some (tokens, latest) \<Rightarrow> min (burst rl) (tokens + (t - latest) * rate rl))"

fun allowed_count :: "pystr \<Rightarrow> (real \<times> pystr) list \<Rightarrow> RateLimiter \<Rightarrow> nat" where
  "allowed_count k [] rl = 0"
| "allowed_count k ((t, key) # reqs) rl =
     (case allow t key rl of
        (ok, rl') \<Rightarrow> (if ok \<and> key = k then 1 else 0) + allowed_count k reqs rl')"

fun evictions :: "pystr \<Rightarrow> (real \<times> pystr) list \<Rightarrow> RateLimiter \<Rightarrow> nat" where
  "evictions k [] rl = 0"
| "evictions k ((t, key) # reqs) rl =
     (case allow t key rl of
        (_, rl') \<Rightarrow> (if dict_get (buckets rl) k \<noteq> None \<and> dict_get (buckets rl') k = None then 1 else 0) +
          evictions k reqs rl')"

fun limiter_after :: "(real \<times> pystr) list \<Rightarrow> RateLimiter \<Rightarrow> RateLimiter" where
  "limiter_after [] rl = rl"
| "limiter_after ((t, key) # reqs) rl = limiter_after reqs (snd (allow t key rl))"

definition limiter_ok :: "real \<Rightarrow> RateLimiter \<Rightarrow> bool" where
  "limiter_ok t rl \<longleftrightarrow> 0 \<le> rate rl \<and> 0 \<le> burst rl \<and> dict_ok (buckets rl) \<and>
     length (buckets rl) \<le> MAX_RATE_LIMIT_BUCKETS \<and>
     (\<forall>(k, tokens, latest) \<in> set (buckets rl). 0 \<le> tokens \<and> latest \<le> t)"

lemma dict_get_move_to_end: "dict_get (move_to_end k v d) j = (if j = k then Some v else dict_get d j)"
  by (induction d) (auto simp: move_to_end_def map_add_def split: option.splits)

lemma dict_ok_move_to_end: "dict_ok d \<Longrightarrow> dict_ok (move_to_end k v d)"
  by (auto simp: move_to_end_def dict_ok_def distinct_map_filter image_iff)

lemma length_move_to_end: "length (move_to_end k v d) \<le> Suc (length d)"
  by (simp add: move_to_end_def)

lemma allow_facts:
  assumes "allow t key rl = (ok, rl')"
  shows "rate rl' = rate rl" "burst rl' = burst rl"
    and "ok \<longleftrightarrow> available rl key t \<ge> 1"
    and "\<exists>bs. bs = move_to_end key (if ok then available rl key t - 1 else available rl key t, t) (buckets rl) \<and>
      buckets rl' = (if length bs > MAX_RATE_LIMIT_BUCKETS then tl bs else bs)"
  using assms
  by (auto simp: allow_def available_def Let_def min_def split: option.splits prod.splits if_splits)

lemma available_grows:
  assumes "0 \<le> rate rl" "t \<le> t'"
  shows "available rl k t' \<le> available rl k t + rate rl * (t' - t)"
proof (cases "dict_get (buckets rl) k")
  case (Some b)
  obtain tokens latest where b: "b = (tokens, latest)" by (cases b)
  have "(t' - latest) * rate rl = (t - latest) * rate rl + rate rl * (t' - t)" by (simp add: algebra_simps)
  moreover have "0 \<le> rate rl * (t' - t)" using assms by simp
  ultimately show ?thesis by (simp add: available_def Some b min_def)
qed (use assms in \<open>simp add: available_def\<close>)

lemma available_bounds:
  assumes "limiter_ok t rl" "t \<le> t'"
  shows "0 \<le> available rl k t'" "available rl k t' \<le> burst rl"
proof -
  show "available rl k t' \<le> burst rl" by (auto simp: available_def split: option.splits)
  show "0 \<le> available rl k t'"
  proof (cases "dict_get (buckets rl) k")
    case (Some b)
    obtain tokens latest where b: "b = (tokens, latest)" by (cases b)
    from Some assms(1) have "0 \<le> tokens" "latest \<le> t" by (auto simp: limiter_ok_def b dest!: map_of_SomeD)
    then show ?thesis using assms by (simp add: available_def Some b limiter_ok_def)
  qed (use assms in \<open>simp add: available_def limiter_ok_def\<close>)
qed

lemma map_of_tl: "distinct (map fst (x # d)) \<Longrightarrow> map_of d k = (if k = fst x then None else map_of (x # d) k)"
  by (cases x) (auto simp: map_of_eq_None_iff image_iff)

text \<open>One request: the limiter stays well-formed, and what it grants is paid for.\<close>

lemma allow_ok:
  assumes ok: "limiter_ok t rl" "t \<le> t'" and a: "allow t' key rl = (b, rl')"
  shows "limiter_ok t' rl'"
proof -
  let ?v = "(if b then available rl key t' - 1 else available rl key t', t')"
  let ?bs = "move_to_end key ?v (buckets rl)"
  note f = allow_facts [OF a]
  from f(4) have bs: "buckets rl' = (if length ?bs > MAX_RATE_LIMIT_BUCKETS then tl ?bs else ?bs)" by auto
  have "0 \<le> fst ?v" using f(3) available_bounds(1) [OF ok, of key] by simp
  moreover have "set ?bs \<subseteq> insert (key, ?v) (set (buckets rl))" by (auto simp: move_to_end_def)
  ultimately have "\<forall>(k, tokens, latest) \<in> set ?bs. 0 \<le> tokens \<and> latest \<le> t'"
    using ok unfolding limiter_ok_def by fastforce
  moreover have "set (buckets rl') \<subseteq> set ?bs" using bs by (auto dest: list.set_sel(2) [rotated])
  moreover have "dict_ok ?bs" using ok(1) by (simp add: dict_ok_move_to_end limiter_ok_def)
  then have "dict_ok (buckets rl')"
    unfolding bs dict_ok_def by (auto simp: map_tl distinct_tl)
  moreover have "length (buckets rl') \<le> MAX_RATE_LIMIT_BUCKETS"
    using length_move_to_end [of key ?v "buckets rl"] ok(1) by (auto simp: bs limiter_ok_def)
  ultimately show ?thesis using ok(1) f(1,2) by (auto simp: limiter_ok_def)
qed

lemma allow_bucket:
  assumes ok: "limiter_ok t rl" and a: "allow t' key rl = (b, rl')"
  shows "dict_get (buckets rl') key = Some (if b then available rl key t' - 1 else available rl key t', t')"
    and "k \<noteq> key \<Longrightarrow> dict_get (buckets rl') k = dict_get (buckets rl) k \<or> dict_get (buckets rl') k = None"
proof -
  let ?v = "(if b then available rl key t' - 1 else available rl key t', t')"
  let ?bs = "move_to_end key ?v (buckets rl)"
  from allow_facts(4) [OF a] have bs: "buckets rl' = (if length ?bs > MAX_RATE_LIMIT_BUCKETS then tl ?bs else ?bs)"
    by auto
  have d: "distinct (map fst ?bs)" using dict_ok_move_to_end [of "buckets rl"] ok by (simp add: limiter_ok_def dict_ok_def)
  have tl: "dict_get (tl ?bs) j = (if j = fst (hd ?bs) then None else dict_get ?bs j)" for j
    using map_of_tl [of "hd ?bs" "tl ?bs"] d by (simp add: move_to_end_def)
  have "fst (hd ?bs) \<noteq> key" if "length ?bs > MAX_RATE_LIMIT_BUCKETS"
  proof -
    have ne: "filter (\<lambda>(k', _). k' \<noteq> key) (buckets rl) \<noteq> []" using that by (auto simp: move_to_end_def)
    from hd_in_set [OF this] show ?thesis by (auto simp: move_to_end_def hd_append2 [OF ne])
  qed
  then show "dict_get (buckets rl') key = Some ?v" unfolding bs by (auto simp: tl dict_get_move_to_end)
  show "dict_get (buckets rl') k = dict_get (buckets rl) k \<or> dict_get (buckets rl') k = None" if "k \<noteq> key"
    using that by (simp add: bs tl dict_get_move_to_end)
qed

lemma allow_paid:
  assumes ok: "limiter_ok t rl" "t \<le> t'" and a: "allow t' key rl = (b, rl')"
  shows "(if b \<and> key = k then 1 else 0) + available rl' k t' \<le> available rl k t + rate rl * (t' - t) +
    (if dict_get (buckets rl) k \<noteq> None \<and> dict_get (buckets rl') k = None then burst rl else 0)"
proof -
  have grow: "available rl k t' \<le> available rl k t + rate rl * (t' - t)"
    using ok by (intro available_grows) (simp_all add: limiter_ok_def)
  note f = allow_facts [OF a] and bucket = allow_bucket [OF ok(1) a]
  have bounds: "0 \<le> available rl k t'" "available rl k t' \<le> burst rl" by (rule available_bounds [OF ok])+
  show ?thesis
  proof (cases "key = k")
    case True
    then have "available rl' k t' = available rl k t' - (if b then 1 else 0)"
      using bucket(1) f(2) bounds(2) by (simp add: available_def [of rl'])
    then show ?thesis using True grow bucket(1) by simp
  next
    case False
    then have "dict_get (buckets rl') k = dict_get (buckets rl) k \<or> dict_get (buckets rl') k = None"
      by (intro bucket(2)) simp
    then consider (kept) "dict_get (buckets rl') k = dict_get (buckets rl) k"
      | (lost) "dict_get (buckets rl) k \<noteq> None" "dict_get (buckets rl') k = None" by argo
    then show ?thesis
    proof cases
      case kept
      then have "available rl' k t' = available rl k t'" using f(1,2) by (simp add: available_def cong: option.case_cong)
      then show ?thesis using False grow kept by auto
    next
      case lost
      then have "available rl' k t' = burst rl" using f(2) by (simp add: available_def)
      then show ?thesis using False grow bounds(1) lost by simp
    qed
  qed
qed

lemma allowed_paid:
  assumes "limiter_ok t rl" "sorted (t # map fst reqs)"
  shows "real (allowed_count k reqs rl) + available (limiter_after reqs rl) k (last (t # map fst reqs)) \<le>
    available rl k t + rate rl * (last (t # map fst reqs) - t) + burst rl * real (evictions k reqs rl) \<and>
    limiter_ok (last (t # map fst reqs)) (limiter_after reqs rl)"
  using assms
proof (induction reqs arbitrary: t rl)
  case (Cons r reqs)
  obtain t' key where r: "r = (t', key)" by (cases r)
  obtain b rl' where a: "allow t' key rl = (b, rl')" by (cases "allow t' key rl")
  have le: "t \<le> t'" "sorted (t' # map fst reqs)" using Cons.prems(2) by (auto simp: r)
  note ok' = allow_ok [OF Cons.prems(1) le(1) a] and paid = allow_paid [OF Cons.prems(1) le(1) a, of k]
  note IH = Cons.IH [OF ok' le(2)]
  let ?T = "last (t' # map fst reqs)"
  have "rate rl * (?T - t) = rate rl * (?T - t') + rate rl * (t' - t)" by (simp add: algebra_simps)
  moreover have "last (t # map fst (r # reqs)) = ?T" by (simp add: r)
  ultimately show ?case
    using IH paid allow_facts(1,2) [OF a] by (auto simp: r a algebra_simps split: if_splits)
qed simp

lemma limiter_after_params: "rate (limiter_after reqs rl) = rate rl" "burst (limiter_after reqs rl) = burst rl"
  by (induction reqs rl rule: limiter_after.induct)
     (simp_all add: allow_facts(1,2) [OF surjective_pairing])

lemma available_after_wait:
  assumes ok: "limiter_ok t rl" and wait: "1 \<le> burst rl" "t \<le> t'" "1 \<le> (t' - t) * rate rl"
  shows "1 \<le> available rl k t'"
proof (cases "dict_get (buckets rl) k")
  case (Some e)
  obtain tokens latest where e: "e = (tokens, latest)" by (cases e)
  from Some ok have "0 \<le> tokens" "latest \<le> t" "0 \<le> rate rl"
    by (auto simp: limiter_ok_def e dest!: map_of_SomeD)
  then have "(t' - t) * rate rl \<le> tokens + (t' - latest) * rate rl"
    using mult_right_mono [of "t' - t" "t' - latest" "rate rl"] by simp
  then show ?thesis using wait by (simp add: available_def Some e)
qed (use wait in \<open>simp add: available_def\<close>)

text \<open>
  C20: The rate limiter. From an empty table, whatever the requests of all clients and their
  non-decreasing times, a client is never granted more requests than the burst plus the rate times
  the time that passed, plus another burst for each time its bucket was dropped from the table; the
  table never exceeds its bound; and a client that has not been granted a request for long enough to
  earn a token is granted the next one.
\<close>

theorem rate_limit_bound:
  assumes limiter: "rl = \<lparr> rate = r, burst = b, buckets = [] \<rparr>" "0 \<le> r" "0 \<le> b"
    and times: "sorted (t # map fst reqs)" "T = last (t # map fst reqs)"
  shows "real (allowed_count k reqs rl) \<le> b * (1 + real (evictions k reqs rl)) + r * (T - t) \<and>
    length (buckets (limiter_after reqs rl)) \<le> MAX_RATE_LIMIT_BUCKETS \<and>
    (\<forall>t'. 1 \<le> b \<and> T \<le> t' \<and> 1 \<le> (t' - T) * r \<longrightarrow> fst (allow t' k (limiter_after reqs rl)))"
proof (intro conjI allI impI)
  let ?rl = "limiter_after reqs rl"
  have ok: "limiter_ok t rl" using limiter by (simp add: limiter_ok_def)
  note paid = allowed_paid [OF ok times(1), folded times(2), of k]
  then have ok': "limiter_ok T ?rl" by simp
  have "0 \<le> available ?rl k T" by (rule available_bounds(1) [OF ok']) simp
  moreover have "available rl k t = b" using limiter by (simp add: available_def)
  ultimately show "real (allowed_count k reqs rl) \<le> b * (1 + real (evictions k reqs rl)) + r * (T - t)"
    using paid limiter(1) by (simp add: algebra_simps)
  show "length (buckets ?rl) \<le> MAX_RATE_LIMIT_BUCKETS" using ok' by (simp add: limiter_ok_def)
  fix t' assume late: "1 \<le> b \<and> T \<le> t' \<and> 1 \<le> (t' - T) * r"
  have "1 \<le> available ?rl k t'"
    by (rule available_after_wait [OF ok']) (use late limiter(1) limiter_after_params in simp_all)
  then show "fst (allow t' k ?rl)" using allow_facts(3) [of t' k ?rl] by (metis prod.collapse)
qed

theorem rate_limit_bound_witness:
  "real (allowed_count (ascii ''c'') [(0, ascii ''c''), (0, ascii ''c''), (1, ascii ''c''), (1, ascii ''d''), (2, ascii ''c'')]
      \<lparr> rate = 1, burst = 1, buckets = [] \<rparr>) \<le> 3"
proof -
  let ?reqs = "[(0, ascii ''c''), (0, ascii ''c''), (1, ascii ''c''), (1, ascii ''d''), (2, ascii ''c'')] :: (real \<times> pystr) list"
  let ?rl = "\<lparr> rate = 1, burst = 1, buckets = [] \<rparr> :: RateLimiter"
  have "evictions (ascii ''c'') ?reqs ?rl = 0" by code_simp
  then show ?thesis
    using rate_limit_bound [of ?rl 1 1 0 ?reqs 2 "ascii ''c''"] by simp
qed

end
