(* ===== verification/Startup.thy ===== *)
theory Startup
  imports Config_Props Http_Props
begin

text \<open>
  From the environment to a listening server: how \<open>run_http\<close> (\<open>server/app.py\<close>) turns a loaded
  configuration into the authenticator, the middleware stack and the listener it hands to the web
  server, and what that says of a server that is reachable over the network.
\<close>

subsection \<open>The server that \<open>run_http\<close> starts\<close>

definition auth_options_of :: "HttpConfig \<Rightarrow> auth_options" where
  "auth_options_of h = \<lparr> opt_bearer_token = hc_bearer_token h, opt_bearer_tokens = hc_bearer_tokens h,
     opt_mtls_field = hc_mtls_principal_field h, opt_oauth_issuer = hc_oauth_issuer h,
     opt_oauth_audience = hc_oauth_audience h, opt_oauth_jwks_uri = hc_oauth_jwks_uri h,
     opt_oauth = \<lparr> oauth_principal_claim = hc_oauth_principal_claim h, oauth_algorithms = hc_oauth_algorithms h,
       oauth_write_scope = hc_oauth_write_scope h \<rparr>,
     opt_proxy_secret = hc_proxy_shared_secret h, opt_proxy_secret_header = hc_proxy_secret_header h,
     opt_proxy_identity_header = hc_proxy_identity_header h \<rparr>"

definition http_stack_of :: "Config \<Rightarrow> HttpConfig \<Rightarrow> authenticator \<Rightarrow> HttpStack" where
  "http_stack_of c h auth = \<lparr> http_auth = auth, http_max_body_bytes = hc_max_body_bytes h,
     http_hsts = (hc_tls_cert h \<noteq> None \<or> hc_is_network h), http_cors_origins = hc_cors_origins h,
     http_readiness_ttl = real_of_int (readiness_cache_ttl_s c) \<rparr>"

definition initial_edge :: "HttpConfig \<Rightarrow> EdgeState" where
  "initial_edge h = \<lparr> es_limiter = \<lparr> rate = real_of_int (hc_rate_per_second h),
     burst = real_of_int (hc_rate_burst h), buckets = [] \<rparr>, es_readiness = new_readiness \<rparr>"

text \<open>The keyword arguments of \<open>uvicorn.run\<close>: the TLS options are passed for a TCP listener only.\<close>

record ssl_options =
  ssl_certfile :: "pystr option"
  ssl_keyfile :: "pystr option"
  ssl_ca_certs :: "pystr option"
  ssl_cert_required :: bool

datatype listener =
    UnixListener pystr
  | TcpListener pystr pystr bool ssl_options

definition listener_of :: "HttpConfig \<Rightarrow> listener" where
  "listener_of h =
     (let is_mtls = (hc_auth_mode h = ''mtls'') in
      if hc_is_unix_socket h then UnixListener (drop 5 (hc_bind h))
      else TcpListener (host_of_bind (hc_bind h)) (snd (snd (rpartition_at 58 (hc_bind h)))) is_mtls
        \<lparr> ssl_certfile = hc_tls_cert h, ssl_keyfile = hc_tls_key h,
          ssl_ca_certs = (if is_mtls then hc_tls_client_ca h else None), ssl_cert_required = is_mtls \<rparr>)"

record Server =
  sv_stack :: HttpStack
  sv_edge :: EdgeState
  sv_listener :: listener

definition run_http :: "Config \<Rightarrow> exc + Server" where
  "run_http c =
     (case http c of
        None \<Rightarrow> Inl (new_error \<lparr> err_type = INTERNAL, title = ascii ''Internal error'',
          detail = ascii ''HTTP transport selected without HTTP configuration.'', status = Some 500,
          correlation_id = None, retryable = False \<rparr>)
      | Some h \<Rightarrow>
          (case build_authenticator (hc_auth_mode h) (auth_options_of h) of
             None \<Rightarrow> Inl (ValueError (ascii ''invalid authentication configuration''))
           | Some auth \<Rightarrow> Inr \<lparr> sv_stack = http_stack_of c h auth, sv_edge = initial_edge h, sv_listener = listener_of h \<rparr>))"

subsection \<open>A loaded configuration starts\<close>

lemma tokens_ok_long: "tokens_ok tokens \<Longrightarrow> list_all (\<lambda>(token, _). length token \<ge> MIN_BEARER_TOKEN_LEN) tokens"
  by (auto simp: tokens_ok_def list_all_iff)

lemma set_default_present: "dict_get d k = Some v \<Longrightarrow> set_default k w d = d"
  by (simp add: set_default_def)

lemma bearer_options:
  assumes "safe_http lib h"
  shows "configured_tokens (auth_options_of h) = hc_bearer_tokens h"
  using assms by (auto simp: configured_tokens_def auth_options_of_def safe_http_def set_default_present split: option.split)

lemma authenticator_builds:
  assumes "safe_http lib h"
  shows "\<exists>auth. build_authenticator (hc_auth_mode h) (auth_options_of h) = Some auth"
proof -
  have tokens: "(case opt_bearer_token (auth_options_of h) of None \<Rightarrow> opt_bearer_tokens (auth_options_of h)
      | Some t \<Rightarrow> set_default t (ascii ''bearer'') (opt_bearer_tokens (auth_options_of h))) = hc_bearer_tokens h"
    using bearer_options [OF assms] unfolding configured_tokens_def .
  consider "hc_auth_mode h = ''none''" | "hc_auth_mode h = ''bearer''" | "hc_auth_mode h = ''mtls''"
    | "hc_auth_mode h = ''oauth''" | "hc_auth_mode h = ''mtls-proxy''"
    using assms by (auto simp: safe_http_def VALID_HTTP_AUTH_def)
  then show ?thesis
  proof cases
    case 2
    then show ?thesis using assms tokens_ok_long
      by (simp add: build_authenticator_def tokens constructed_def safe_http_def mode_ready_def)
  next
    case 4
    with assms obtain issuer audience uri where "hc_oauth_issuer h = Some issuer" "hc_oauth_audience h = Some audience"
      "hc_oauth_jwks_uri h = Some uri" by (auto simp: safe_http_def mode_ready_def)
    with 4 assms show ?thesis
      by (auto simp: build_authenticator_def constructed_def auth_options_of_def safe_http_def algorithms_ok_def list_all_iff)
  next
    case 5
    with assms obtain secret where "hc_proxy_shared_secret h = Some secret" "MIN_BEARER_TOKEN_LEN \<le> length secret"
      by (auto simp: safe_http_def mode_ready_def)
    moreover from this have "secret \<noteq> []" by auto
    ultimately show ?thesis using 5 by (simp add: build_authenticator_def constructed_def auth_options_of_def)
  qed (use assms in \<open>simp_all add: build_authenticator_def constructed_def safe_http_def auth_options_of_def\<close>)
qed

text \<open>
  C8: A server that boots on a network address is default-deny. Whatever the environment is, if it
  loads with the HTTP transport then the server starts; if its address is not a loopback one, it
  listens with TLS on a certificate and its key; with client certificates as the mode of
  authentication the handshake requires and verifies one; and every HTTP request other than
  \<open>OPTIONS\<close> that reaches the application carries the principal of a credential that the configured
  mode, which is not \<open>none\<close>, verified.
\<close>

theorem network_server_default_deny:
  assumes "load_config lib env = Inr c" and "http c = Some h"
  shows "\<exists>srv. run_http c = Inr srv \<and>
    (hc_is_network h \<longrightarrow>
       (\<exists>host port m ssl. sv_listener srv = TcpListener host port m ssl \<and>
          ssl_certfile ssl \<noteq> None \<and> ssl_keyfile ssl \<noteq> None \<and>
          (hc_auth_mode h = ''mtls'' \<longrightarrow> m \<and> ssl_cert_required ssl \<and> ssl_ca_certs ssl \<noteq> None)) \<and>
       (\<forall>verify cors inner renv sc es seen.
          snd (fst (build_http_asgi_app (sv_stack srv) verify cors inner renv sc es)) = Some seen \<longrightarrow>
          scope_principal sc = None \<longrightarrow> scope_type sc = ''http'' \<longrightarrow> scope_method sc \<noteq> Some ''OPTIONS'' \<longrightarrow>
          hc_auth_mode h \<noteq> ''none'' \<and>
          (\<exists>p. seen = sc\<lparr>scope_principal := Some p\<rparr> \<and>
             credential (hc_auth_mode h) (auth_options_of h) verify (auth_context sc) p)))"
proof -
  have safe: "safe_http lib h"
    using load_config_outcome [of lib env] assms by (simp add: safe_config_def)
  then obtain auth where auth: "build_authenticator (hc_auth_mode h) (auth_options_of h) = Some auth"
    using authenticator_builds by blast
  define srv where "srv = \<lparr> sv_stack = http_stack_of c h auth, sv_edge = initial_edge h, sv_listener = listener_of h \<rparr>"
  have run: "run_http c = Inr srv" by (simp add: run_http_def assms(2) auth srv_def)
  have unix: "hc_is_unix_socket h \<longrightarrow> \<not> hc_is_network h" using safe unfolding safe_http_def by blast
  have built: "build_authenticator (hc_auth_mode h) (auth_options_of h) = Some (http_auth (sv_stack srv))"
    by (simp add: auth srv_def http_stack_of_def)
  have tokens: "dict_ok (opt_bearer_tokens (auth_options_of h))"
    using safe by (simp add: safe_http_def tokens_ok_def auth_options_of_def)
  show ?thesis
  proof (intro exI [of _ srv] conjI impI allI)
    show "run_http c = Inr srv" by (rule run)
  next
    assume net: "hc_is_network h"
    show "\<exists>host port m ssl. sv_listener srv = TcpListener host port m ssl \<and>
        ssl_certfile ssl \<noteq> None \<and> ssl_keyfile ssl \<noteq> None \<and>
        (hc_auth_mode h = ''mtls'' \<longrightarrow> m \<and> ssl_cert_required ssl \<and> ssl_ca_certs ssl \<noteq> None)"
      using net unix safe by (auto simp: srv_def listener_of_def Let_def safe_http_def mode_ready_def)
    show "hc_auth_mode h \<noteq> ''none''" using net safe unfolding safe_http_def by blast
  next
    fix verify cors inner renv sc es seen
    assume "snd (fst (build_http_asgi_app (sv_stack srv) verify cors inner renv sc es)) = Some seen"
      "scope_principal sc = None" "scope_type sc = ''http''" "scope_method sc \<noteq> Some ''OPTIONS''"
    from edge_admits [OF built tokens this(2,1)] this(3,4)
    show "\<exists>p. seen = sc\<lparr>scope_principal := Some p\<rparr> \<and>
        credential (hc_auth_mode h) (auth_options_of h) verify (auth_context sc) p" by blast
  qed
qed

theorem network_server_default_deny_witness:
  "\<exists>c srv host port m ssl. load_config demo_lib (environ_of network_variables) = Inr c \<and> run_http c = Inr srv \<and>
    sv_listener srv = TcpListener host port m ssl \<and> ssl_certfile ssl \<noteq> None"
proof -
  obtain c h where c: "load_config demo_lib (environ_of network_variables) = Inr c" "http c = Some h" "hc_is_network h"
    by (rule network_config)
  with network_server_default_deny [OF c(1,2)] show ?thesis by blast
qed

text \<open>
  Client certificates are accepted as the mode of a server on a Unix socket, although its listener
  gets no TLS options, so that no certificate is ever asked for and every request is refused.
\<close>

definition mtls_unix_variables :: "(string \<times> string) list" where
  "mtls_unix_variables =
     [(''VIVARIUM_HTTP_BIND'', ''unix:/s''), (''VIVARIUM_HTTP_TLS_CERT'', ''/c''), (''VIVARIUM_HTTP_TLS_KEY'', ''/k''),
      (''VIVARIUM_HTTP_AUTH'', ''mtls''), (''VIVARIUM_HTTP_TLS_CLIENT_CA'', ''/ca'')]"

lemma mtls_on_unix_socket:
  "\<exists>h. load_http_config demo_lib (environ_of mtls_unix_variables) = Inr h \<and> hc_auth_mode h = ''mtls'' \<and>
    listener_of h = UnixListener (ascii ''/s'')"
proof -
  have plain: "list_all (\<lambda>(_, v). plain_text v) mtls_unix_variables"
    by (simp add: mtls_unix_variables_def plain_text_def)
  note readers = env_text_environ_of [OF plain] plain_read_str [OF plain] plain_read_opt [OF plain]
    read_choice_def read_positive_int_def read_int_def
  have tokens: "load_bearer_tokens (environ_of mtls_unix_variables) None = Inr []"
    by (simp add: load_bearer_tokens_def Let_def environ_of_get del: chain_Inr_iff)
      (simp add: mtls_unix_variables_def py_strip_def)
  have algs: "load_oauth_algorithms (environ_of mtls_unix_variables) = Inr OAUTH_DEFAULT_ALGORITHMS"
    by (simp add: load_oauth_algorithms_def readers del: chain_Inr_iff) (simp add: mtls_unix_variables_def)
  have bind: "parse_bind (ascii ''unix:/s'') = Inr (True, False)" "drop 5 (ascii ''unix:/s'') = ascii ''/s''"
    by (simp_all add: parse_bind_def ascii_def)
  show ?thesis
    unfolding load_http_config_def
    by (simp add: readers algs del: chain_Inr_iff)
      (simp add: mtls_unix_variables_def bind tokens [unfolded mtls_unix_variables_def] unless_def bounded_name_def
        Let_def http_rules_def origins_of_Nil VALID_HTTP_AUTH_def listener_of_def del: chain_Inr_iff)
qed

end
