(* ===== verification/Schemas.thy ===== *)
theory Schemas
  imports Envelope
begin

text \<open>
  The result models of the tools that the clients of the server read back (\<open>tools/schemas.py\<close>), as
  records. A record has every field of
  its model, read here or not.
\<close>

record FunctionSummary =
  fs_address :: pystr
  fs_name :: "pystr Untrusted"
  fs_size :: int

record FunctionDetail =
  fd_address :: pystr
  fd_name :: "pystr Untrusted"
  fd_signature :: "pystr Untrusted"
  fd_size :: int
  fd_is_thunk :: bool
  fd_calling_convention :: "pystr Untrusted option"

record CallEdge =
  ce_from :: pystr
  ce_to :: pystr

record CallGraphNode =
  cn_address :: pystr
  cn_name :: "pystr Untrusted"
  cn_is_external :: bool
  cn_has_unresolved_calls :: bool

record CallGraphOut =
  cg_nodes :: "CallGraphNode list"
  cg_edges :: "CallEdge list"
  cg_unresolved_callers :: "pystr list"
  cg_truncated :: bool

record Xref =
  xr_from :: pystr
  xr_to :: pystr
  xr_ref_type :: pystr

record ImportedSymbol =
  im_name :: "pystr Untrusted"
  im_library :: "pystr Untrusted option"
  im_address :: "pystr option"

record ExportedSymbol =
  ex_name :: "pystr Untrusted"
  ex_address :: pystr

record DefinedString =
  ds_address :: pystr
  ds_value :: "pystr Untrusted"
  ds_length :: int

record IocMatch =
  io_category :: pystr
  io_value :: "pystr Untrusted"
  io_source_address :: "pystr option"

record CryptoConstantFinding =
  cc_algorithm :: pystr
  cc_kind :: pystr
  cc_address :: pystr

record CryptoIndicator =
  ci_address :: "pystr option"
  ci_kind :: pystr
  ci_source :: pystr
  ci_detail :: "pystr Untrusted"
  ci_confidence :: real

record CapabilityEvidence =
  ev_address :: "pystr option"
  ev_where :: pystr
  ev_detail :: "pystr Untrusted"

record AttackTechnique =
  at_tactic :: pystr
  at_technique_id :: pystr

record CapabilityMatch =
  cm_rule_id :: pystr
  cm_name :: pystr
  cm_namespace :: pystr
  cm_attack :: "AttackTechnique list"
  cm_evidence :: "CapabilityEvidence list"
  cm_confidence :: real

record SecretFinding =
  sf_address :: "pystr option"
  sf_category :: pystr
  sf_pattern_id :: pystr
  sf_masked_preview :: "pystr Untrusted"
  sf_preview_hash :: pystr
  sf_entropy :: "real option"

record FamilyCandidate =
  fc_family :: pystr
  fc_confidence :: real
  fc_basis :: "pystr list"

record FamilyMatchOut =
  fm_candidates :: "FamilyCandidate list"
  fm_corpus_version :: pystr
  fm_truncated :: bool

record ProgramMetadata =
  pm_sha256 :: pystr
  pm_size_bytes :: int
  pm_format :: pystr
  pm_architecture :: pystr
  pm_endianness :: pystr
  pm_compiler :: "pystr Untrusted option"
  pm_entry_point :: "pystr option"
  pm_function_count :: int
  pm_analysis_complete :: bool

record CoverageOut =
  cv_total_bytes :: int
  cv_defined_code_bytes :: int
  cv_defined_data_bytes :: int
  cv_undefined_bytes :: int
  cv_code_ratio :: real
  cv_data_ratio :: real
  cv_function_count :: int

record ProgramFingerprintOut =
  pf_structure_digest :: pystr
  pf_import_digest :: "pystr option"
  pf_function_count :: int
  pf_import_count :: int
  pf_coverage :: CoverageOut

record FunctionContext =
  fx_address :: pystr
  fx_name :: "pystr Untrusted"
  fx_signature :: "pystr Untrusted"
  fx_is_external :: bool
  fx_decompilation :: "pystr Untrusted option"
  fx_callees :: "CallGraphNode list"
  fx_callers :: "CallGraphNode list"
  fx_referenced_strings :: "pystr Untrusted list"
  fx_has_unresolved_calls :: bool
  fx_truncated :: bool

record CallNeighborsOut =
  nb_neighbors :: "CallGraphNode list"
  nb_total :: nat
  nb_unresolved :: bool
  nb_truncated :: bool

subsection \<open>Exported annotations\<close>

record ExportedTypeRef =
  et_base :: "pystr option"
  et_named :: "pystr Untrusted option"
  et_pointer_levels :: int
  et_array_len :: "int option"

record ExportedParamSpec =
  ep_name :: "pystr Untrusted"
  ep_type :: ExportedTypeRef

record ExportedFieldSpec =
  ef_name :: "pystr Untrusted"
  ef_type :: ExportedTypeRef
  ef_offset :: "int option"

record ExportedCompositeSpec =
  ec_kind :: pystr
  ec_name :: "pystr Untrusted"
  ec_fields :: "ExportedFieldSpec list"
  ec_packed :: bool

text \<open>The union of the exported entries: one constructor per class, its fields in the order of the class.\<close>

datatype ExportedEntry =
    ExportedRenameFunctionEntry pystr "pystr Untrusted"
  | ExportedRenameSymbolEntry pystr "pystr Untrusted"
  | ExportedRenameLocalVariableEntry pystr "pystr Untrusted" "pystr Untrusted"
  | ExportedRenameParameterEntry pystr "pystr Untrusted" "pystr Untrusted"
  | ExportedSetCommentEntry pystr pystr "pystr Untrusted"
  | ExportedSetFunctionSignatureEntry pystr ExportedTypeRef "ExportedParamSpec list" "pystr option"
  | ExportedApplyDataTypeEntry pystr ExportedTypeRef bool
  | ExportedDefineStructEntry "pystr Untrusted" "ExportedFieldSpec list" bool
  | ExportedDefineUnionEntry "pystr Untrusted" "ExportedFieldSpec list"
  | ExportedDefineTypesEntry "ExportedCompositeSpec list"

record ExportedBinaryRef =
  eb_sha256 :: pystr
  eb_name :: "pystr Untrusted option"
  eb_size :: "int option"

record ExportedAnnotationDocument =
  ea_schema_version :: int
  ea_binary :: ExportedBinaryRef
  ea_entries :: "ExportedEntry list"

subsection \<open>Program summary\<close>

record FunctionListOut =
  fl_functions :: "FunctionSummary list"
  fl_total :: int
  fl_truncated :: bool

record FanRanking =
  rk_address :: pystr
  rk_name :: "pystr Untrusted"
  rk_count :: int

record CallGraphMetricsOut =
  gm_function_count :: int
  gm_edge_count :: int
  gm_leaf_count :: int
  gm_root_count :: int
  gm_recursive_component_count :: int
  gm_self_recursive_count :: int
  gm_unresolved_caller_count :: int
  gm_top_fan_in :: "FanRanking list"
  gm_top_fan_out :: "FanRanking list"
  gm_truncated :: bool

record CyclomaticComplexity =
  cy_address :: pystr
  cy_name :: "pystr Untrusted"
  cy_complexity :: int
  cy_block_count :: int
  cy_edge_count :: int
  cy_incomplete :: bool

record IocCategoryCount =
  ic_category :: pystr
  ic_count :: int

record ProgramSummary =
  su_metadata :: ProgramMetadata
  su_function_count :: int
  su_import_count :: int
  su_export_count :: int
  su_string_count :: int
  su_coverage :: "CoverageOut option"
  su_call_graph_metrics :: "CallGraphMetricsOut option"
  su_top_complex_functions :: "CyclomaticComplexity list"
  su_ioc_counts :: "IocCategoryCount list"
  su_crypto_algorithms :: "pystr list"
  su_truncated :: bool

subsection \<open>Generated reports\<close>

record FindingRecord =
  fr_subject :: "pystr Untrusted"
  fr_kind :: string
  fr_confidence :: string
  fr_observation :: "pystr Untrusted list"
  fr_inference :: "pystr Untrusted option"

record ReportManifest =
  mf_program_sha256 :: pystr
  mf_session_id :: pystr
  mf_tool :: string
  mf_tool_revision :: string
  mf_generated_from :: "string list"
  mf_finding_count :: nat
  mf_truncated :: bool

record SessionGenerateReportIn =
  gr_session_id :: pystr
  gr_scope :: "pystr list"
  gr_title :: "pystr option"
  gr_include_html :: bool
  gr_atlas :: bool

record AtlasSummary =
  as_program_sha256 :: pystr
  as_format :: pystr
  as_architecture :: pystr
  as_endianness :: pystr
  as_size_bytes :: int
  as_entry_point :: "pystr option"
  as_compiler :: "pystr Untrusted option"
  as_function_count :: int
  as_import_count :: int
  as_export_count :: int
  as_string_count :: int
  as_leaf_count :: "int option"
  as_root_count :: "int option"
  as_recursive_component_count :: "int option"
  as_unresolved_caller_count :: "int option"

record AtlasNode =
  an_address :: pystr
  an_name :: "pystr Untrusted"
  an_is_external :: bool
  an_has_unresolved_calls :: bool

record AtlasEdge =
  ae_from :: pystr
  ae_to :: pystr

record AtlasXref =
  ax_from :: pystr
  ax_to :: pystr
  ax_ref_type :: pystr

record AtlasFunction =
  af_address :: pystr
  af_name :: "pystr Untrusted"
  af_size :: int

record Atlas =
  ad_summary :: AtlasSummary
  ad_nodes :: "AtlasNode list"
  ad_edges :: "AtlasEdge list"
  ad_functions :: "AtlasFunction list"
  ad_xrefs :: "AtlasXref list"
  ad_truncated :: bool

end
