(* ===== verification/Callgraph.thy ===== *)
theory Callgraph
  imports Errors "HOL-Library.List_Lexorder" "HOL-Library.While_Combinator"
begin

text \<open>
  The analysis order of a call graph (\<open>core/callgraph.py\<close>): strongly connected components by the
  iterative form of Tarjan's algorithm, callees before callers. Node ids are strings, ordered as
  Python orders them; \<open>sorted\<close> of a set is \<open>sorted_list_of_set\<close>. The two stacks grow at the head of a
  list, where the source appends.
\<close>

record Component =
  members :: "pystr list"
  is_recursive :: bool

record AnalysisOrder =
  components :: "Component list"
  unresolved_callers :: "pystr list"
  self_recursive :: "pystr list"

type_synonym adjacency_map = "(pystr, pystr list) dict"

definition collect_nodes :: "adjacency_map \<Rightarrow> pystr set \<Rightarrow> pystr list" where
  "collect_nodes adjacency unresolved =
     sorted_list_of_set (unresolved \<union> fst ` set adjacency \<union> (\<Union>(_, callees) \<in> set adjacency. set callees))"

subsection \<open>Normalisation\<close>

fun row_loop :: "pystr \<Rightarrow> pystr list \<Rightarrow> pystr set \<Rightarrow> pystr set \<Rightarrow> pystr set \<times> pystr set" where
  "row_loop caller [] seen self_loops = (seen, self_loops)"
| "row_loop caller (callee # callees) seen self_loops =
     (if callee = caller then row_loop caller callees seen (insert caller self_loops)
      else if callee \<in> seen then row_loop caller callees seen self_loops
      else row_loop caller callees (insert callee seen) self_loops)"

fun normalize_rows :: "adjacency_map \<Rightarrow> adjacency_map \<Rightarrow> pystr set \<Rightarrow> adjacency_map \<times> pystr set" where
  "normalize_rows [] succ self_loops = (succ, self_loops)"
| "normalize_rows ((caller, callees) # rows) succ self_loops =
     (case row_loop caller callees {} self_loops of
        (seen, loops) \<Rightarrow> normalize_rows rows (dict_set caller (sorted_list_of_set seen) succ) loops)"

definition normalize :: "adjacency_map \<Rightarrow> pystr list \<Rightarrow> adjacency_map \<times> pystr set" where
  "normalize adjacency nodes = normalize_rows adjacency (map (\<lambda>n. (n, [])) nodes) {}"

subsection \<open>Tarjan's algorithm\<close>

record tarjan =
  index_of :: "pystr \<rightharpoonup> nat"
  lowlink :: "pystr \<rightharpoonup> nat"
  on_stack :: "pystr set"
  stack :: "pystr list"
  sccs :: "pystr list list"
  counter :: nat
  work :: "(pystr \<times> nat) list"

definition lookup :: "('k \<rightharpoonup> 'v) \<Rightarrow> 'k \<Rightarrow> exc + 'v" where
  "lookup m k = (case m k of None \<Rightarrow> Inl KeyError | Some v \<Rightarrow> Inr v)"

definition tarjan_start :: tarjan where
  "tarjan_start = \<lparr> index_of = Map.empty, lowlink = Map.empty, on_stack = {}, stack = [], sccs = [],
     counter = 0, work = [] \<rparr>"

definition visit :: "pystr \<Rightarrow> tarjan \<Rightarrow> tarjan" where
  "visit node s = s\<lparr>index_of := (index_of s)(node \<mapsto> counter s), lowlink := (lowlink s)(node \<mapsto> counter s),
     counter := counter s + 1, stack := node # stack s, on_stack := insert node (on_stack s)\<rparr>"

text \<open>The inner \<open>while True\<close>: members are popped up to \<open>node\<close>; popping from an empty list raises.\<close>

fun pop_component :: "pystr \<Rightarrow> pystr list \<Rightarrow> pystr set \<Rightarrow> pystr list \<Rightarrow> exc + pystr list \<times> pystr set \<times> pystr list" where
  "pop_component node [] on component = Inl OtherException"
| "pop_component node (member # rest) on component =
     (if member = node then Inr (rest, on - {member}, component @ [member])
      else pop_component node rest (on - {member}) (component @ [member]))"

text \<open>\<open>lowlink[node] = min(lowlink[node], v)\<close>\<close>

definition lower_link :: "pystr \<Rightarrow> nat \<Rightarrow> tarjan \<Rightarrow> exc + tarjan" where
  "lower_link node v s =
     chain (lookup (lowlink s) node) (\<lambda>l. Inr (s\<lparr>lowlink := (lowlink s)(node \<mapsto> min l v)\<rparr>))"

definition next_child :: "pystr \<Rightarrow> pystr \<Rightarrow> tarjan \<Rightarrow> exc + tarjan" where
  "next_child node child s =
     (if index_of s child = None then Inr (s\<lparr>work := (child, 0) # work s\<rparr>)
      else if child \<in> on_stack s then chain (lookup (index_of s) child) (\<lambda>i. lower_link node i s)
      else Inr s)"

definition emit_component :: "pystr \<Rightarrow> tarjan \<Rightarrow> exc + tarjan" where
  "emit_component node s =
     chain (lookup (lowlink s) node) (\<lambda>l. chain (lookup (index_of s) node) (\<lambda>i.
       if l = i then
         chain (pop_component node (stack s) (on_stack s) []) (\<lambda>(st, on, component).
           Inr (s\<lparr>stack := st, on_stack := on, sccs := sccs s @ [sort component]\<rparr>))
       else Inr s))"

definition leave :: "pystr \<Rightarrow> tarjan \<Rightarrow> exc + tarjan" where
  "leave node s =
     (let s = s\<lparr>work := tl (work s)\<rparr> in
      case work s of
        [] \<Rightarrow> Inr s
      | (parent, _) # _ \<Rightarrow> chain (lookup (lowlink s) node) (\<lambda>l. lower_link parent l s))"

definition tarjan_step :: "adjacency_map \<Rightarrow> tarjan \<Rightarrow> exc + tarjan" where
  "tarjan_step succ s = (case work s of
     [] \<Rightarrow> Inr s
   | (node, i) # rest \<Rightarrow>
       (let s = (if i = 0 then visit node s else s) in
        chain (lookup (dict_get succ) node) (\<lambda>successors.
          if i < length successors
          then next_child node (successors ! i) (s\<lparr>work := (node, Suc i) # rest\<rparr>)
          else chain (emit_component node s) (leave node))))"

text \<open>The inner loop; \<open>None\<close> would be a loop that does not end.\<close>

definition tarjan_loop :: "adjacency_map \<Rightarrow> tarjan \<Rightarrow> (exc + tarjan) option" where
  "tarjan_loop succ s =
     while_option (\<lambda>r. case r of Inl _ \<Rightarrow> False | Inr s \<Rightarrow> work s \<noteq> []) (\<lambda>r. chain r (tarjan_step succ)) (Inr s)"

fun tarjan_roots :: "adjacency_map \<Rightarrow> pystr list \<Rightarrow> tarjan \<Rightarrow> (exc + tarjan) option" where
  "tarjan_roots succ [] s = Some (Inr s)"
| "tarjan_roots succ (start # starts) s =
     (if index_of s start \<noteq> None then tarjan_roots succ starts s
      else
        (case tarjan_loop succ (s\<lparr>work := [(start, 0)]\<rparr>) of
           None \<Rightarrow> None
         | Some (Inl e) \<Rightarrow> Some (Inl e)
         | Some (Inr s') \<Rightarrow> tarjan_roots succ starts s'))"

definition tarjan_sccs :: "pystr list \<Rightarrow> adjacency_map \<Rightarrow> (exc + pystr list list) option" where
  "tarjan_sccs nodes succ = map_option (map_sum id sccs) (tarjan_roots succ nodes tarjan_start)"

subsection \<open>The analysis order\<close>

definition component_of :: "pystr set \<Rightarrow> pystr list \<Rightarrow> Component" where
  "component_of self_loops scc =
     \<lparr> members = scc, is_recursive = (length scc > 1 \<or> length scc = 1 \<and> scc ! 0 \<in> self_loops) \<rparr>"

definition compute_analysis_order :: "adjacency_map \<Rightarrow> pystr list \<Rightarrow> (exc + AnalysisOrder) option" where
  "compute_analysis_order adjacency unresolved =
     (let nodes = collect_nodes adjacency (set unresolved); (succ, self_loops) = normalize adjacency nodes
      in map_option (map_sum id (\<lambda>sccs.
           \<lparr> components = map (component_of self_loops) sccs,
             unresolved_callers = sorted_list_of_set (set unresolved),
             self_recursive = sorted_list_of_set self_loops \<rparr>)) (tarjan_sccs nodes succ))"

end
