(* ===== verification/Naming.thy ===== *)
theory Naming
  imports Schemas Callgraph Py_Text
begin

text \<open>
  From a call graph to names: the leaf-first plan (\<open>_adjacency_from_graph\<close>, \<open>_build_analysis_order\<close> and
  \<open>_one_hop\<close> of \<open>ghidra/rpc_client.py\<close>) and the walk of the naming loop over it (\<open>naming/loop.py\<close>). The
  namer is an argument: its answer may depend on every question asked before, and it may raise.
\<close>

subsection \<open>The plan\<close>

record AnalysisOrderOut = AnalysisOrder +
  order_truncated :: bool

definition adjacency_from_graph :: "CallGraphOut \<Rightarrow> adjacency_map \<times> pystr list" where
  "adjacency_from_graph graph =
     (foldl (\<lambda>d e. dict_set (ce_from e)
               ((case dict_get d (ce_from e) of None \<Rightarrow> [] | Some callees \<Rightarrow> callees) @ [ce_to e]) d)
        (foldl (\<lambda>d n. dict_set (cn_address n) [] d) [] (cg_nodes graph)) (cg_edges graph),
      cg_unresolved_callers graph)"

definition build_analysis_order :: "CallGraphOut \<Rightarrow> (exc + AnalysisOrderOut) option" where
  "build_analysis_order graph =
     (case adjacency_from_graph graph of (adjacency, unresolved) \<Rightarrow>
        map_option (map_sum id (\<lambda>order.
          \<lparr> components = map (\<lambda>c. \<lparr> members = members c, is_recursive = is_recursive c \<rparr>) (components order),
            unresolved_callers = unresolved_callers order, self_recursive = self_recursive order,
            order_truncated = cg_truncated graph \<rparr>)) (compute_analysis_order adjacency unresolved))"

text \<open>One hop: the neighbours in the order of the edges, each once, one page of them.\<close>

fun distinct_nodes :: "(pystr, CallGraphNode) dict \<Rightarrow> pystr list \<Rightarrow> pystr list \<Rightarrow> CallGraphNode list" where
  "distinct_nodes by_addr [] seen = []"
| "distinct_nodes by_addr (a # addrs) seen =
     (case dict_get by_addr a of
        None \<Rightarrow> distinct_nodes by_addr addrs seen
      | Some node \<Rightarrow>
          if a \<in> set seen then distinct_nodes by_addr addrs seen
          else node # distinct_nodes by_addr addrs (a # seen))"

definition one_hop :: "CallGraphOut \<Rightarrow> pystr \<Rightarrow> bool \<Rightarrow> nat \<Rightarrow> nat \<Rightarrow> CallNeighborsOut" where
  "one_hop graph entry outward offset limit =
     (let by_addr = foldl (\<lambda>d n. dict_set (cn_address n) n d) [] (cg_nodes graph);
          neighbor_addrs = (if outward then map ce_to (filter (\<lambda>e. ce_from e = entry) (cg_edges graph))
            else map ce_from (filter (\<lambda>e. ce_to e = entry) (cg_edges graph)));
          ordered = distinct_nodes by_addr neighbor_addrs []
      in \<lparr> nb_neighbors = take limit (drop offset ordered), nb_total = length ordered,
           nb_unresolved = (outward \<and> list_ex (\<lambda>n. cn_address n = entry \<and> cn_has_unresolved_calls n) (cg_nodes graph)),
           nb_truncated = (cg_truncated graph \<or> offset + limit < length ordered) \<rparr>)"

subsection \<open>The naming loop\<close>

record ProposedName =
  new_name :: pystr
  new_c :: pystr

record FunctionNaming =
  fn_address :: pystr
  fn_original_name :: pystr
  fn_assigned_name :: pystr
  fn_is_external :: bool
  fn_inferred :: bool
  fn_renamed_c :: "pystr option"

record RenamedProgram =
  rp_functions :: "FunctionNaming list"
  rp_translation_unit :: pystr
  rp_notes :: "pystr list"

type_synonym question = "FunctionContext \<times> (pystr, pystr) dict"
type_synonym namer = "question list \<Rightarrow> question \<Rightarrow> exc + ProposedName"

record naming_state =
  assigned :: "(pystr, pystr) dict"
  results :: "FunctionNaming list"
  remarks :: "pystr list"
  inferred_count :: int
  truncated :: bool
  asked :: "question list"

definition start_naming :: naming_state where
  "start_naming = \<lparr> assigned = [], results = [], remarks = [], inferred_count = 0, truncated = False, asked = [] \<rparr>"

definition callee_names :: "FunctionContext \<Rightarrow> (pystr, pystr) dict \<Rightarrow> (pystr, pystr) dict" where
  "callee_names ctx names = foldl (\<lambda>d c. case dict_get names (cn_address c) of
     None \<Rightarrow> d | Some n \<Rightarrow> dict_set (cn_address c) n d) [] (fx_callees ctx)"

text \<open>The body of the loop; a namer that raises leaves with the questions asked.\<close>

definition name_function ::
  "(pystr \<rightharpoonup> FunctionContext) \<Rightarrow> namer \<Rightarrow> int \<Rightarrow> pystr \<Rightarrow> naming_state \<Rightarrow> (exc \<times> question list) + naming_state" where
  "name_function contexts namer max_functions address st =
     (case contexts address of
        None \<Rightarrow> Inr (st\<lparr>remarks := remarks st @ [ascii ''missing context for '' @ address]\<rparr>)
      | Some ctx \<Rightarrow>
          if fx_is_external ctx then
            (let known = u_value (fx_name ctx) in
             Inr (st\<lparr>assigned := dict_set address known (assigned st),
               results := results st @ [\<lparr> fn_address = address, fn_original_name = known, fn_assigned_name = known,
                 fn_is_external = True, fn_inferred = False, fn_renamed_c = None \<rparr>]\<rparr>))
          else if inferred_count st \<ge> max_functions then Inr (st\<lparr>truncated := True\<rparr>)
          else
            (let question = (ctx, callee_names ctx (assigned st)); log = asked st @ [question] in
             case namer (asked st) question of
               Inl e \<Rightarrow> Inl (e, log)
             | Inr proposed \<Rightarrow>
                 Inr (st\<lparr>assigned := dict_set address (new_name proposed) (assigned st),
                   results := results st @ [\<lparr> fn_address = address, fn_original_name = u_value (fx_name ctx),
                     fn_assigned_name = new_name proposed, fn_is_external = False, fn_inferred = True,
                     fn_renamed_c = Some (new_c proposed) \<rparr>],
                   inferred_count := inferred_count st + 1,
                   remarks := remarks st @ (if fx_has_unresolved_calls ctx
                     then [address @ ascii '': named with unresolved indirect/virtual call(s) '' @ [8212] @ ascii '' partial'']
                     else []),
                   asked := log\<rparr>)))"

fun name_members ::
  "(pystr \<rightharpoonup> FunctionContext) \<Rightarrow> namer \<Rightarrow> int \<Rightarrow> pystr list \<Rightarrow> naming_state \<Rightarrow> (exc \<times> question list) + naming_state" where
  "name_members contexts namer max_functions [] st = Inr st"
| "name_members contexts namer max_functions (a # as) st =
     chain (name_function contexts namer max_functions a st) (name_members contexts namer max_functions as)"

fun name_components ::
  "(pystr \<rightharpoonup> FunctionContext) \<Rightarrow> namer \<Rightarrow> int \<Rightarrow> Component list \<Rightarrow> naming_state \<Rightarrow> (exc \<times> question list) + naming_state" where
  "name_components contexts namer max_functions [] st = Inr st"
| "name_components contexts namer max_functions (c # cs) st =
     chain (name_members contexts namer max_functions (members c) st) (name_components contexts namer max_functions cs)"

definition extern_decl :: "FunctionNaming \<Rightarrow> pystr" where
  "extern_decl r = ascii ''extern void '' @ fn_assigned_name r @ ascii ''(void); /* external/imported */''"

definition assemble :: "FunctionNaming list \<Rightarrow> pystr" where
  "assemble rs =
     (let decls = map extern_decl (filter fn_is_external rs);
          bodies = List.map_filter (\<lambda>r. if fn_inferred r then fn_renamed_c r else None) rs;
          header = ascii ''/* vivarium semantic-naming reference output (best-effort; NOT a guarantee) */'' @ [10]
      in join_with [10, 10] (header # (if decls = [] then [] else [join_with [10] decls]) @ bodies) @ [10])"

definition orchestrate ::
  "AnalysisOrderOut \<Rightarrow> (pystr \<rightharpoonup> FunctionContext) \<Rightarrow> namer \<Rightarrow> int \<Rightarrow> (exc \<times> question list) + (RenamedProgram \<times> question list)" where
  "orchestrate order contexts namer max_functions =
     chain (name_components contexts namer max_functions (components order) start_naming) (\<lambda>st.
       Inr (\<lparr> rp_functions = results st, rp_translation_unit = assemble (results st),
              rp_notes = remarks st @
                (if truncated st then [ascii ''naming truncated at max_functions='' @ dec_int max_functions] else []) @
                (if order_truncated order then [ascii ''analysis_order was truncated '' @ [8212] @ ascii '' call graph is partial''] else []) \<rparr>,
            asked st))"

end
