(* ===== verification/Callgraph_Props.thy ===== *)
theory Callgraph_Props
  imports Callgraph
begin

text \<open>
  The analysis order is correct: the iterative algorithm returns, its components are exactly the
  strongly connected components, and callees come first. The invariant speaks of the nodes on the
  work stack (grey), of the nodes on the component stack, and of the components already emitted.
\<close>

subsection \<open>Graphs\<close>

definition edges :: "adjacency_map \<Rightarrow> (pystr \<times> pystr) set" where
  "edges succ = {(u, v). \<exists>vs. dict_get succ u = Some vs \<and> v \<in> set vs}"

definition scc_of :: "(pystr \<times> pystr) set \<Rightarrow> pystr \<Rightarrow> pystr set" where
  "scc_of E u = {v. (u, v) \<in> E\<^sup>* \<and> (v, u) \<in> E\<^sup>*}"

text \<open>A list of components is leaf-first if every edge leads into the same or an earlier one.\<close>

definition leaf_first :: "(pystr \<times> pystr) set \<Rightarrow> pystr list list \<Rightarrow> bool" where
  "leaf_first E cs \<longleftrightarrow> (\<forall>k < length cs. \<forall>u \<in> set (cs ! k). \<forall>v. (u, v) \<in> E \<longrightarrow> (\<exists>j \<le> k. v \<in> set (cs ! j)))"

definition components_ok :: "(pystr \<times> pystr) set \<Rightarrow> pystr list list \<Rightarrow> bool" where
  "components_ok E cs \<longleftrightarrow> distinct (concat cs) \<and> leaf_first E cs \<and>
     (\<forall>c \<in> set cs. c \<noteq> [] \<and> sorted c \<and> (\<forall>u \<in> set c. set c = scc_of E u))"

lemma in_concat_nth: "v \<in> set (concat cs) \<longleftrightarrow> (\<exists>k < length cs. v \<in> set (cs ! k))"
  by (metis UN_E UN_I nth_mem in_set_conv_nth set_concat)

lemma components_ok_closed:
  assumes "components_ok E cs" "u \<in> set (concat cs)" "(u, v) \<in> E\<^sup>*"
  shows "v \<in> set (concat cs)"
  using assms(3,2)
proof (induction rule: rtrancl_induct)
  case (step v w)
  then obtain k where "k < length cs" "v \<in> set (cs ! k)" unfolding in_concat_nth by blast
  with step(2) assms(1) obtain j where "j \<le> k" "w \<in> set (cs ! j)"
    unfolding components_ok_def leaf_first_def by blast
  with \<open>k < length cs\<close> show ?case unfolding in_concat_nth by (auto intro: order.strict_trans1)
qed

lemma leaf_first_snoc:
  assumes "leaf_first E cs" "\<And>u v. u \<in> set c \<Longrightarrow> (u, v) \<in> E \<Longrightarrow> v \<in> set c \<or> v \<in> set (concat cs)"
  shows "leaf_first E (cs @ [c])"
  unfolding leaf_first_def
proof (intro allI impI ballI)
  fix k u v assume k: "k < length (cs @ [c])" and u: "u \<in> set ((cs @ [c]) ! k)" and e: "(u, v) \<in> E"
  show "\<exists>j\<le>k. v \<in> set ((cs @ [c]) ! j)"
  proof (cases "k < length cs")
    case True
    then have "u \<in> set (cs ! k)" using u by (simp add: nth_append)
    with assms(1) True e obtain j where "j \<le> k" "v \<in> set (cs ! j)" unfolding leaf_first_def by blast
    with True show ?thesis by (intro exI [of _ j]) (simp add: nth_append)
  next
    case False
    with k have k': "k = length cs" by simp
    from assms(2) [of u v] u e consider "v \<in> set c" | d where "d \<in> set cs" "v \<in> set d"
      by (auto simp: k' nth_append)
    then show ?thesis
    proof cases
      case 1
      then show ?thesis by (intro exI [of _ k]) (simp add: k')
    next
      case 2
      then obtain j where "j < length cs" "v \<in> set (cs ! j)" by (auto simp: in_set_conv_nth)
      then show ?thesis by (intro exI [of _ j]) (simp add: nth_append k')
    qed
  qed
qed

subsection \<open>The invariant\<close>

abbreviation idx :: "tarjan \<Rightarrow> pystr \<Rightarrow> nat" where
  "idx s n \<equiv> the (index_of s n)"

abbreviation low :: "tarjan \<Rightarrow> pystr \<Rightarrow> nat" where
  "low s n \<equiv> the (lowlink s n)"

abbreviation out_of :: "adjacency_map \<Rightarrow> pystr \<Rightarrow> pystr list" where
  "out_of succ n \<equiv> the (dict_get succ n)"

text \<open>The grey node above which a node of the stack lies.\<close>

definition owned :: "tarjan \<Rightarrow> (pystr \<times> nat) list \<Rightarrow> pystr \<Rightarrow> pystr \<Rightarrow> bool" where
  "owned s gs g x \<longleftrightarrow> x \<in> set (stack s) \<and> idx s g \<le> idx s x \<and>
     (\<forall>(h, _) \<in> set gs. idx s g < idx s h \<longrightarrow> idx s x < idx s h)"

text \<open>What is known of the nodes, whatever the work stack is.\<close>

definition stack_inv :: "adjacency_map \<Rightarrow> tarjan \<Rightarrow> bool" where
  "stack_inv succ s \<longleftrightarrow>
     dom (index_of s) = set (stack s) \<union> set (concat (sccs s)) \<and> set (stack s) \<inter> set (concat (sccs s)) = {} \<and>
     dom (lowlink s) = dom (index_of s) \<and> dom (index_of s) \<subseteq> dom (dict_get succ) \<and> on_stack s = set (stack s) \<and>
     sorted_wrt (\<lambda>a b. idx s a > idx s b) (stack s) \<and> (\<forall>x \<in> set (stack s). idx s x < counter s) \<and>
     components_ok (edges succ) (sccs s)"

text \<open>
  What is known of the grey nodes \<open>gs\<close>, the latest first, each with the number of its successors
  already taken; \<open>pending\<close> is the successor taken but not yet visited.
\<close>

definition grey_ok :: "adjacency_map \<Rightarrow> (pystr \<times> nat) list \<Rightarrow> pystr set \<Rightarrow> tarjan \<Rightarrow> pystr \<Rightarrow> nat \<Rightarrow> bool" where
  "grey_ok succ gs pending s g i \<longleftrightarrow> g \<in> set (stack s) \<and>
     set (take i (out_of succ g)) \<subseteq> dom (index_of s) \<union> pending \<and>
     (\<forall>x \<in> set (stack s). idx s g \<le> idx s x \<longrightarrow> (g, x) \<in> (edges succ)\<^sup>*) \<and>
     low s g \<le> idx s g \<and> (\<exists>y \<in> set (stack s). idx s y = low s g \<and> (g, y) \<in> (edges succ)\<^sup>*) \<and>
     (\<forall>x y. owned s gs g x \<longrightarrow> y \<in> set (stack s) \<longrightarrow> (x, y) \<in> edges succ \<longrightarrow>
        (x = g \<longrightarrow> y \<in> set (take i (out_of succ g))) \<longrightarrow> idx s y < idx s g \<longrightarrow> low s g \<le> idx s y)"

definition grey_inv :: "adjacency_map \<Rightarrow> (pystr \<times> nat) list \<Rightarrow> pystr set \<Rightarrow> tarjan \<Rightarrow> bool" where
  "grey_inv succ gs pending s \<longleftrightarrow>
     sorted_wrt (\<lambda>(a, _) (b, _). idx s a > idx s b) gs \<and>
     (\<forall>(g, i) \<in> set gs. grey_ok succ gs pending s g i) \<and>
     (\<forall>x \<in> set (stack s). \<exists>(g, _) \<in> set gs. idx s g \<le> idx s x \<and> (x, g) \<in> (edges succ)\<^sup>*) \<and>
     (\<forall>x \<in> set (stack s). x \<notin> fst ` set gs \<longrightarrow> (edges succ) `` {x} \<subseteq> dom (index_of s))"

definition closed_graph :: "adjacency_map \<Rightarrow> bool" where
  "closed_graph succ \<longleftrightarrow> (edges succ) `` UNIV \<subseteq> dom (dict_get succ)"

definition loop_inv :: "adjacency_map \<Rightarrow> tarjan \<Rightarrow> bool" where
  "loop_inv succ s \<longleftrightarrow> stack_inv succ s \<and>
     (grey_inv succ (work s) {} s \<and> (\<forall>(_, i) \<in> set (work s). 0 < i) \<or>
      (\<exists>c gs. work s = (c, 0) # gs \<and> grey_inv succ gs {c} s \<and> (\<forall>(_, i) \<in> set gs. 0 < i) \<and>
         index_of s c = None \<and> c \<in> dom (dict_get succ) \<and> (gs \<noteq> [] \<longrightarrow> (fst (hd gs), c) \<in> edges succ)))"


subsection \<open>One step\<close>

lemma stack_inv_index:
  assumes "stack_inv succ s" "x \<in> set (stack s)"
  shows "\<exists>k. index_of s x = Some k \<and> k < counter s"
  using assms unfolding stack_inv_def by (metis UnI1 domD option.sel)

lemma stack_inv_visit:
  assumes inv: "stack_inv succ s" and new: "index_of s c = None" "c \<in> dom (dict_get succ)"
  shows "stack_inv succ (visit c s)"
proof -
  have c: "c \<notin> dom (index_of s)" using new by auto
  then have fresh: "c \<notin> set (stack s)" "c \<notin> set (concat (sccs s))" using inv unfolding stack_inv_def by blast+
  have idx: "idx (visit c s) x = idx s x" if "x \<in> set (stack s)" for x
    using that fresh by (auto simp: visit_def)
  have "sorted_wrt (\<lambda>a b. idx (visit c s) a > idx (visit c s) b) (stack s)"
    using inv idx unfolding stack_inv_def by (auto elim!: sorted_wrt_mono_rel [rotated])
  moreover have "\<forall>b \<in> set (stack s). idx s b < counter s" using inv unfolding stack_inv_def by blast
  moreover have "dom (index_of s) \<subseteq> dom (dict_get succ)" using inv unfolding stack_inv_def by blast
  then have "dom (index_of (visit c s)) \<subseteq> dom (dict_get succ)" using new(2) by (simp add: visit_def domIff)
  moreover have "dom (index_of (visit c s)) = insert c (dom (index_of s))"
    "dom (lowlink (visit c s)) = insert c (dom (lowlink s))"
    "stack (visit c s) = c # stack s" "sccs (visit c s) = sccs s" "on_stack (visit c s) = insert c (on_stack s)"
    "counter (visit c s) = Suc (counter s)" "idx (visit c s) c = counter s"
    by (simp_all add: visit_def)
  ultimately show ?thesis using inv fresh idx unfolding stack_inv_def by (intro conjI) (simp_all add: less_Suc_eq)
qed

lemma grey_inv_visit:
  assumes st: "stack_inv succ s" and gr: "grey_inv succ gs {c} s" and new: "index_of s c = None"
    and edge: "gs \<noteq> [] \<longrightarrow> (fst (hd gs), c) \<in> edges succ"
  shows "grey_inv succ ((c, 0) # gs) {} (visit c s)"
proof -
  let ?s = "visit c s"
  have fresh: "c \<notin> set (stack s)" using st new unfolding stack_inv_def by blast
  have stk: "stack ?s = c # stack s" and dom: "dom (index_of ?s) = insert c (dom (index_of s))"
    by (simp_all add: visit_def)
  have idx: "idx ?s x = idx s x" "low ?s x = low s x" if "x \<in> set (stack s)" for x
    using that fresh by (auto simp: visit_def)
  have c: "idx ?s c = counter s" "low ?s c = counter s" by (simp_all add: visit_def)
  have below: "idx s x < counter s" if "x \<in> set (stack s)" for x using st that unfolding stack_inv_def by blast
  have mem: "g \<in> set (stack s)" if "(g, i) \<in> set gs" for g i using gr that unfolding grey_inv_def grey_ok_def by blast
  have reach: "(g, c) \<in> (edges succ)\<^sup>*" if g: "(g, i) \<in> set gs" for g i
  proof -
    from g obtain p j rest where p: "gs = (p, j) # rest" by (cases gs) auto
    have "idx s g \<le> idx s p" using gr g unfolding grey_inv_def p by auto
    then have "(g, p) \<in> (edges succ)\<^sup>*"
      using gr g mem [of p j] unfolding grey_inv_def grey_ok_def p by fastforce
    then show ?thesis using edge p by (auto intro: rtrancl_into_rtrancl)
  qed
  have "grey_ok succ ((c, 0) # gs) {} ?s g i" if g: "(g, i) \<in> set gs" for g i
  proof -
    have gs: "g \<in> set (stack s)" by (rule mem [OF g])
    have old: "grey_ok succ gs {c} s g i" using gr g unfolding grey_inv_def by blast
    have own: "owned s gs g x \<and> x \<noteq> c" if "owned ?s ((c, 0) # gs) g x" for x
    proof -
      have "idx ?s g < idx ?s c" using idx(1) [OF gs] c below [OF gs] by simp
      then have x: "idx ?s x < idx ?s c" using that unfolding owned_def by auto
      then have "x \<in> set (stack s)" "x \<noteq> c" using that unfolding owned_def stk by auto
      then show ?thesis using that idx(1) gs mem unfolding owned_def stk by fastforce
    qed
    have "low ?s g \<le> idx ?s y" if y: "owned ?s ((c, 0) # gs) g x" "y \<in> set (stack ?s)" "(x, y) \<in> edges succ"
      "x = g \<longrightarrow> y \<in> set (take i (out_of succ g))" "idx ?s y < idx ?s g" for x y
    proof -
      have "y \<in> set (stack s)" using y(2,5) c(1) idx(1) [OF gs] below [OF gs] by (auto simp: stk)
      then show ?thesis using old own [OF y(1)] y(3-) idx gs unfolding grey_ok_def by auto
    qed
    then show ?thesis
      using old reach [OF g] idx gs unfolding grey_ok_def stk dom by auto
  qed
  moreover have "grey_ok succ ((c, 0) # gs) {} ?s c 0"
    using idx(1) below c unfolding grey_ok_def owned_def stk by fastforce
  moreover have "sorted_wrt (\<lambda>(a, _) (b, _). idx ?s a > idx ?s b) ((c, 0) # gs)"
    using gr idx(1) mem below c unfolding grey_inv_def
    by (auto elim!: sorted_wrt_mono_rel [rotated])
  moreover have "\<exists>(g, _) \<in> set ((c, 0) # gs). idx ?s g \<le> idx ?s x \<and> (x, g) \<in> (edges succ)\<^sup>*" if "x \<in> set (stack ?s)" for x
    using that gr idx(1) mem unfolding grey_inv_def stk by fastforce
  moreover have "(edges succ) `` {x} \<subseteq> dom (index_of ?s)" if "x \<in> set (stack ?s)" "x \<notin> fst ` set ((c, 0) # gs)" for x
    using that gr unfolding grey_inv_def stk dom by auto
  ultimately show ?thesis unfolding grey_inv_def by auto
qed


lemma inv_work [simp]:
  "stack_inv succ (s\<lparr>work := w\<rparr>) = stack_inv succ s" "grey_inv succ gs P (s\<lparr>work := w\<rparr>) = grey_inv succ gs P s"
  by (simp_all add: stack_inv_def grey_inv_def grey_ok_def owned_def)

lemma stack_inv_link:
  "stack_inv succ s \<Longrightarrow> n \<in> dom (index_of s) \<Longrightarrow> stack_inv succ (s\<lparr>lowlink := (lowlink s)(n \<mapsto> l)\<rparr>)"
  unfolding stack_inv_def by (simp add: insert_absorb del: set_concat) blast

lemma grey_mem: "grey_inv succ gs P s \<Longrightarrow> (g, i) \<in> set gs \<Longrightarrow> g \<in> set (stack s)"
  unfolding grey_inv_def grey_ok_def by blast

lemma grey_ok_frame:
  assumes ok: "grey_ok succ gs P s g i" and own: "\<And>x. owned s gs' g x \<Longrightarrow> owned s gs g x" and "g \<noteq> p" "P \<subseteq> P'"
  shows "grey_ok succ gs' P' (s\<lparr>lowlink := (lowlink s)(p \<mapsto> l)\<rparr>) g i"
proof -
  have "low s g \<le> idx s y" if "owned s gs' g x" "y \<in> set (stack s)" "(x, y) \<in> edges succ"
    "x = g \<longrightarrow> y \<in> set (take i (out_of succ g))" "idx s y < idx s g" for x y
    using ok own [OF that(1)] that(2-) unfolding grey_ok_def by blast
  moreover have "owned (s\<lparr>lowlink := (lowlink s)(p \<mapsto> l)\<rparr>) gs' g x = owned s gs' g x" for x by (simp add: owned_def)
  ultimately show ?thesis using ok assms(3,4) unfolding grey_ok_def by auto
qed

lemma grey_inv_take:
  assumes gr: "grey_inv succ ((n, i) # gs) {} s" and n: "dict_get succ n = Some cs" "i < length cs"
    and seen: "cs ! i \<in> dom (index_of s) \<union> P"
    and l: "l \<le> low s n" "l = low s n \<or> cs ! i \<in> set (stack s) \<and> l = idx s (cs ! i)"
      "cs ! i \<in> set (stack s) \<Longrightarrow> l \<le> idx s (cs ! i)"
  shows "grey_inv succ ((n, Suc i) # gs) P (s\<lparr>lowlink := (lowlink s)(n \<mapsto> l)\<rparr>)"
proof -
  let ?s = "s\<lparr>lowlink := (lowlink s)(n \<mapsto> l)\<rparr>" and ?c = "cs ! i"
  have same: "index_of ?s = index_of s" "stack ?s = stack s" by simp_all
  have own: "owned ?s ((n, Suc i) # gs) g x = owned s ((n, i) # gs) g x" for g x by (simp add: owned_def)
  have okn: "grey_ok succ ((n, i) # gs) {} s n i" using gr unfolding grey_inv_def by simp
  have ne: "g \<noteq> n" if "(g, j) \<in> set gs" for g j using gr that unfolding grey_inv_def by auto
  have edge: "(n, ?c) \<in> edges succ" using n by (auto simp: edges_def)
  have take: "set (take (Suc i) (out_of succ n)) = insert ?c (set (take i (out_of succ n)))"
    using n by (simp add: take_Suc_conv_app_nth)
  have low: "l \<le> idx s y" if y: "owned s ((n, i) # gs) n x" "y \<in> set (stack s)" "(x, y) \<in> edges succ"
      "x = n \<longrightarrow> y \<in> set (take (Suc i) (out_of succ n))" "idx s y < idx s n" for x y
  proof (cases "x = n \<and> y = ?c")
    case False
    then have "low s n \<le> idx s y" using okn y unfolding grey_ok_def take by blast
    then show ?thesis using l(1) by simp
  qed (use l(3) y in simp)
  have sound: "\<exists>y \<in> set (stack s). idx s y = l \<and> (n, y) \<in> (edges succ)\<^sup>*"
    using l(2) okn edge unfolding grey_ok_def by blast
  have "grey_ok succ ((n, Suc i) # gs) P ?s n (Suc i)"
    using okn seen low sound l(1) unfolding grey_ok_def same own take by auto
  moreover have "grey_ok succ ((n, Suc i) # gs) P ?s g j" if g: "(g, j) \<in> set gs" for g j
  proof -
    have "grey_ok succ ((n, i) # gs) {} s g j" using gr g unfolding grey_inv_def by auto
    then show ?thesis by (rule grey_ok_frame) (use ne [OF g] in \<open>auto simp: owned_def\<close>)
  qed
  ultimately show ?thesis using gr unfolding grey_inv_def same by auto
qed

text \<open>A grey node that is left without being emitted hands its link to the grey node below it.\<close>

lemma grey_inv_leave:
  assumes st: "stack_inv succ s" and gr: "grey_inv succ ((n, i) # gs) {} s"
    and n: "dict_get succ n = Some cs" "length cs \<le> i" and link: "low s n \<noteq> idx s n"
  obtains p j rest where "gs = (p, j) # rest"
    "grey_inv succ gs {} (s\<lparr>lowlink := (lowlink s)(p \<mapsto> min (low s p) (low s n))\<rparr>)"
proof -
  have okn: "grey_ok succ ((n, i) # gs) {} s n i" using gr unfolding grey_inv_def by simp
  then obtain y0 where y0: "y0 \<in> set (stack s)" "idx s y0 = low s n" "(n, y0) \<in> (edges succ)\<^sup>*" "low s n < idx s n"
    using link unfolding grey_ok_def by fastforce
  obtain g0 j0 where g0: "(g0, j0) \<in> set gs" "idx s g0 \<le> low s n" "(n, g0) \<in> (edges succ)\<^sup>*"
  proof -
    from gr y0(1) obtain g j where "(g, j) \<in> set ((n, i) # gs)" "idx s g \<le> idx s y0" "(y0, g) \<in> (edges succ)\<^sup>*"
      unfolding grey_inv_def by blast
    with y0 show thesis by (intro that [of g j]) auto
  qed
  then obtain p j rest where gs: "gs = (p, j) # rest" by (cases gs) auto
  let ?l = "min (low s p) (low s n)"
  let ?s = "s\<lparr>lowlink := (lowlink s)(p \<mapsto> ?l)\<rparr>"
  have same: "index_of ?s = index_of s" "stack ?s = stack s" by simp_all
  have order: "idx s p < idx s n" "\<And>g j. (g, j) \<in> set rest \<Longrightarrow> idx s g < idx s p"
    using gr unfolding grey_inv_def gs by auto
  have p: "p \<in> set (stack s)" "n \<in> set (stack s)" using grey_mem [OF gr] by (auto simp: gs)
  have okp: "grey_ok succ ((n, i) # gs) {} s p j" using gr unfolding grey_inv_def gs by simp
  have pn: "(p, n) \<in> (edges succ)\<^sup>*" using okp p order(1) unfolding grey_ok_def by simp
  have all: "y \<in> set (take i (out_of succ n))" if "(n, y) \<in> edges succ" for y
    using that n by (auto simp: edges_def)
  have low: "?l \<le> idx s y" if y: "owned s gs p x" "y \<in> set (stack s)" "(x, y) \<in> edges succ"
      "x = p \<longrightarrow> y \<in> set (take j (out_of succ p))" "idx s y < idx s p" for x y
  proof (cases "idx s x < idx s n")
    case True
    then have "owned s ((n, i) # gs) p x" using y(1) unfolding owned_def by auto
    then show ?thesis using okp y unfolding grey_ok_def by fastforce
  next
    case False
    have "owned s ((n, i) # gs) n x"
      using False y(1) order unfolding owned_def gs by fastforce
    moreover have "idx s y < idx s n" using y(5) order(1) by simp
    ultimately have "low s n \<le> idx s y" using okn y(2,3) all unfolding grey_ok_def by blast
    then show ?thesis by simp
  qed
  have "grey_ok succ gs {} ?s p j"
  proof -
    have "\<exists>y \<in> set (stack s). idx s y = ?l \<and> (p, y) \<in> (edges succ)\<^sup>*"
    proof (cases "low s p \<le> low s n")
      case True
      then show ?thesis using okp unfolding grey_ok_def by (simp add: min_def)
    next
      case False
      then have "?l = low s n" by simp
      then show ?thesis using y0 rtrancl_trans [OF pn y0(3)] by (intro bexI [of _ y0]) simp_all
    qed
    moreover have "?l \<le> idx s p" using okp unfolding grey_ok_def by (auto simp: min_le_iff_disj)
    ultimately show ?thesis using okp low unfolding grey_ok_def same owned_def by simp
  qed
  moreover have "grey_ok succ gs {} ?s g k" if g: "(g, k) \<in> set rest" for g k
  proof -
    have old: "grey_ok succ ((n, i) # gs) {} s g k" using gr g unfolding grey_inv_def gs by auto
    have "owned s ((n, i) # gs) g x" if "owned s gs g x" for x
      using that order(2) [OF g] order(1) unfolding owned_def gs by fastforce
    with old show ?thesis by (rule grey_ok_frame) (use order(2) [OF g] in auto)
  qed
  moreover have "\<exists>(g, _) \<in> set gs. idx s g \<le> idx s x \<and> (x, g) \<in> (edges succ)\<^sup>*" if "x \<in> set (stack s)" for x
  proof -
    from gr that obtain g k where g: "(g, k) \<in> set ((n, i) # gs)" "idx s g \<le> idx s x" "(x, g) \<in> (edges succ)\<^sup>*"
      unfolding grey_inv_def by blast
    show ?thesis
    proof (cases "g = n")
      case True
      then have "idx s g0 \<le> idx s x" "(x, g0) \<in> (edges succ)\<^sup>*" using g(2,3) g0(2,3) y0(4) by auto
      then show ?thesis using g0(1) by blast
    qed (use g in auto)
  qed
  moreover have "(edges succ) `` {x} \<subseteq> dom (index_of s)" if "x \<in> set (stack s)" "x \<notin> fst ` set gs" for x
  proof (cases "x = n")
    case True
    have "set (take i (out_of succ n)) \<subseteq> dom (index_of s)" using okn unfolding grey_ok_def by simp
    then show ?thesis using all True by auto
  next
    case False
    then show ?thesis using gr that unfolding grey_inv_def by auto
  qed
  moreover have "sorted_wrt (\<lambda>(a, _) (b, _). idx s a > idx s b) gs" using gr unfolding grey_inv_def by simp
  ultimately have "grey_inv succ gs {} ?s" unfolding grey_inv_def same by (auto simp: gs)
  with gs show thesis by (rule that)
qed


lemma pop_component_split:
  "n \<notin> set pre \<Longrightarrow> pop_component n (pre @ n # post) on acc = Inr (post, on - set (pre @ [n]), acc @ pre @ [n])"
proof (induction pre arbitrary: on acc)
  case (Cons m pre)
  then have "pop_component n ((m # pre) @ n # post) on acc
      = Inr (post, on - {m} - set (pre @ [n]), (acc @ [m]) @ pre @ [n])" by auto
  moreover have "on - {m} - set (pre @ [n]) = on - set ((m # pre) @ [n])" by auto
  ultimately show ?case by simp
qed simp

text \<open>The nodes from a root of a component upwards are closed, and all reach the root: a component.\<close>

lemma component_on_stack:
  assumes st: "stack_inv succ s" and gr: "grey_inv succ ((n, i) # gs) {} s"
    and n: "dict_get succ n = Some cs" "length cs \<le> i" and link: "low s n = idx s n"
    and C: "C = {x \<in> set (stack s). idx s n \<le> idx s x}"
  shows "x \<in> C \<Longrightarrow> (x, y) \<in> edges succ \<Longrightarrow> y \<in> C \<or> y \<in> set (concat (sccs s))"
    and "u \<in> C \<Longrightarrow> C = scc_of (edges succ) u"
proof -
  let ?E = "edges succ" and ?D = "set (concat (sccs s))"
  have okn: "grey_ok succ ((n, i) # gs) {} s n i" using gr unfolding grey_inv_def by simp
  have below: "idx s g < idx s n" if "(g, j) \<in> set gs" for g j using gr that unfolding grey_inv_def by auto
  have disj: "set (stack s) \<inter> ?D = {}" and dom: "dom (index_of s) = set (stack s) \<union> ?D"
    and comps: "components_ok ?E (sccs s)" using st unfolding stack_inv_def by blast+
  have all: "y \<in> set (take i (out_of succ n))" if "(n, y) \<in> ?E" for y using that n by (auto simp: edges_def)
  have step: "y \<in> C \<or> y \<in> ?D" if x: "x \<in> C" "(x, y) \<in> ?E" for x y
  proof -
    have "y \<in> dom (index_of s)"
    proof (cases "x = n")
      case True
      then show ?thesis using okn all x(2) unfolding grey_ok_def by blast
    next
      case False
      then have "x \<notin> fst ` set ((n, i) # gs)" using below x(1) C by fastforce
      then show ?thesis using gr x C unfolding grey_inv_def by blast
    qed
    moreover have "idx s n \<le> idx s y" if "y \<in> set (stack s)"
    proof (rule ccontr)
      assume "\<not> idx s n \<le> idx s y"
      moreover have "owned s ((n, i) # gs) n x" using x(1) below C unfolding owned_def by fastforce
      ultimately have "low s n \<le> idx s y" using okn x(2) that all unfolding grey_ok_def by (metis not_le)
      then show False using link \<open>\<not> idx s n \<le> idx s y\<close> by simp
    qed
    ultimately show ?thesis using dom C by blast
  qed
  then show "x \<in> C \<Longrightarrow> (x, y) \<in> ?E \<Longrightarrow> y \<in> C \<or> y \<in> ?D" .
  have star: "y \<in> C \<union> ?D" if "(x, y) \<in> ?E\<^sup>*" "x \<in> C" for x y
    using that
  proof (induction rule: rtrancl_induct)
    case (step v w)
    then show ?case using \<open>\<And>x y. x \<in> C \<Longrightarrow> (x, y) \<in> ?E \<Longrightarrow> y \<in> C \<or> y \<in> ?D\<close>
        components_ok_closed [OF comps] by blast
  qed simp
  have down: "(n, x) \<in> ?E\<^sup>*" if "x \<in> C" for x using okn that C unfolding grey_ok_def by blast
  have up: "(x, n) \<in> ?E\<^sup>*" if x: "x \<in> C" for x
  proof -
    from gr x C obtain g j where g: "(g, j) \<in> set ((n, i) # gs)" "(x, g) \<in> ?E\<^sup>*"
      unfolding grey_inv_def by blast
    from star [OF g(2) x] have "g \<in> C" using disj grey_mem [OF gr g(1)] by blast
    then have "g = n" using g(1) below C by fastforce
    with g(2) show ?thesis by simp
  qed
  show "C = scc_of ?E u" if u: "u \<in> C"
  proof (rule set_eqI, rule iffI)
    fix v assume "v \<in> C"
    then show "v \<in> scc_of ?E u" using up down u unfolding scc_of_def by (blast intro: rtrancl_trans)
  next
    fix v assume v: "v \<in> scc_of ?E u"
    then have "v \<in> C \<union> ?D" using star u unfolding scc_of_def by blast
    moreover have "u \<in> ?D" if "v \<in> ?D" using components_ok_closed [OF comps that] v unfolding scc_of_def by blast
    ultimately show "v \<in> C" using disj u C by blast
  qed
qed

lemma strictly_sorted_distinct: "sorted_wrt (\<lambda>a b. (f a :: nat) > f b) xs \<Longrightarrow> distinct xs"
  by (induction xs) auto

lemma inv_emit:
  assumes st: "stack_inv succ s" and gr: "grey_inv succ ((n, i) # gs) {} s"
    and n: "dict_get succ n = Some cs" "length cs \<le> i" and link: "low s n = idx s n"
  obtains pre post where "stack s = pre @ n # post" "n \<notin> set pre"
    "stack_inv succ (s\<lparr>stack := post, on_stack := on_stack s - set (pre @ [n]), sccs := sccs s @ [sort (pre @ [n])]\<rparr>)"
    "grey_inv succ gs {} (s\<lparr>stack := post, on_stack := on_stack s - set (pre @ [n]), sccs := sccs s @ [sort (pre @ [n])]\<rparr>)"
proof -
  from grey_mem [OF gr] obtain pre post where split: "stack s = pre @ n # post" by (meson list.set_intros(1) split_list)
  let ?s = "s\<lparr>stack := post, on_stack := on_stack s - set (pre @ [n]), sccs := sccs s @ [sort (pre @ [n])]\<rparr>"
  let ?C = "set (pre @ [n])"
  have sw: "sorted_wrt (\<lambda>a b. idx s a > idx s b) (stack s)" using st unfolding stack_inv_def by blast
  have above: "idx s x > idx s n" if "x \<in> set pre" for x using sw that by (auto simp: split sorted_wrt_append)
  have under: "idx s x < idx s n" if "x \<in> set post" for x using sw that by (auto simp: split sorted_wrt_append)
  have C: "?C = {x \<in> set (stack s). idx s n \<le> idx s x}"
    using above under by (fastforce simp: split)
  have npre: "n \<notin> set pre" using above by auto
  note comp = component_on_stack [OF st gr n link C]
  have below: "idx s g < idx s n" if "(g, j) \<in> set gs" for g j using gr that unfolding grey_inv_def by auto
  have disj: "set (stack s) \<inter> set (concat (sccs s)) = {}" and old: "components_ok (edges succ) (sccs s)"
    using st unfolding stack_inv_def by blast+
  have apart: "set post \<inter> ?C = {}" using above under by fastforce
  have dist: "distinct (pre @ [n])"
    using strictly_sorted_distinct [OF sw] by (simp add: split)
  have nonempty: "sort (pre @ [n]) \<noteq> []" by (metis length_sort length_0_conv append_is_Nil_conv not_Cons_self2)
  have "components_ok (edges succ) (sccs s @ [sort (pre @ [n])])"
    unfolding components_ok_def
  proof (intro conjI)
    show "leaf_first (edges succ) (sccs s @ [sort (pre @ [n])])"
      by (rule leaf_first_snoc) (use old comp(1) in \<open>auto simp: components_ok_def\<close>)
    show "distinct (concat (sccs s @ [sort (pre @ [n])]))"
      using old dist disj C unfolding components_ok_def by auto
    show "\<forall>c\<in>set (sccs s @ [sort (pre @ [n])]). c \<noteq> [] \<and> sorted c \<and> (\<forall>u\<in>set c. set c = scc_of (edges succ) u)"
      using old comp(2) nonempty unfolding components_ok_def by auto
  qed
  moreover have "dom (index_of s) = set post \<union> set (concat (sccs s @ [sort (pre @ [n])]))"
    "set post \<inter> set (concat (sccs s @ [sort (pre @ [n])])) = {}" "on_stack s - ?C = set post"
    using st apart disj unfolding stack_inv_def split by auto
  moreover from this(1) have "set post \<union> set (concat (sccs s @ [sort (pre @ [n])])) \<subseteq> dom (dict_get succ)"
    using st unfolding stack_inv_def by metis
  moreover have "\<forall>x \<in> set post. idx s x < counter s" using st unfolding stack_inv_def split by simp
  ultimately have "stack_inv succ ?s" using st sw unfolding stack_inv_def
    by (simp add: split sorted_wrt_append del: set_concat concat_append set_append)
  moreover have "grey_inv succ gs {} ?s"
  proof -
    have same: "index_of ?s = index_of s" "lowlink ?s = lowlink s" "stack ?s = post" by simp_all
    have post: "x \<in> set post \<longleftrightarrow> x \<in> set (stack s) \<and> idx s x < idx s n" for x
      using above under by (fastforce simp: split)
    have "grey_ok succ gs {} ?s g j" if g: "(g, j) \<in> set gs" for g j
    proof -
      have ok: "grey_ok succ ((n, i) # gs) {} s g j" using gr g unfolding grey_inv_def by auto
      have own: "owned s ((n, i) # gs) g x" if "owned ?s gs g x" for x
        using that unfolding owned_def same post by simp
      have "low s g \<le> idx s y" if "owned ?s gs g x" "y \<in> set post" "(x, y) \<in> edges succ"
        "x = g \<longrightarrow> y \<in> set (take j (out_of succ g))" "idx s y < idx s g" for x y
        using ok own [OF that(1)] that(2-) unfolding grey_ok_def post by metis
      moreover have "\<exists>y \<in> set post. idx s y = low s g \<and> (g, y) \<in> (edges succ)\<^sup>*"
        using ok below [OF g] post unfolding grey_ok_def by (metis order.strict_trans1)
      moreover have "\<forall>x \<in> set post. idx s g \<le> idx s x \<longrightarrow> (g, x) \<in> (edges succ)\<^sup>*" "g \<in> set post"
        using ok below [OF g] post unfolding grey_ok_def by blast+
      ultimately show ?thesis using ok unfolding grey_ok_def same by blast
    qed
    moreover have "\<exists>(g, _) \<in> set gs. idx s g \<le> idx s x \<and> (x, g) \<in> (edges succ)\<^sup>*" if x: "x \<in> set post" for x
    proof -
      from gr x obtain g j where g: "(g, j) \<in> set ((n, i) # gs)" "idx s g \<le> idx s x" "(x, g) \<in> (edges succ)\<^sup>*"
        unfolding grey_inv_def post by blast
      moreover have "g \<noteq> n" using g(2) x unfolding post by auto
      ultimately show ?thesis by auto
    qed
    moreover have "(edges succ) `` {x} \<subseteq> dom (index_of s)" if "x \<in> set post" "x \<notin> fst ` set gs" for x
      using gr that unfolding grey_inv_def post by auto
    moreover have "sorted_wrt (\<lambda>(a, _) (b, _). idx s a > idx s b) gs" using gr unfolding grey_inv_def by simp
    ultimately show ?thesis unfolding grey_inv_def same by auto
  qed
  ultimately show thesis using split npre by (intro that)
qed


subsection \<open>The loop\<close>

definition entry_weight :: "adjacency_map \<Rightarrow> tarjan \<Rightarrow> pystr \<times> nat \<Rightarrow> nat" where
  "entry_weight succ s e = (if index_of s (fst e) = None then 0 else Suc (length (out_of succ (fst e)) - snd e))"

definition remaining :: "adjacency_map \<Rightarrow> tarjan \<Rightarrow> nat" where
  "remaining succ s = (\<Sum>n \<in> dom (dict_get succ) - dom (index_of s). length (out_of succ n) + 2) +
     sum_list (map (entry_weight succ s) (work s))"

lemma remaining_visit:
  assumes "index_of s c = None" "c \<in> dom (dict_get succ)" "work s = (c, 0) # gs" "c \<notin> fst ` set gs"
  shows "remaining succ (visit c s) < remaining succ s"
proof -
  let ?V = "dom (dict_get succ) - dom (index_of s)"
  have fin: "finite ?V" by (simp add: finite_dom_map_of)
  have "dom (dict_get succ) - dom (index_of (visit c s)) = ?V - {c}" by (auto simp: visit_def)
  moreover have "(\<Sum>n\<in>?V. length (out_of succ n) + 2) = length (out_of succ c) + 2 + (\<Sum>n\<in>?V - {c}. length (out_of succ n) + 2)"
    using assms(1,2) fin by (intro sum.remove) auto
  moreover have "sum_list (map (entry_weight succ (visit c s)) gs) = sum_list (map (entry_weight succ s) gs)"
    using assms(4) by (intro arg_cong [of _ _ sum_list] map_cong) (auto simp: entry_weight_def visit_def)
  moreover have "entry_weight succ s (c, 0) = 0" "entry_weight succ (visit c s) (c, 0) = Suc (length (out_of succ c))"
    using assms(1) by (simp_all add: entry_weight_def visit_def)
  moreover have "work (visit c s) = (c, 0) # gs" using assms(3) by (simp add: visit_def)
  ultimately show ?thesis using assms(3) by (simp add: remaining_def)
qed

lemma same_link: "lowlink s n = Some l \<Longrightarrow> s\<lparr>lowlink := (lowlink s)(n \<mapsto> l)\<rparr> = s"
  by (simp add: fun_upd_idem)

lemma remaining_work:
  assumes "index_of s' = index_of s"
    and "sum_list (map (entry_weight succ s) (work s')) < sum_list (map (entry_weight succ s) (work s))"
  shows "remaining succ s' < remaining succ s"
proof -
  have "entry_weight succ s' = entry_weight succ s" using assms(1) by (intro ext) (simp add: entry_weight_def)
  with assms show ?thesis by (simp add: remaining_def)
qed

lemma step_body:
  assumes st: "stack_inv succ s" and gr: "grey_inv succ ((n, i) # gs) {} s" and pos: "\<forall>(_, j) \<in> set gs. 0 < j"
    and work: "work s = (n, i) # gs" and closed: "closed_graph succ"
  obtains s' where "chain (lookup (dict_get succ) n) (\<lambda>successors.
      if i < length successors then next_child n (successors ! i) (s\<lparr>work := (n, Suc i) # gs\<rparr>)
      else chain (emit_component n s) (leave n)) = Inr s'"
    "loop_inv succ s'" "remaining succ s' < remaining succ s" "index_of s' = index_of s"
proof -
  have n: "n \<in> set (stack s)" using grey_mem [OF gr, of n i] by simp
  then have "n \<in> dom (index_of s)" "n \<in> dom (lowlink s)" "n \<in> dom (dict_get succ)"
    using st unfolding stack_inv_def by blast+
  then obtain k l cs where nk: "index_of s n = Some k" "lowlink s n = Some l" "dict_get succ n = Some cs" by blast
  have lookups: "lookup (dict_get succ) n = Inr cs" "lookup (lowlink s) n = Inr l" "lookup (index_of s) n = Inr k"
    using nk by (simp_all add: lookup_def)
  show thesis
  proof (cases "i < length cs")
    case True
    let ?c = "cs ! i" and ?w = "(n, Suc i) # gs"
    have less: "entry_weight succ s (n, Suc i) < entry_weight succ s (n, i)" using nk True by (simp add: entry_weight_def)
    have edge: "(n, ?c) \<in> edges succ" using nk(3) True by (auto simp: edges_def)
    then have c: "?c \<in> dom (dict_get succ)" using closed unfolding closed_graph_def by blast
    consider "index_of s ?c = None" | "?c \<in> dom (index_of s)" "?c \<in> set (stack s)" | "?c \<in> dom (index_of s)" "?c \<notin> set (stack s)"
      by (cases "index_of s ?c") auto
    then show thesis
    proof cases
      case 1
      let ?s = "s\<lparr>work := (?c, 0) # ?w\<rparr>"
      have "?c \<notin> set (stack s)" using 1 st unfolding stack_inv_def by blast
      then have "grey_inv succ ?w {?c} (s\<lparr>lowlink := (lowlink s)(n \<mapsto> l)\<rparr>)"
        using nk by (intro grey_inv_take [OF gr nk(3) True]) simp_all
      then have "loop_inv succ ?s"
        using st pos 1 c edge unfolding loop_inv_def same_link [OF nk(2)] by (auto simp del: fun_upd_apply)
      moreover have "entry_weight succ s (?c, 0) = 0" using 1 by (simp add: entry_weight_def)
      then have "remaining succ ?s < remaining succ s" using less work by (intro remaining_work) simp_all
      ultimately show thesis using 1 True by (intro that [of ?s]) (simp_all add: lookups next_child_def)
    next
      case 2
      let ?l = "min l (idx s ?c)"
      let ?s = "s\<lparr>work := ?w, lowlink := (lowlink s)(n \<mapsto> ?l)\<rparr>"
      have "grey_inv succ ?w {} (s\<lparr>lowlink := (lowlink s)(n \<mapsto> ?l)\<rparr>)"
        using nk 2 by (intro grey_inv_take [OF gr nk(3) True]) (auto simp: min_def)
      then have "grey_inv succ ?w {} (s\<lparr>lowlink := (lowlink s)(n \<mapsto> ?l)\<rparr>\<lparr>work := ?w\<rparr>)" by simp
      moreover have "stack_inv succ (s\<lparr>lowlink := (lowlink s)(n \<mapsto> ?l)\<rparr>\<lparr>work := ?w\<rparr>)"
        using stack_inv_link [OF st, of n] nk(1) by (simp add: domI)
      moreover have upd: "s\<lparr>lowlink := x, work := y\<rparr> = s\<lparr>work := y, lowlink := x\<rparr>" for x y by simp
      ultimately have "loop_inv succ ?s" using pos unfolding loop_inv_def upd by simp
      moreover have "remaining succ ?s < remaining succ s" using less work by (intro remaining_work) simp_all
      moreover have "on_stack s = set (stack s)" using st unfolding stack_inv_def by blast
      moreover have "lookup (index_of s) ?c = Inr (idx s ?c)" using 2 by (auto simp: lookup_def)
      moreover have "index_of s ?c \<noteq> None" using 2 by auto
      ultimately show thesis using 2 True lookups
        by (intro that [of ?s]) (simp_all add: next_child_def lower_link_def del: not_None_eq)
    next
      case 3
      let ?s = "s\<lparr>work := ?w\<rparr>"
      have "grey_inv succ ?w {} (s\<lparr>lowlink := (lowlink s)(n \<mapsto> l)\<rparr>)"
        using nk 3 by (intro grey_inv_take [OF gr nk(3) True]) auto
      then have "loop_inv succ ?s" using st pos unfolding loop_inv_def same_link [OF nk(2)] by simp
      moreover have "remaining succ ?s < remaining succ s" using less work by (intro remaining_work) simp_all
      moreover have "on_stack s = set (stack s)" using st unfolding stack_inv_def by blast
      ultimately show thesis using 3 True by (intro that [of ?s]) (auto simp: lookups next_child_def)
    qed
  next
    case False
    then have done_: "length cs \<le> i" by simp
    have less: "0 < entry_weight succ s (n, i)" using nk by (simp add: entry_weight_def)
    show thesis
    proof (cases "l = k")
      case True
      with nk have link: "low s n = idx s n" by simp
      from inv_emit [OF st gr nk(3) done_ link] obtain pre post where
        split: "stack s = pre @ n # post" "n \<notin> set pre" and
        inv: "stack_inv succ (s\<lparr>stack := post, on_stack := on_stack s - set (pre @ [n]), sccs := sccs s @ [sort (pre @ [n])]\<rparr>)"
          "grey_inv succ gs {} (s\<lparr>stack := post, on_stack := on_stack s - set (pre @ [n]), sccs := sccs s @ [sort (pre @ [n])]\<rparr>)" .
      let ?e = "s\<lparr>stack := post, on_stack := on_stack s - set (pre @ [n]), sccs := sccs s @ [sort (pre @ [n])]\<rparr>"
      let ?s = "?e\<lparr>work := gs\<rparr>"
      have emit: "emit_component n s = Inr ?e"
        by (simp add: emit_component_def lookups True split pop_component_split [OF split(2)] del: set_append)
      have "leave n ?e = Inr ?s"
      proof (cases gs)
        case (Cons e rest)
        obtain p j where e: "e = (p, j)" by (cases e)
        have "idx s p < idx s n" "low s p \<le> idx s p" "p \<in> set (stack s)"
          using gr unfolding grey_inv_def grey_ok_def by (auto simp: Cons e)
        moreover from this(3) have "p \<in> dom (lowlink s)" using st unfolding stack_inv_def by blast
        ultimately obtain l' where "lowlink s p = Some l'" "l' \<le> k" using nk by fastforce
        then show ?thesis using nk True work
          by (simp add: leave_def Cons e lower_link_def lookup_def fun_upd_idem min_def)
      qed (simp add: leave_def work)
      moreover have "loop_inv succ ?s" using inv pos unfolding loop_inv_def by simp
      moreover have "remaining succ ?s < remaining succ s" using less work by (intro remaining_work) simp_all
      ultimately show thesis using False emit by (intro that [of ?s]) (simp_all add: lookups)
    next
      case link: False
      with nk have "low s n \<noteq> idx s n" by simp
      from grey_inv_leave [OF st gr nk(3) done_ this] obtain p j rest where gs: "gs = (p, j) # rest"
        and inv: "grey_inv succ gs {} (s\<lparr>lowlink := (lowlink s)(p \<mapsto> min (low s p) (low s n))\<rparr>)" .
      have "p \<in> set (stack s)" using grey_mem [OF gr, of p j] by (simp add: gs)
      then have p: "p \<in> dom (index_of s)" "p \<in> dom (lowlink s)" using st unfolding stack_inv_def by blast+
      let ?s = "s\<lparr>lowlink := (lowlink s)(p \<mapsto> min (low s p) (low s n))\<rparr>\<lparr>work := gs\<rparr>"
      have "emit_component n s = Inr s" by (simp add: emit_component_def lookups link)
      moreover have "leave n s = Inr ?s"
        using p(2) nk work by (auto simp: leave_def gs lower_link_def lookup_def)
      moreover have "loop_inv succ ?s"
        using inv pos stack_inv_link [OF st p(1)] unfolding loop_inv_def by simp
      moreover have "remaining succ ?s < remaining succ s" using less work by (intro remaining_work) simp_all
      ultimately show thesis using False by (intro that [of ?s]) (simp_all add: lookups)
    qed
  qed
qed

lemma step_ok:
  assumes inv: "loop_inv succ s" and closed: "closed_graph succ" and work: "work s \<noteq> []"
  obtains s' where "tarjan_step succ s = Inr s'" "loop_inv succ s'" "remaining succ s' < remaining succ s"
    "dom (index_of s) \<subseteq> dom (index_of s')" "fst (hd (work s)) \<in> dom (index_of s')"
proof -
  from inv have st: "stack_inv succ s" unfolding loop_inv_def by simp
  from inv consider (seen) "grey_inv succ (work s) {} s" "\<forall>(_, i) \<in> set (work s). 0 < i"
    | (new) c gs where "work s = (c, 0) # gs" "grey_inv succ gs {c} s" "\<forall>(_, i) \<in> set gs. 0 < i"
        "index_of s c = None" "c \<in> dom (dict_get succ)" "gs \<noteq> [] \<longrightarrow> (fst (hd gs), c) \<in> edges succ"
    unfolding loop_inv_def by blast
  then show thesis
  proof cases
    case seen
    obtain n i gs where w: "work s = (n, i) # gs" using work by (cases "work s") auto
    from step_body [OF st seen(1) [unfolded w] _ w closed] seen(2) obtain s' where
      "chain (lookup (dict_get succ) n) (\<lambda>successors.
        if i < length successors then next_child n (successors ! i) (s\<lparr>work := (n, Suc i) # gs\<rparr>)
        else chain (emit_component n s) (leave n)) = Inr s'"
      "loop_inv succ s'" "remaining succ s' < remaining succ s" "index_of s' = index_of s"
      by (auto simp: w)
    moreover have "n \<in> dom (index_of s)"
      using grey_mem [OF seen(1), of n i] st w unfolding stack_inv_def by auto
    ultimately show thesis using seen(2) by (intro that [of s']) (auto simp: tarjan_step_def w Let_def)
  next
    case new
    let ?v = "visit c s"
    have v: "stack_inv succ ?v" by (rule stack_inv_visit [OF st new(4,5)])
    have g: "grey_inv succ ((c, 0) # gs) {} ?v" by (rule grey_inv_visit [OF st new(2,4,6)])
    have w: "work ?v = (c, 0) # gs" using new(1) by (simp add: visit_def)
    have "c \<notin> set (stack s)" using st new(4) unfolding stack_inv_def by blast
    then have "c \<notin> fst ` set gs" using grey_mem [OF new(2)] by auto
    note less = remaining_visit [OF new(4,5,1) this]
    from step_body [OF v g new(3) w closed] obtain s' where
      "chain (lookup (dict_get succ) c) (\<lambda>successors.
        if 0 < length successors then next_child c (successors ! 0) (?v\<lparr>work := (c, Suc 0) # gs\<rparr>)
        else chain (emit_component c ?v) (leave c)) = Inr s'"
      "loop_inv succ s'" "remaining succ s' < remaining succ ?v" "index_of s' = index_of ?v" .
    then show thesis using less new(1) by (intro that [of s']) (auto simp: tarjan_step_def Let_def visit_def)
  qed
qed


lemma loop_ok:
  assumes st: "stack_inv succ s" and gr: "grey_inv succ [] {} s" and closed: "closed_graph succ"
    and c: "index_of s c = None" "c \<in> dom (dict_get succ)"
  obtains s' where "tarjan_loop succ (s\<lparr>work := [(c, 0)]\<rparr>) = Some (Inr s')" "stack_inv succ s'" "grey_inv succ [] {} s'"
    "insert c (dom (index_of s)) \<subseteq> dom (index_of s')"
proof -
  let ?go = "\<lambda>r. case r of Inl _ \<Rightarrow> False | Inr s \<Rightarrow> work s \<noteq> []" and ?step = "\<lambda>r. chain r (tarjan_step succ)"
  let ?s0 = "s\<lparr>work := [(c, 0)]\<rparr>"
  define P where "P r \<longleftrightarrow> (\<exists>t. r = Inr t \<and> loop_inv succ t \<and> dom (index_of s) \<subseteq> dom (index_of t) \<and>
      (work t = [(c, 0)] \<or> c \<in> dom (index_of t)))" for r :: "exc + tarjan"
  define f where "f r = (case r of Inl _ \<Rightarrow> 0 | Inr t \<Rightarrow> remaining succ t)" for r :: "exc + tarjan"
  have "grey_inv succ [] {c} s" using gr unfolding grey_inv_def by simp
  then have P0: "P (Inr ?s0)" using st c unfolding P_def loop_inv_def by (auto simp del: not_None_eq)
  have body: "P (?step r) \<and> f (?step r) < f r" if "P r" "?go r" for r
  proof -
    from that obtain t where t: "r = Inr t" "loop_inv succ t" "dom (index_of s) \<subseteq> dom (index_of t)"
      "work t = [(c, 0)] \<or> c \<in> dom (index_of t)" unfolding P_def by blast
    with that(2) have "work t \<noteq> []" by simp
    from step_ok [OF t(2) closed this] obtain t' where "tarjan_step succ t = Inr t'" "loop_inv succ t'"
      "remaining succ t' < remaining succ t" "dom (index_of t) \<subseteq> dom (index_of t')" "fst (hd (work t)) \<in> dom (index_of t')" .
    moreover from this t(3,4) have "dom (index_of s) \<subseteq> dom (index_of t')" "c \<in> dom (index_of t')" by force+
    ultimately show ?thesis using t(1) unfolding P_def f_def by simp
  qed
  obtain r where r: "while_option ?go ?step (Inr ?s0) = Some r"
    using measure_while_option_Some [of P ?go ?step f "Inr ?s0"] body P0 by blast
  have "P r" using while_option_rule [of P ?go ?step, OF _ r P0] body by blast
  then obtain t where t: "r = Inr t" "loop_inv succ t" "dom (index_of s) \<subseteq> dom (index_of t)"
    "work t = [(c, 0)] \<or> c \<in> dom (index_of t)" unfolding P_def by blast
  moreover have "work t = []" using while_option_stop [OF r] t(1) by simp
  ultimately show thesis
    using r by (intro that [of t]) (auto simp: loop_inv_def tarjan_loop_def)
qed

lemma roots_ok:
  assumes "stack_inv succ s" "grey_inv succ [] {} s" "closed_graph succ" "set starts \<subseteq> dom (dict_get succ)"
  shows "\<exists>s'. tarjan_roots succ starts s = Some (Inr s') \<and> stack_inv succ s' \<and> grey_inv succ [] {} s' \<and>
    set starts \<union> dom (index_of s) \<subseteq> dom (index_of s')"
  using assms
proof (induction starts arbitrary: s)
  case (Cons c starts)
  show ?case
  proof (cases "index_of s c")
    case None
    from loop_ok [OF Cons.prems(1-3) None] Cons.prems(4) obtain s1 where s1:
      "tarjan_loop succ (s\<lparr>work := [(c, 0)]\<rparr>) = Some (Inr s1)" "stack_inv succ s1" "grey_inv succ [] {} s1"
      "insert c (dom (index_of s)) \<subseteq> dom (index_of s1)" by auto
    from Cons.IH [OF s1(2,3) Cons.prems(3)] Cons.prems(4) obtain s' where
      "tarjan_roots succ starts s1 = Some (Inr s')" "stack_inv succ s'" "grey_inv succ [] {} s'"
      "set starts \<union> dom (index_of s1) \<subseteq> dom (index_of s')" by auto
    moreover from this(4) s1(4) have "set (c # starts) \<union> dom (index_of s) \<subseteq> dom (index_of s')" by (simp del: domIff) blast
    ultimately show ?thesis using s1 None by (intro exI [of _ s']) simp
  next
    case (Some k)
    with Cons.IH [OF Cons.prems(1-3)] Cons.prems(4) show ?thesis by fastforce
  qed
qed simp

lemma sccs_ok:
  assumes "closed_graph succ" "dom (dict_get succ) = set nodes"
  obtains cs where "tarjan_sccs nodes succ = Some (Inr cs)" "components_ok (edges succ) cs" "set (concat cs) = set nodes"
proof -
  have "stack_inv succ tarjan_start" "grey_inv succ [] {} tarjan_start"
    by (simp_all add: stack_inv_def grey_inv_def tarjan_start_def components_ok_def leaf_first_def)
  from roots_ok [OF this assms(1), of nodes] assms(2) obtain s where
    s: "tarjan_roots succ nodes tarjan_start = Some (Inr s)" "stack_inv succ s" "grey_inv succ [] {} s"
    "set nodes \<subseteq> dom (index_of s)" by auto
  have "stack s = []" using s(3) unfolding grey_inv_def by (cases "stack s") auto
  then have "set (concat (sccs s)) = set nodes" using s(2,4) assms(2) unfolding stack_inv_def by fastforce
  with s show thesis by (intro that [of "sccs s"]) (simp_all add: tarjan_sccs_def stack_inv_def)
qed

subsection \<open>Normalisation\<close>

lemma row_loop_result:
  "row_loop caller cs seen loops =
     (seen \<union> (set cs - {caller}), if caller \<in> set cs then insert caller loops else loops)"
  by (induction cs arbitrary: seen loops) auto

lemma normalize_rows_result:
  assumes "dict_ok rows" and "normalize_rows rows succ0 loops0 = (succ, loops)"
  shows "dict_get succ u = (case dict_get rows u of
           None \<Rightarrow> dict_get succ0 u | Some cs \<Rightarrow> Some (sorted_list_of_set (set cs - {u}))) \<and>
    loops = loops0 \<union> {u. (u, u) \<in> edges rows}"
  using assms
proof (induction rows arbitrary: succ0 loops0)
  case (Cons row rows)
  obtain caller cs where row: "row = (caller, cs)" by (cases row)
  have ok: "dict_ok rows" and new: "dict_get rows caller = None"
    using Cons.prems(1) by (auto simp: row dict_ok_def map_of_eq_None_iff)
  have rest: "normalize_rows rows (dict_set caller (sorted_list_of_set (set cs - {caller})) succ0)
      (if caller \<in> set cs then insert caller loops0 else loops0) = (succ, loops)"
    using Cons.prems(2) by (simp add: row row_loop_result)
  have "{u. (u, u) \<in> edges (row # rows)} = {u. (u, u) \<in> edges rows} \<union> (if caller \<in> set cs then {caller} else {})"
    using new by (auto simp: edges_def row)
  with Cons.IH [OF ok rest] show ?case
    using new by (auto simp: row dict_get_set split: option.split)
qed (simp add: edges_def)

lemma normalize_result:
  assumes "dict_ok adjacency" and norm: "normalize adjacency nodes = (succ, loops)"
    and nodes: "fst ` set adjacency \<subseteq> set nodes" "edges adjacency `` UNIV \<subseteq> set nodes"
  shows "dom (dict_get succ) = set nodes" "edges succ = edges adjacency - Id" "loops = {u. (u, u) \<in> edges adjacency}"
    "closed_graph succ"
proof -
  have base: "dict_get (map (\<lambda>n. (n, [])) nodes) u = (if u \<in> set nodes then Some [] else None)" for u
    by (induction nodes) auto
  have get: "dict_get succ u = (case dict_get adjacency u of
      None \<Rightarrow> if u \<in> set nodes then Some [] else None | Some cs \<Rightarrow> Some (sorted_list_of_set (set cs - {u})))" for u
    using normalize_rows_result [OF assms(1) norm [unfolded normalize_def], of u] unfolding base by (rule conjunct1)
  show loops: "loops = {u. (u, u) \<in> edges adjacency}"
    using normalize_rows_result [OF assms(1) norm [unfolded normalize_def]] by simp
  show dom: "dom (dict_get succ) = set nodes"
  proof (rule set_eqI)
    fix u show "u \<in> dom (dict_get succ) \<longleftrightarrow> u \<in> set nodes"
    proof (cases "dict_get adjacency u")
      case (Some cs)
      then have "u \<in> set nodes" using nodes(1) map_of_SomeD [of adjacency u cs] by force
      with Some show ?thesis by (simp add: domIff get)
    qed (simp add: domIff get)
  qed
  show E: "edges succ = edges adjacency - Id"
    by (auto simp: edges_def get split: option.splits if_splits)
  show "closed_graph succ" using nodes(2) unfolding closed_graph_def dom E by blast
qed


subsection \<open>The analysis order\<close>

lemma scc_minus_Id: "scc_of (E - Id) u = scc_of E u"
  by (simp add: scc_of_def rtrancl_r_diff_Id)

lemma recursive_iff:
  assumes "distinct c" "c \<noteq> []" and scc: "\<forall>u \<in> set c. set c = scc_of E u"
  shows "length c > 1 \<or> length c = 1 \<and> (c ! 0, c ! 0) \<in> E \<longleftrightarrow> (\<exists>u \<in> set c. (u, u) \<in> E\<^sup>+)"
proof
  assume "length c > 1 \<or> length c = 1 \<and> (c ! 0, c ! 0) \<in> E"
  then show "\<exists>u \<in> set c. (u, u) \<in> E\<^sup>+"
  proof
    assume len: "length c > 1"
    have uv: "c ! 0 \<in> set c" "c ! 1 \<in> set c" using len by (auto intro: nth_mem simp del: length_greater_0_conv)
    have ne: "c ! 0 \<noteq> c ! 1" using nth_eq_iff_index_eq [OF assms(1), of 0 1] len by linarith
    have "c ! 1 \<in> scc_of E (c ! 0)" using scc uv(1,2) by blast
    then have "(c ! 0, c ! 1) \<in> E\<^sup>*" "(c ! 1, c ! 0) \<in> E\<^sup>*" unfolding scc_of_def by blast+
    then have "(c ! 0, c ! 1) \<in> E\<^sup>+" "(c ! 1, c ! 0) \<in> E\<^sup>+" using ne by (metis rtranclD)+
    then have "(c ! 0, c ! 0) \<in> E\<^sup>+" by (rule trancl_trans)
    then show ?thesis using uv(1) by (rule bexI)
  next
    assume one: "length c = 1 \<and> (c ! 0, c ! 0) \<in> E"
    have "0 < length c" using one by linarith
    then have "c ! 0 \<in> set c" by (rule nth_mem)
    moreover have "(c ! 0, c ! 0) \<in> E\<^sup>+" using one by (intro r_into_trancl) (rule conjunct2)
    ultimately show ?thesis by (rule bexI [rotated])
  qed
next
  assume "\<exists>u \<in> set c. (u, u) \<in> E\<^sup>+"
  then obtain u w where u: "u \<in> set c" "(u, w) \<in> E" "(w, u) \<in> E\<^sup>*" by (auto dest: tranclD)
  show "length c > 1 \<or> length c = 1 \<and> (c ! 0, c ! 0) \<in> E"
  proof (cases "length c = 1")
    case True
    then obtain x where c: "c = [x]" by (metis One_nat_def length_0_conv length_Suc_conv)
    have "u = x" using u(1) c by simp
    have "w \<in> scc_of E u" using u(2,3) unfolding scc_of_def by auto
    then have "w \<in> set c" using scc u(1) by blast
    then have "(x, x) \<in> E" using u(2) \<open>u = x\<close> c by simp
    then show ?thesis by (simp add: c)
  next
    case False
    with assms(2) have "length c > 1" by (cases c) auto
    then show ?thesis by simp
  qed
qed

text \<open>A run of the computation: components of the graph without self-loops, and the self-loops.\<close>

lemma order_components:
  assumes "dict_ok adjacency"
  obtains cs loops where "compute_analysis_order adjacency unresolved = Some (Inr
      \<lparr> components = map (component_of loops) cs, unresolved_callers = sorted_list_of_set (set unresolved),
        self_recursive = sorted_list_of_set loops \<rparr>)"
    "components_ok (edges adjacency) cs" "loops = {u. (u, u) \<in> edges adjacency}" "finite loops"
    "set (concat cs) = set unresolved \<union> fst ` set adjacency \<union> edges adjacency `` UNIV"
proof -
  let ?E = "edges adjacency" and ?nodes = "collect_nodes adjacency (set unresolved)"
  have in_rows: "?E `` UNIV = (\<Union>(_, callees) \<in> set adjacency. set callees)"
    using assms by (force simp: edges_def dict_ok_def dest: map_of_SomeD)
  have nodes: "set ?nodes = set unresolved \<union> fst ` set adjacency \<union> ?E `` UNIV"
    by (simp add: collect_nodes_def in_rows case_prod_beta)
  obtain succ loops where norm: "normalize adjacency ?nodes = (succ, loops)" by (cases "normalize adjacency ?nodes")
  have "fst ` set adjacency \<subseteq> set ?nodes" "?E `` UNIV \<subseteq> set ?nodes" by (auto simp: nodes)
  note norm_ok = normalize_result [OF assms norm this]
  from sccs_ok [OF norm_ok(4,1)] obtain cs where cs: "tarjan_sccs ?nodes succ = Some (Inr cs)"
    "components_ok (?E - Id) cs" "set (concat cs) = set ?nodes" unfolding norm_ok(2) by blast
  have "leaf_first ?E cs"
    unfolding leaf_first_def
  proof (intro allI impI ballI)
    fix k u v assume k: "k < length cs" "u \<in> set (cs ! k)" "(u, v) \<in> ?E"
    show "\<exists>j\<le>k. v \<in> set (cs ! j)"
    proof (cases "u = v")
      case False
      with k show ?thesis using cs(2) unfolding components_ok_def leaf_first_def by blast
    qed (use k(2) in blast)
  qed
  with cs(2) have ok: "components_ok ?E cs" unfolding components_ok_def scc_minus_Id by blast
  have loops: "finite loops"
  proof (rule finite_subset)
    show "loops \<subseteq> fst ` set adjacency" unfolding norm_ok(3) by (force simp: edges_def dest: map_of_SomeD)
  qed simp
  show thesis
    by (rule that [OF _ ok norm_ok(3) loops cs(3) [unfolded nodes]])
       (simp add: compute_analysis_order_def norm cs(1))
qed

text \<open>
  C27: The analysis order of a call graph. For every adjacency map, with whatever cycles, self-loops,
  duplicate and dangling edges, the computation returns. Its components partition the nodes; each is
  listed in order and is exactly a strongly connected component of the call graph; every call
  leads into the same or an earlier component, so callees come first; a component is marked recursive
  exactly if a member can reach itself; and the self-recursive and the unresolved callers are
  reported without loss.
\<close>

theorem analysis_order_correct:
  assumes "dict_ok adjacency"
  shows "\<exists>r. compute_analysis_order adjacency unresolved = Some (Inr r) \<and>
    distinct (concat (map members (components r))) \<and>
    set (concat (map members (components r))) =
      set unresolved \<union> fst ` set adjacency \<union> edges adjacency `` UNIV \<and>
    (\<forall>c \<in> set (components r). members c \<noteq> [] \<and> sorted (members c) \<and>
       (\<forall>u \<in> set (members c). set (members c) = scc_of (edges adjacency) u) \<and>
       (is_recursive c \<longleftrightarrow> (\<exists>u \<in> set (members c). (u, u) \<in> (edges adjacency)\<^sup>+))) \<and>
    leaf_first (edges adjacency) (map members (components r)) \<and>
    set (self_recursive r) = {u. (u, u) \<in> edges adjacency} \<and>
    set (unresolved_callers r) = set unresolved"
proof -
  let ?E = "edges adjacency"
  obtain cs loops where run: "compute_analysis_order adjacency unresolved = Some (Inr
      \<lparr> components = map (component_of loops) cs, unresolved_callers = sorted_list_of_set (set unresolved),
        self_recursive = sorted_list_of_set loops \<rparr>)" (is "_ = Some (Inr ?r)")
    and ok: "components_ok ?E cs" and loops: "loops = {u. (u, u) \<in> ?E}" "finite loops"
    and nodes: "set (concat cs) = set unresolved \<union> fst ` set adjacency \<union> ?E `` UNIV"
    by (rule order_components [OF assms])
  have members: "map members (components ?r) = cs" by (simp add: component_of_def comp_def)
  have comp: "members c \<noteq> [] \<and> sorted (members c) \<and> (\<forall>u \<in> set (members c). set (members c) = scc_of ?E u) \<and>
      (is_recursive c \<longleftrightarrow> (\<exists>u \<in> set (members c). (u, u) \<in> ?E\<^sup>+))" if c: "c \<in> set (components ?r)" for c
  proof -
    from c obtain m where m: "m \<in> set cs" "c = component_of loops m" by auto
    have m_ok: "m \<noteq> []" "sorted m" "\<forall>u \<in> set m. set m = scc_of ?E u"
      using ok m(1) unfolding components_ok_def by blast+
    have "distinct m" using ok m(1) unfolding components_ok_def by (auto dest: distinct_concat_iff [THEN iffD1])
    from recursive_iff [OF this m_ok(1,3)] m_ok show ?thesis by (simp add: m(2) component_of_def loops(1))
  qed
  show ?thesis
  proof (intro exI [of _ ?r] conjI)
    show "distinct (concat (map members (components ?r)))" using ok unfolding members components_ok_def by blast
    show "leaf_first ?E (map members (components ?r))" using ok unfolding members components_ok_def by blast
    show "set (self_recursive ?r) = {u. (u, u) \<in> ?E}" using loops(2) by (simp add: loops(1) [symmetric])
  qed (use comp run nodes in \<open>simp_all only: members, simp_all\<close>)
qed

definition demo_calls :: adjacency_map where
  "demo_calls = [([2], [[1], [3], [3]]), ([1], [[2]]), ([4], [[4], [5]])]"

theorem analysis_order_correct_witness:
  "\<exists>r. compute_analysis_order demo_calls [[6]] = Some (Inr r) \<and>
    set (concat (map members (components r))) = {[1], [2], [3], [4], [5], [6]} \<and>
    leaf_first (edges demo_calls) (map members (components r)) \<and> set (self_recursive r) = {[4]}"
proof -
  have ok: "dict_ok demo_calls" by (simp add: demo_calls_def dict_ok_def)
  have get: "dict_get demo_calls u = (if u = [2] then Some [[1], [3], [3]] else if u = [1] then Some [[2]]
      else if u = [4] then Some [[4], [5]] else None)" for u
    by (simp add: demo_calls_def)
  have "edges demo_calls = {([2], [1]), ([2], [3]), ([1], [2]), ([4], [4]), ([4], [5])}"
    by (auto simp add: edges_def get split: if_splits)
  note rel = this
  have self: "{u. (u, u) \<in> edges demo_calls} = {[4]}" unfolding rel by fastforce
  have "edges demo_calls `` UNIV = snd ` edges demo_calls" by force
  also have "\<dots> = {[1], [2], [3], [4], [5]}" unfolding rel image_insert image_empty by (simp add: insert_commute)
  finally have targets: "edges demo_calls `` UNIV = {[1], [2], [3], [4], [5]}" .
  have "fst ` set demo_calls = {[2], [1], [4]}" by (simp add: demo_calls_def)
  then have nodes: "set [[6]] \<union> fst ` set demo_calls \<union> {[1], [2], [3], [4], [5]}
      = {[1], [2], [3], [4], [5], [6]}"
    by (simp add: insert_commute)
  obtain r where r: "compute_analysis_order demo_calls [[6]] = Some (Inr r)"
    "set (concat (map members (components r))) = set [[6]] \<union> fst ` set demo_calls \<union> edges demo_calls `` UNIV"
    "leaf_first (edges demo_calls) (map members (components r))" "set (self_recursive r) = {u. (u, u) \<in> edges demo_calls}"
    using analysis_order_correct [OF ok, of "[[6]]"] by (elim exE conjE)
  show ?thesis
    by (rule exI [of _ r]) (use r in \<open>simp only: targets self nodes\<close>)
qed

end
