(* ===== verification/Naming_Props.thy ===== *)
theory Naming_Props
  imports Naming Callgraph_Props
begin

text \<open>
  The plan and the walk fit together: the adjacency map has the edges of the extracted call graph, so
  the plan is leaf-first for it, and the namer is asked about each function after those it calls.
\<close>

subsection \<open>The adjacency map of a graph\<close>

definition call_edges :: "CallGraphOut \<Rightarrow> (pystr \<times> pystr) set" where
  "call_edges graph = (\<lambda>e. (ce_from e, ce_to e)) ` set (cg_edges graph)"

lemma node_rows:
  assumes "dict_ok d" "\<And>k vs. dict_get d k = Some vs \<Longrightarrow> vs = []"
  shows "dict_ok (foldl (\<lambda>d n. dict_set (cn_address n) [] d) d ns) \<and>
    (\<forall>k vs. dict_get (foldl (\<lambda>d n. dict_set (cn_address n) [] d) d ns) k = Some vs \<longrightarrow> vs = [])"
  using assms
proof (induction ns arbitrary: d)
  case (Cons n ns)
  show ?case
    unfolding foldl_Cons by (rule Cons.IH) (use Cons.prems in \<open>auto simp: dict_simps split: if_splits\<close>)
qed simp

lemma edge_rows:
  assumes "dict_ok d"
  shows "dict_ok (foldl (\<lambda>d e. dict_set (ce_from e)
       ((case dict_get d (ce_from e) of None \<Rightarrow> [] | Some callees \<Rightarrow> callees) @ [ce_to e]) d) d es) \<and>
    edges (foldl (\<lambda>d e. dict_set (ce_from e)
       ((case dict_get d (ce_from e) of None \<Rightarrow> [] | Some callees \<Rightarrow> callees) @ [ce_to e]) d) d es) =
    edges d \<union> (\<lambda>e. (ce_from e, ce_to e)) ` set es"
  using assms
proof (induction es arbitrary: d)
  case (Cons e es)
  have "edges (dict_set (ce_from e)
       ((case dict_get d (ce_from e) of None \<Rightarrow> [] | Some callees \<Rightarrow> callees) @ [ce_to e]) d) =
      insert (ce_from e, ce_to e) (edges d)"
    by (auto simp: edges_def dict_simps split: if_splits option.splits)
  with Cons.IH [of "dict_set (ce_from e)
       ((case dict_get d (ce_from e) of None \<Rightarrow> [] | Some callees \<Rightarrow> callees) @ [ce_to e]) d"] Cons.prems
  show ?case by simp
qed simp

lemma adjacency_of_graph:
  "dict_ok (fst (adjacency_from_graph graph)) \<and> edges (fst (adjacency_from_graph graph)) = call_edges graph"
proof -
  have nodes: "dict_ok (foldl (\<lambda>d n. dict_set (cn_address n) [] d) [] (cg_nodes graph))"
    "edges (foldl (\<lambda>d n. dict_set (cn_address n) [] d) [] (cg_nodes graph)) = {}"
    using node_rows [of "[]" "cg_nodes graph"] by (force simp: edges_def)+
  show ?thesis using edge_rows [OF nodes(1), of "cg_edges graph"] nodes(2)
    by (simp add: adjacency_from_graph_def call_edges_def)
qed

lemma build_analysis_order_ok:
  obtains order where "build_analysis_order graph = Some (Inr order)"
    "components_ok (call_edges graph) (map members (components order))"
proof -
  obtain adjacency unresolved where g: "adjacency_from_graph graph = (adjacency, unresolved)"
    by (cases "adjacency_from_graph graph")
  with adjacency_of_graph [of graph] have adj: "dict_ok adjacency" "edges adjacency = call_edges graph" by simp_all
  obtain cs loops where run: "compute_analysis_order adjacency unresolved = Some (Inr
      \<lparr> components = map (component_of loops) cs, unresolved_callers = sorted_list_of_set (set unresolved),
        self_recursive = sorted_list_of_set loops \<rparr>)"
    and ok: "components_ok (call_edges graph) cs"
    by (rule order_components [OF adj(1)]) (simp add: adj(2))
  show thesis
    by (rule that, simp add: build_analysis_order_def g run) (simp add: component_of_def comp_def ok)
qed

text \<open>In a leaf-first plan a callee that cannot call back comes before its caller.\<close>

lemma callee_before:
  assumes ok: "components_ok E cs" and flat: "concat cs = before @ u # after"
    and e: "(u, v) \<in> E" "(v, u) \<notin> E\<^sup>*"
  shows "v \<in> set before"
proof -
  have "u \<in> set (concat cs)" by (simp add: flat)
  then obtain c where "c \<in> set cs" "u \<in> set c" by auto
  then obtain ys zs ps qs where split: "cs = ys @ c # zs" and c: "c = ps @ u # qs"
    by (meson split_list)
  have "distinct (before @ u # after)" using ok unfolding components_ok_def flat by blast
  then have "u \<notin> set before" "u \<notin> set after" by simp_all
  moreover have "before @ u # after = (concat ys @ ps) @ u # qs @ concat zs"
    unfolding flat [symmetric] by (simp add: split c)
  ultimately have before: "before = concat ys @ ps"
    using append_Cons_eq_iff [of u before after "concat ys @ ps" "qs @ concat zs"] by blast
  have comp: "set c = scc_of E u" using ok \<open>c \<in> set cs\<close> \<open>u \<in> set c\<close> unfolding components_ok_def by blast
  have "length ys < length cs" "u \<in> set (cs ! length ys)" using \<open>u \<in> set c\<close> by (simp_all add: split)
  then obtain j where j: "j \<le> length ys" "v \<in> set (cs ! j)"
    using ok e(1) unfolding components_ok_def leaf_first_def by blast
  have "v \<notin> set c" using e(2) unfolding comp scc_of_def by blast
  then have "j \<noteq> length ys" using j(2) by (auto simp: split)
  with j(1) have "j < length ys" by simp
  with j(2) have "v \<in> set (ys ! j)" by (simp add: split nth_append)
  with \<open>j < length ys\<close> have "v \<in> set (concat ys)" unfolding in_concat_nth by blast
  then show ?thesis by (simp add: before)
qed

subsection \<open>The walk\<close>

text \<open>
  The name that function \<open>k\<close> carries after the given questions: the known one of an external function,
  the namer's answer to an earlier question about any other.
\<close>

definition carried :: "(pystr \<rightharpoonup> FunctionContext) \<Rightarrow> namer \<Rightarrow> question list \<Rightarrow> pystr \<Rightarrow> pystr \<Rightarrow> bool" where
  "carried contexts namer earlier k n \<longleftrightarrow> (\<exists>ctx. contexts k = Some ctx \<and>
     (if fx_is_external ctx then n = u_value (fx_name ctx)
      else \<exists>j < length earlier. fst (earlier ! j) = ctx \<and>
        (\<exists>p. namer (take j earlier) (earlier ! j) = Inr p \<and> n = new_name p)))"

lemma carried_more: "carried contexts namer earlier k n \<Longrightarrow> carried contexts namer (earlier @ later) k n"
  unfolding carried_def by (fastforce simp: nth_append split: if_splits)

definition callee_addresses :: "FunctionContext \<Rightarrow> pystr set" where
  "callee_addresses ctx = cn_address ` set (fx_callees ctx)"

lemma callee_names_get:
  "dict_get (callee_names ctx names) k = (if k \<in> callee_addresses ctx then dict_get names k else None)"
proof -
  have "dict_get (foldl (\<lambda>d c. case dict_get names (cn_address c) of None \<Rightarrow> d
       | Some n \<Rightarrow> dict_set (cn_address c) n d) d cs) k =
     (if k \<in> cn_address ` set cs \<and> dict_get names k \<noteq> None then dict_get names k else dict_get d k)" for d cs
    by (induction cs arbitrary: d) (auto simp: dict_simps split: option.splits)
  from this [of "[]" "fx_callees ctx"] show ?thesis by (simp add: callee_names_def callee_addresses_def)
qed

text \<open>What holds of a question asked after others, with \<open>visited\<close> the addresses walked before it.\<close>

definition fair_question ::
  "(pystr \<rightharpoonup> FunctionContext) \<Rightarrow> namer \<Rightarrow> int \<Rightarrow> pystr list \<Rightarrow> question list \<Rightarrow> question \<Rightarrow> bool" where
  "fair_question contexts namer max_functions plan earlier q \<longleftrightarrow>
     (case q of (ctx, names) \<Rightarrow>
        \<not> fx_is_external ctx \<and> contexts (fx_address ctx) = Some ctx \<and>
        (\<forall>k n. dict_get names k = Some n \<longrightarrow> k \<in> callee_addresses ctx \<and> carried contexts namer earlier k n) \<and>
        (\<exists>before after. plan = before @ fx_address ctx # after \<and>
           (int (length plan) \<le> max_functions \<longrightarrow>
              (\<forall>k \<in> callee_addresses ctx. k \<in> set before \<longrightarrow> contexts k \<noteq> None \<longrightarrow> dict_get names k \<noteq> None))))"

definition fair_log ::
  "(pystr \<rightharpoonup> FunctionContext) \<Rightarrow> namer \<Rightarrow> int \<Rightarrow> pystr list \<Rightarrow> question list \<Rightarrow> bool" where
  "fair_log contexts namer max_functions plan qs \<longleftrightarrow>
     int (length qs) \<le> max 0 max_functions \<and> distinct (map (fx_address \<circ> fst) qs) \<and>
     (\<forall>i < length qs. fair_question contexts namer max_functions plan (take i qs) (qs ! i))"

lemma fair_log_snoc:
  assumes "fair_log contexts namer max_functions plan qs" "int (length qs) < max_functions"
    "fx_address (fst q) \<notin> (fx_address \<circ> fst) ` set qs" "fair_question contexts namer max_functions plan qs q"
  shows "fair_log contexts namer max_functions plan (qs @ [q])"
  using assms unfolding fair_log_def by (auto simp: nth_append less_Suc_eq)

definition walked ::
  "(pystr \<rightharpoonup> FunctionContext) \<Rightarrow> namer \<Rightarrow> int \<Rightarrow> pystr list \<Rightarrow> pystr list \<Rightarrow> naming_state \<Rightarrow> bool" where
  "walked contexts namer max_functions plan visited st \<longleftrightarrow>
     fair_log contexts namer max_functions plan (asked st) \<and>
     (\<forall>k n. dict_get (assigned st) k = Some n \<longrightarrow> k \<in> set visited \<and> carried contexts namer (asked st) k n) \<and>
     inferred_count st = int (length (asked st)) \<and> length (asked st) \<le> length visited \<and>
     (fx_address \<circ> fst) ` set (asked st) \<subseteq> set visited \<and>
     (int (length plan) \<le> max_functions \<longrightarrow>
        (\<forall>k \<in> set visited. contexts k \<noteq> None \<longrightarrow> dict_get (assigned st) k \<noteq> None))"

lemma walked_start: "walked contexts namer max_functions plan [] start_naming"
  by (simp add: walked_def fair_log_def start_naming_def)

lemma asked_question:
  assumes st: "walked contexts namer max_functions plan visited st"
    and plan: "plan = visited @ a # rest" and fresh: "a \<notin> set visited"
    and ctx: "contexts a = Some ctx" "fx_address ctx = a" "\<not> fx_is_external ctx"
    and room: "inferred_count st < max_functions"
  shows "fair_log contexts namer max_functions plan (asked st @ [(ctx, callee_names ctx (assigned st))])"
proof (rule fair_log_snoc)
  show "fair_question contexts namer max_functions plan (asked st) (ctx, callee_names ctx (assigned st))"
    unfolding fair_question_def prod.case
  proof (intro conjI)
    show "\<exists>before after. plan = before @ fx_address ctx # after \<and> (int (length plan) \<le> max_functions \<longrightarrow>
        (\<forall>k \<in> callee_addresses ctx. k \<in> set before \<longrightarrow> contexts k \<noteq> None \<longrightarrow>
           dict_get (callee_names ctx (assigned st)) k \<noteq> None))"
      using st by (intro exI [of _ visited] exI [of _ rest]) (auto simp: plan ctx(2) walked_def callee_names_get)
  qed (use st ctx in \<open>auto simp: walked_def callee_names_get split: if_splits\<close>)
qed (use st room fresh ctx(2) in \<open>auto simp: walked_def\<close>)

lemma name_function_walks:
  assumes st: "walked contexts namer max_functions plan visited st"
    and plan: "plan = visited @ a # rest" and fresh: "a \<notin> set visited"
    and keyed: "\<And>ctx. contexts a = Some ctx \<Longrightarrow> fx_address ctx = a"
  shows "case name_function contexts namer max_functions a st of
      Inl (e, qs) \<Rightarrow> fair_log contexts namer max_functions plan qs
    | Inr st' \<Rightarrow> walked contexts namer max_functions plan (visited @ [a]) st'"
proof (cases "contexts a")
  case None
  with st show ?thesis by (simp add: name_function_def walked_def) blast
next
  case (Some ctx)
  note ctx = Some keyed [OF Some]
  show ?thesis
  proof (cases "fx_is_external ctx")
    case True
    then have "carried contexts namer (asked st) a (u_value (fx_name ctx))" by (simp add: carried_def ctx(1))
    with st True show ?thesis by (auto simp: name_function_def ctx(1) walked_def dict_simps Let_def split: if_splits)
  next
    case inferred: False
    let ?q = "(ctx, callee_names ctx (assigned st))"
    show ?thesis
    proof (cases "inferred_count st < max_functions")
      case False
      with st plan have "\<not> int (length plan) \<le> max_functions" by (auto simp: walked_def)
      with st False inferred show ?thesis by (auto simp: name_function_def ctx(1) walked_def)
    next
      case True
      note fair = asked_question [OF st plan fresh ctx inferred True]
      show ?thesis
      proof (cases "namer (asked st) ?q")
        case (Inl e)
        with fair True inferred show ?thesis by (simp add: name_function_def ctx(1) Let_def)
      next
        case (Inr p)
        then have here: "carried contexts namer (asked st @ [?q]) a (new_name p)"
          using inferred by (auto simp: carried_def ctx(1) nth_append intro!: exI [of _ "length (asked st)"])
        show ?thesis
          using st fair True inferred Inr here
          by (auto simp: name_function_def ctx walked_def dict_simps Let_def intro: carried_more split: if_splits)
      qed
    qed
  qed
qed

text \<open>The questions of a run, whether it returned or raised.\<close>

definition questions :: "(exc \<times> question list) + 'a \<Rightarrow> ('a \<Rightarrow> question list) \<Rightarrow> question list" where
  "questions r f = (case r of Inl (e, qs) \<Rightarrow> qs | Inr x \<Rightarrow> f x)"

lemma name_components_members:
  "name_components contexts namer max_functions cs = name_members contexts namer max_functions (concat (map members cs))"
proof -
  have append: "name_members contexts namer max_functions (xs @ ys) st =
      chain (name_members contexts namer max_functions xs st) (name_members contexts namer max_functions ys)" for xs ys st
    by (induction xs arbitrary: st) (auto simp: chain_def split: sum.splits)
  show ?thesis by (rule ext, induction cs) (simp_all add: append chain_def split: sum.splits)
qed

lemma name_members_walks:
  assumes "walked contexts namer max_functions plan visited st" "plan = visited @ addresses" "distinct plan"
    and keyed: "\<And>a ctx. contexts a = Some ctx \<Longrightarrow> fx_address ctx = a"
  shows "fair_log contexts namer max_functions plan
    (questions (name_members contexts namer max_functions addresses st) asked)"
  using assms(1-3)
proof (induction addresses arbitrary: visited st)
  case Nil
  then show ?case by (simp add: questions_def walked_def)
next
  case (Cons a rest)
  have "a \<notin> set visited" using Cons.prems(2,3) by auto
  note step = name_function_walks [OF Cons.prems(1,2) this keyed]
  show ?case
  proof (cases "name_function contexts namer max_functions a st")
    case (Inr st')
    with step have "walked contexts namer max_functions plan (visited @ [a]) st'" by simp
    from Cons.IH [OF this] Cons.prems(2,3) Inr show ?thesis by simp
  qed (use step in \<open>auto simp: questions_def\<close>)
qed

subsection \<open>The plan and the walk together\<close>

definition keyed_nodes :: "(pystr, CallGraphNode) dict \<Rightarrow> bool" where
  "keyed_nodes d \<longleftrightarrow> (\<forall>a n. dict_get d a = Some n \<longrightarrow> cn_address n = a)"

lemma keyed_by_address: "keyed_nodes d \<Longrightarrow> keyed_nodes (foldl (\<lambda>d n. dict_set (cn_address n) n d) d ns)"
proof (induction ns arbitrary: d)
  case (Cons m ns)
  have "keyed_nodes (dict_set (cn_address m) m d)"
    using Cons.prems unfolding keyed_nodes_def dict_get_set by (metis option.inject)
  from Cons.IH [OF this] show ?case unfolding foldl_Cons .
qed simp

lemma distinct_nodes_addresses:
  assumes "keyed_nodes by_addr"
  shows "\<forall>n \<in> set (distinct_nodes by_addr addrs seen). cn_address n \<in> set addrs"
proof (induction addrs arbitrary: seen)
  case (Cons a addrs)
  show ?case
  proof (cases "dict_get by_addr a")
    case (Some m)
    then have "cn_address m = a" using assms unfolding keyed_nodes_def by blast
    with Some Cons.IH [of seen] Cons.IH [of "a # seen"] show ?thesis by simp
  qed (use Cons.IH [of seen] in simp)
qed simp

lemma callees_are_calls:
  assumes "n \<in> set (nb_neighbors (one_hop graph entry True offset limit))"
  shows "(entry, cn_address n) \<in> call_edges graph"
proof -
  let ?by_addr = "foldl (\<lambda>d n. dict_set (cn_address n) n d) [] (cg_nodes graph)"
  have "n \<in> set (distinct_nodes ?by_addr (map ce_to (filter (\<lambda>e. ce_from e = entry) (cg_edges graph))) [])"
    using assms by (auto simp: one_hop_def Let_def dest!: in_set_takeD in_set_dropD)
  moreover have "keyed_nodes ?by_addr" by (rule keyed_by_address) (simp add: keyed_nodes_def)
  ultimately have "cn_address n \<in> set (map ce_to (filter (\<lambda>e. ce_from e = entry) (cg_edges graph)))"
    using distinct_nodes_addresses by blast
  then show ?thesis by (auto simp: call_edges_def)
qed

text \<open>
  C26: Callees are named first. For every extracted call graph the plan is computed, and the walk over it,
  whatever the namer answers and even if it raises half way, asks about no function twice, about no
  external one and about at most \<open>max_functions\<close>. The names passed with a question are names of
  callees of that function, each the known name of an external function or the namer's own earlier answer;
  and if the plan fits in \<open>max_functions\<close>, every callee with a context that cannot call back is among them.
\<close>

theorem callees_named_first:
  assumes keyed: "\<And>a ctx. contexts a = Some ctx \<Longrightarrow> fx_address ctx = a"
    and from_graph: "\<And>a ctx. contexts a = Some ctx \<Longrightarrow> callee_addresses ctx \<subseteq> call_edges graph `` {a}"
  shows "\<exists>order. build_analysis_order graph = Some (Inr order) \<and>
    (let qs = questions (orchestrate order contexts namer max_functions) snd in
     distinct (map (fx_address \<circ> fst) qs) \<and> int (length qs) \<le> max 0 max_functions \<and>
     (\<forall>i < length qs. case qs ! i of (ctx, names) \<Rightarrow>
        \<not> fx_is_external ctx \<and> contexts (fx_address ctx) = Some ctx \<and>
        (\<forall>k n. dict_get names k = Some n \<longrightarrow>
           k \<in> callee_addresses ctx \<and> carried contexts namer (take i qs) k n) \<and>
        (int (length (concat (map members (components order)))) \<le> max_functions \<longrightarrow>
           (\<forall>k \<in> callee_addresses ctx. contexts k \<noteq> None \<longrightarrow> (k, fx_address ctx) \<notin> (call_edges graph)\<^sup>* \<longrightarrow>
              dict_get names k \<noteq> None))))"
proof -
  obtain order where order: "build_analysis_order graph = Some (Inr order)"
    and ok: "components_ok (call_edges graph) (map members (components order))"
    by (rule build_analysis_order_ok)
  let ?plan = "concat (map members (components order))"
  let ?qs = "questions (orchestrate order contexts namer max_functions) snd"
  have qs: "?qs = questions (name_members contexts namer max_functions ?plan start_naming) asked"
    by (simp add: orchestrate_def name_components_members questions_def chain_def split: sum.splits)
  have "distinct ?plan" using ok unfolding components_ok_def by blast
  then have fair: "fair_log contexts namer max_functions ?plan ?qs"
    unfolding qs by (rule name_members_walks [OF walked_start append_Nil [symmetric] _ keyed])
  have "case ?qs ! i of (ctx, names) \<Rightarrow> \<not> fx_is_external ctx \<and> contexts (fx_address ctx) = Some ctx \<and>
      (\<forall>k n. dict_get names k = Some n \<longrightarrow> k \<in> callee_addresses ctx \<and> carried contexts namer (take i ?qs) k n) \<and>
      (int (length ?plan) \<le> max_functions \<longrightarrow> (\<forall>k \<in> callee_addresses ctx. contexts k \<noteq> None \<longrightarrow>
         (k, fx_address ctx) \<notin> (call_edges graph)\<^sup>* \<longrightarrow> dict_get names k \<noteq> None))" if "i < length ?qs" for i
  proof -
    obtain ctx names where q: "?qs ! i = (ctx, names)" by (cases "?qs ! i")
    have f: "fair_question contexts namer max_functions ?plan (take i ?qs) (ctx, names)"
      using fair that unfolding fair_log_def q [symmetric] by blast
    then obtain before after where plan: "?plan = before @ fx_address ctx # after"
      and full: "int (length ?plan) \<le> max_functions \<Longrightarrow> k \<in> callee_addresses ctx \<Longrightarrow> k \<in> set before \<Longrightarrow>
        contexts k \<noteq> None \<Longrightarrow> dict_get names k \<noteq> None" for k
      unfolding fair_question_def by auto
    have "k \<in> set before" if "k \<in> callee_addresses ctx" "(k, fx_address ctx) \<notin> (call_edges graph)\<^sup>*" for k
      using callee_before [OF ok plan _ that(2)] from_graph [of "fx_address ctx" ctx] that(1) f
      unfolding fair_question_def by auto
    with f full show ?thesis unfolding q fair_question_def prod.case by blast
  qed
  with fair show ?thesis
    by (intro exI [of _ order] conjI order) (simp add: fair_log_def Let_def)
qed

definition binary_name :: "pystr \<Rightarrow> pystr Untrusted" where
  "binary_name t = \<lparr> u_value = t, u_origin = BINARY, u_truncated = False, u_encoding = None, u_notes = [] \<rparr>"

definition demo_node :: "nat \<Rightarrow> bool \<Rightarrow> CallGraphNode" where
  "demo_node a external = \<lparr> cn_address = [a], cn_name = binary_name (ascii ''FUN''), cn_is_external = external,
     cn_has_unresolved_calls = False \<rparr>"

definition demo_graph :: CallGraphOut where
  "demo_graph = \<lparr> cg_nodes = [demo_node 1 False, demo_node 2 False, demo_node 3 True],
     cg_edges = [\<lparr> ce_from = [1], ce_to = [2] \<rparr>, \<lparr> ce_from = [1], ce_to = [3] \<rparr>, \<lparr> ce_from = [2], ce_to = [3] \<rparr>],
     cg_unresolved_callers = [], cg_truncated = False \<rparr>"

definition demo_context :: "nat \<Rightarrow> bool \<Rightarrow> CallGraphNode list \<Rightarrow> FunctionContext" where
  "demo_context a external callees = \<lparr> fx_address = [a], fx_name = binary_name (ascii ''FUN''),
     fx_signature = binary_name [], fx_is_external = external, fx_decompilation = None, fx_callees = callees,
     fx_callers = [], fx_referenced_strings = [], fx_has_unresolved_calls = False, fx_truncated = False \<rparr>"

definition demo_contexts :: "pystr \<rightharpoonup> FunctionContext" where
  "demo_contexts = [[1] \<mapsto> demo_context 1 False [demo_node 2 False, demo_node 3 True],
     [2] \<mapsto> demo_context 2 False [demo_node 3 True], [3] \<mapsto> demo_context 3 True []]"

definition demo_namer :: namer where
  "demo_namer earlier q = Inr \<lparr> new_name = ascii ''f'' @ fx_address (fst q), new_c = [] \<rparr>"

theorem callees_named_first_witness:
  "\<exists>order. build_analysis_order demo_graph = Some (Inr order) \<and>
     (\<forall>i < length (questions (orchestrate order demo_contexts demo_namer 3) snd).
        case questions (orchestrate order demo_contexts demo_namer 3) snd ! i of (ctx, names) \<Rightarrow>
          \<not> fx_is_external ctx \<and> demo_contexts (fx_address ctx) = Some ctx)"
proof -
  have keyed: "fx_address ctx = a" "callee_addresses ctx \<subseteq> call_edges demo_graph `` {a}" if "demo_contexts a = Some ctx" for a ctx
    using that by (auto simp: demo_contexts_def demo_context_def callee_addresses_def call_edges_def demo_graph_def demo_node_def
        split: if_splits)
  show ?thesis
    using callees_named_first [of demo_contexts demo_graph demo_namer 3, OF keyed]
    by (fastforce simp: Let_def)
qed

end
