(* ===== verification/Graph_Mapper.thy ===== *)
theory Graph_Mapper
  imports Schemas Py_Text Errors "HOL-Library.List_Lexorder"
begin

text \<open>
  The pure half of the memory-graph export: the vocabulary and value objects (\<open>graph_export/ports.py\<close>),
  the projection of a session's facts to nodes and edges (\<open>graph_export/mapper.py\<close>) and of its function
  hashes to the shared corpus (\<open>graph_export/corpus.py\<close>). Attributes are
  dynamically typed values.
\<close>

subsection \<open>Vocabulary\<close>

definition NODE_KINDS :: "string list" where
  "NODE_KINDS = [''PROGRAM'', ''FUNCTION'', ''STRING'', ''IMPORT'', ''EXPORT'', ''IOC'', ''CONSTANT'', ''SECRET'',
     ''VULN'', ''COMMENT'', ''STRUCT'', ''UNION'', ''OTHER'']"

definition EDGE_TYPES :: "string list" where
  "EDGE_TYPES = [''CONTAINS'', ''CALLS'', ''XREF'', ''REFERENCES'', ''IMPORTS'', ''EXPORTS'', ''ANNOTATES'',
     ''SAME_AS'', ''EQUIV'']"

definition PROVENANCE :: "string list" where "PROVENANCE = [''BINARY'', ''GHIDRA'', ''INFERRED'', ''USER'']"
definition LAYERS :: "string list" where "LAYERS = [''raw'', ''inferred'', ''curated'']"
definition ADDR_REF :: string where "ADDR_REF = ''@ADDR''"

datatype ident = ByAddress int | ByName pystr

type_synonym LocalId = "string \<times> ident"
type_synonym attributes = "(pystr, pyval) dict"

record NodeSpec =
  nd_kind :: string
  nd_name :: pystr
  nd_provenance :: string
  nd_layer :: string
  nd_address :: "int option"
  nd_attrs :: attributes

definition local_id :: "NodeSpec \<Rightarrow> LocalId" where
  "local_id n = (nd_kind n, case nd_address n of Some a \<Rightarrow> ByAddress a | None \<Rightarrow> ByName (nd_name n))"

record EdgeSpec =
  ed_type :: string
  ed_src :: LocalId
  ed_dst :: LocalId
  ed_provenance :: string
  ed_attrs :: attributes

record GraphBatch =
  batch_nodes :: "NodeSpec list"
  batch_edges :: "EdgeSpec list"

subsection \<open>The facts of a session\<close>

record SessionSources =
  ss_metadata :: ProgramMetadata
  ss_fingerprint :: "ProgramFingerprintOut option"
  ss_functions :: "FunctionSummary list"
  ss_function_details :: "(pystr, FunctionDetail) dict"
  ss_complexities :: "(pystr, int) dict"
  ss_function_hashes :: "(pystr, pystr) dict"
  ss_function_byte_hashes :: "(pystr, pystr) dict"
  ss_call_nodes :: "CallGraphNode list"
  ss_call_edges :: "CallEdge list"
  ss_xrefs :: "Xref list"
  ss_imports :: "ImportedSymbol list"
  ss_exports :: "ExportedSymbol list"
  ss_strings :: "DefinedString list"
  ss_iocs :: "IocMatch list"
  ss_crypto_constants :: "CryptoConstantFinding list"
  ss_crypto_indicators :: "CryptoIndicator list"
  ss_secrets :: "SecretFinding list"
  ss_capabilities :: "CapabilityMatch list"
  ss_family :: "FamilyMatchOut option"
  ss_renames :: "(pystr, pystr) dict"
  ss_comments :: "(pystr \<times> pystr \<times> pystr) list"
  ss_types :: "(pystr \<times> pystr \<times> pyval list) list"
  ss_truncated :: "(pystr, bool) dict"

definition new_sources :: "ProgramMetadata \<Rightarrow> SessionSources" where
  "new_sources m = \<lparr> ss_metadata = m, ss_fingerprint = None, ss_functions = [], ss_function_details = [],
     ss_complexities = [], ss_function_hashes = [], ss_function_byte_hashes = [], ss_call_nodes = [],
     ss_call_edges = [], ss_xrefs = [], ss_imports = [], ss_exports = [], ss_strings = [], ss_iocs = [],
     ss_crypto_constants = [], ss_crypto_indicators = [], ss_secrets = [], ss_capabilities = [],
     ss_family = None, ss_renames = [], ss_comments = [], ss_types = [], ss_truncated = [] \<rparr>"

subsection \<open>Helpers\<close>

definition addr_of :: "pystr option \<Rightarrow> int option" where
  "addr_of v = (case v of
     None \<Rightarrow> None
   | Some s \<Rightarrow> if py_strip s = [] then None else int_base16 (py_strip s))"

definition raw_text :: "pystr Untrusted \<Rightarrow> pystr" where
  "raw_text u = u_value u"

definition raw_opt :: "pystr Untrusted option \<Rightarrow> pyval" where
  "raw_opt u = (case u of None \<Rightarrow> PyNone | Some v \<Rightarrow> PyStr (raw_text v))"

definition str_or_none :: "pystr option \<Rightarrow> pyval" where
  "str_or_none v = (case v of None \<Rightarrow> PyNone | Some s \<Rightarrow> PyStr s)"

definition fields_of :: "(string \<times> pyval) list \<Rightarrow> attributes" where
  "fields_of kvs = map (\<lambda>(k, v). (ascii k, v)) kvs"

definition merge_attrs :: "attributes \<Rightarrow> attributes \<Rightarrow> attributes" where
  "merge_attrs old new = foldl (\<lambda>d (k, v). dict_set k v d) old new"

text \<open>A loop over statements that may raise, with a state.\<close>

fun loop_raise :: "('a \<Rightarrow> 's \<Rightarrow> exc + 's) \<Rightarrow> 'a list \<Rightarrow> 's \<Rightarrow> exc + 's" where
  "loop_raise f [] st = Inr st"
| "loop_raise f (x # xs) st = chain (f x st) (loop_raise f xs)"

subsection \<open>The builder\<close>

record Builder =
  bd_nodes :: "(LocalId, NodeSpec) dict"
  bd_edges :: "(string \<times> LocalId \<times> LocalId, EdgeSpec) dict"

definition new_builder :: Builder where
  "new_builder = \<lparr> bd_nodes = [], bd_edges = [] \<rparr>"

definition map_error :: "string \<Rightarrow> exc" where
  "map_error d = ValueError (ascii d)"

definition add_node ::
  "string \<Rightarrow> pystr \<Rightarrow> string \<Rightarrow> string \<Rightarrow> int option \<Rightarrow> attributes \<Rightarrow> Builder \<Rightarrow> exc + NodeSpec \<times> Builder" where
  "add_node kind name provenance layer address ats b =
     (if kind \<notin> set NODE_KINDS then Inl (map_error ''invalid node kind'')
      else if provenance \<notin> set PROVENANCE then Inl (map_error ''invalid provenance'')
      else if layer \<notin> set LAYERS then Inl (map_error ''invalid layer'')
      else
        (let spec = \<lparr> nd_kind = kind, nd_name = name, nd_provenance = provenance, nd_layer = layer,
               nd_address = address, nd_attrs = ats \<rparr>
         in case dict_get (bd_nodes b) (local_id spec) of
              None \<Rightarrow> Inr (spec, b\<lparr>bd_nodes := dict_set (local_id spec) spec (bd_nodes b)\<rparr>)
            | Some old \<Rightarrow>
                (let merged = \<lparr> nd_kind = nd_kind old,
                       nd_name = (if layer = ''curated'' then name else nd_name old),
                       nd_provenance = (if layer = ''curated'' then provenance else nd_provenance old),
                       nd_layer = (if layer = ''curated'' then layer else nd_layer old),
                       nd_address = nd_address old, nd_attrs = merge_attrs (nd_attrs old) ats \<rparr>
                 in Inr (merged, b\<lparr>bd_nodes := dict_set (local_id spec) merged (bd_nodes b)\<rparr>))))"

definition add_edge :: "string \<Rightarrow> LocalId \<Rightarrow> LocalId \<Rightarrow> string \<Rightarrow> attributes \<Rightarrow> Builder \<Rightarrow> exc + Builder" where
  "add_edge edge_type src dst provenance ats b =
     (if edge_type \<notin> set EDGE_TYPES then Inl (map_error ''invalid edge type'')
      else if provenance \<notin> set PROVENANCE then Inl (map_error ''invalid provenance'')
      else Inr (b\<lparr>bd_edges := dict_set (edge_type, src, dst)
        \<lparr> ed_type = edge_type, ed_src = src, ed_dst = dst, ed_provenance = provenance, ed_attrs = ats \<rparr> (bd_edges b)\<rparr>))"

definition finish :: "Builder \<Rightarrow> GraphBatch" where
  "finish b = \<lparr> batch_nodes = map snd (bd_nodes b), batch_edges = map snd (bd_edges b) \<rparr>"

subsection \<open>The mapping\<close>

definition family_attr :: "FamilyCandidate \<Rightarrow> pyval" where
  "family_attr c = PyDict (fields_of [(''family'', PyStr (fc_family c)), (''confidence'', PyFloat (fc_confidence c)),
     (''basis'', PyList (map PyStr (fc_basis c)))])"

definition program_attrs :: "SessionSources \<Rightarrow> attributes" where
  "program_attrs src =
     (let m = ss_metadata src in
      fields_of [(''sha256'', PyStr (pm_sha256 m)), (''size_bytes'', PyInt (pm_size_bytes m)),
        (''format'', PyStr (pm_format m)), (''architecture'', PyStr (pm_architecture m)),
        (''endianness'', PyStr (pm_endianness m)), (''entry_point'', str_or_none (pm_entry_point m)),
        (''function_count'', PyInt (pm_function_count m)), (''analysis_complete'', PyBool (pm_analysis_complete m)),
        (''compiler'', raw_opt (pm_compiler m)), (''truncated'', PyBool (list_ex snd (ss_truncated src)))] @
      (case ss_fingerprint src of
         None \<Rightarrow> []
       | Some fp \<Rightarrow> fields_of [(''structure_digest'', PyStr (pf_structure_digest fp)),
           (''import_digest'', str_or_none (pf_import_digest fp)), (''code_ratio'', PyFloat (cv_code_ratio (pf_coverage fp))),
           (''data_ratio'', PyFloat (cv_data_ratio (pf_coverage fp)))]) @
      (case ss_family src of
         None \<Rightarrow> []
       | Some fam \<Rightarrow>
           if fm_candidates fam = [] then []
           else fields_of [(''family_candidates'', PyList (map family_attr (fm_candidates fam))),
             (''corpus_version'', PyStr (fm_corpus_version fam))]))"

definition add_program :: "SessionSources \<Rightarrow> Builder \<Rightarrow> exc + Builder" where
  "add_program src b = map_sum id snd
     (add_node ''PROGRAM'' (pm_sha256 (ss_metadata src)) ''BINARY'' ''raw'' None (program_attrs src) b)"

definition function_attrs :: "SessionSources \<Rightarrow> FunctionSummary \<Rightarrow> attributes" where
  "function_attrs src fn =
     fields_of [(''size'', PyInt (fs_size fn)), (''ghidra_name'', PyStr (raw_text (fs_name fn)))] @
     (case dict_get (ss_function_details src) (fs_address fn) of
        None \<Rightarrow> []
      | Some d \<Rightarrow> fields_of [(''signature'', PyStr (raw_text (fd_signature d))), (''is_thunk'', PyBool (fd_is_thunk d)),
          (''calling_convention'', raw_opt (fd_calling_convention d))]) @
     (case dict_get (ss_complexities src) (fs_address fn) of
        None \<Rightarrow> [] | Some c \<Rightarrow> fields_of [(''complexity'', PyInt c)]) @
     (case dict_get (ss_function_hashes src) (fs_address fn) of
        None \<Rightarrow> [] | Some h \<Rightarrow> fields_of [(''function_hash'', PyStr h)])"

definition add_function :: "SessionSources \<Rightarrow> LocalId \<Rightarrow> FunctionSummary \<Rightarrow> Builder \<Rightarrow> exc + Builder" where
  "add_function src program_id fn b =
     (case addr_of (Some (fs_address fn)) of
        None \<Rightarrow> Inr b
      | Some addr \<Rightarrow>
          chain (case dict_get (ss_renames src) (fs_address fn) of
              Some r \<Rightarrow> add_node ''FUNCTION'' r ''USER'' ''curated'' (Some addr)
                (function_attrs src fn @ fields_of [(''renamed'', PyBool True)]) b
            | None \<Rightarrow> add_node ''FUNCTION'' (raw_text (fs_name fn)) ''GHIDRA'' ''raw'' (Some addr) (function_attrs src fn) b)
            (\<lambda>(_, b). add_edge ''CONTAINS'' program_id (''FUNCTION'', ByAddress addr) ''GHIDRA'' [] b))"

definition add_call_node :: "CallGraphNode \<Rightarrow> Builder \<Rightarrow> exc + Builder" where
  "add_call_node n b =
     (case addr_of (Some (cn_address n)) of
        None \<Rightarrow> Inr b
      | Some addr \<Rightarrow> map_sum id snd (add_node ''FUNCTION'' (raw_text (cn_name n)) ''GHIDRA'' ''raw'' (Some addr)
          (fields_of [(''is_external'', PyBool (cn_is_external n))]) b))"

definition add_ref_edge :: "string \<Rightarrow> pystr \<Rightarrow> pystr \<Rightarrow> attributes \<Rightarrow> Builder \<Rightarrow> exc + Builder" where
  "add_ref_edge edge_type fr to ats b =
     (case (addr_of (Some fr), addr_of (Some to)) of
        (Some f, Some t) \<Rightarrow> add_edge edge_type (ADDR_REF, ByAddress f) (ADDR_REF, ByAddress t) ''GHIDRA'' ats b
      | _ \<Rightarrow> Inr b)"

definition add_call_graph :: "SessionSources \<Rightarrow> Builder \<Rightarrow> exc + Builder" where
  "add_call_graph src b =
     chain (loop_raise add_call_node (ss_call_nodes src) b)
       (loop_raise (\<lambda>e. add_ref_edge ''CALLS'' (ce_from e) (ce_to e) []) (ss_call_edges src))"

definition add_xrefs :: "SessionSources \<Rightarrow> Builder \<Rightarrow> exc + Builder" where
  "add_xrefs src = loop_raise (\<lambda>x. add_ref_edge ''XREF'' (xr_from x) (xr_to x)
     (fields_of [(''ref_type'', PyStr (xr_ref_type x))])) (ss_xrefs src)"

definition add_imports_exports :: "SessionSources \<Rightarrow> LocalId \<Rightarrow> Builder \<Rightarrow> exc + Builder" where
  "add_imports_exports src program_id b =
     chain (loop_raise (\<lambda>i b. chain (add_node ''IMPORT'' (raw_text (im_name i)) ''GHIDRA'' ''raw'' (addr_of (im_address i))
              (fields_of [(''library'', raw_opt (im_library i))]) b)
              (\<lambda>(n, b). add_edge ''IMPORTS'' program_id (local_id n) ''GHIDRA'' [] b)) (ss_imports src) b)
       (loop_raise (\<lambda>e b. chain (add_node ''EXPORT'' (raw_text (ex_name e)) ''GHIDRA'' ''raw'' (addr_of (Some (ex_address e))) [] b)
              (\<lambda>(n, b). add_edge ''EXPORTS'' program_id (local_id n) ''GHIDRA'' [] b)) (ss_exports src))"

definition add_strings :: "SessionSources \<Rightarrow> LocalId \<Rightarrow> Builder \<Rightarrow> exc + Builder" where
  "add_strings src program_id = loop_raise (\<lambda>s b.
     chain (add_node ''STRING'' (raw_text (ds_value s)) ''BINARY'' ''raw'' (addr_of (Some (ds_address s)))
              (fields_of [(''length'', PyInt (ds_length s))]) b)
       (\<lambda>(n, b). add_edge ''CONTAINS'' program_id (local_id n) ''BINARY'' [] b)) (ss_strings src)"

text \<open>An edge to an address that is there only if the address is.\<close>

definition add_reference :: "string \<Rightarrow> LocalId \<Rightarrow> pystr option \<Rightarrow> string \<Rightarrow> attributes \<Rightarrow> Builder \<Rightarrow> exc + Builder" where
  "add_reference edge_type src address provenance ats b =
     (case addr_of address of
        None \<Rightarrow> Inr b
      | Some a \<Rightarrow> add_edge edge_type src (ADDR_REF, ByAddress a) provenance ats b)"

definition add_iocs :: "SessionSources \<Rightarrow> Builder \<Rightarrow> exc + Builder" where
  "add_iocs src = loop_raise (\<lambda>i b.
     chain (add_node ''IOC'' (raw_text (io_value i)) ''INFERRED'' ''inferred'' None
              (fields_of [(''category'', PyStr (io_category i))]) b)
       (\<lambda>(n, b). add_reference ''REFERENCES'' (local_id n) (io_source_address i) ''INFERRED'' [] b)) (ss_iocs src)"

definition add_crypto_constant :: "CryptoConstantFinding \<Rightarrow> Builder \<Rightarrow> exc + Builder" where
  "add_crypto_constant c b =
     (case addr_of (Some (cc_address c)) of
        None \<Rightarrow> Inr b
      | Some addr \<Rightarrow> map_sum id snd (add_node ''CONSTANT'' (cc_algorithm c) ''INFERRED'' ''inferred'' (Some addr)
          (fields_of [(''algorithm'', PyStr (cc_algorithm c)), (''kind'', PyStr (cc_kind c)),
             (''source'', PyStr (ascii ''constant_scan''))]) b))"

definition add_crypto_indicator :: "CryptoIndicator \<Rightarrow> Builder \<Rightarrow> exc + Builder" where
  "add_crypto_indicator c b =
     (let ats = fields_of [(''kind'', PyStr (ci_kind c)), (''source'', PyStr (ci_source c)),
            (''detail'', PyStr (raw_text (ci_detail c))), (''confidence'', PyFloat (ci_confidence c))]
      in map_sum id snd (case addr_of (ci_address c) of
           Some addr \<Rightarrow> add_node ''CONSTANT'' (ci_kind c) ''INFERRED'' ''inferred'' (Some addr) ats b
         | None \<Rightarrow> add_node ''CONSTANT'' (ci_kind c @ 58 # raw_text (ci_detail c)) ''INFERRED'' ''inferred'' None ats b))"

definition add_crypto :: "SessionSources \<Rightarrow> Builder \<Rightarrow> exc + Builder" where
  "add_crypto src b = chain (loop_raise add_crypto_constant (ss_crypto_constants src) b)
     (loop_raise add_crypto_indicator (ss_crypto_indicators src))"

definition add_secret :: "SecretFinding \<Rightarrow> Builder \<Rightarrow> exc + Builder" where
  "add_secret s b =
     (let ats = fields_of [(''category'', PyStr (sf_category s)), (''pattern_id'', PyStr (sf_pattern_id s)),
            (''masked_preview'', PyStr (raw_text (sf_masked_preview s))), (''preview_hash'', PyStr (sf_preview_hash s)),
            (''entropy'', case sf_entropy s of None \<Rightarrow> PyNone | Some e \<Rightarrow> PyFloat e)]
      in map_sum id snd (case addr_of (sf_address s) of
           Some addr \<Rightarrow> add_node ''SECRET'' (sf_pattern_id s) ''INFERRED'' ''inferred'' (Some addr) ats b
         | None \<Rightarrow> add_node ''SECRET'' (sf_pattern_id s @ 58 # sf_preview_hash s) ''INFERRED'' ''inferred'' None ats b))"

definition add_capability :: "CapabilityMatch \<Rightarrow> Builder \<Rightarrow> exc + Builder" where
  "add_capability c b =
     chain (add_node ''VULN'' (cm_name c) ''INFERRED'' ''inferred'' None
         (fields_of [(''rule_id'', PyStr (cm_rule_id c)), (''name'', PyStr (cm_name c)), (''namespace'', PyStr (cm_namespace c)),
            (''confidence'', PyFloat (cm_confidence c)),
            (''attack'', PyList (map (\<lambda>t. PyDict (fields_of [(''tactic'', PyStr (at_tactic t)),
               (''technique_id'', PyStr (at_technique_id t))])) (cm_attack c)))]) b)
       (\<lambda>(n, b). loop_raise (\<lambda>ev. add_reference ''REFERENCES'' (local_id n) (ev_address ev) ''INFERRED''
          (fields_of [(''where'', PyStr (ev_where ev)), (''detail'', PyStr (raw_text (ev_detail ev)))])) (cm_evidence c) b)"

definition add_comment :: "pystr \<times> pystr \<times> pystr \<Rightarrow> Builder \<Rightarrow> exc + Builder" where
  "add_comment comment b =
     (case comment of (address, slot, body) \<Rightarrow>
        (case addr_of (Some address) of
           None \<Rightarrow> Inr b
         | Some addr \<Rightarrow>
             chain (add_node ''COMMENT'' (address @ 58 # slot) ''USER'' ''curated'' None
                 (fields_of [(''slot'', PyStr slot), (''text'', PyStr body), (''address'', PyStr address)]) b)
               (\<lambda>(n, b). add_edge ''ANNOTATES'' (local_id n) (ADDR_REF, ByAddress addr) ''USER'' [] b)))"

definition add_type :: "LocalId \<Rightarrow> pystr \<times> pystr \<times> pyval list \<Rightarrow> Builder \<Rightarrow> exc + Builder" where
  "add_type program_id ty b =
     (case ty of (kind, name, flds) \<Rightarrow>
        let node_kind = (if kind = ascii ''union'' then ''UNION'' else ''STRUCT'') in
        chain (add_node node_kind name ''USER'' ''curated'' None (fields_of [(''fields'', PyList flds)]) b)
          (\<lambda>(_, b). add_edge ''CONTAINS'' program_id (node_kind, ByName name) ''USER'' [] b))"

definition add_annotations :: "SessionSources \<Rightarrow> LocalId \<Rightarrow> Builder \<Rightarrow> exc + Builder" where
  "add_annotations src program_id b =
     chain (loop_raise add_comment (ss_comments src) b) (loop_raise (add_type program_id) (ss_types src))"

definition build_graph :: "SessionSources \<Rightarrow> exc + GraphBatch" where
  "build_graph src =
     (let program_id = (''PROGRAM'', ByName (pm_sha256 (ss_metadata src))) in
      chain (add_program src new_builder) (\<lambda>b.
      chain (loop_raise (add_function src program_id) (ss_functions src) b) (\<lambda>b.
      chain (add_call_graph src b) (\<lambda>b.
      chain (add_xrefs src b) (\<lambda>b.
      chain (add_imports_exports src program_id b) (\<lambda>b.
      chain (add_strings src program_id b) (\<lambda>b.
      chain (add_iocs src b) (\<lambda>b.
      chain (add_crypto src b) (\<lambda>b.
      chain (loop_raise add_secret (ss_secrets src) b) (\<lambda>b.
      chain (loop_raise add_capability (ss_capabilities src) b) (\<lambda>b.
      chain (add_annotations src program_id b) (\<lambda>b. Inr (finish b)))))))))))))"

subsection \<open>The corpus\<close>

definition CORPUS_PROJECT :: pystr where "CORPUS_PROJECT = ascii ''vivarium-corpus''"

abbreviation MAX_CORPUS_OCCURRENCES :: nat where "MAX_CORPUS_OCCURRENCES \<equiv> 50000"

definition occurrence_name :: "pystr \<Rightarrow> pystr \<Rightarrow> pystr" where
  "occurrence_name sha address_hex = take 12 sha @ 58 # address_hex"

text \<open>\<open>str.lower\<close> is an argument.\<close>

definition norm_addr :: "(pystr \<Rightarrow> pystr) \<Rightarrow> pystr \<Rightarrow> pystr" where
  "norm_addr lower v =
     (let t = py_strip v in if lower (take 2 t) = ascii ''0x'' then lower (drop 2 t) else lower t)"

definition plain_node :: "string \<Rightarrow> pystr \<Rightarrow> string \<Rightarrow> string \<Rightarrow> attributes \<Rightarrow> NodeSpec" where
  "plain_node kind name provenance layer ats =
     \<lparr> nd_kind = kind, nd_name = name, nd_provenance = provenance, nd_layer = layer, nd_address = None, nd_attrs = ats \<rparr>"

definition plain_edge :: "string \<Rightarrow> NodeSpec \<Rightarrow> NodeSpec \<Rightarrow> string \<Rightarrow> EdgeSpec" where
  "plain_edge edge_type src dst provenance =
     \<lparr> ed_type = edge_type, ed_src = local_id src, ed_dst = local_id dst, ed_provenance = provenance, ed_attrs = [] \<rparr>"

text \<open>The nodes and edges of one occurrence.\<close>

definition occurrence_specs ::
  "(pystr \<Rightarrow> pystr) \<Rightarrow> pystr \<Rightarrow> (pystr, pystr) dict \<Rightarrow> (pystr, pystr) dict \<Rightarrow> NodeSpec \<Rightarrow> pystr \<times> pystr \<Rightarrow>
   NodeSpec list \<times> EdgeSpec list" where
  "occurrence_specs lower sha byte_hashes function_names anchor row =
     (case row of (address, masked) \<Rightarrow>
        let addr_hex = norm_addr lower address;
            exact = dict_get byte_hashes address;
            occ = plain_node ''FUNCTION'' (occurrence_name sha addr_hex) ''GHIDRA'' ''raw''
              (fields_of [(''sha256'', PyStr sha), (''address'', PyStr addr_hex), (''masked_hash'', PyStr masked)] @
               (case exact of None \<Rightarrow> [] | Some e \<Rightarrow> fields_of [(''exact_bytes'', PyStr e)]) @
               (case dict_get function_names address of None \<Rightarrow> [] | Some n \<Rightarrow> fields_of [(''ghidra_name'', PyStr n)]));
            klass = plain_node ''CONSTANT'' masked ''INFERRED'' ''inferred'' []
        in (case exact of
              None \<Rightarrow> ([occ, klass],
                [plain_edge ''CONTAINS'' anchor occ ''BINARY'', plain_edge ''SAME_AS'' occ klass ''INFERRED''])
            | Some e \<Rightarrow>
                (let bklass = plain_node ''CONSTANT'' (ascii ''bytes:'' @ e) ''INFERRED'' ''inferred'' []
                 in ([occ, klass, bklass],
                   [plain_edge ''CONTAINS'' anchor occ ''BINARY'', plain_edge ''SAME_AS'' occ klass ''INFERRED'',
                    plain_edge ''EQUIV'' occ bklass ''INFERRED'']))))"

definition family_specs :: "NodeSpec \<Rightarrow> pystr \<times> real \<times> pystr list \<times> pystr \<Rightarrow> NodeSpec \<times> EdgeSpec" where
  "family_specs anchor row =
     (case row of (label, confidence, basis, version) \<Rightarrow>
        let fam = plain_node ''OTHER'' (ascii ''family:'' @ label) ''INFERRED'' ''inferred''
              (fields_of [(''confidence'', PyFloat confidence), (''basis'', PyList (map PyStr basis)),
                 (''corpus_version'', PyStr version)])
        in (fam, plain_edge ''REFERENCES'' anchor fam ''INFERRED''))"

definition build_corpus_specs ::
  "(pystr \<Rightarrow> pystr) \<Rightarrow> pystr \<Rightarrow> pystr \<Rightarrow> (pystr, pystr) dict \<Rightarrow> (pystr, pystr) dict \<Rightarrow> (pystr, pystr) dict \<Rightarrow>
   (pystr \<times> real \<times> pystr list \<times> pystr) list \<Rightarrow> nat \<Rightarrow> GraphBatch" where
  "build_corpus_specs lower sha fmt masked_hashes byte_hashes function_names families max_occurrences =
     (let anchor = plain_node ''PROGRAM'' sha ''BINARY'' ''raw'' (fields_of [(''format'', PyStr fmt)]);
          occs = map (occurrence_specs lower sha byte_hashes function_names anchor)
            (take max_occurrences (sort_key fst masked_hashes));
          fams = map (family_specs anchor) families
      in \<lparr> batch_nodes = anchor # concat (map fst occs) @ map fst fams,
           batch_edges = concat (map snd occs) @ map snd fams \<rparr>)"

end
