(* ===== verification/Graph_Driver.thy ===== *)
theory Graph_Driver
  imports Graph_Mapper
begin

text \<open>
  The imperative half of the memory-graph export (\<open>graph_export/driver.py\<close>): gathering the facts of a
  session from the tools, pushing a batch to the graph store, exporting and closing. The tool caller and
  the store (\<open>graph_export/ports.py\<close>) are arguments: an answer may depend on every call made before, and
  any call may raise. Validation of a payload by a schema model is an argument too; \<open>None\<close> is its
  \<open>ValidationError\<close>. Logging is left out.
\<close>

subsection \<open>Ports\<close>

datatype event =
    ToolCall string attributes
  | EnsureProject pystr pystr
  | UpsertNodes pystr "attributes list"
  | UpsertEdges pystr "attributes list"

record ports =
  call_tool :: "event list \<Rightarrow> string \<Rightarrow> attributes \<Rightarrow> exc + pyval"
  ensure_project :: "event list \<Rightarrow> pystr \<Rightarrow> pystr \<Rightarrow> exc + pystr"
  upsert_nodes :: "event list \<Rightarrow> pystr \<Rightarrow> attributes list \<Rightarrow> exc + attributes list"
  upsert_edges :: "event list \<Rightarrow> pystr \<Rightarrow> attributes list \<Rightarrow> exc + attributes list"
  show_other :: "pyval \<Rightarrow> pystr"
  lower_case :: "pystr \<Rightarrow> pystr"

record models =
  mk_metadata :: "pyval \<Rightarrow> ProgramMetadata option"
  mk_fingerprint :: "pyval \<Rightarrow> ProgramFingerprintOut option"
  mk_function :: "pyval \<Rightarrow> FunctionSummary option"
  mk_call_graph :: "pyval \<Rightarrow> CallGraphOut option"
  mk_top_fan_in :: "pyval \<Rightarrow> pystr list option"
  mk_xrefs :: "pyval \<Rightarrow> Xref list option"
  mk_import :: "pyval \<Rightarrow> ImportedSymbol option"
  mk_export :: "pyval \<Rightarrow> ExportedSymbol option"
  mk_string :: "pyval \<Rightarrow> DefinedString option"
  mk_ioc :: "pyval \<Rightarrow> IocMatch option"
  mk_crypto_constant :: "pyval \<Rightarrow> CryptoConstantFinding option"
  mk_crypto_indicator :: "pyval \<Rightarrow> CryptoIndicator option"
  mk_secret :: "pyval \<Rightarrow> SecretFinding option"
  mk_capability :: "pyval \<Rightarrow> CapabilityMatch option"
  mk_family :: "pyval \<Rightarrow> FamilyMatchOut option"
  mk_detail :: "pyval \<Rightarrow> FunctionDetail option"
  mk_complexity :: "pyval \<Rightarrow> int option"
  mk_function_hash :: "pyval \<Rightarrow> (pystr \<times> pystr) option"

record ExportOptions =
  page_size :: int
  max_functions :: int
  max_strings :: int
  max_imports :: int
  max_exports :: int
  max_iocs :: int
  max_crypto :: int
  max_secrets :: int
  max_capabilities :: int
  max_call_nodes :: int
  max_call_edges :: int
  max_xref_targets :: int
  max_xrefs_per_target :: int
  enrich_functions :: bool
  max_enrich_functions :: int

definition default_options :: ExportOptions where
  "default_options = \<lparr> page_size = 1000, max_functions = 50000, max_strings = 50000, max_imports = 10000,
     max_exports = 10000, max_iocs = 20000, max_crypto = 20000, max_secrets = 10000, max_capabilities = 10000,
     max_call_nodes = 50000, max_call_edges = 200000, max_xref_targets = 256, max_xrefs_per_target = 256,
     enrich_functions = False, max_enrich_functions = 2000 \<rparr>"

record ExportStats =
  st_project_id :: pystr
  st_project_name :: pystr
  st_nodes_total :: nat
  st_nodes_created :: nat
  st_edges_total :: nat
  st_edges_created :: nat
  st_edges_skipped :: nat
  st_failed_tools :: "string list"

definition new_stats :: "pystr \<Rightarrow> pystr \<Rightarrow> ExportStats" where
  "new_stats pid name = \<lparr> st_project_id = pid, st_project_name = name, st_nodes_total = 0, st_nodes_created = 0,
     st_edges_total = 0, st_edges_created = 0, st_edges_skipped = 0, st_failed_tools = [] \<rparr>"

subsection \<open>Steps\<close>

text \<open>
  What a run has done so far: the calls, the tools that failed, the truncation flags. A step raises or
  returns; one that may not return at all is \<open>None\<close>.
\<close>

record Run =
  rn_events :: "event list"
  rn_failed :: "string list"
  rn_truncated :: "(pystr, bool) dict"

type_synonym 'a step = "Run \<Rightarrow> ((exc + 'a) \<times> Run) option"

definition done_with :: "'a \<Rightarrow> 'a step" where
  "done_with x g = Some (Inr x, g)"

definition fails :: "exc \<Rightarrow> 'a step" where
  "fails e g = Some (Inl e, g)"

definition seq :: "'a step \<Rightarrow> ('a \<Rightarrow> 'b step) \<Rightarrow> 'b step" where
  "seq m f g = (case m g of
     None \<Rightarrow> None
   | Some (Inl e, g) \<Rightarrow> Some (Inl e, g)
   | Some (Inr x, g) \<Rightarrow> f x g)"

definition raised_or :: "exc + 'a \<Rightarrow> 'a step" where
  "raised_or r g = Some (r, g)"

fun for_steps :: "('a \<Rightarrow> 'b step) \<Rightarrow> 'a list \<Rightarrow> 'b list step" where
  "for_steps f [] = done_with []"
| "for_steps f (x # xs) = seq (f x) (\<lambda>y. seq (for_steps f xs) (\<lambda>ys. done_with (y # ys)))"

definition record_event :: "event \<Rightarrow> Run \<Rightarrow> Run" where
  "record_event e g = g\<lparr>rn_events := rn_events g @ [e]\<rparr>"

definition tool :: "ports \<Rightarrow> string \<Rightarrow> attributes \<Rightarrow> pyval step" where
  "tool env name args g = Some (call_tool env (rn_events g) name args, record_event (ToolCall name args) g)"

definition note_failed :: "string \<Rightarrow> Run \<Rightarrow> Run" where
  "note_failed name g = g\<lparr>rn_failed := rn_failed g @ [name]\<rparr>"

definition mark_truncated :: "string \<Rightarrow> bool \<Rightarrow> Run \<Rightarrow> Run" where
  "mark_truncated key b g = g\<lparr>rn_truncated := dict_set (ascii key) b (rn_truncated g)\<rparr>"

definition parse_with :: "(pyval \<Rightarrow> 'a option) \<Rightarrow> pyval \<Rightarrow> exc + 'a" where
  "parse_with mk v = (case mk v of None \<Rightarrow> Inl PydanticError | Some x \<Rightarrow> Inr x)"

definition parse_tool :: "ports \<Rightarrow> string \<Rightarrow> attributes \<Rightarrow> (pyval \<Rightarrow> 'a option) \<Rightarrow> 'a step" where
  "parse_tool env name args mk = seq (tool env name args) (\<lambda>p. raised_or (parse_with mk p))"

definition safe_tool :: "ports \<Rightarrow> string \<Rightarrow> attributes \<Rightarrow> (pyval \<Rightarrow> 'a option) \<Rightarrow> 'a option step" where
  "safe_tool env name args mk g = (case parse_tool env name args mk g of
     None \<Rightarrow> None
   | Some (Inl _, g) \<Rightarrow> Some (Inr None, note_failed name g)
   | Some (Inr x, g) \<Rightarrow> Some (Inr (Some x), g))"

subsection \<open>Pagination\<close>

text \<open>
  The rows of a payload: \<open>payload.get(list_key, [])\<close> if it is a dictionary; a text is a sequence of
  characters, any other true value cannot be sliced.
\<close>

definition rows_of :: "string \<Rightarrow> pyval \<Rightarrow> exc + pyval list" where
  "rows_of list_key payload = (case payload of
     PyDict d \<Rightarrow> (case py_get d (ascii list_key) of
        PyList xs \<Rightarrow> Inr xs
      | PyStr s \<Rightarrow> Inr (map (\<lambda>c. PyStr [c]) s)
      | v \<Rightarrow> if truthy v then Inl OtherException else Inr [])
   | _ \<Rightarrow> Inr [])"

fun parse_rows :: "(pyval \<Rightarrow> 'a option) \<Rightarrow> pyval list \<Rightarrow> exc + 'a list" where
  "parse_rows mk [] = Inr []"
| "parse_rows mk (r # rs) = chain (parse_with mk r) (\<lambda>x. chain (parse_rows mk rs) (\<lambda>xs. Inr (x # xs)))"

text \<open>
  One turn of the loop: \<open>Inl\<close> the rows with which it ends, \<open>Inr\<close> those with which it goes on. A tool that
  raises ends it; a row that is not valid raises out of it.
\<close>

definition page_turn ::
  "ports \<Rightarrow> string \<Rightarrow> attributes \<Rightarrow> string \<Rightarrow> (pyval \<Rightarrow> 'a option) \<Rightarrow> string \<Rightarrow> int \<Rightarrow> 'a list \<Rightarrow> int \<Rightarrow>
   ('a list + 'a list) step" where
  "page_turn env name args list_key mk trunc_key limit out offset g =
     (case tool env name (args @ fields_of [(''offset'', PyInt offset), (''limit'', PyInt limit)]) g of
        None \<Rightarrow> None
      | Some (Inl _, g) \<Rightarrow> Some (Inr (Inl out), note_failed name g)
      | Some (Inr payload, g) \<Rightarrow>
          (case rows_of list_key payload of
             Inl e \<Rightarrow> Some (Inl e, g)
           | Inr rows \<Rightarrow>
               if rows = [] then Some (Inr (Inl out), g)
               else
                 (case parse_rows mk (py_slice rows 0 limit) of
                    Inl e \<Rightarrow> Some (Inl e, g)
                  | Inr new \<Rightarrow>
                      if int (length rows) < limit then
                        Some (Inr (Inl (out @ new)),
                          if (case payload of PyDict d \<Rightarrow> truthy (py_get d (ascii ''truncated'')) | _ \<Rightarrow> False)
                          then mark_truncated trunc_key True g else g)
                      else Some (Inr (Inr (out @ new)), g))))"

partial_function (option) paginate_loop ::
  "ports \<Rightarrow> int \<Rightarrow> string \<Rightarrow> attributes \<Rightarrow> string \<Rightarrow> (pyval \<Rightarrow> 'a option) \<Rightarrow> int \<Rightarrow> string \<Rightarrow> 'a list \<Rightarrow> int \<Rightarrow> Run \<Rightarrow>
   ((exc + 'a list) \<times> Run) option" where
  "paginate_loop env psize name args list_key mk cap trunc_key out offset g =
     (if int (length out) < cap then
        (let limit = min psize (cap - int (length out)) in
         case page_turn env name args list_key mk trunc_key limit out offset g of
           None \<Rightarrow> None
         | Some (Inl e, g) \<Rightarrow> Some (Inl e, g)
         | Some (Inr (Inl final), g) \<Rightarrow> Some (Inr final, g)
         | Some (Inr (Inr out), g) \<Rightarrow>
             paginate_loop env psize name args list_key mk cap trunc_key out (offset + limit) g)
      else Some (Inr out, mark_truncated trunc_key True g))"

definition paginate ::
  "ports \<Rightarrow> ExportOptions \<Rightarrow> string \<Rightarrow> attributes \<Rightarrow> string \<Rightarrow> (pyval \<Rightarrow> 'a option) \<Rightarrow> int \<Rightarrow> string \<Rightarrow> 'a list step" where
  "paginate env opts name args list_key mk cap trunc_key =
     paginate_loop env (page_size opts) name args list_key mk cap trunc_key [] 0"

subsection \<open>Gathering\<close>

definition session_args :: "pystr \<Rightarrow> attributes" where
  "session_args sid = fields_of [(''session_id'', PyStr sid)]"

definition some_or :: "'b \<Rightarrow> 'a option \<Rightarrow> ('a \<Rightarrow> 'b) \<Rightarrow> 'b" where
  "some_or d v f = (case v of None \<Rightarrow> d | Some x \<Rightarrow> f x)"

definition gather_xrefs :: "ports \<Rightarrow> models \<Rightarrow> pystr \<Rightarrow> ExportOptions \<Rightarrow> SessionSources \<Rightarrow> SessionSources step" where
  "gather_xrefs env ms sid opts src =
     seq (safe_tool env ''call_graph_metrics''
            (session_args sid @ fields_of [(''top_n'', PyInt (max_xref_targets opts))]) (mk_top_fan_in ms)) (\<lambda>metrics.
     case metrics of
       None \<Rightarrow> done_with src
     | Some ranking \<Rightarrow>
         seq (for_steps (\<lambda>address. safe_tool env ''xrefs_to'' (session_args sid @ fields_of
                [(''target'', PyStr address), (''limit'', PyInt (max_xrefs_per_target opts))]) (mk_xrefs ms))
              (py_slice ranking 0 (max_xref_targets opts))) (\<lambda>pages.
         done_with (src\<lparr>ss_xrefs := concat (map (\<lambda>p. some_or [] p id) pages)\<rparr>)))"

definition enrich_function :: "ports \<Rightarrow> models \<Rightarrow> pystr \<Rightarrow> FunctionSummary \<Rightarrow> SessionSources \<Rightarrow> SessionSources step" where
  "enrich_function env ms sid fn src =
     (let args = session_args sid @ fields_of [(''function'', PyStr (fs_address fn))]; a = fs_address fn in
      seq (safe_tool env ''get_function'' args (mk_detail ms)) (\<lambda>detail.
      seq (safe_tool env ''cyclomatic_complexity'' args (mk_complexity ms)) (\<lambda>cx.
      seq (safe_tool env ''function_hash'' args (mk_function_hash ms)) (\<lambda>fh.
      let src = some_or src detail (\<lambda>d. src\<lparr>ss_function_details := dict_set a d (ss_function_details src)\<rparr>);
          src = some_or src cx (\<lambda>c. src\<lparr>ss_complexities := dict_set a c (ss_complexities src)\<rparr>)
      in done_with (some_or src fh (\<lambda>(masked, exact). src
           \<lparr>ss_function_hashes := dict_set a masked (ss_function_hashes src),
            ss_function_byte_hashes := dict_set a exact (ss_function_byte_hashes src)\<rparr>))))))"

fun enrich_all :: "ports \<Rightarrow> models \<Rightarrow> pystr \<Rightarrow> FunctionSummary list \<Rightarrow> SessionSources \<Rightarrow> SessionSources step" where
  "enrich_all env ms sid [] src = done_with src"
| "enrich_all env ms sid (fn # fns) src = seq (enrich_function env ms sid fn src) (enrich_all env ms sid fns)"

text \<open>\<open>_unwrap\<close> on a value of an exported document, and \<open>_unwrap(v) or ""\<close>.\<close>

definition unwrap :: "pyval \<Rightarrow> pystr option" where
  "unwrap v = (case v of
     PyDict d \<Rightarrow> (case py_get d (ascii ''value'') of PyStr s \<Rightarrow> Some s | _ \<Rightarrow> None)
   | PyStr s \<Rightarrow> Some s
   | _ \<Rightarrow> None)"

definition unwrap_or_empty :: "pyval \<Rightarrow> pystr" where
  "unwrap_or_empty v = (case unwrap v of None \<Rightarrow> [] | Some s \<Rightarrow> s)"

definition str_of_value :: "ports \<Rightarrow> pyval \<Rightarrow> pystr" where
  "str_of_value env v = (case v of
     PyStr s \<Rightarrow> s | PyNone \<Rightarrow> ascii ''None'' | PyBool b \<Rightarrow> ascii (if b then ''True'' else ''False'')
   | PyInt i \<Rightarrow> dec_int i | _ \<Rightarrow> show_other env v)"

text \<open>\<open>list(v)\<close> and a \<open>for\<close> loop over a value: a dictionary gives its keys, a text its characters.\<close>

definition items_of :: "pyval \<Rightarrow> exc + pyval list" where
  "items_of v = (case v of
     PyList xs \<Rightarrow> Inr xs
   | PyStr s \<Rightarrow> Inr (map (\<lambda>c. PyStr [c]) s)
   | PyDict d \<Rightarrow> Inr (map (\<lambda>(k, _). PyStr k) d)
   | _ \<Rightarrow> Inl OtherException)"

definition get_or :: "attributes \<Rightarrow> string \<Rightarrow> pyval \<Rightarrow> pyval" where
  "get_or d key fallback = (case dict_get d (ascii key) of None \<Rightarrow> fallback | Some v \<Rightarrow> v)"

definition apply_type :: "ports \<Rightarrow> pyval \<Rightarrow> SessionSources \<Rightarrow> exc + SessionSources" where
  "apply_type env spec src = (case spec of
     PyDict d \<Rightarrow> (case py_get d (ascii ''name'') of
        PyStr name \<Rightarrow> chain (items_of (get_or d ''fields'' (PyList []))) (\<lambda>flds.
          Inr (src\<lparr>ss_types := ss_types src @ [(str_of_value env (get_or d ''kind'' (PyStr (ascii ''struct''))), name, flds)]\<rparr>))
      | _ \<Rightarrow> Inr src)
   | _ \<Rightarrow> Inr src)"

definition apply_annotation_entry :: "ports \<Rightarrow> attributes \<Rightarrow> SessionSources \<Rightarrow> exc + SessionSources" where
  "apply_annotation_entry env entry src =
     (let kind = py_get entry (ascii ''kind'') in
      if kind = PyStr (ascii ''rename_function'') \<or> kind = PyStr (ascii ''rename_symbol'') then
        (case py_get entry (ascii (if kind = PyStr (ascii ''rename_function'') then ''function'' else ''identifier'')) of
           PyStr a \<Rightarrow> Inr (src\<lparr>ss_renames := dict_set a (unwrap_or_empty (py_get entry (ascii ''new_name''))) (ss_renames src)\<rparr>)
         | _ \<Rightarrow> Inr src)
      else if kind = PyStr (ascii ''set_comment'') then
        (case py_get entry (ascii ''address'') of
           PyStr a \<Rightarrow> Inr (src\<lparr>ss_comments := ss_comments src @
             [(a, str_of_value env (get_or entry ''comment_type'' (PyStr [])), unwrap_or_empty (py_get entry (ascii ''text'')))]\<rparr>)
         | _ \<Rightarrow> Inr src)
      else if kind = PyStr (ascii ''define_types'') then
        (let ts = get_or entry ''types'' (PyList []) in
         chain (items_of (if truthy ts then ts else PyList [])) (\<lambda>specs. loop_raise (apply_type env) specs src))
      else Inr src)"

definition apply_entry :: "ports \<Rightarrow> pyval \<Rightarrow> SessionSources \<Rightarrow> exc + SessionSources" where
  "apply_entry env e src = (case e of PyDict d \<Rightarrow> apply_annotation_entry env d src | _ \<Rightarrow> Inr src)"

definition gather_annotations :: "ports \<Rightarrow> pystr \<Rightarrow> SessionSources \<Rightarrow> SessionSources step" where
  "gather_annotations env sid src g =
     (case tool env ''session_export_annotations'' (session_args sid) g of
        None \<Rightarrow> None
      | Some (Inl _, g) \<Rightarrow> Some (Inr src, note_failed ''session_export_annotations'' g)
      | Some (Inr payload, g) \<Rightarrow>
          (let document = (case payload of PyDict d \<Rightarrow> get_or d ''document'' payload | _ \<Rightarrow> PyDict []);
               entries = (case document of PyDict d \<Rightarrow> get_or d ''entries'' (PyList []) | _ \<Rightarrow> PyList [])
           in Some (chain (items_of entries) (\<lambda>es. loop_raise (apply_entry env) es src), g)))"

definition gather_sources :: "ports \<Rightarrow> models \<Rightarrow> pystr \<Rightarrow> ExportOptions \<Rightarrow> (SessionSources \<times> string list) step" where
  "gather_sources env ms sid opts =
     (let args = session_args sid in
      seq (parse_tool env ''program_metadata'' args (mk_metadata ms)) (\<lambda>meta.
      seq (safe_tool env ''program_fingerprint'' args (mk_fingerprint ms)) (\<lambda>fp.
      seq (\<lambda>g. Some (Inr (), if fp = None then g else mark_truncated ''coverage'' False g)) (\<lambda>_.
      seq (paginate env opts ''list_functions'' args ''functions'' (mk_function ms) (max_functions opts) ''functions'') (\<lambda>functions.
      seq (safe_tool env ''call_graph'' (args @ fields_of [(''max_nodes'', PyInt (max_call_nodes opts)),
             (''max_edges'', PyInt (max_call_edges opts))]) (mk_call_graph ms)) (\<lambda>cg.
      seq (\<lambda>g. Some (Inr (), some_or g cg (\<lambda>c. mark_truncated ''call_graph'' (cg_truncated c) g))) (\<lambda>_.
      let src = (new_sources meta)\<lparr>ss_fingerprint := fp, ss_functions := functions,
            ss_call_nodes := some_or [] cg cg_nodes, ss_call_edges := some_or [] cg cg_edges\<rparr> in
      seq (gather_xrefs env ms sid opts src) (\<lambda>src.
      seq (paginate env opts ''list_imports'' args ''imports'' (mk_import ms) (max_imports opts) ''imports'') (\<lambda>imports.
      seq (paginate env opts ''list_exports'' args ''exports'' (mk_export ms) (max_exports opts) ''exports'') (\<lambda>exports.
      seq (paginate env opts ''list_strings'' args ''strings'' (mk_string ms) (max_strings opts) ''strings'') (\<lambda>strings.
      seq (paginate env opts ''ioc_scan'' args ''matches'' (mk_ioc ms) (max_iocs opts) ''iocs'') (\<lambda>iocs.
      seq (paginate env opts ''crypto_constant_scan'' args ''findings'' (mk_crypto_constant ms) (max_crypto opts)
             ''crypto_constants'') (\<lambda>constants.
      seq (paginate env opts ''crypto_detect'' args ''indicators'' (mk_crypto_indicator ms) (max_crypto opts)
             ''crypto_indicators'') (\<lambda>indicators.
      seq (paginate env opts ''secret_scan'' args ''findings'' (mk_secret ms) (max_secrets opts) ''secrets'') (\<lambda>secrets.
      seq (paginate env opts ''capability_scan'' args ''capabilities'' (mk_capability ms) (max_capabilities opts)
             ''capabilities'') (\<lambda>capabilities.
      seq (safe_tool env ''family_match'' args (mk_family ms)) (\<lambda>family.
      let src = src\<lparr>ss_imports := imports, ss_exports := exports, ss_strings := strings, ss_iocs := iocs,
            ss_crypto_constants := constants, ss_crypto_indicators := indicators, ss_secrets := secrets,
            ss_capabilities := capabilities, ss_family := family\<rparr> in
      seq (if enrich_functions opts
           then enrich_all env ms sid (py_slice (ss_functions src) 0 (max_enrich_functions opts)) src
           else done_with src) (\<lambda>src.
      seq (gather_annotations env sid src) (\<lambda>src g.
      let g = mark_truncated ''_failed_tools'' (rn_failed g \<noteq> []) g
      in Some (Inr (src\<lparr>ss_truncated := rn_truncated g\<rparr>, rn_failed g), g))))))))))))))))))))"

subsection \<open>Pushing\<close>

abbreviation CHUNK :: nat where "CHUNK \<equiv> 500"

function chunks :: "'a list \<Rightarrow> 'a list list" where
  "chunks xs = (if xs = [] then [] else take CHUNK xs # chunks (drop CHUNK xs))"
  by pat_completeness auto
termination by (relation "measure length") auto

declare chunks.simps [simp del]

definition node_dict :: "NodeSpec \<Rightarrow> attributes" where
  "node_dict n =
     fields_of [(''kind'', PyStr (ascii (nd_kind n))), (''name'', PyStr (nd_name n)),
       (''provenance'', PyStr (ascii (nd_provenance n))), (''layer'', PyStr (ascii (nd_layer n))),
       (''attrs'', PyDict (nd_attrs n))] @
     (case nd_address n of None \<Rightarrow> [] | Some a \<Rightarrow> fields_of [(''address'', PyInt a)])"

text \<open>The two indexes: keys by local id, and by address.\<close>

record indexes =
  id_index :: "LocalId \<rightharpoonup> pystr"
  addr_index :: "int \<rightharpoonup> pystr"

fun index_results :: "(NodeSpec \<times> attributes) list \<Rightarrow> indexes \<times> ExportStats \<Rightarrow> indexes \<times> ExportStats" where
  "index_results [] acc = acc"
| "index_results ((n, result) # rest) (ix, stats) =
     index_results rest
       (case py_get result (ascii ''key'') of
          PyStr key \<Rightarrow>
            (ix\<lparr>id_index := (id_index ix)(local_id n \<mapsto> key),
               addr_index := (case nd_address n of None \<Rightarrow> addr_index ix | Some a \<Rightarrow> (addr_index ix)(a \<mapsto> key))\<rparr>,
             stats\<lparr>st_nodes_total := Suc (st_nodes_total stats),
               st_nodes_created := st_nodes_created stats + (if truthy (py_get result (ascii ''created'')) then 1 else 0)\<rparr>)
        | _ \<Rightarrow> (ix, stats))"

fun upsert_node_chunks :: "ports \<Rightarrow> pystr \<Rightarrow> NodeSpec list list \<Rightarrow> indexes \<times> ExportStats \<Rightarrow> (indexes \<times> ExportStats) step" where
  "upsert_node_chunks env pid [] acc = done_with acc"
| "upsert_node_chunks env pid (c # cs) acc =
     seq (\<lambda>g. Some (upsert_nodes env (rn_events g) pid (map node_dict c),
                    record_event (UpsertNodes pid (map node_dict c)) g)) (\<lambda>results.
     upsert_node_chunks env pid cs (index_results (zip c results) acc))"

definition resolve :: "indexes \<Rightarrow> LocalId \<Rightarrow> pystr option" where
  "resolve ix endpoint = (case endpoint of (kind, i) \<Rightarrow>
     if kind = ADDR_REF then (case i of ByAddress a \<Rightarrow> addr_index ix a | ByName _ \<Rightarrow> None)
     else id_index ix endpoint)"

definition edge_dict :: "EdgeSpec \<Rightarrow> pystr \<Rightarrow> pystr \<Rightarrow> attributes" where
  "edge_dict e src_key dst_key =
     fields_of [(''type'', PyStr (ascii (ed_type e))), (''src_key'', PyStr src_key), (''dst_key'', PyStr dst_key),
       (''provenance'', PyStr (ascii (ed_provenance e))), (''attrs'', PyDict (ed_attrs e))]"

fun resolve_edges :: "indexes \<Rightarrow> EdgeSpec list \<Rightarrow> attributes list \<times> nat" where
  "resolve_edges ix [] = ([], 0)"
| "resolve_edges ix (e # es) =
     (case resolve_edges ix es of (payloads, skipped) \<Rightarrow>
        (case (resolve ix (ed_src e), resolve ix (ed_dst e)) of
           (Some s, Some d) \<Rightarrow> (edge_dict e s d # payloads, skipped)
         | _ \<Rightarrow> (payloads, Suc skipped)))"

fun upsert_edge_chunks :: "ports \<Rightarrow> pystr \<Rightarrow> attributes list list \<Rightarrow> ExportStats \<Rightarrow> ExportStats step" where
  "upsert_edge_chunks env pid [] stats = done_with stats"
| "upsert_edge_chunks env pid (c # cs) stats =
     seq (\<lambda>g. Some (upsert_edges env (rn_events g) pid c, record_event (UpsertEdges pid c) g)) (\<lambda>results.
     upsert_edge_chunks env pid cs (stats\<lparr>st_edges_total := st_edges_total stats + length results,
       st_edges_created := st_edges_created stats +
         length (filter (\<lambda>r. truthy (py_get r (ascii ''created''))) results)\<rparr>))"

definition push_into :: "ports \<Rightarrow> pystr \<Rightarrow> pystr \<Rightarrow> GraphBatch \<Rightarrow> ExportStats step" where
  "push_into env pid name batch =
     seq (upsert_node_chunks env pid (chunks (batch_nodes batch))
            (\<lparr> id_index = Map.empty, addr_index = Map.empty \<rparr>, new_stats pid name)) (\<lambda>(ix, stats).
     case resolve_edges ix (batch_edges batch) of (payloads, skipped) \<Rightarrow>
       upsert_edge_chunks env pid (chunks payloads) (stats\<lparr>st_edges_skipped := skipped\<rparr>))"

definition open_project :: "ports \<Rightarrow> pystr \<Rightarrow> pystr \<Rightarrow> pystr step" where
  "open_project env name descr g =
     Some (ensure_project env (rn_events g) name descr, record_event (EnsureProject name descr) g)"

definition push_batch :: "ports \<Rightarrow> GraphBatch \<Rightarrow> pystr \<Rightarrow> pystr \<Rightarrow> ExportStats step" where
  "push_batch env batch sha label =
     (let name = ascii ''vivarium-'' @ take 12 sha in
      seq (open_project env name (ascii ''Vivarium RE export of '' @ label @ ascii '' ('' @ sha @ ascii '')''))
        (\<lambda>pid. push_into env pid name batch))"

definition family_tuples :: "FamilyMatchOut option \<Rightarrow> (pystr \<times> real \<times> pystr list \<times> pystr) list" where
  "family_tuples family = (case family of
     None \<Rightarrow> []
   | Some f \<Rightarrow> map (\<lambda>c. (fc_family c, fc_confidence c, fc_basis c, fm_corpus_version f)) (fm_candidates f))"

text \<open>
  \<open>_unwrap\<close> on the \<open>name\<close> of a function, which is a model object and neither a dictionary nor a text.
\<close>

definition unwrap_object :: "pystr Untrusted \<Rightarrow> pystr option" where
  "unwrap_object u = None"

definition corpus_names :: "FunctionSummary list \<Rightarrow> (pystr, pystr) dict" where
  "corpus_names fns = foldl (\<lambda>d fn. case unwrap_object (fs_name fn) of
     None \<Rightarrow> d | Some name \<Rightarrow> dict_set (fs_address fn) name d) [] fns"

definition corpus_description :: pystr where
  "corpus_description = ascii ''Vivarium cross-binary corpus index (ADR-080): content-hash clone clusters (SAME_AS / EQUIV) + family-match leads across exported binaries.''"

definition push_corpus :: "ports \<Rightarrow> SessionSources \<Rightarrow> ExportStats step" where
  "push_corpus env src =
     (let batch = build_corpus_specs (lower_case env) (pm_sha256 (ss_metadata src)) (pm_format (ss_metadata src))
            (ss_function_hashes src) (ss_function_byte_hashes src) (corpus_names (ss_functions src))
            (family_tuples (ss_family src)) MAX_CORPUS_OCCURRENCES
      in seq (open_project env CORPUS_PROJECT corpus_description) (\<lambda>pid. push_into env pid CORPUS_PROJECT batch))"

subsection \<open>Exporting\<close>

definition export_session :: "ports \<Rightarrow> models \<Rightarrow> pystr \<Rightarrow> pystr \<Rightarrow> ExportOptions \<Rightarrow> bool \<Rightarrow> ExportStats step" where
  "export_session env ms sid label opts link_corpus =
     seq (gather_sources env ms sid opts) (\<lambda>(src, failed).
     seq (raised_or (build_graph src)) (\<lambda>batch.
     seq (push_batch env batch (pm_sha256 (ss_metadata src))
            (if label = [] then pm_format (ss_metadata src) else label)) (\<lambda>stats.
     seq (if link_corpus then seq (push_corpus env src) (\<lambda>_. done_with ()) else done_with ()) (\<lambda>_.
     done_with (stats\<lparr>st_failed_tools := failed\<rparr>)))))"

definition aborted_stats :: ExportStats where
  "aborted_stats = (new_stats [] [])\<lparr>st_failed_tools := [''export-aborted'']\<rparr>"

text \<open>The \<open>finally\<close> clause: the close is called whatever happened, and its failure is swallowed.\<close>

definition close_quietly :: "ports \<Rightarrow> pystr \<Rightarrow> Run \<Rightarrow> Run" where
  "close_quietly env sid g = record_event (ToolCall ''session_close'' (session_args sid)) g"

definition export_session_and_close ::
  "ports \<Rightarrow> models \<Rightarrow> pystr \<Rightarrow> pystr \<Rightarrow> ExportOptions \<Rightarrow> bool \<Rightarrow> ExportStats step" where
  "export_session_and_close env ms sid label opts link_corpus g =
     (case export_session env ms sid label opts link_corpus g of
        None \<Rightarrow> None
      | Some (Inl _, g) \<Rightarrow> Some (Inr aborted_stats, close_quietly env sid g)
      | Some (Inr stats, g) \<Rightarrow> Some (Inr stats, close_quietly env sid g))"

end
