(* ===== verification/Graph_Props.thy ===== *)
theory Graph_Props
  imports Graph_Driver
begin

text \<open>
  What the memory-graph export guarantees: the mapper never raises and gives a well-formed batch in which
  an analyst's rename wins; the driver pushes an edge only between keys the store returned; and an
  export with close returns, pulls before it writes, and closes last.
\<close>

subsection \<open>The builder\<close>

definition node_ok :: "NodeSpec \<Rightarrow> bool" where
  "node_ok n \<longleftrightarrow> nd_kind n \<in> set NODE_KINDS \<and> nd_provenance n \<in> set PROVENANCE \<and> nd_layer n \<in> set LAYERS"

definition edge_ok :: "EdgeSpec \<Rightarrow> bool" where
  "edge_ok e \<longleftrightarrow> ed_type e \<in> set EDGE_TYPES \<and> ed_provenance e \<in> set PROVENANCE"

definition edge_key :: "EdgeSpec \<Rightarrow> string \<times> LocalId \<times> LocalId" where
  "edge_key e = (ed_type e, ed_src e, ed_dst e)"

definition endpoint_ok :: "Builder \<Rightarrow> LocalId \<Rightarrow> bool" where
  "endpoint_ok b i \<longleftrightarrow> fst i = ADDR_REF \<or> dict_get (bd_nodes b) i \<noteq> None"

text \<open>The name of a curated function node is an analyst's rename of a function at that address.\<close>

definition renamed_at :: "SessionSources \<Rightarrow> int option \<Rightarrow> pystr \<Rightarrow> bool" where
  "renamed_at src address name \<longleftrightarrow> address \<noteq> None \<and>
     (\<exists>fn \<in> set (ss_functions src). addr_of (Some (fs_address fn)) = address \<and>
        dict_get (ss_renames src) (fs_address fn) = Some name)"

definition curated_ok :: "SessionSources \<Rightarrow> NodeSpec \<Rightarrow> bool" where
  "curated_ok src n \<longleftrightarrow>
     (nd_kind n = ''FUNCTION'' \<and> nd_layer n = ''curated'' \<longrightarrow> nd_provenance n = ''USER'' \<and> renamed_at src (nd_address n) (nd_name n))"

abbreviation program_of :: "SessionSources \<Rightarrow> LocalId" where
  "program_of src \<equiv> (''PROGRAM'', ByName (pm_sha256 (ss_metadata src)))"

definition node_at :: "SessionSources \<Rightarrow> LocalId \<Rightarrow> NodeSpec \<Rightarrow> bool" where
  "node_at src i n \<longleftrightarrow> local_id n = i \<and> node_ok n \<and> curated_ok src n"

definition edge_at :: "Builder \<Rightarrow> string \<times> LocalId \<times> LocalId \<Rightarrow> EdgeSpec \<Rightarrow> bool" where
  "edge_at b k e \<longleftrightarrow> edge_key e = k \<and> edge_ok e \<and> endpoint_ok b (ed_src e) \<and> endpoint_ok b (ed_dst e)"

definition builder_ok :: "SessionSources \<Rightarrow> Builder \<Rightarrow> bool" where
  "builder_ok src b \<longleftrightarrow>
     dict_ok (bd_nodes b) \<and> dict_ok (bd_edges b) \<and> dict_get (bd_nodes b) (program_of src) \<noteq> None \<and>
     (\<forall>i n. dict_get (bd_nodes b) i = Some n \<longrightarrow> node_at src i n) \<and>
     (\<forall>k e. dict_get (bd_edges b) k = Some e \<longrightarrow> edge_at b k e)"

text \<open>A builder grows: nodes stay, and so does their curated layer.\<close>

definition grows :: "Builder \<Rightarrow> Builder \<Rightarrow> bool" where
  "grows b b' \<longleftrightarrow> (\<forall>i n. dict_get (bd_nodes b) i = Some n \<longrightarrow>
     (\<exists>n'. dict_get (bd_nodes b') i = Some n' \<and> (nd_layer n = ''curated'' \<longrightarrow> nd_layer n' = ''curated'')))"

lemma grows_refl [simp]: "grows b b"
  by (simp add: grows_def)

lemma grows_trans: "grows a b \<Longrightarrow> grows b c \<Longrightarrow> grows a c"
  unfolding grows_def by blast

lemma grows_endpoint: "grows b b' \<Longrightarrow> endpoint_ok b i \<Longrightarrow> endpoint_ok b' i"
  unfolding grows_def endpoint_ok_def by blast

lemma grows_edge_at: "grows b b' \<Longrightarrow> edge_at b k e \<Longrightarrow> edge_at b' k e"
  unfolding edge_at_def by (blast intro: grows_endpoint)

lemma edge_at_edges [simp]: "edge_at (b\<lparr>bd_edges := d\<rparr>) k e = edge_at b k e"
  by (simp add: edge_at_def endpoint_ok_def)

lemma builder_node: "builder_ok src b \<Longrightarrow> dict_get (bd_nodes b) i = Some n \<Longrightarrow> node_at src i n"
  unfolding builder_ok_def by blast

definition keeps :: "SessionSources \<Rightarrow> (Builder \<Rightarrow> exc + Builder) \<Rightarrow> bool" where
  "keeps src f \<longleftrightarrow> (\<forall>b. builder_ok src b \<longrightarrow> (\<exists>b'. f b = Inr b' \<and> builder_ok src b' \<and> grows b b'))"

lemma keepsI: "(\<And>b. builder_ok src b \<Longrightarrow> \<exists>b'. f b = Inr b' \<and> builder_ok src b' \<and> grows b b') \<Longrightarrow> keeps src f"
  by (simp add: keeps_def)

lemma keepsD: "keeps src f \<Longrightarrow> builder_ok src b \<Longrightarrow> \<exists>b'. f b = Inr b' \<and> builder_ok src b' \<and> grows b b'"
  by (simp add: keeps_def)

lemma keeps_Inr [simp]: "keeps src Inr"
  by (simp add: keeps_def)

lemma keeps_chain: "keeps src f \<Longrightarrow> keeps src g \<Longrightarrow> keeps src (\<lambda>b. chain (f b) g)"
  unfolding keeps_def by (metis chain_simps(2) grows_trans)

lemma keeps_loop: "(\<And>x. x \<in> set xs \<Longrightarrow> keeps src (f x)) \<Longrightarrow> keeps src (loop_raise f xs)"
proof (induction xs)
  case (Cons x xs)
  have "keeps src (\<lambda>b. chain (f x b) (loop_raise f xs))"
    by (rule keeps_chain) (use Cons in auto)
  then show ?case by (simp add: keeps_def)
qed (simp add: keeps_def)

lemma keeps_option:
  "keeps src f \<Longrightarrow> (\<And>x. v = Some x \<Longrightarrow> keeps src (g x)) \<Longrightarrow> keeps src (\<lambda>b. case v of None \<Rightarrow> f b | Some x \<Rightarrow> g x b)"
  by (cases v) simp_all

text \<open>Adding a node with an allowed vocabulary, and an edge between endpoints that are there.\<close>

definition node_id :: "string \<Rightarrow> pystr \<Rightarrow> int option \<Rightarrow> LocalId" where
  "node_id kind name address = (kind, case address of Some a \<Rightarrow> ByAddress a | None \<Rightarrow> ByName name)"

lemma add_node_keeps:
  assumes b: "builder_ok src b"
    and vocabulary: "kind \<in> set NODE_KINDS" "provenance \<in> set PROVENANCE" "layer \<in> set LAYERS"
    and curated: "kind = ''FUNCTION'' \<Longrightarrow> layer = ''curated'' \<Longrightarrow> provenance = ''USER'' \<and> renamed_at src address name"
  shows "\<exists>n b'. add_node kind name provenance layer address ats b = Inr (n, b') \<and> builder_ok src b' \<and> grows b b' \<and>
    local_id n = node_id kind name address \<and> dict_get (bd_nodes b') (node_id kind name address) = Some n \<and>
    (layer = ''curated'' \<longrightarrow> nd_layer n = ''curated'')"
proof -
  let ?spec = "\<lparr> nd_kind = kind, nd_name = name, nd_provenance = provenance, nd_layer = layer,
     nd_address = address, nd_attrs = ats \<rparr>"
  let ?i = "node_id kind name address"
  have id: "local_id ?spec = ?i" by (simp add: local_id_def node_id_def split: option.split)
  have put: "builder_ok src (b\<lparr>bd_nodes := dict_set ?i n (bd_nodes b)\<rparr>) \<and> grows b (b\<lparr>bd_nodes := dict_set ?i n (bd_nodes b)\<rparr>)"
    (is "builder_ok src ?b' \<and> _")
    if n: "node_at src ?i n"
      and old: "\<And>old. dict_get (bd_nodes b) ?i = Some old \<Longrightarrow> nd_layer old = ''curated'' \<Longrightarrow> nd_layer n = ''curated''" for n
  proof
    show grows: "grows b ?b'" using old by (simp add: grows_def dict_get_set)
    have "\<forall>k e. dict_get (bd_edges ?b') k = Some e \<longrightarrow> edge_at ?b' k e"
      using b grows_edge_at [OF grows] by (simp add: builder_ok_def)
    moreover have "\<forall>i n'. dict_get (bd_nodes ?b') i = Some n' \<longrightarrow> node_at src i n'"
      using b n by (simp add: builder_ok_def dict_get_set)
    ultimately show "builder_ok src ?b'" using b by (simp add: builder_ok_def dict_get_set)
  qed
  show ?thesis
  proof (cases "dict_get (bd_nodes b) ?i")
    case None
    have "node_at src ?i ?spec" using id vocabulary curated by (auto simp: node_at_def node_ok_def curated_ok_def)
    from put [OF this] None show ?thesis
      using vocabulary by (simp add: add_node_def id Let_def dict_simps)
  next
    case (Some old)
    let ?merged = "\<lparr> nd_kind = nd_kind old, nd_name = (if layer = ''curated'' then name else nd_name old),
       nd_provenance = (if layer = ''curated'' then provenance else nd_provenance old),
       nd_layer = (if layer = ''curated'' then layer else nd_layer old),
       nd_address = nd_address old, nd_attrs = merge_attrs (nd_attrs old) ats \<rparr>"
    have old: "local_id old = ?i" "node_ok old" "curated_ok src old" using builder_node [OF b Some] by (simp_all add: node_at_def)
    have at: "nd_kind old = kind" "nd_address old = address"
      using old(1) by (auto simp: local_id_def node_id_def split: option.splits)
    have merged: "node_at src ?i ?merged"
      using old vocabulary curated
      by (auto simp: node_at_def node_ok_def curated_ok_def at local_id_def node_id_def split: option.splits)
    from put [OF this] Some vocabulary merged show ?thesis
      by (simp add: add_node_def id Let_def dict_simps node_at_def)
  qed
qed

lemma add_edge_keeps:
  assumes "builder_ok src b" "edge_type \<in> set EDGE_TYPES" "provenance \<in> set PROVENANCE" "endpoint_ok b i" "endpoint_ok b j"
  shows "\<exists>b'. add_edge edge_type i j provenance ats b = Inr b' \<and> builder_ok src b' \<and> grows b b'"
proof -
  let ?e = "\<lparr> ed_type = edge_type, ed_src = i, ed_dst = j, ed_provenance = provenance, ed_attrs = ats \<rparr>"
  have "edge_at b (edge_type, i, j) ?e" using assms by (simp add: edge_at_def edge_key_def edge_ok_def)
  with assms(1) have "builder_ok src (b\<lparr>bd_edges := dict_set (edge_type, i, j) ?e (bd_edges b)\<rparr>)"
    by (simp add: builder_ok_def dict_get_set del: split_paired_All)
  with assms show ?thesis by (simp add: add_edge_def grows_def)
qed

lemmas vocabulary = NODE_KINDS_def EDGE_TYPES_def PROVENANCE_def LAYERS_def

lemma endpoint_addr [simp]: "endpoint_ok b (ADDR_REF, i)"
  by (simp add: endpoint_ok_def)

lemma endpoint_program: "builder_ok src b \<Longrightarrow> endpoint_ok b (program_of src)"
  by (simp add: endpoint_ok_def builder_ok_def)

subsection \<open>The steps of the mapping\<close>

text \<open>A node that is not a curated function, alone or with what is done with it.\<close>

lemma keeps_node_then:
  assumes "kind \<in> set NODE_KINDS" "provenance \<in> set PROVENANCE" "layer \<in> set LAYERS"
    "kind \<noteq> ''FUNCTION'' \<or> layer \<noteq> ''curated''"
    and f: "\<And>n b. builder_ok src b \<Longrightarrow> endpoint_ok b (local_id n) \<Longrightarrow> local_id n = node_id kind name address \<Longrightarrow>
      \<exists>b'. f (n, b) = Inr b' \<and> builder_ok src b' \<and> grows b b'"
  shows "keeps src (\<lambda>b. chain (add_node kind name provenance layer address ats b) f)"
proof (rule keepsI)
  fix b assume "builder_ok src b"
  from add_node_keeps [OF this assms(1-3), where name = name and address = address and ats = ats] assms(4)
  obtain n b' where n: "add_node kind name provenance layer address ats b = Inr (n, b')" "builder_ok src b'" "grows b b'"
    "local_id n = node_id kind name address" "dict_get (bd_nodes b') (local_id n) = Some n" by auto
  then have "endpoint_ok b' (local_id n)" by (simp add: endpoint_ok_def)
  from f [OF n(2) this n(4)] n(1,3) show "\<exists>b'. chain (add_node kind name provenance layer address ats b) f = Inr b' \<and>
      builder_ok src b' \<and> grows b b'" by (auto intro: grows_trans)
qed

lemma keeps_node:
  assumes "kind \<in> set NODE_KINDS" "provenance \<in> set PROVENANCE" "layer \<in> set LAYERS"
    "kind \<noteq> ''FUNCTION'' \<or> layer \<noteq> ''curated''"
  shows "keeps src (\<lambda>b. map_sum id snd (add_node kind name provenance layer address ats b))"
proof -
  have "map_sum id snd r = chain r (\<lambda>(n, b). Inr b)" for r :: "exc + NodeSpec \<times> Builder"
    by (cases r) (auto simp: case_prod_beta)
  then show ?thesis by (simp add: keeps_node_then [OF assms])
qed

lemma keeps_ref_edge: "edge_type \<in> set EDGE_TYPES \<Longrightarrow> keeps src (add_ref_edge edge_type fr to ats)"
  unfolding add_ref_edge_def
  by (rule keepsI) (auto split: option.split simp: vocabulary intro!: add_edge_keeps)

lemma add_reference_keeps:
  assumes "builder_ok src b" "edge_type \<in> set EDGE_TYPES" "provenance \<in> set PROVENANCE" "endpoint_ok b i"
  shows "\<exists>b'. add_reference edge_type i address provenance ats b = Inr b' \<and> builder_ok src b' \<and> grows b b'"
  unfolding add_reference_def using assms by (auto split: option.split intro!: add_edge_keeps)

lemma keeps_call_graph: "keeps src (add_call_graph src)"
  unfolding add_call_graph_def
proof (intro keeps_chain keeps_loop keeps_ref_edge)
  show "keeps src (add_call_node n)" for n
    unfolding add_call_node_def [abs_def] by (intro keeps_option keeps_Inr keeps_node) (simp_all add: vocabulary)
qed (simp add: vocabulary)

lemma keeps_xrefs: "keeps src (add_xrefs src)"
  unfolding add_xrefs_def by (intro keeps_loop keeps_ref_edge) (simp add: vocabulary)

lemma keeps_imports_exports: "keeps src (add_imports_exports src (program_of src))"
  unfolding add_imports_exports_def
  by (intro keeps_chain keeps_loop keeps_node_then; (simp add: vocabulary; fail)?)
     (auto intro!: add_edge_keeps simp: vocabulary endpoint_program)

lemma keeps_strings: "keeps src (add_strings src (program_of src))"
  unfolding add_strings_def
  by (intro keeps_loop keeps_node_then; (simp add: vocabulary; fail)?)
     (auto intro!: add_edge_keeps simp: vocabulary endpoint_program)

lemma keeps_iocs: "keeps src (add_iocs src)"
  unfolding add_iocs_def
  by (intro keeps_loop keeps_node_then; (simp add: vocabulary; fail)?)
     (auto intro!: add_reference_keeps simp: vocabulary)

lemma keeps_crypto: "keeps src (add_crypto src)"
  unfolding add_crypto_def
proof (intro keeps_chain keeps_loop)
  show "keeps src (add_crypto_constant c)" for c
    unfolding add_crypto_constant_def [abs_def] by (intro keeps_option keeps_Inr keeps_node) (simp_all add: vocabulary)
  show "keeps src (add_crypto_indicator c)" for c
    unfolding add_crypto_indicator_def [abs_def] Let_def option.case_distrib [of "map_sum id snd"]
    by (intro keeps_option keeps_node) (simp_all add: vocabulary)
qed

lemma keeps_secret: "keeps src (add_secret s)"
  unfolding add_secret_def [abs_def] Let_def option.case_distrib [of "map_sum id snd"]
  by (intro keeps_option keeps_node) (simp_all add: vocabulary)

lemma keeps_capability: "keeps src (add_capability c)"
  unfolding add_capability_def
proof (rule keeps_node_then)
  fix n b assume b: "builder_ok src b" "endpoint_ok b (local_id n)"
  let ?P = "\<lambda>b. builder_ok src b \<and> endpoint_ok b (local_id n)"
  have "\<exists>b'. loop_raise (\<lambda>ev. add_reference ''REFERENCES'' (local_id n) (ev_address ev) ''INFERRED''
      (fields_of [(''where'', PyStr (ev_where ev)), (''detail'', PyStr (raw_text (ev_detail ev)))])) evs b = Inr b' \<and>
      builder_ok src b' \<and> grows b b'" for evs
    using b
  proof (induction evs arbitrary: b)
    case (Cons ev evs)
    from add_reference_keeps [OF Cons.prems(1) _ _ Cons.prems(2), of "''REFERENCES''" "''INFERRED''" "ev_address ev"
        "fields_of [(''where'', PyStr (ev_where ev)), (''detail'', PyStr (raw_text (ev_detail ev)))]"]
    obtain b1 where b1: "add_reference ''REFERENCES'' (local_id n) (ev_address ev) ''INFERRED''
        (fields_of [(''where'', PyStr (ev_where ev)), (''detail'', PyStr (raw_text (ev_detail ev)))]) b = Inr b1"
      "builder_ok src b1" "grows b b1" by (auto simp: vocabulary)
    from Cons.IH [OF b1(2) grows_endpoint [OF b1(3) Cons.prems(2)]] b1 show ?case
      by (auto intro: grows_trans)
  qed simp
  then show "\<exists>b'. (case (n, b) of (n, b) \<Rightarrow> loop_raise (\<lambda>ev. add_reference ''REFERENCES'' (local_id n) (ev_address ev)
      ''INFERRED'' (fields_of [(''where'', PyStr (ev_where ev)), (''detail'', PyStr (raw_text (ev_detail ev)))]))
      (cm_evidence c) b) = Inr b' \<and> builder_ok src b' \<and> grows b b'" by simp
qed (simp_all add: vocabulary)

lemma keeps_annotations: "keeps src (add_annotations src (program_of src))"
  unfolding add_annotations_def
proof (intro keeps_chain keeps_loop)
  show "keeps src (add_comment c)" for c
    unfolding add_comment_def [abs_def] case_prod_beta
    by (intro keeps_option keeps_Inr keeps_node_then; (simp add: vocabulary; fail)?)
       (auto intro!: add_edge_keeps simp: vocabulary)
  show "keeps src (add_type (program_of src) t)" for t
    unfolding add_type_def [abs_def] case_prod_beta Let_def
    by (intro keeps_node_then; (simp add: vocabulary; fail)?)
       (auto intro!: add_edge_keeps simp: vocabulary endpoint_program node_id_def)
qed

text \<open>A function of the list has its node afterwards, a curated one if it is renamed.\<close>

definition has_function :: "SessionSources \<Rightarrow> FunctionSummary \<Rightarrow> Builder \<Rightarrow> bool" where
  "has_function src fn b \<longleftrightarrow> (\<forall>a. addr_of (Some (fs_address fn)) = Some a \<longrightarrow>
     (\<exists>n. dict_get (bd_nodes b) (''FUNCTION'', ByAddress a) = Some n \<and>
        (dict_get (ss_renames src) (fs_address fn) \<noteq> None \<longrightarrow> nd_layer n = ''curated'')))"

lemma grows_has_function: "grows b b' \<Longrightarrow> has_function src fn b \<Longrightarrow> has_function src fn b'"
  unfolding grows_def has_function_def by blast

lemma add_function_keeps:
  assumes b: "builder_ok src b" and fn: "fn \<in> set (ss_functions src)"
  shows "\<exists>b'. add_function src (program_of src) fn b = Inr b' \<and> builder_ok src b' \<and> grows b b' \<and> has_function src fn b'"
proof (cases "addr_of (Some (fs_address fn))")
  case None
  with b show ?thesis by (simp add: add_function_def has_function_def)
next
  case (Some a)
  let ?i = "(''FUNCTION'', ByAddress a)"
  have rename: "renamed_at src (Some a) r" if "dict_get (ss_renames src) (fs_address fn) = Some r" for r
    using fn Some that by (auto simp: renamed_at_def)
  have "\<exists>n b1. (case dict_get (ss_renames src) (fs_address fn) of
        Some r \<Rightarrow> add_node ''FUNCTION'' r ''USER'' ''curated'' (Some a)
          (function_attrs src fn @ fields_of [(''renamed'', PyBool True)]) b
      | None \<Rightarrow> add_node ''FUNCTION'' (raw_text (fs_name fn)) ''GHIDRA'' ''raw'' (Some a) (function_attrs src fn) b) = Inr (n, b1) \<and>
      builder_ok src b1 \<and> grows b b1 \<and> dict_get (bd_nodes b1) ?i = Some n \<and>
      (dict_get (ss_renames src) (fs_address fn) \<noteq> None \<longrightarrow> nd_layer n = ''curated'')"
  proof (cases "dict_get (ss_renames src) (fs_address fn)")
    case None
    then show ?thesis
      using add_node_keeps [OF b, of "''FUNCTION''" "''GHIDRA''" "''raw''" "Some a" "raw_text (fs_name fn)" "function_attrs src fn"]
      by (auto simp: vocabulary node_id_def)
  next
    case (Some r)
    then show ?thesis
      using add_node_keeps [OF b, of "''FUNCTION''" "''USER''" "''curated''" "Some a" r
          "function_attrs src fn @ fields_of [(''renamed'', PyBool True)]"] rename [OF Some]
      by (auto simp: vocabulary node_id_def)
  qed
  then obtain n b1 where n: "(case dict_get (ss_renames src) (fs_address fn) of
        Some r \<Rightarrow> add_node ''FUNCTION'' r ''USER'' ''curated'' (Some a)
          (function_attrs src fn @ fields_of [(''renamed'', PyBool True)]) b
      | None \<Rightarrow> add_node ''FUNCTION'' (raw_text (fs_name fn)) ''GHIDRA'' ''raw'' (Some a) (function_attrs src fn) b) = Inr (n, b1)"
    and b1: "builder_ok src b1" "grows b b1" "has_function src fn b1" "endpoint_ok b1 ?i"
    by (auto simp: has_function_def Some endpoint_ok_def)
  obtain b2 where "add_edge ''CONTAINS'' (program_of src) ?i ''GHIDRA'' [] b1 = Inr b2" "builder_ok src b2" "grows b1 b2"
    using add_edge_keeps [OF b1(1) _ _ endpoint_program [OF b1(1)] b1(4), of "''CONTAINS''" "''GHIDRA''" "[]"]
    by (auto simp: vocabulary)
  with n b1 show ?thesis by (auto simp: add_function_def Some intro: grows_trans grows_has_function)
qed

lemma add_functions_keep:
  assumes "builder_ok src b" "set fns \<subseteq> set (ss_functions src)"
  shows "\<exists>b'. loop_raise (add_function src (program_of src)) fns b = Inr b' \<and> builder_ok src b' \<and> grows b b' \<and>
    (\<forall>fn \<in> set fns. has_function src fn b')"
  using assms
proof (induction fns arbitrary: b)
  case (Cons fn fns)
  then obtain b1 where b1: "add_function src (program_of src) fn b = Inr b1" "builder_ok src b1" "grows b b1"
    "has_function src fn b1" using add_function_keeps [of src b fn] by auto
  from Cons.IH [OF b1(2)] Cons.prems(2) obtain b2 where "loop_raise (add_function src (program_of src)) fns b1 = Inr b2"
    "builder_ok src b2" "grows b1 b2" "\<forall>fn \<in> set fns. has_function src fn b2" by auto
  with b1 show ?case by (auto intro: grows_trans grows_has_function)
qed simp

lemma add_program_ok: "\<exists>b. add_program src new_builder = Inr b \<and> builder_ok src b"
  by (simp add: add_program_def add_node_def new_builder_def vocabulary Let_def builder_ok_def local_id_def
      dict_ok_def node_at_def node_ok_def curated_ok_def)

definition rest_of_graph :: "SessionSources \<Rightarrow> Builder \<Rightarrow> exc + Builder" where
  "rest_of_graph src b =
     chain (add_call_graph src b) (\<lambda>b. chain (add_xrefs src b) (\<lambda>b.
     chain (add_imports_exports src (program_of src) b) (\<lambda>b. chain (add_strings src (program_of src) b) (\<lambda>b.
     chain (add_iocs src b) (\<lambda>b. chain (add_crypto src b) (\<lambda>b. chain (loop_raise add_secret (ss_secrets src) b) (\<lambda>b.
     chain (loop_raise add_capability (ss_capabilities src) b) (add_annotations src (program_of src)))))))))"

lemma keeps_rest: "keeps src (rest_of_graph src)"
  unfolding rest_of_graph_def [abs_def]
  by (intro keeps_chain keeps_loop keeps_call_graph keeps_xrefs keeps_imports_exports keeps_strings keeps_iocs
      keeps_crypto keeps_secret keeps_capability keeps_annotations)

lemma build_graph_run:
  "\<exists>b. build_graph src = Inr (finish b) \<and> builder_ok src b \<and> (\<forall>fn \<in> set (ss_functions src). has_function src fn b)"
proof -
  obtain b0 where b0: "add_program src new_builder = Inr b0" "builder_ok src b0" using add_program_ok by blast
  obtain b1 where b1: "loop_raise (add_function src (program_of src)) (ss_functions src) b0 = Inr b1" "builder_ok src b1"
    "\<forall>fn \<in> set (ss_functions src). has_function src fn b1"
    using add_functions_keep [OF b0(2) order.refl] by blast
  obtain b2 where b2: "rest_of_graph src b1 = Inr b2" "builder_ok src b2" "grows b1 b2"
    using keepsD [OF keeps_rest b1(2)] by blast
  have "chain (chain r f) g = chain r (\<lambda>x. chain (f x) g)" for r :: "exc + Builder" and f and g :: "Builder \<Rightarrow> exc + GraphBatch"
    by (cases r) simp_all
  then have "build_graph src = chain (rest_of_graph src b1) (\<lambda>b. Inr (finish b))"
    by (simp add: build_graph_def b0(1) b1(1) rest_of_graph_def Let_def del: chain_Inr_iff)
  with b1 b2 show ?thesis by (auto intro: grows_has_function)
qed

lemma keyed_values:
  assumes "dict_ok d" "\<And>k v. dict_get d k = Some v \<Longrightarrow> key v = k"
  shows "map key (map snd d) = dict_keys d"
  using assms by (auto simp: dict_get_iff)

text \<open>
  C30: The mapper is total and its batch is well-formed. Whatever the tools reported, no emission leaves
  the vocabulary, so mapping never raises; node identities are distinct, edges are distinct by
  type and endpoints, every endpoint that is not an address reference names a node of the batch, and
  the program node is there.
\<close>

theorem graph_batch_wellformed:
  "\<exists>batch. build_graph src = Inr batch \<and>
     distinct (map local_id (batch_nodes batch)) \<and> list_all node_ok (batch_nodes batch) \<and>
     distinct (map edge_key (batch_edges batch)) \<and>
     list_all (\<lambda>e. edge_ok e \<and> (fst (ed_src e) = ADDR_REF \<or> ed_src e \<in> set (map local_id (batch_nodes batch))) \<and>
       (fst (ed_dst e) = ADDR_REF \<or> ed_dst e \<in> set (map local_id (batch_nodes batch)))) (batch_edges batch) \<and>
     (''PROGRAM'', ByName (pm_sha256 (ss_metadata src))) \<in> set (map local_id (batch_nodes batch))"
proof -
  obtain b where b: "build_graph src = Inr (finish b)" "builder_ok src b" using build_graph_run by blast
  have dicts: "dict_ok (bd_nodes b)" "dict_ok (bd_edges b)" and
    node: "\<And>i n. dict_get (bd_nodes b) i = Some n \<Longrightarrow> node_at src i n" and
    edge: "\<And>k e. dict_get (bd_edges b) k = Some e \<Longrightarrow> edge_at b k e"
    using b(2) unfolding builder_ok_def by blast+
  have ids: "map local_id (batch_nodes (finish b)) = dict_keys (bd_nodes b)"
    unfolding finish_def GraphBatch.simps by (rule keyed_values [OF dicts(1)]) (use node in \<open>simp add: node_at_def\<close>)
  have keys: "map edge_key (batch_edges (finish b)) = dict_keys (bd_edges b)"
    unfolding finish_def GraphBatch.simps by (rule keyed_values [OF dicts(2)]) (use edge in \<open>simp add: edge_at_def\<close>)
  have there: "i \<in> set (dict_keys (bd_nodes b)) \<longleftrightarrow> dict_get (bd_nodes b) i \<noteq> None" for i
    by (simp add: map_of_eq_None_iff)
  have "list_all node_ok (batch_nodes (finish b))"
    using node dict_in_get [OF dicts(1)] by (fastforce simp: finish_def list_all_iff node_at_def)
  moreover have "list_all (\<lambda>e. edge_ok e \<and> endpoint_ok b (ed_src e) \<and> endpoint_ok b (ed_dst e)) (batch_edges (finish b))"
    using edge dict_in_get [OF dicts(2)] by (fastforce simp: finish_def list_all_iff edge_at_def)
  moreover have "dict_get (bd_nodes b) (program_of src) \<noteq> None" using b(2) unfolding builder_ok_def by blast
  ultimately show ?thesis
    using dicts unfolding endpoint_ok_def dict_ok_def by (intro exI [of _ "finish b"] conjI b(1)) (simp_all only: ids keys there not_False_eq_True)
qed

text \<open>
  An analyst's rename wins. If a function of the list has an address and a rename, the batch has one
  node for that address; its layer is curated, its provenance is the user, and its name is a rename of a
  function at that address, whatever the call graph says of the same address later.
\<close>

theorem analyst_rename_wins:
  assumes "fn \<in> set (ss_functions src)" "addr_of (Some (fs_address fn)) = Some a"
    "dict_get (ss_renames src) (fs_address fn) = Some new"
  shows "\<exists>batch n. build_graph src = Inr batch \<and> filter (\<lambda>m. local_id m = (''FUNCTION'', ByAddress a)) (batch_nodes batch) = [n] \<and>
    nd_layer n = ''curated'' \<and> nd_provenance n = ''USER'' \<and>
    (\<exists>g. g \<in> set (ss_functions src) \<and> addr_of (Some (fs_address g)) = Some a \<and>
       dict_get (ss_renames src) (fs_address g) = Some (nd_name n))"
proof -
  let ?i = "(''FUNCTION'', ByAddress a)"
  obtain b where b: "build_graph src = Inr (finish b)" "builder_ok src b" "has_function src fn b"
    using build_graph_run assms(1) by blast
  obtain n where n: "dict_get (bd_nodes b) ?i = Some n" "nd_layer n = ''curated''"
    using b(3) assms(2,3) unfolding has_function_def by auto
  have ok: "dict_ok (bd_nodes b)" and at: "\<And>i n. dict_get (bd_nodes b) i = Some n \<Longrightarrow> node_at src i n"
    using b(2) unfolding builder_ok_def by blast+
  have "filter (\<lambda>m. local_id m = ?i) (map snd d) = [m]"
    if "dict_ok d" "\<forall>i n. dict_get d i = Some n \<longrightarrow> local_id n = i" "dict_get d ?i = Some m" for d m
  proof -
    have "filter (\<lambda>m. local_id m = ?i) (map snd d) = map snd (filter (\<lambda>(k, m). k = ?i) d)"
      unfolding filter_map comp_def using that(1,2) by (intro arg_cong [of _ _ "map snd"] filter_cong) (auto simp: dict_get_iff)
    also have "filter (\<lambda>(k, m). k = ?i) d = [(?i, m)]"
      using that(1,3) by (induction d) (auto simp: dict_ok_def filter_empty_conv image_iff split: if_splits)
    finally show ?thesis by simp
  qed
  from this [OF ok _ n(1)] have one: "filter (\<lambda>m. local_id m = ?i) (batch_nodes (finish b)) = [n]"
    using at unfolding finish_def node_at_def by simp
  have "node_at src ?i n" using at [OF n(1)] .
  moreover from this have "nd_kind n = ''FUNCTION''" "nd_address n = Some a"
    by (auto simp: node_at_def local_id_def split: option.splits)
  ultimately have "nd_provenance n = ''USER''" "renamed_at src (Some a) (nd_name n)"
    using n(2) by (simp_all add: node_at_def curated_ok_def)
  with b(1) one n(2) show ?thesis unfolding renamed_at_def by blast
qed

subsection \<open>Pushing a batch\<close>

lemma concat_chunks: "concat (chunks xs) = xs"
  by (induction xs rule: chunks.induct) (subst chunks.simps, simp)

lemma chunks_small: "list_all (\<lambda>c. length c \<le> CHUNK) (chunks xs)"
  by (induction xs rule: chunks.induct) (subst chunks.simps, simp)

text \<open>The nodes with the records the store returned for them, chunk after chunk.\<close>

fun returned :: "ports \<Rightarrow> pystr \<Rightarrow> NodeSpec list list \<Rightarrow> event list \<Rightarrow> (NodeSpec \<times> attributes) list" where
  "returned env pid [] evs = []"
| "returned env pid (c # cs) evs =
     (case upsert_nodes env evs pid (map node_dict c) of
        Inl _ \<Rightarrow> []
      | Inr rs \<Rightarrow> zip c rs @ returned env pid cs (evs @ [UpsertNodes pid (map node_dict c)]))"

lemma index_results_append: "index_results (ps @ qs) acc = index_results qs (index_results ps acc)"
  by (induction ps acc rule: index_results.induct) simp_all

lemma upsert_node_chunks_run:
  assumes "upsert_node_chunks env pid cs acc g = Some (Inr r, g')"
  shows "r = index_results (returned env pid cs (rn_events g)) acc \<and>
    rn_events g' = rn_events g @ map (\<lambda>c. UpsertNodes pid (map node_dict c)) cs"
  using assms
proof (induction cs arbitrary: acc g)
  case (Cons c cs)
  then obtain rs where rs: "upsert_nodes env (rn_events g) pid (map node_dict c) = Inr rs"
    "upsert_node_chunks env pid cs (index_results (zip c rs) acc) (record_event (UpsertNodes pid (map node_dict c)) g) = Some (Inr r, g')"
    by (auto simp: seq_def split: sum.splits)
  from Cons.IH [OF rs(2)] rs(1) show ?case by (simp add: record_event_def index_results_append)
qed (simp add: done_with_def)

lemma upsert_edge_chunks_run:
  assumes "upsert_edge_chunks env pid cs stats g = Some (Inr r, g')"
  shows "rn_events g' = rn_events g @ map (UpsertEdges pid) cs \<and> st_edges_skipped r = st_edges_skipped stats"
  using assms
proof (induction cs arbitrary: stats g)
  case (Cons c cs)
  show ?case
  proof (cases "upsert_edges env (rn_events g) pid c")
    case (Inr rs)
    with Cons.prems have "upsert_edge_chunks env pid cs (stats\<lparr>st_edges_total := st_edges_total stats + length rs,
       st_edges_created := st_edges_created stats +
         length (filter (\<lambda>r. truthy (py_get r (ascii ''created''))) rs)\<rparr>) (record_event (UpsertEdges pid c) g) = Some (Inr r, g')"
      by (simp add: seq_def)
    from Cons.IH [OF this] show ?thesis by (simp add: record_event_def)
  qed (use Cons.prems in \<open>simp add: seq_def\<close>)
qed (simp add: done_with_def)

text \<open>\<open>key\<close> is a key the store returned for a node that \<open>endpoint\<close> means.\<close>

definition key_for :: "(NodeSpec \<times> attributes) list \<Rightarrow> LocalId \<Rightarrow> pystr \<Rightarrow> bool" where
  "key_for pairs endpoint key \<longleftrightarrow> (\<exists>(n, r) \<in> set pairs. py_get r (ascii ''key'') = PyStr key \<and>
     (if fst endpoint = ADDR_REF then \<exists>a. snd endpoint = ByAddress a \<and> nd_address n = Some a
      else local_id n = endpoint))"

definition index_step :: "NodeSpec \<Rightarrow> attributes \<Rightarrow> indexes \<Rightarrow> indexes" where
  "index_step n r ix = (case py_get r (ascii ''key'') of
     PyStr key \<Rightarrow> ix\<lparr>id_index := (id_index ix)(local_id n \<mapsto> key),
       addr_index := (case nd_address n of None \<Rightarrow> addr_index ix | Some a \<Rightarrow> (addr_index ix)(a \<mapsto> key))\<rparr>
   | _ \<Rightarrow> ix)"

lemma index_results_fold: "fst (index_results pairs (ix, stats)) = foldl (\<lambda>ix (n, r). index_step n r ix) ix pairs"
  by (induction pairs arbitrary: ix stats) (auto simp: index_step_def split: pyval.splits)

lemma resolve_step:
  "resolve (index_step n r ix) e = (case py_get r (ascii ''key'') of
     PyStr key \<Rightarrow> if key_for [(n, r)] e key then Some key else resolve ix e
   | _ \<Rightarrow> resolve ix e)"
  by (auto simp: resolve_def index_step_def key_for_def split: pyval.splits prod.splits ident.splits option.splits)

lemma key_for_Cons: "key_for ((n, r) # pairs) e k \<longleftrightarrow> key_for [(n, r)] e k \<or> key_for pairs e k"
  by (auto simp: key_for_def)

lemma key_for_key: "key_for [(n, r)] e k \<Longrightarrow> py_get r (ascii ''key'') = PyStr k"
  by (simp add: key_for_def)

lemma resolve_results:
  "resolve (foldl (\<lambda>ix (n, r). index_step n r ix) ix pairs) e = Some k \<Longrightarrow> key_for pairs e k \<or> resolve ix e = Some k"
  "resolve (foldl (\<lambda>ix (n, r). index_step n r ix) ix pairs) e = None \<longleftrightarrow> (\<forall>k. \<not> key_for pairs e k) \<and> resolve ix e = None"
proof (induction pairs arbitrary: ix)
  case (Cons p pairs)
  obtain n r where p: "p = (n, r)" by (cases p)
  have step: "resolve (index_step n r ix) e = Some k \<longrightarrow> key_for [(n, r)] e k \<or> resolve ix e = Some k" for ix
    by (auto simp: resolve_step split: pyval.splits if_splits)
  have none: "resolve (index_step n r ix) e = None \<longleftrightarrow> (\<forall>k. \<not> key_for [(n, r)] e k) \<and> resolve ix e = None"
    for ix
  proof (cases "\<exists>k. key_for [(n, r)] e k")
    case True
    then obtain k where "key_for [(n, r)] e k" by blast
    then show ?thesis using key_for_key [of n r e k] by (auto simp: resolve_step)
  next
    case False
    then show ?thesis by (simp add: resolve_step split: pyval.split)
  qed
  { case 1
    then have "key_for pairs e k \<or> resolve (index_step n r ix) e = Some k" by (intro Cons.IH(1)) (simp add: p)
    with step [of ix] show ?case unfolding p key_for_Cons [of n r pairs] by blast }
  { case 2
    show ?case using Cons.IH(2) [of "index_step n r ix"] none [of ix] unfolding p key_for_Cons [of n r pairs] by auto }
qed (simp_all add: key_for_def)

lemma resolve_edges_result:
  "resolve_edges ix es = (List.map_filter (\<lambda>e. case (resolve ix (ed_src e), resolve ix (ed_dst e)) of
       (Some s, Some d) \<Rightarrow> Some (edge_dict e s d) | _ \<Rightarrow> None) es,
     length (filter (\<lambda>e. resolve ix (ed_src e) = None \<or> resolve ix (ed_dst e) = None) es))"
  by (induction es) (auto simp: List.map_filter_simps split: option.splits prod.splits)

lemma map_filter_length:
  assumes "\<And>x. f x = None \<longleftrightarrow> P x"
  shows "length (List.map_filter f xs) + length (filter P xs) = length xs"
proof (induction xs)
  case (Cons x xs)
  then show ?case using assms [of x] by (cases "f x") (simp_all add: List.map_filter_simps)
qed (simp add: List.map_filter_simps)

text \<open>
  C29: Edges are never fabricated. When pushing a batch returns, every node was sent, in
  chunks of at most 500, before any edge; every edge sent is an edge of the batch whose two keys are keys
  the store returned for nodes that its endpoints mean; every other edge has an endpoint for which no
  key was returned, and these are the ones counted as skipped.
\<close>

theorem push_sends_resolved_edges:
  assumes "push_into env pid name batch g = Some (Inr stats, g')"
  shows "\<exists>node_chunks edge_chunks. concat node_chunks = batch_nodes batch \<and>
    list_all (\<lambda>c. length c \<le> 500) node_chunks \<and> list_all (\<lambda>c. length c \<le> 500) edge_chunks \<and>
    rn_events g' = rn_events g @ map (\<lambda>c. UpsertNodes pid (map node_dict c)) node_chunks @ map (UpsertEdges pid) edge_chunks \<and>
    (let pairs = returned env pid node_chunks (rn_events g) in
     list_all (\<lambda>p. \<exists>e s d. e \<in> set (batch_edges batch) \<and> p = edge_dict e s d \<and>
       key_for pairs (ed_src e) s \<and> key_for pairs (ed_dst e) d) (concat edge_chunks) \<and>
     st_edges_skipped stats = length (filter (\<lambda>e. (\<nexists>s. key_for pairs (ed_src e) s) \<or> (\<nexists>d. key_for pairs (ed_dst e) d))
       (batch_edges batch)) \<and>
     length (concat edge_chunks) + st_edges_skipped stats = length (batch_edges batch))"
proof -
  let ?nodes = "chunks (batch_nodes batch)"
  let ?empty = "\<lparr> id_index = Map.empty, addr_index = Map.empty \<rparr>"
  let ?pairs = "returned env pid ?nodes (rn_events g)"
  from assms obtain ix st payloads skipped g1 where
    up: "upsert_node_chunks env pid ?nodes (?empty, new_stats pid name) g = Some (Inr (ix, st), g1)"
    and edges: "resolve_edges ix (batch_edges batch) = (payloads, skipped)"
    and sent: "upsert_edge_chunks env pid (chunks payloads) (st\<lparr>st_edges_skipped := skipped\<rparr>) g1 = Some (Inr stats, g')"
    unfolding push_into_def seq_def by (auto split: option.splits sum.splits prod.splits)
  from upsert_node_chunks_run [OF up] have
    ix: "ix = fst (index_results ?pairs (?empty, new_stats pid name))" and
    g1: "rn_events g1 = rn_events g @ map (\<lambda>c. UpsertNodes pid (map node_dict c)) ?nodes"
    by (metis fst_conv)+
  have empty: "resolve ?empty e = None" for e by (simp add: resolve_def split: prod.split ident.split)
  have some: "resolve ix e = Some k \<Longrightarrow> key_for ?pairs e k" for e k
    using resolve_results(1) [of ?empty ?pairs e k] by (simp add: ix index_results_fold empty)
  have none: "resolve ix e = None \<longleftrightarrow> (\<nexists>k. key_for ?pairs e k)" for e
    using resolve_results(2) [of ?empty ?pairs e] by (simp add: ix index_results_fold empty)
  have payloads: "payloads = List.map_filter (\<lambda>e. case (resolve ix (ed_src e), resolve ix (ed_dst e)) of
       (Some s, Some d) \<Rightarrow> Some (edge_dict e s d) | _ \<Rightarrow> None) (batch_edges batch)"
    and skipped: "skipped = length (filter (\<lambda>e. resolve ix (ed_src e) = None \<or> resolve ix (ed_dst e) = None) (batch_edges batch))"
    using edges unfolding resolve_edges_result by simp_all
  have ok: "list_all (\<lambda>p. \<exists>e s d. e \<in> set (batch_edges batch) \<and> p = edge_dict e s d \<and>
       key_for ?pairs (ed_src e) s \<and> key_for ?pairs (ed_dst e) d) payloads"
    unfolding payloads list_all_iff by (auto simp: List.map_filter_def split: option.splits dest!: some)
  have "length payloads + skipped = length (batch_edges batch)"
    unfolding payloads skipped
    by (rule map_filter_length) (auto split: option.splits)
  moreover have "st_edges_skipped stats = skipped" "rn_events g' = rn_events g1 @ map (UpsertEdges pid) (chunks payloads)"
    using upsert_edge_chunks_run [OF sent] by simp_all
  ultimately show ?thesis
    using ok skipped g1
    by (intro exI [of _ ?nodes] exI [of _ "chunks payloads"]) (simp add: concat_chunks chunks_small none Let_def)
qed

subsection \<open>Steps that return\<close>

text \<open>A step that returns, or raises, after calls that all satisfy \<open>P\<close>.\<close>

definition runs :: "(event \<Rightarrow> bool) \<Rightarrow> 'a step \<Rightarrow> bool" where
  "runs P m \<longleftrightarrow> (\<forall>g. \<exists>r g' evs. m g = Some (r, g') \<and> rn_events g' = rn_events g @ evs \<and> list_all P evs)"

lemma runsI: "(\<And>g. \<exists>r g' evs. m g = Some (r, g') \<and> rn_events g' = rn_events g @ evs \<and> list_all P evs) \<Longrightarrow> runs P m"
  by (simp add: runs_def)

lemma runs_quiet: "(\<And>g. \<exists>r g'. m g = Some (r, g') \<and> rn_events g' = rn_events g) \<Longrightarrow> runs P m"
  by (rule runsI) (metis append_Nil2 list.pred_inject(1))

lemma runs_one: "(\<And>g. \<exists>r. m g = Some (r, record_event e g)) \<Longrightarrow> P e \<Longrightarrow> runs P m"
proof (rule runsI)
  fix g assume m: "\<And>g. \<exists>r. m g = Some (r, record_event e g)" and "P e"
  then have "rn_events (record_event e g) = rn_events g @ [e]" "list_all P [e]" by (simp_all add: record_event_def)
  with m [of g] show "\<exists>r g' evs. m g = Some (r, g') \<and> rn_events g' = rn_events g @ evs \<and> list_all P evs" by blast
qed

lemma runs_call: "P e \<Longrightarrow> runs P (\<lambda>g. Some (f g, record_event e g))"
  by (rule runs_one) simp_all

lemma runs_done [simp]: "runs P (done_with x)"
  by (rule runs_quiet) (simp add: done_with_def)

lemma runs_raised_or [simp]: "runs P (raised_or r)"
  by (rule runs_quiet) (simp add: raised_or_def)

lemma runs_seq:
  assumes "runs P m" "\<And>x. runs P (f x)"
  shows "runs P (seq m f)"
proof (rule runsI)
  fix g
  obtain r g1 es where m: "m g = Some (r, g1)" "rn_events g1 = rn_events g @ es" "list_all P es"
    using assms(1) unfolding runs_def by blast
  show "\<exists>r g' evs. seq m f g = Some (r, g') \<and> rn_events g' = rn_events g @ evs \<and> list_all P evs"
  proof (cases r)
    case (Inr x)
    obtain r' g2 fs where "f x g1 = Some (r', g2)" "rn_events g2 = rn_events g1 @ fs" "list_all P fs"
      using assms(2) unfolding runs_def by blast
    with m Inr show ?thesis by (auto simp: seq_def)
  qed (use m in \<open>auto simp: seq_def\<close>)
qed

lemma runs_if: "runs P m \<Longrightarrow> runs P n \<Longrightarrow> runs P (if c then m else n)"
  by simp

lemma runs_option: "runs P m \<Longrightarrow> (\<And>x. runs P (f x)) \<Longrightarrow> runs P (case v of None \<Rightarrow> m | Some x \<Rightarrow> f x)"
  by (cases v) simp_all

lemma runs_for_steps: "(\<And>x. runs P (f x)) \<Longrightarrow> runs P (for_steps f xs)"
  by (induction xs) (simp_all add: runs_seq)

lemma runs_tool: "P (ToolCall name args) \<Longrightarrow> runs P (tool env name args)"
  by (rule runs_one) (auto simp: tool_def)

lemma runs_parse_tool: "P (ToolCall name args) \<Longrightarrow> runs P (parse_tool env name args mk)"
  unfolding parse_tool_def by (intro runs_seq runs_tool runs_raised_or)

lemma events_note_failed [simp]: "rn_events (note_failed name g) = rn_events g"
  by (simp add: note_failed_def)

lemma events_mark_truncated [simp]: "rn_events (mark_truncated key b g) = rn_events g"
  by (simp add: mark_truncated_def)

lemma runs_safe_tool:
  assumes "P (ToolCall name args)"
  shows "runs P (safe_tool env name args mk)"
proof (rule runsI)
  fix g
  obtain r g1 es where "parse_tool env name args mk g = Some (r, g1)" "rn_events g1 = rn_events g @ es" "list_all P es"
    using runs_parse_tool [where P = P, OF assms, of env mk] unfolding runs_def by blast
  then show "\<exists>r g' evs. safe_tool env name args mk g = Some (r, g') \<and> rn_events g' = rn_events g @ evs \<and> list_all P evs"
    by (cases r) (auto simp: safe_tool_def)
qed

subsection \<open>Pagination ends\<close>

lemma length_parse_rows: "parse_rows mk rows = Inr xs \<Longrightarrow> length xs = length rows"
  by (induction rows arbitrary: xs) auto

lemma length_slice_prefix: "0 \<le> n \<Longrightarrow> length (py_slice xs 0 n) = min (nat n) (length xs)"
  by (simp add: slice_simps min.commute)

text \<open>A turn makes one call; one that goes on has added \<open>limit\<close> rows.\<close>

lemma page_turn_result:
  assumes "0 \<le> limit"
  shows "\<exists>r g'. page_turn env name args list_key mk trunc_key limit out offset g = Some (r, g') \<and>
    rn_events g' = rn_events g @ [ToolCall name (args @ fields_of [(''offset'', PyInt offset), (''limit'', PyInt limit)])] \<and>
    (\<forall>new. r = Inr (Inr new) \<longrightarrow> int (length new) = int (length out) + limit) \<and>
    (\<forall>new. r = Inr (Inl new) \<longrightarrow> int (length new) \<le> int (length out) + limit)"
proof (cases "call_tool env (rn_events g) name (args @ fields_of [(''offset'', PyInt offset), (''limit'', PyInt limit)])")
  case (Inl e)
  with assms show ?thesis by (simp add: page_turn_def tool_def record_event_def)
next
  case payload: (Inr p)
  show ?thesis
  proof (cases "rows_of list_key p")
    case (Inl e)
    with payload show ?thesis by (simp add: page_turn_def tool_def record_event_def)
  next
    case rows: (Inr rows)
    show ?thesis
    proof (cases "parse_rows mk (py_slice rows 0 limit)")
      case (Inl e)
      with payload rows assms show ?thesis by (simp add: page_turn_def tool_def record_event_def)
    next
      case (Inr new)
      have "length new = min (nat limit) (length rows)"
        using length_parse_rows [OF Inr] length_slice_prefix [OF assms, of rows] by simp
      with payload rows Inr assms show ?thesis by (simp add: page_turn_def tool_def record_event_def)
    qed
  qed
qed

text \<open>\<open>P\<close> of every call a paginated tool makes.\<close>

lemma paginate_loop_runs:
  assumes calls: "\<And>offset limit. P (ToolCall name (args @ fields_of [(''offset'', PyInt offset), (''limit'', PyInt limit)]))"
    and psize: "1 \<le> psize"
  shows "\<exists>r g' evs. paginate_loop env psize name args list_key mk cap trunc_key out offset g = Some (r, g') \<and>
    rn_events g' = rn_events g @ evs \<and> list_all P evs \<and>
    (\<forall>xs. r = Inr xs \<longrightarrow> int (length xs) \<le> max (int (length out)) cap)"
proof (induction "nat (cap - int (length out))" arbitrary: out offset g rule: less_induct)
  case less
  show ?case
  proof (cases "int (length out) < cap")
    case False
    then show ?thesis by (subst paginate_loop.simps) simp
  next
    case True
    let ?limit = "min psize (cap - int (length out))"
    have limit: "1 \<le> ?limit" using True psize by simp
    from page_turn_result [of ?limit env name args list_key mk trunc_key out offset g] limit
    obtain r g1 where turn: "page_turn env name args list_key mk trunc_key ?limit out offset g = Some (r, g1)"
      and evs: "rn_events g1 = rn_events g @ [ToolCall name (args @ fields_of [(''offset'', PyInt offset), (''limit'', PyInt ?limit)])]"
      and more: "\<And>new. r = Inr (Inr new) \<Longrightarrow> int (length new) = int (length out) + ?limit"
      and final: "\<And>new. r = Inr (Inl new) \<Longrightarrow> int (length new) \<le> int (length out) + ?limit" by auto
    show ?thesis
    proof (cases r)
      case (Inl e)
      with turn evs True calls show ?thesis by (subst paginate_loop.simps) simp
    next
      case (Inr s)
      show ?thesis
      proof (cases s)
        case new: (Inl new)
        with final Inr have "int (length new) \<le> cap" by fastforce
        with turn evs True calls Inr new show ?thesis by (subst paginate_loop.simps) simp
      next
        case new: (Inr new)
        have len: "int (length new) = int (length out) + ?limit" using more Inr new by blast
        then have "nat (cap - int (length new)) < nat (cap - int (length out))" using limit True by linarith
        from less [OF this, of "offset + ?limit" g1] obtain r' g2 fs where
          "paginate_loop env psize name args list_key mk cap trunc_key new (offset + ?limit) g1 = Some (r', g2)"
          "rn_events g2 = rn_events g1 @ fs" "list_all P fs" "\<forall>xs. r' = Inr xs \<longrightarrow> int (length xs) \<le> max (int (length new)) cap"
          by blast
        moreover from this(4) have "\<forall>xs. r' = Inr xs \<longrightarrow> int (length xs) \<le> max (int (length out)) cap"
          using len True by fastforce
        ultimately show ?thesis using turn evs True calls Inr new by (subst paginate_loop.simps) simp
      qed
    qed
  qed
qed

lemma runs_paginate:
  assumes "1 \<le> page_size opts"
    "\<And>offset limit. P (ToolCall name (args @ fields_of [(''offset'', PyInt offset), (''limit'', PyInt limit)]))"
  shows "runs P (paginate env opts name args list_key mk cap trunc_key)"
  unfolding runs_def paginate_def
  using paginate_loop_runs [where P = P, OF assms(2,1), of env list_key mk cap trunc_key "[]" 0] by blast

lemma paginate_within:
  assumes "1 \<le> page_size opts" "paginate env opts name args list_key mk cap trunc_key g = Some (Inr xs, g')"
  shows "int (length xs) \<le> max 0 cap"
  using paginate_loop_runs [where P = "\<lambda>_. True", OF TrueI assms(1), of env name args list_key mk cap trunc_key "[]" 0 g]
    assms(2) unfolding paginate_def by auto

subsection \<open>An export\<close>

text \<open>A call of one of the read-only tools on the session, and a call of the store.\<close>

definition PULL_TOOLS :: "string list" where
  "PULL_TOOLS = [''program_metadata'', ''program_fingerprint'', ''list_functions'', ''call_graph'', ''call_graph_metrics'',
     ''xrefs_to'', ''list_imports'', ''list_exports'', ''list_strings'', ''ioc_scan'', ''crypto_constant_scan'',
     ''crypto_detect'', ''secret_scan'', ''capability_scan'', ''family_match'', ''get_function'',
     ''cyclomatic_complexity'', ''function_hash'', ''session_export_annotations'']"

definition is_pull :: "pystr \<Rightarrow> event \<Rightarrow> bool" where
  "is_pull sid e \<longleftrightarrow> (\<exists>name args. e = ToolCall name args \<and> name \<in> set PULL_TOOLS \<and>
     dict_get args (ascii ''session_id'') = Some (PyStr sid))"

definition is_write :: "event \<Rightarrow> bool" where
  "is_write e \<longleftrightarrow> (case e of ToolCall _ _ \<Rightarrow> False | _ \<Rightarrow> True)"

lemma pull_call [simp]: "name \<in> set PULL_TOOLS \<Longrightarrow> is_pull sid (ToolCall name (session_args sid @ rest))"
  by (simp add: is_pull_def session_args_def fields_of_def)

lemma pull_call_plain [simp]: "name \<in> set PULL_TOOLS \<Longrightarrow> is_pull sid (ToolCall name (session_args sid))"
  using pull_call [of name sid "[]"] by simp

lemma runs_gather_xrefs: "runs (is_pull sid) (gather_xrefs env ms sid opts src)"
  unfolding gather_xrefs_def
  by (intro runs_seq runs_safe_tool runs_option runs_for_steps runs_done) (simp_all add: PULL_TOOLS_def)

lemma runs_enrich: "runs (is_pull sid) (enrich_all env ms sid fns src)"
proof (induction fns arbitrary: src)
  case (Cons fn fns)
  have "runs (is_pull sid) (enrich_function env ms sid fn src)"
    unfolding enrich_function_def Let_def
    by (intro runs_seq runs_safe_tool runs_done) (simp_all add: PULL_TOOLS_def)
  with Cons.IH show ?case by (simp add: runs_seq)
qed simp

lemma runs_annotations: "runs (is_pull sid) (gather_annotations env sid src)"
proof (rule runsI)
  let ?e = "ToolCall ''session_export_annotations'' (session_args sid)"
  fix g
  have "\<exists>r g'. gather_annotations env sid src g = Some (r, g') \<and> rn_events g' = rn_events g @ [?e]"
    by (cases "call_tool env (rn_events g) ''session_export_annotations'' (session_args sid)")
       (simp_all add: gather_annotations_def tool_def record_event_def Let_def)
  then show "\<exists>r g' evs. gather_annotations env sid src g = Some (r, g') \<and> rn_events g' = rn_events g @ evs \<and>
      list_all (is_pull sid) evs"
    by (auto simp: PULL_TOOLS_def intro!: exI [of _ "[?e]"])
qed

lemma runs_gather:
  assumes "1 \<le> page_size opts"
  shows "runs (is_pull sid) (gather_sources env ms sid opts)"
  unfolding gather_sources_def Let_def
  by (intro runs_seq runs_parse_tool runs_safe_tool runs_paginate runs_gather_xrefs runs_if runs_enrich runs_done
      runs_annotations assms; (rule runs_quiet)?)
     (simp_all add: PULL_TOOLS_def some_or_def split: option.split)

lemma runs_push_into: "runs is_write (push_into env pid name batch)"
proof -
  have nodes: "runs is_write (upsert_node_chunks env pid cs acc)" for cs acc
    by (induction cs arbitrary: acc) (simp_all add: runs_seq runs_call is_write_def)
  have edges: "runs is_write (upsert_edge_chunks env pid cs stats)" for cs stats
    by (induction cs arbitrary: stats) (simp_all add: runs_seq runs_call is_write_def)
  show ?thesis unfolding push_into_def case_prod_beta by (intro runs_seq nodes edges)
qed

lemma runs_open_project: "runs is_write (open_project env name descr)"
  by (rule runs_one) (auto simp: open_project_def is_write_def)

text \<open>Pushing: mapping, the session's own project, the corpus if asked for.\<close>

definition push_all :: "ports \<Rightarrow> pystr \<Rightarrow> bool \<Rightarrow> SessionSources \<times> string list \<Rightarrow> ExportStats step" where
  "push_all env label link_corpus = (\<lambda>(src, failed).
     seq (raised_or (build_graph src)) (\<lambda>batch.
     seq (push_batch env batch (pm_sha256 (ss_metadata src)) (if label = [] then pm_format (ss_metadata src) else label)) (\<lambda>stats.
     seq (if link_corpus then seq (push_corpus env src) (\<lambda>_. done_with ()) else done_with ()) (\<lambda>_.
     done_with (stats\<lparr>st_failed_tools := failed\<rparr>)))))"

lemma export_session_push: "export_session env ms sid label opts link_corpus =
    seq (gather_sources env ms sid opts) (push_all env label link_corpus)"
  by (simp add: export_session_def push_all_def)

lemma runs_push_all: "runs is_write (push_all env label link_corpus r)"
  unfolding push_all_def push_batch_def push_corpus_def Let_def case_prod_beta
  by (intro runs_seq runs_raised_or runs_if runs_open_project runs_push_into runs_done)

subsection \<open>Bounds of what is gathered\<close>

text \<open>\<open>Q\<close> of every value with which a step returns.\<close>

definition returns :: "('a \<Rightarrow> bool) \<Rightarrow> 'a step \<Rightarrow> bool" where
  "returns Q m \<longleftrightarrow> (\<forall>g x g'. m g = Some (Inr x, g') \<longrightarrow> Q x)"

lemma returns_mono: "returns A m \<Longrightarrow> (\<And>x. A x \<Longrightarrow> Q x) \<Longrightarrow> returns Q m"
  unfolding returns_def by blast

lemma returns_any [simp]: "returns (\<lambda>_. True) m"
  by (simp add: returns_def)

lemma returns_done [simp]: "returns Q (done_with x) \<longleftrightarrow> Q x"
  by (simp add: returns_def done_with_def)

lemma returns_seq: "returns A m \<Longrightarrow> (\<And>x. A x \<Longrightarrow> returns Q (f x)) \<Longrightarrow> returns Q (seq m f)"
  unfolding returns_def seq_def by (fastforce split: option.splits sum.splits)

lemmas returns_next = returns_seq [where A = "\<lambda>_. True", OF returns_any]

definition at_most :: "int \<Rightarrow> 'a list \<Rightarrow> bool" where
  "at_most cap xs \<longleftrightarrow> int (length xs) \<le> max 0 cap"

lemma returns_paginate:
  "1 \<le> page_size opts \<Longrightarrow>
   returns (at_most cap) (paginate env opts name args list_key mk cap trunc_key)"
  unfolding returns_def at_most_def by (blast intro: paginate_within)

definition lists_bounded :: "ExportOptions \<Rightarrow> SessionSources \<Rightarrow> bool" where
  "lists_bounded opts src \<longleftrightarrow>
     at_most (max_functions opts) (ss_functions src) \<and>
     at_most (max_imports opts) (ss_imports src) \<and>
     at_most (max_exports opts) (ss_exports src) \<and>
     at_most (max_strings opts) (ss_strings src) \<and>
     at_most (max_iocs opts) (ss_iocs src) \<and>
     at_most (max_crypto opts) (ss_crypto_constants src) \<and>
     at_most (max_crypto opts) (ss_crypto_indicators src) \<and>
     at_most (max_secrets opts) (ss_secrets src) \<and>
     at_most (max_capabilities opts) (ss_capabilities src)"

text \<open>The listed facts, which the later steps leave alone.\<close>

definition listed :: "SessionSources \<Rightarrow> FunctionSummary list \<times> ImportedSymbol list \<times> ExportedSymbol list \<times>
    DefinedString list \<times> IocMatch list \<times> CryptoConstantFinding list \<times> CryptoIndicator list \<times>
    SecretFinding list \<times> CapabilityMatch list" where
  "listed src = (ss_functions src, ss_imports src, ss_exports src, ss_strings src, ss_iocs src, ss_crypto_constants src,
     ss_crypto_indicators src, ss_secrets src, ss_capabilities src)"

lemma within_listed: "listed src = listed src' \<Longrightarrow> lists_bounded opts src \<Longrightarrow> lists_bounded opts src'"
  by (simp add: listed_def lists_bounded_def)

lemma listed_updates [simp]:
  "listed (src\<lparr>ss_xrefs := a\<rparr>) = listed src" "listed (src\<lparr>ss_renames := b\<rparr>) = listed src"
  "listed (src\<lparr>ss_comments := c\<rparr>) = listed src" "listed (src\<lparr>ss_types := d\<rparr>) = listed src"
  "listed (src\<lparr>ss_function_details := e\<rparr>) = listed src" "listed (src\<lparr>ss_complexities := f\<rparr>) = listed src"
  "listed (src\<lparr>ss_function_hashes := h\<rparr>) = listed src" "listed (src\<lparr>ss_function_byte_hashes := i\<rparr>) = listed src"
  "listed (src\<lparr>ss_truncated := j\<rparr>) = listed src"
  by (simp_all add: listed_def)

lemma returns_gather_xrefs: "returns (\<lambda>src'. listed src' = listed src) (gather_xrefs env ms sid opts src)"
  unfolding gather_xrefs_def by (intro returns_next) (auto split: option.split intro!: returns_next)

lemma returns_enrich_function: "returns (\<lambda>src'. listed src' = listed src) (enrich_function env ms sid fn src)"
  unfolding enrich_function_def Let_def
  by (intro returns_next) (auto simp: some_or_def split: option.split)

lemma returns_enrich_all: "returns (\<lambda>src'. listed src' = listed src) (enrich_all env ms sid fns src)"
proof (induction fns arbitrary: src)
  case (Cons fn fns)
  show ?case
    unfolding enrich_all.simps
    by (rule returns_seq [OF returns_enrich_function]) (use Cons.IH in \<open>simp add: returns_def\<close>)
qed simp

lemma loop_raise_keeps:
  assumes "\<And>x s s'. f x s = Inr s' \<Longrightarrow> h s' = h s"
  shows "loop_raise f xs s = Inr s' \<Longrightarrow> h s' = h s"
  by (induction xs arbitrary: s) (auto dest: assms)

lemma apply_type_listed: "apply_type env spec src = Inr src' \<Longrightarrow> listed src' = listed src"
  by (cases spec) (auto simp: apply_type_def split: pyval.split_asm)

lemma loop_types_listed: "loop_raise (apply_type env) specs src = Inr src' \<Longrightarrow> listed src' = listed src"
  by (rule loop_raise_keeps [where f = "apply_type env"]) (rule apply_type_listed)

lemma apply_annotation_entry_listed: "apply_annotation_entry env d src = Inr src' \<Longrightarrow> listed src' = listed src"
  unfolding apply_annotation_entry_def Let_def
  by (auto simp: loop_types_listed split: pyval.split_asm if_split_asm)

lemma loop_entries_listed: "loop_raise (apply_entry env) es src = Inr src' \<Longrightarrow> listed src' = listed src"
proof (rule loop_raise_keeps [where f = "apply_entry env"])
  show "apply_entry env e s = Inr s' \<Longrightarrow> listed s' = listed s" for e s s'
    by (cases e) (simp_all add: apply_entry_def apply_annotation_entry_listed)
qed

lemma returns_annotations: "returns (\<lambda>src'. listed src' = listed src) (gather_annotations env sid src)"
  unfolding returns_def
proof (intro allI impI)
  fix g x g' assume "gather_annotations env sid src g = Some (Inr x, g')"
  then have "x = src \<or> (\<exists>es. loop_raise (apply_entry env) es src = Inr x)"
    by (auto simp: gather_annotations_def Let_def split: option.splits sum.splits)
  then show "listed x = listed src" using loop_entries_listed by blast
qed

definition finish_gathering :: "SessionSources \<Rightarrow> (SessionSources \<times> string list) step" where
  "finish_gathering src g =
     (let g = mark_truncated ''_failed_tools'' (rn_failed g \<noteq> []) g
      in Some (Inr (src\<lparr>ss_truncated := rn_truncated g\<rparr>, rn_failed g), g))"

lemma returns_tail:
  "returns (\<lambda>(src', failed). listed src' = listed src)
     (seq (if b then enrich_all env ms sid fns src else done_with src) (\<lambda>src.
      seq (gather_annotations env sid src) finish_gathering))"
proof (rule returns_seq)
  show "returns (\<lambda>src'. listed src' = listed src) (if b then enrich_all env ms sid fns src else done_with src)"
    by (simp add: returns_enrich_all)
  fix x :: SessionSources assume x: "listed x = listed src"
  show "returns (\<lambda>(src', failed). listed src' = listed src) (seq (gather_annotations env sid x) finish_gathering)"
    by (rule returns_seq [OF returns_annotations]) (simp add: returns_def finish_gathering_def Let_def x)
qed

lemma returns_gather:
  assumes "1 \<le> page_size opts"
  shows "returns (\<lambda>(src, failed). lists_bounded opts src) (gather_sources env ms sid opts)"
  unfolding gather_sources_def Let_def finish_gathering_def [abs_def, unfolded Let_def, symmetric]
  apply (rule returns_next)
  apply (rule returns_next)
  apply (rule returns_next)
  apply (rule returns_seq [OF returns_paginate [OF assms]])
  apply (rule returns_next)
  apply (rule returns_next)
  apply (rule returns_seq [OF returns_gather_xrefs])
  apply (rule returns_seq [OF returns_paginate [OF assms]])+
  apply (rule returns_next)
  apply (rule returns_mono [OF returns_tail])
  apply (clarsimp simp: lists_bounded_def listed_def)
  done

text \<open>
  What is gathered is bounded. With a page size of at least one, each of the nine paginated lists of
  a gathering that returns has at most as many entries as its ceiling, however many rows the tools send.
\<close>

theorem gathered_within_ceilings:
  assumes "1 \<le> page_size opts" "gather_sources env ms sid opts g = Some (Inr (src, failed), g')"
  shows "lists_bounded opts src"
  using returns_gather [OF assms(1), of env ms sid] assms(2) unfolding returns_def by fastforce

text \<open>
  C28: An export with close returns and closes last. With a page size of at least one, whatever the tools
  and the store answer or raise, it ends, never raises, and what it did is: calls of read-only tools
  on this session, then calls of the store, then one close of this session.
\<close>

theorem export_pulls_pushes_closes:
  assumes "1 \<le> page_size opts"
  shows "\<exists>stats g' pulls writes.
    export_session_and_close env ms sid label opts link_corpus g = Some (Inr stats, g') \<and>
    rn_events g' = rn_events g @ pulls @ writes @ [ToolCall ''session_close'' (session_args sid)] \<and>
    list_all (is_pull sid) pulls \<and> list_all is_write writes"
proof -
  obtain r g1 pulls where pull: "gather_sources env ms sid opts g = Some (r, g1)" "rn_events g1 = rn_events g @ pulls"
    "list_all (is_pull sid) pulls"
    using runs_gather [OF assms, of sid env ms] unfolding runs_def by blast
  have "\<exists>r' g2 writes. export_session env ms sid label opts link_corpus g = Some (r', g2) \<and>
      rn_events g2 = rn_events g @ pulls @ writes \<and> list_all is_write writes"
  proof (cases r)
    case (Inl e)
    then show ?thesis by (intro exI [of _ "Inl e"] exI [of _ g1] exI [of _ "[]"]) (simp add: export_session_push seq_def pull)
  next
    case (Inr x)
    obtain r' g2 writes where "push_all env label link_corpus x g1 = Some (r', g2)" "rn_events g2 = rn_events g1 @ writes"
      "list_all is_write writes"
      using runs_push_all [of env label link_corpus x] unfolding runs_def by blast
    with Inr pull show ?thesis by (simp add: export_session_push seq_def)
  qed
  then obtain r' g2 writes where run: "export_session env ms sid label opts link_corpus g = Some (r', g2)"
    "rn_events g2 = rn_events g @ pulls @ writes" "list_all is_write writes" by blast
  show ?thesis
    using run pull(3)
    by (cases r') (force simp: export_session_and_close_def close_quietly_def record_event_def)+
qed

subsection \<open>Examples\<close>

text \<open>A session with one function, renamed by an analyst, that the call graph reports again.\<close>

definition hostile_text :: "pystr \<Rightarrow> pystr Untrusted" where
  "hostile_text t = \<lparr> u_value = t, u_origin = BINARY, u_truncated = False, u_encoding = None, u_notes = [] \<rparr>"

definition demo_metadata :: ProgramMetadata where
  "demo_metadata = \<lparr> pm_sha256 = ascii ''ab12'', pm_size_bytes = 64, pm_format = ascii ''ELF'', pm_architecture = ascii ''x86'',
     pm_endianness = ascii ''little'', pm_compiler = None, pm_entry_point = None, pm_function_count = 1,
     pm_analysis_complete = True \<rparr>"

definition demo_function :: FunctionSummary where
  "demo_function = \<lparr> fs_address = ascii ''10'', fs_name = hostile_text (ascii ''FUN_10''), fs_size = 4 \<rparr>"

definition demo_sources :: SessionSources where
  "demo_sources = (new_sources demo_metadata)\<lparr>ss_functions := [demo_function],
     ss_renames := [(ascii ''10'', ascii ''parse'')],
     ss_call_nodes := [\<lparr> cn_address = ascii ''10'', cn_name = hostile_text (ascii ''FUN_10''), cn_is_external = False,
        cn_has_unresolved_calls = False \<rparr>],
     ss_call_edges := [\<lparr> ce_from = ascii ''10'', ce_to = ascii ''10'' \<rparr>]\<rparr>"

theorem analyst_rename_wins_witness:
  "\<exists>batch n. build_graph demo_sources = Inr batch \<and>
     filter (\<lambda>m. local_id m = (''FUNCTION'', ByAddress 16)) (batch_nodes batch) = [n] \<and> nd_name n = ascii ''parse''"
proof -
  have fn: "demo_function \<in> set (ss_functions demo_sources)" by (simp add: demo_sources_def)
  have address: "fs_address demo_function = ascii ''10''" by (simp add: demo_function_def)
  have addr: "addr_of (Some (ascii ''10'')) = Some 16"
    by (simp add: addr_of_def int_base16_def int_ascii_def py_int16_def py_strip_def py_space_def
        ascii_def int_blank_def skip_prefix_def is_hex_digit_def hex_value_def)
  have renames: "dict_get (ss_renames demo_sources) k = (if k = ascii ''10'' then Some (ascii ''parse'') else None)" for k
    by (simp add: demo_sources_def)
  have "addr_of (Some (fs_address demo_function)) = Some 16"
    "dict_get (ss_renames demo_sources) (fs_address demo_function) = Some (ascii ''parse'')"
    by (simp_all add: address addr renames)
  from analyst_rename_wins [OF fn this] obtain batch n and g :: FunctionSummary where
    b: "build_graph demo_sources = Inr batch" "filter (\<lambda>m. local_id m = (''FUNCTION'', ByAddress 16)) (batch_nodes batch) = [n]"
    and "dict_get (ss_renames demo_sources) (fs_address g) = Some (nd_name n)" by blast
  then have "nd_name n = ascii ''parse''" by (simp add: renames split: if_splits)
  with b show ?thesis by blast
qed

text \<open>A store that returns a key for every node but the last of a chunk, and tools that return nothing.\<close>

definition demo_ports :: ports where
  "demo_ports = \<lparr> call_tool = \<lambda>_ _ _. Inr (PyDict []), ensure_project = \<lambda>_ _ _. Inr (ascii ''p1''),
     upsert_nodes = \<lambda>_ _ ns. Inr (map (\<lambda>n. [(ascii ''key'', get_or n ''name'' PyNone)]) (butlast ns) @ [[]]),
     upsert_edges = \<lambda>_ _ es. Inr (map (\<lambda>_. []) es), show_other = \<lambda>_. [], lower_case = id \<rparr>"

definition idle_run :: Run where
  "idle_run = \<lparr> rn_events = [], rn_failed = [], rn_truncated = [] \<rparr>"

definition demo_batch :: GraphBatch where
  "demo_batch = (let a = plain_node ''PROGRAM'' (ascii ''a'') ''BINARY'' ''raw'' []; b = plain_node ''IOC'' (ascii ''b'') ''INFERRED'' ''inferred'' [];
      c = plain_node ''IOC'' (ascii ''c'') ''INFERRED'' ''inferred'' []
    in \<lparr> batch_nodes = [a, b, c], batch_edges = [plain_edge ''CONTAINS'' a b ''BINARY'', plain_edge ''CONTAINS'' a c ''BINARY''] \<rparr>)"

definition succeeds :: "'a step \<Rightarrow> bool" where
  "succeeds m \<longleftrightarrow> (\<forall>g. \<exists>x g'. m g = Some (Inr x, g'))"

lemma succeeds_seq: "succeeds m \<Longrightarrow> (\<And>x. succeeds (f x)) \<Longrightarrow> succeeds (seq m f)"
  unfolding succeeds_def seq_def by (metis (no_types, lifting) option.simps(5) prod.simps(2) sum.simps(6))

lemma succeeds_push: "succeeds (push_into demo_ports pid name batch)"
proof -
  have "succeeds (upsert_node_chunks demo_ports pid cs acc)" for cs acc
    by (induction cs arbitrary: acc) (simp_all add: succeeds_def done_with_def seq_def demo_ports_def)
  moreover have "succeeds (upsert_edge_chunks demo_ports pid cs st)" for cs st
    by (induction cs arbitrary: st) (simp_all add: succeeds_def done_with_def seq_def demo_ports_def)
  ultimately show ?thesis unfolding push_into_def case_prod_beta by (intro succeeds_seq)
qed

theorem push_sends_resolved_edges_witness:
  "\<exists>stats g' node_chunks edge_chunks. push_into demo_ports (ascii ''p1'') (ascii ''demo'') demo_batch idle_run = Some (Inr stats, g') \<and>
     concat node_chunks = batch_nodes demo_batch \<and> length (concat edge_chunks) + st_edges_skipped stats = 2 \<and>
     rn_events g' = map (\<lambda>c. UpsertNodes (ascii ''p1'') (map node_dict c)) node_chunks @ map (UpsertEdges (ascii ''p1'')) edge_chunks"
proof -
  obtain stats g' where run: "push_into demo_ports (ascii ''p1'') (ascii ''demo'') demo_batch idle_run = Some (Inr stats, g')"
    using succeeds_push unfolding succeeds_def by blast
  from push_sends_resolved_edges [OF run] obtain node_chunks edge_chunks where
    "concat node_chunks = batch_nodes demo_batch"
    "rn_events g' = rn_events idle_run @ map (\<lambda>c. UpsertNodes (ascii ''p1'') (map node_dict c)) node_chunks @
       map (UpsertEdges (ascii ''p1'')) edge_chunks"
    "length (concat edge_chunks) + st_edges_skipped stats = length (batch_edges demo_batch)"
    by (auto simp: Let_def)
  moreover have "rn_events idle_run = []" "length (batch_edges demo_batch) = 2"
    by (simp_all add: idle_run_def demo_batch_def Let_def)
  ultimately show ?thesis using run by (metis append_Nil)
qed

definition demo_models :: models where
  "demo_models = \<lparr> mk_metadata = \<lambda>_. Some demo_metadata, mk_fingerprint = \<lambda>_. None, mk_function = \<lambda>_. Some demo_function,
     mk_call_graph = \<lambda>_. None, mk_top_fan_in = \<lambda>_. None, mk_xrefs = \<lambda>_. None, mk_import = \<lambda>_. None,
     mk_export = \<lambda>_. None, mk_string = \<lambda>_. None, mk_ioc = \<lambda>_. None, mk_crypto_constant = \<lambda>_. None,
     mk_crypto_indicator = \<lambda>_. None, mk_secret = \<lambda>_. None, mk_capability = \<lambda>_. None, mk_family = \<lambda>_. None,
     mk_detail = \<lambda>_. None, mk_complexity = \<lambda>_. None, mk_function_hash = \<lambda>_. None \<rparr>"

lemma demo_call [simp]: "call_tool demo_ports evs name args = Inr (PyDict [])"
  by (simp add: demo_ports_def)

lemma succeeds_quiet: "succeeds (\<lambda>g. Some (Inr (x g), h g))"
  by (simp add: succeeds_def)

lemma succeeds_safe_tool: "succeeds (safe_tool demo_ports name args mk)"
  by (auto simp: succeeds_def safe_tool_def parse_tool_def tool_def seq_def raised_or_def parse_with_def split: option.split)

lemma succeeds_demo:
  "succeeds (parse_tool demo_ports name args (mk_metadata demo_models))"
  "succeeds (gather_annotations demo_ports sid src)"
  "succeeds (gather_xrefs demo_ports demo_models sid opts src)"
  by (simp_all add: succeeds_def parse_tool_def tool_def seq_def raised_or_def parse_with_def demo_models_def
      gather_annotations_def get_or_def items_of_def gather_xrefs_def safe_tool_def done_with_def)

lemma succeeds_paginate: "succeeds (paginate demo_ports default_options name args list_key mk cap trunc_key)"
proof -
  have turn: "\<exists>g'. page_turn demo_ports name args list_key mk trunc_key limit [] 0 g = Some (Inr (Inl []), g')" for limit g
    by (simp add: page_turn_def tool_def rows_of_def py_get_def)
  show ?thesis
    unfolding succeeds_def paginate_def
  proof
    fix g
    show "\<exists>x g'. paginate_loop demo_ports (page_size default_options) name args list_key mk cap trunc_key [] 0 g = Some (Inr x, g')"
      using turn [of "min (page_size default_options) cap" g] by (subst paginate_loop.simps) (auto simp: Let_def)
  qed
qed

lemma demo_gather: "succeeds (gather_sources demo_ports demo_models sid default_options)"
  unfolding gather_sources_def Let_def
  by (intro succeeds_seq succeeds_demo succeeds_safe_tool succeeds_paginate succeeds_quiet)
     (simp_all add: default_options_def succeeds_def done_with_def)

theorem gathered_within_ceilings_witness:
  "\<exists>src failed g'. gather_sources demo_ports demo_models (ascii ''s1'') default_options idle_run = Some (Inr (src, failed), g') \<and>
     lists_bounded default_options src"
proof -
  obtain src failed g' where run: "gather_sources demo_ports demo_models (ascii ''s1'') default_options idle_run = Some (Inr (src, failed), g')"
    using demo_gather unfolding succeeds_def by fast
  have "1 \<le> page_size default_options" by (simp add: default_options_def)
  from gathered_within_ceilings [OF this run] run show ?thesis by blast
qed

theorem export_pulls_pushes_closes_witness:
  "\<exists>stats g' pulls writes.
    export_session_and_close demo_ports demo_models (ascii ''s1'') [] default_options True idle_run = Some (Inr stats, g') \<and>
    rn_events g' = pulls @ writes @ [ToolCall ''session_close'' (session_args (ascii ''s1''))] \<and>
    list_all (is_pull (ascii ''s1'')) pulls \<and> list_all is_write writes"
  using export_pulls_pushes_closes [of default_options demo_ports demo_models "ascii ''s1''" "[]" True idle_run]
  by (simp add: default_options_def idle_run_def)

end
