(* ===== verification/Projection.thy ===== *)
theory Projection
  imports Py_Json Py_Text Validation
begin

text \<open>
  The projection of binary-derived text to inert text (\<open>report/projection.py\<close>): identifiers to the
  charset of write names, strings to an escaped preview and a hex dump. The readers at the end are
  specifications: they give back what an identifier, a preview or a dump was made of.
\<close>

subsection \<open>Hexadecimal text\<close>

fun hex_text :: "nat \<Rightarrow> pystr" where
  "hex_text n = (if n < 16 then [hex_char n] else hex_text (n div 16) @ [hex_char (n mod 16)])"

declare hex_text.simps [simp del]

definition rjust_zero :: "nat \<Rightarrow> pystr \<Rightarrow> pystr" where
  "rjust_zero w s = replicate (w - length s) 48 @ s"

subsection \<open>Escapes\<close>

abbreviation PROJECTION_NAME_CHARSET :: "nat \<Rightarrow> bool" where "PROJECTION_NAME_CHARSET \<equiv> write_name_rest"

definition PROJECTION_PREVIEW_SAFE :: "nat \<Rightarrow> bool" where
  "PROJECTION_PREVIEW_SAFE c \<longleftrightarrow> (65 \<le> c \<and> c \<le> 90) \<or> (97 \<le> c \<and> c \<le> 122) \<or> (48 \<le> c \<and> c \<le> 57) \<or>
     c \<in> {32, 46, 44, 45, 61, 43, 64}"

definition inert_escape :: "nat \<Rightarrow> pystr" where
  "inert_escape code =
     (if code \<le> 0xFF then [92, 120] @ rjust_zero 2 (hex_text code)
      else if code \<le> 0xFFFF then [92, 117] @ rjust_zero 4 (hex_text code)
      else [92, 85] @ rjust_zero 8 (hex_text code))"

definition escaped :: "(nat \<Rightarrow> bool) \<Rightarrow> pystr \<Rightarrow> pystr" where
  "escaped safe s = concat (map (\<lambda>c. if safe c then [c] else inert_escape c) s)"

subsection \<open>The three projections\<close>

abbreviation MAX_NAME_CHARS :: int where "MAX_NAME_CHARS \<equiv> 1024"
abbreviation MAX_PREVIEW_CHARS :: int where "MAX_PREVIEW_CHARS \<equiv> 256"
abbreviation MAX_HEX_BYTES :: int where "MAX_HEX_BYTES \<equiv> 256"
abbreviation HEX_COLS :: nat where "HEX_COLS \<equiv> 16"

definition project_identifier :: "pystr \<Rightarrow> int \<Rightarrow> pystr" where
  "project_identifier name max_chars =
     (if name = [] then []
      else escaped PROJECTION_NAME_CHARSET (py_slice name 0 max_chars) @
        (if int (length name) > max_chars then (92 # ascii ''u2026'') else []))"

definition project_address :: "int \<Rightarrow> pystr" where
  "project_address address =
     (if address < 0 then ascii ''-0x'' @ hex_text (nat (- address)) else ascii ''0x'' @ hex_text (nat address))"

record ProjectedString =
  ps_preview :: pystr
  ps_hex :: pystr
  ps_byte_len :: nat
  ps_truncated :: bool

definition preview_of :: "nat list \<Rightarrow> int \<Rightarrow> pystr \<times> bool" where
  "preview_of raw max_chars =
     (escaped PROJECTION_PREVIEW_SAFE (py_slice raw 0 max_chars), int (length raw) > max_chars)"

definition hex_row :: "nat \<Rightarrow> nat list \<Rightarrow> pystr" where
  "hex_row off chunk =
     (let hexpart = tl (concat (map (\<lambda>b. 32 # rjust_zero 2 (hex_text b)) chunk))
      in rjust_zero 8 (hex_text off) @ [58, 32] @ hexpart @ replicate (HEX_COLS * 3 - 1 - length hexpart) 32 @
         [32, 124] @ map (\<lambda>b. if PROJECTION_PREVIEW_SAFE b then b else 46) chunk @ [124])"

function hex_rows :: "nat \<Rightarrow> nat list \<Rightarrow> pystr list" where
  "hex_rows off data =
     (if data = [] then [] else hex_row off (take HEX_COLS data) # hex_rows (off + HEX_COLS) (drop HEX_COLS data))"
  by pat_completeness auto
termination by (relation "measure (length \<circ> snd)") auto

declare hex_rows.simps [simp del]

definition hex_dump :: "nat list \<Rightarrow> int \<Rightarrow> pystr \<times> bool" where
  "hex_dump raw max_bytes =
     (join_with [10] (hex_rows 0 (py_slice raw 0 max_bytes)), int (length raw) > max_bytes)"

text \<open>The raw value is a \<open>str\<close>, encoded as UTF-8 with the surrogates let through, or \<open>bytes\<close>.\<close>

datatype source_text = TextSource pystr | ByteSource bytes

definition utf8_surrogatepass :: "nat \<Rightarrow> nat list" where
  "utf8_surrogatepass c = (case utf8_char c of
     Some bs \<Rightarrow> bs | None \<Rightarrow> [0xE0 + c div 4096, 0x80 + (c div 64) mod 64, 0x80 + c mod 64])"

definition source_bytes :: "source_text \<Rightarrow> nat list" where
  "source_bytes raw = (case raw of
     TextSource s \<Rightarrow> concat (map utf8_surrogatepass s) | ByteSource bs \<Rightarrow> map unat bs)"

definition project_string :: "source_text \<Rightarrow> int \<Rightarrow> int \<Rightarrow> ProjectedString" where
  "project_string raw max_preview max_hex_bytes =
     (let data = source_bytes raw in
      case (preview_of data max_preview, hex_dump data max_hex_bytes) of
        ((preview, p_trunc), (hexdump, h_trunc)) \<Rightarrow>
          \<lparr> ps_preview = preview, ps_hex = hexdump, ps_byte_len = length data, ps_truncated = (p_trunc \<or> h_trunc) \<rparr>)"

subsection \<open>Readers\<close>

function read_escaped :: "pystr \<Rightarrow> pystr" where
  "read_escaped [] = []"
| "read_escaped (c # s) =
     (if c \<noteq> 92 \<or> s = [] then c # read_escaped s
      else (let w = (if hd s = 120 then 2 else if hd s = 117 then 4 else 8) in
            hex_number (take w (tl s)) # read_escaped (drop w (tl s))))"
  by pat_completeness auto
termination by (relation "measure length") auto

fun read_pairs :: "pystr \<Rightarrow> nat list" where
  "read_pairs (c # d # s) = (if c = 32 then read_pairs (d # s) else hex_number [c, d] # read_pairs s)"
| "read_pairs s = []"

definition read_row :: "pystr \<Rightarrow> nat list" where
  "read_row line = read_pairs (takeWhile (\<lambda>c. c \<noteq> 124) (drop 2 (dropWhile (\<lambda>c. c \<noteq> 58) line)))"

definition read_dump :: "pystr \<Rightarrow> nat list" where
  "read_dump s = (if s = [] then [] else concat (map read_row (split_at 10 s)))"

subsection \<open>Facts\<close>

lemma hex_char_value: "n < 16 \<Longrightarrow> hex_value (hex_char n) = n"
  by (simp add: hex_char_def hex_value_def)

lemma hex_text_number: "hex_number (hex_text n) = n"
proof (induction n rule: hex_text.induct)
  case (1 n)
  show ?case
  proof (cases "n < 16")
    case True
    then show ?thesis by (subst hex_text.simps) (simp add: hex_number_def hex_char_value)
  next
    case False
    then show ?thesis using 1 by (subst hex_text.simps) (simp add: hex_number_snoc hex_char_value)
  qed
qed

lemma hex_number_pad: "hex_number (rjust_zero w s) = hex_number s"
proof -
  have "foldl (\<lambda>n c. 16 * n + hex_value c) 0 (replicate k 48) = 0" for k
    by (induction k) (simp_all add: hex_value_def)
  then show ?thesis by (simp add: rjust_zero_def hex_number_def)
qed

lemma hex_text_length: "n < 16 ^ w \<Longrightarrow> 0 < w \<Longrightarrow> length (hex_text n) \<le> w"
proof (induction w arbitrary: n)
  case (Suc w)
  show ?case
  proof (cases "n < 16")
    case True
    then show ?thesis by (subst hex_text.simps) simp
  next
    case False
    then have "0 < w" using Suc.prems by (cases w) auto
    moreover have "n div 16 < 16 ^ w" using Suc.prems by (simp add: less_mult_imp_div_less)
    ultimately show ?thesis using Suc.IH [of "n div 16"] False by (subst hex_text.simps) simp
  qed
qed simp

lemma rjust_zero_length: "n < 16 ^ w \<Longrightarrow> 0 < w \<Longrightarrow> length (rjust_zero w (hex_text n)) = w"
  using hex_text_length [of n w] by (simp add: rjust_zero_def)

definition lower_hex_digit :: "nat \<Rightarrow> bool" where
  "lower_hex_digit c \<longleftrightarrow> (48 \<le> c \<and> c \<le> 57) \<or> (97 \<le> c \<and> c \<le> 102)"

lemma hex_char_digit: "n < 16 \<Longrightarrow> lower_hex_digit (hex_char n)"
  by (simp add: lower_hex_digit_def hex_char_def)

lemma hex_text_digits: "list_all lower_hex_digit (hex_text n)"
proof (induction n rule: hex_text.induct)
  case (1 n)
  then show ?case
    by (subst hex_text.simps) (simp add: hex_char_digit)
qed

lemma rjust_zero_digits: "list_all lower_hex_digit (rjust_zero w (hex_text n))"
  using hex_text_digits [of n] by (auto simp: rjust_zero_def list_all_iff lower_hex_digit_def)

lemma inert_escape_chars: "c \<in> set (inert_escape code) \<Longrightarrow> c = 92 \<or> c = 120 \<or> c = 117 \<or> c = 85 \<or> lower_hex_digit c"
  using rjust_zero_digits [of _ code] by (auto simp: inert_escape_def list_all_iff split: if_splits)

lemma escaped_chars:
  assumes "\<And>c. lower_hex_digit c \<Longrightarrow> safe c" "safe 120" "safe 117" "safe 85"
  shows "list_all (\<lambda>c. safe c \<or> c = 92) (escaped safe s)"
  using assms inert_escape_chars by (fastforce simp: escaped_def list_all_iff split: if_splits)

lemma escaped_cons: "escaped safe (c # s) = (if safe c then [c] else inert_escape c) @ escaped safe s"
  by (simp add: escaped_def)

lemma read_escape:
  assumes "code < 16 ^ 8"
  shows "read_escaped (inert_escape code @ r) = code # read_escaped r"
proof -
  have "read_escaped ([92, k] @ rjust_zero w (hex_text code) @ r) = code # read_escaped r"
    if "code < 16 ^ w" "w = (if k = 120 then 2 else if k = 117 then 4 else 8)" "0 < w" for k w
    using rjust_zero_length [OF that(1,3)] that(2) by (simp add: Let_def hex_number_pad hex_text_number)
  from this [of 2 120] this [of 4 117] this [of 8 85] assms show ?thesis by (auto simp: inert_escape_def)
qed

lemma read_escaped_text:
  assumes "list_all (\<lambda>c. c < 0x110000) s" "\<not> safe 92"
  shows "read_escaped (escaped safe s @ r) = s @ read_escaped r"
  using assms
proof (induction s)
  case (Cons c s)
  have "c < 16 ^ 8" "safe c \<Longrightarrow> c \<noteq> 92" using Cons.prems by auto
  then show ?case using Cons by (simp add: escaped_cons read_escape)
qed (simp add: escaped_def)

lemma rjust_zero_byte:
  assumes "b < 256"
  obtains d e where "rjust_zero 2 (hex_text b) = [d, e]" "d \<noteq> 32" "hex_number [d, e] = b"
proof -
  have "length (rjust_zero 2 (hex_text b)) = 2" using rjust_zero_length [of b 2] assms by simp
  then obtain d e where de: "rjust_zero 2 (hex_text b) = [d, e]" by (auto simp: numeral_2_eq_2 length_Suc_conv)
  with rjust_zero_digits [of 2 b] hex_number_pad [of 2 "hex_text b"] show ?thesis
    by (intro that [OF de]) (auto simp: lower_hex_digit_def hex_text_number)
qed

lemma read_pairs_blank: "read_pairs (replicate k 32) = []"
proof (induction k)
  case (Suc k)
  then show ?case by (cases k) simp_all
qed simp

lemma read_pairs_bytes:
  "list_all (\<lambda>b. b < 256) bs \<Longrightarrow> read_pairs (concat (map (\<lambda>b. 32 # rjust_zero 2 (hex_text b)) bs) @ replicate k 32) = bs"
proof (induction bs)
  case (Cons b bs)
  then obtain d e where "rjust_zero 2 (hex_text b) = [d, e]" "d \<noteq> 32" "hex_number [d, e] = b"
    using rjust_zero_byte by auto
  then show ?case using Cons by simp
qed (simp add: read_pairs_blank)

definition hex_part :: "nat list \<Rightarrow> pystr" where
  "hex_part chunk = tl (concat (map (\<lambda>b. 32 # rjust_zero 2 (hex_text b)) chunk))"

lemma hex_row_parts:
  "hex_row off chunk = rjust_zero 8 (hex_text off) @ [58, 32] @ hex_part chunk @
     replicate (Suc (HEX_COLS * 3 - 1 - length (hex_part chunk))) 32 @ [124] @
     map (\<lambda>b. if PROJECTION_PREVIEW_SAFE b then b else 46) chunk @ [124]"
  by (simp add: hex_row_def hex_part_def Let_def replicate_append_same [symmetric])

lemma hex_part_chars: "c \<in> set (hex_part chunk) \<Longrightarrow> c = 32 \<or> lower_hex_digit c"
proof -
  assume "c \<in> set (hex_part chunk)"
  then have "c \<in> set (concat (map (\<lambda>b. 32 # rjust_zero 2 (hex_text b)) chunk))"
    unfolding hex_part_def by (metis list.sel(2) list.set_sel(2))
  then show ?thesis using rjust_zero_digits [of 2] by (auto simp: list_all_iff split: if_splits)
qed

lemma read_hex_part:
  assumes "list_all (\<lambda>b. b < 256) chunk"
  shows "read_pairs (hex_part chunk @ replicate k 32) = chunk"
proof (cases chunk)
  case (Cons b bs)
  then have "b < 256" using assms by simp
  then obtain d e where "rjust_zero 2 (hex_text b) = [d, e]" by (rule rjust_zero_byte)
  then show ?thesis using read_pairs_bytes [OF assms, of k] by (simp add: hex_part_def Cons)
qed (simp add: hex_part_def read_pairs_blank)

lemma read_hex_row:
  assumes "list_all (\<lambda>b. b < 256) chunk"
  shows "read_row (hex_row off chunk) = chunk"
proof -
  have "58 \<notin> set (rjust_zero 8 (hex_text off))" using rjust_zero_digits [of 8 off] by (auto simp: list_all_iff lower_hex_digit_def)
  then have "dropWhile (\<lambda>c. c \<noteq> 58) (rjust_zero 8 (hex_text off) @ [58, 32] @ r) = [58, 32] @ r" for r
    by (subst dropWhile_append2) auto
  moreover have "takeWhile (\<lambda>c. c \<noteq> 124) (hex_part chunk @ replicate k 32 @ [124] @ r) = hex_part chunk @ replicate k 32" for k r
    using hex_part_chars [of 124 chunk] by (subst append_assoc [symmetric], subst takeWhile_append2) (auto simp: lower_hex_digit_def)
  ultimately show ?thesis unfolding read_row_def hex_row_parts by (simp add: read_hex_part [OF assms] del: replicate.simps)
qed

lemma digit_safe: "lower_hex_digit c \<Longrightarrow> PROJECTION_PREVIEW_SAFE c"
  by (auto simp: lower_hex_digit_def PROJECTION_PREVIEW_SAFE_def)

lemma blank_safe: "PROJECTION_PREVIEW_SAFE 32" "PROJECTION_PREVIEW_SAFE 46"
  by (simp_all add: PROJECTION_PREVIEW_SAFE_def)

lemma hex_row_chars: "c \<in> set (hex_row off chunk) \<Longrightarrow> PROJECTION_PREVIEW_SAFE c \<or> c \<in> {58, 124}"
  using rjust_zero_digits [of 8 off] hex_part_chars [of c chunk] digit_safe [of c] blank_safe
  unfolding hex_row_parts by (auto simp only: list_all_iff set_append set_map set_replicate_conv_if Un_iff list.set split: if_splits)

lemma split_at_line: "c \<notin> set l \<Longrightarrow> split_at c (l @ [c] @ r) = l # split_at c r" and split_at_whole: "c \<notin> set l \<Longrightarrow> split_at c l = [l]"
  by (induction l) simp_all

lemma split_lines: "ls \<noteq> [] \<Longrightarrow> \<forall>l \<in> set ls. 10 \<notin> set l \<Longrightarrow> split_at 10 (join_with [10] ls) = ls"
  by (induction "[10::nat]" ls rule: join_with.induct) (simp_all add: split_at_whole split_at_line [simplified])

lemma hex_rows_nil: "hex_rows off data = [] \<longleftrightarrow> data = []"
  by (subst hex_rows.simps) simp

lemma hex_rows_chars: "l \<in> set (hex_rows off data) \<Longrightarrow> l \<noteq> [] \<and> (\<forall>c \<in> set l. PROJECTION_PREVIEW_SAFE c \<or> c \<in> {58, 124})"
proof (induction off data rule: hex_rows.induct)
  case (1 off data)
  have "data \<noteq> []" and "l = hex_row off (take HEX_COLS data) \<or> l \<in> set (hex_rows (off + HEX_COLS) (drop HEX_COLS data))"
    using 1(2) by (subst (asm) hex_rows.simps; simp split: if_splits)+
  moreover have "hex_row off (take HEX_COLS data) \<noteq> []" by (simp add: hex_row_parts)
  moreover have "\<forall>c \<in> set (hex_row off (take HEX_COLS data)). PROJECTION_PREVIEW_SAFE c \<or> c \<in> {58, 124}"
    using hex_row_chars by blast
  ultimately show ?case using 1(1) by (elim disjE) simp_all
qed

lemma read_hex_rows: "list_all (\<lambda>b. b < 256) data \<Longrightarrow> concat (map read_row (hex_rows off data)) = data"
proof (induction off data rule: hex_rows.induct)
  case (1 off data)
  have "list_all (\<lambda>b. b < 256) (take HEX_COLS data)" "list_all (\<lambda>b. b < 256) (drop HEX_COLS data)"
    using 1(2) by (auto simp: list_all_iff dest: in_set_takeD in_set_dropD)
  then show ?case using 1(1) by (subst hex_rows.simps) (simp add: read_hex_row)
qed


subsection \<open>Inert and lossless\<close>

definition source_ok :: "source_text \<Rightarrow> bool" where
  "source_ok raw = (case raw of TextSource s \<Rightarrow> list_all (\<lambda>c. c < 0x110000) s | ByteSource _ \<Rightarrow> True)"

lemma source_bytes_ok: "source_ok raw \<Longrightarrow> list_all (\<lambda>b. b < 256) (source_bytes raw)"
proof -
  have "\<forall>b \<in> set (utf8_surrogatepass c). b < 256" if "c < 0x110000" for c
  proof (cases "utf8_char c")
    case None
    then have "0xD800 \<le> c" "c \<le> 0xDFFF" using that by (auto simp: utf8_char_def split: if_splits)
    then show ?thesis using None by (auto simp: utf8_surrogatepass_def)
  next
    case (Some bs)
    then show ?thesis using utf8_char_bytes [of c bs] by (simp add: utf8_surrogatepass_def)
  qed
  moreover have "unat (b :: byte) < 256" for b by (rule order.strict_trans2 [OF unsigned_less]) simp
  ultimately show "source_ok raw \<Longrightarrow> list_all (\<lambda>b. b < 256) (source_bytes raw)"
    by (auto simp: source_ok_def source_bytes_def list_all_iff split: source_text.splits)
qed

lemma read_dump_back:
  assumes "list_all (\<lambda>b. b < 256) data"
  shows "read_dump (join_with [10] (hex_rows 0 data)) = data"
proof (cases "data = []")
  case False
  then have rows: "hex_rows 0 data \<noteq> []" by (simp add: hex_rows_nil)
  have "10 \<notin> set l" if "l \<in> set (hex_rows 0 data)" for l
    using hex_rows_chars [OF that] by (auto simp: PROJECTION_PREVIEW_SAFE_def)
  then have "split_at 10 (join_with [10] (hex_rows 0 data)) = hex_rows 0 data" by (intro split_lines rows) blast
  moreover from this have "join_with [10] (hex_rows 0 data) \<noteq> []"
    using rows hex_rows_chars [of "[]" 0 data] by (cases "hex_rows 0 data") auto
  ultimately show ?thesis using read_hex_rows [OF assms] by (simp add: read_dump_def)
qed (simp add: read_dump_def hex_rows_nil [THEN iffD2])

lemma join_lines_chars: "c \<in> set (join_with [10] ls) \<Longrightarrow> c = 10 \<or> (\<exists>l \<in> set ls. c \<in> set l)"
  by (induction "[10::nat]" ls rule: join_with.induct) auto

lemma hex_dump_chars:
  "list_all (\<lambda>c. PROJECTION_PREVIEW_SAFE c \<or> c \<in> {10, 58, 124}) (join_with [10] (hex_rows 0 data))"
  using hex_rows_chars [of _ 0 data] by (fastforce simp: list_all_iff dest: join_lines_chars)

lemma slice_take: "0 \<le> n \<Longrightarrow> py_slice xs 0 n = take (nat n) xs"
  by (simp add: py_slice_nonneg)

lemma project_identifier_chars: "list_all (\<lambda>c. PROJECTION_NAME_CHARSET c \<or> c = 92) (project_identifier name mx)"
proof -
  have "PROJECTION_NAME_CHARSET c" if "lower_hex_digit c" for c
    using that by (auto simp: lower_hex_digit_def write_name_rest_def write_name_lead_def)
  then show ?thesis
    using escaped_chars [of PROJECTION_NAME_CHARSET] unfolding project_identifier_def
    by (auto simp: ascii_def write_name_rest_def write_name_lead_def)
qed

lemma preview_chars: "list_all (\<lambda>c. PROJECTION_PREVIEW_SAFE c \<or> c = 92) (escaped PROJECTION_PREVIEW_SAFE s)"
  by (rule escaped_chars) (auto simp: lower_hex_digit_def PROJECTION_PREVIEW_SAFE_def)

text \<open>
  C22: Projection is inert and loses nothing but what the caps cut. A projected identifier consists of
  characters of write names and backslashes, a preview of plain characters and backslashes, a dump of
  plain characters, colons, bars and line ends; reading an identifier or a preview back
  gives the original up to its cap, with one ellipsis exactly if an identifier was cut, and reading the dump
  gives the bytes up to theirs; the length is the true one and the flag says whether a cap was hit.
\<close>

theorem projection_inert_lossless:
  assumes "list_all (\<lambda>c. c < 0x110000) name" "source_ok raw" "0 \<le> max_chars" "0 \<le> max_preview" "0 \<le> max_hex"
  shows "let out = project_identifier name max_chars; p = project_string raw max_preview max_hex; data = source_bytes raw in
    list_all (\<lambda>c. PROJECTION_NAME_CHARSET c \<or> c = 92) out \<and>
    read_escaped out = take (nat max_chars) name @ (if nat max_chars < length name then [0x2026] else []) \<and>
    list_all (\<lambda>c. PROJECTION_PREVIEW_SAFE c \<or> c = 92) (ps_preview p) \<and>
    read_escaped (ps_preview p) = take (nat max_preview) data \<and>
    list_all (\<lambda>c. PROJECTION_PREVIEW_SAFE c \<or> c \<in> {10, 58, 124}) (ps_hex p) \<and>
    read_dump (ps_hex p) = take (nat max_hex) data \<and>
    ps_byte_len p = length data \<and> ps_truncated p = (nat max_preview < length data \<or> nat max_hex < length data)"
proof -
  let ?data = "source_bytes raw"
  have bytes: "list_all (\<lambda>b. b < 256) ?data" using source_bytes_ok assms(2) .
  then have taken: "list_all (\<lambda>b. b < 256) (take n ?data)" "list_all (\<lambda>c. c < 0x110000) (take n ?data)" for n
    by (auto simp: list_all_iff dest!: in_set_takeD)
  have "list_all (\<lambda>c. c < 0x110000) (take (nat max_chars) name)"
    using assms(1) by (auto simp: list_all_iff dest: in_set_takeD)
  from read_escaped_text [OF this, of PROJECTION_NAME_CHARSET]
  have "read_escaped (escaped PROJECTION_NAME_CHARSET (take (nat max_chars) name) @ r) = take (nat max_chars) name @ read_escaped r" for r
    by (simp add: write_name_rest_def write_name_lead_def)
  moreover have "read_escaped (92 # ascii ''u2026'') = [0x2026]"
    by (simp add: ascii_def hex_number_def hex_value_def Let_def)
  moreover have "read_escaped (escaped PROJECTION_NAME_CHARSET (take (nat max_chars) name)) = take (nat max_chars) name"
    using calculation(1) [of "[]"] by simp
  ultimately have name: "read_escaped (project_identifier name max_chars) =
      take (nat max_chars) name @ (if nat max_chars < length name then [0x2026] else [])"
    using assms(3) unfolding project_identifier_def slice_take [OF assms(3)] by (auto simp: nat_less_iff simp del: read_escaped.simps(2))
  have preview: "read_escaped (escaped PROJECTION_PREVIEW_SAFE (take n ?data)) = take n ?data" for n
    using read_escaped_text [of "take n ?data" PROJECTION_PREVIEW_SAFE "[]"] taken(2) [of n]
    by (simp add: PROJECTION_PREVIEW_SAFE_def)
  show ?thesis
    using assms(4,5) name project_identifier_chars preview preview_chars hex_dump_chars read_dump_back [OF taken(1)]
    by (simp add: Let_def project_string_def preview_of_def hex_dump_def slice_take nat_less_iff)
qed

theorem projection_inert_lossless_witness:
  "read_dump (ps_hex (project_string (ByteSource [60, 115, 62]) 2 3)) = [60, 115, 62] \<and>
   ps_truncated (project_string (ByteSource [60, 115, 62]) 2 3)"
  using projection_inert_lossless [of "ascii ''<a>''" "ByteSource [60, 115, 62]" 1024 2 3]
  by (simp add: Let_def ascii_def source_ok_def source_bytes_def)

end
