(* ===== verification/Report.thy ===== *)
theory Report
  imports Secret_Scan Schemas
begin

text \<open>
  The generated report: findings composed from the exported annotations (\<open>report/findings.py\<close>), the atlas
  of a program (\<open>report/atlas.py\<close>), the HTML document (\<open>report/render.py\<close>), and the way the handler of
  \<open>session_generate_report\<close> puts them together (\<open>tools/registry.py\<close>).
\<close>

subsection \<open>Findings\<close>

text \<open>\<open>_w\<close>: a projected text in the envelope.\<close>

definition tagged :: "pystr \<Rightarrow> pystr Untrusted" where
  "tagged value =
     (let u = wrap (PyStr value) GHIDRA False None []
      in \<lparr> u_value = str_of (u_value u), u_origin = u_origin u, u_truncated = u_truncated u,
           u_encoding = u_encoding u, u_notes = u_notes u \<rparr>)"

definition identity_text :: "pystr \<Rightarrow> pystr" where
  "identity_text raw = project_identifier raw MAX_NAME_CHARS"

definition free_text :: "scan_lib \<Rightarrow> pystr \<Rightarrow> pystr" where
  "free_text lib raw =
     (case scan_secrets lib [(None, raw)] None 4 of
        hit # _ \<Rightarrow>
          ascii ''redacted-secret '' @ ascii (map (\<lambda>c. if c = CHR ''_'' then CHR ''-'' else c) (sh_category hit)) @
          [32] @ sh_preview_hash hit
      | [] \<Rightarrow> ps_preview (project_string (TextSource raw) MAX_PREVIEW_CHARS MAX_HEX_BYTES))"

definition inferred :: "string \<Rightarrow> pystr \<Rightarrow> pystr list \<Rightarrow> pystr option \<Rightarrow> FindingRecord" where
  "inferred kind subject observation inference =
     \<lparr> fr_subject = tagged subject, fr_kind = kind, fr_confidence = ''inferred'',
       fr_observation = map tagged observation, fr_inference = map_option tagged inference \<rparr>"

definition count_text :: "'a list \<Rightarrow> pystr" where
  "count_text xs = dec_nat (length xs)"

definition named_text :: "ExportedTypeRef \<Rightarrow> pystr option" where
  "named_text t = map_option (\<lambda>n. identity_text (u_value n)) (et_named t)"

definition compose_entry :: "scan_lib \<Rightarrow> ExportedEntry \<Rightarrow> FindingRecord" where
  "compose_entry lib entry = (case entry of
     ExportedRenameFunctionEntry function new_name \<Rightarrow>
       inferred ''rename_function'' (identity_text function) [ascii ''function renamed in session'']
         (Some (identity_text (u_value new_name)))
   | ExportedRenameSymbolEntry identifier new_name \<Rightarrow>
       inferred ''rename_symbol'' (identity_text identifier) [ascii ''symbol renamed in session'']
         (Some (identity_text (u_value new_name)))
   | ExportedRenameLocalVariableEntry function variable new_name \<Rightarrow>
       inferred ''rename_local_variable'' (identity_text function)
         [ascii ''local variable '' @ identity_text (u_value variable) @ ascii '' renamed'']
         (Some (identity_text (u_value new_name)))
   | ExportedRenameParameterEntry function parameter new_name \<Rightarrow>
       inferred ''rename_parameter'' (identity_text function)
         [ascii ''parameter '' @ identity_text (u_value parameter) @ ascii '' renamed'']
         (Some (identity_text (u_value new_name)))
   | ExportedSetCommentEntry address comment_type txt \<Rightarrow>
       inferred ''set_comment'' (identity_text address) [ascii ''comment slot '' @ identity_text comment_type]
         (Some (free_text lib (u_value txt)))
   | ExportedSetFunctionSignatureEntry function return_type parameters calling_convention \<Rightarrow>
       inferred ''set_function_signature'' (identity_text function)
         ([count_text parameters @ ascii '' parameter(s)''] @
           (case calling_convention of
              None \<Rightarrow> []
            | Some cc \<Rightarrow> if cc = [] then [] else [ascii ''calling convention '' @ identity_text cc]))
         (named_text return_type)
   | ExportedApplyDataTypeEntry address t _ \<Rightarrow>
       inferred ''apply_data_type'' (identity_text address) [ascii ''data type applied''] (named_text t)
   | ExportedDefineStructEntry name fs packed \<Rightarrow>
       inferred ''define_struct'' (identity_text (u_value name))
         [ascii ''struct, '' @ count_text fs @ ascii '' field(s)'',
          ascii ''packed='' @ ascii (if packed then ''True'' else ''False'')] None
   | ExportedDefineUnionEntry name fs \<Rightarrow>
       inferred ''define_union'' (identity_text (u_value name)) [ascii ''union, '' @ count_text fs @ ascii '' field(s)''] None
   | ExportedDefineTypesEntry types \<Rightarrow>
       (let names = join_with (ascii '', '') (map (\<lambda>c. identity_text (u_value (ec_name c))) (take 16 types)) in
        inferred ''define_types'' (ascii ''define_types['' @ count_text types @ ascii '']'')
          [ascii ''composite batch, '' @ count_text types @ ascii '' type(s)''] (if names = [] then None else Some names)))"

definition match_scope :: "pystr list \<Rightarrow> pystr \<Rightarrow> bool" where
  "match_scope scope subject \<longleftrightarrow> scope = [] \<or> subject \<in> set scope"

text \<open>The loop over the entries, with the records so far.\<close>

fun findings_loop :: "scan_lib \<Rightarrow> pystr list \<Rightarrow> int \<Rightarrow> ExportedEntry list \<Rightarrow> FindingRecord list \<Rightarrow> FindingRecord list \<times> bool" where
  "findings_loop lib scope max_findings [] out = (out, False)"
| "findings_loop lib scope max_findings (e # es) out =
     (let record = compose_entry lib e in
      if \<not> match_scope scope (u_value (fr_subject record)) then findings_loop lib scope max_findings es out
      else if int (length out) \<ge> max_findings then (out, True)
      else findings_loop lib scope max_findings es (out @ [record]))"

definition compose_findings ::
  "scan_lib \<Rightarrow> ExportedAnnotationDocument \<Rightarrow> pystr list \<Rightarrow> int \<Rightarrow> FindingRecord list \<times> bool" where
  "compose_findings lib document scope max_findings =
     findings_loop lib (map identity_text scope) max_findings (ea_entries document) []"

subsection \<open>The atlas\<close>

definition tagged_name :: "pystr Untrusted \<Rightarrow> pystr Untrusted" where
  "tagged_name name = tagged (project_identifier (u_value name) MAX_NAME_CHARS)"

definition tagged_compiler :: "pystr Untrusted option \<Rightarrow> pystr Untrusted option" where
  "tagged_compiler compiler =
     map_option (\<lambda>c. tagged (ps_preview (project_string (TextSource (u_value c)) MAX_PREVIEW_CHARS MAX_HEX_BYTES))) compiler"

definition atlas_summary :: "ProgramSummary \<Rightarrow> AtlasSummary" where
  "atlas_summary summary =
     (let md = su_metadata summary; metrics = su_call_graph_metrics summary in
      \<lparr> as_program_sha256 = pm_sha256 md, as_format = pm_format md, as_architecture = pm_architecture md,
        as_endianness = pm_endianness md, as_size_bytes = pm_size_bytes md, as_entry_point = pm_entry_point md,
        as_compiler = tagged_compiler (pm_compiler md), as_function_count = su_function_count summary,
        as_import_count = su_import_count summary, as_export_count = su_export_count summary,
        as_string_count = su_string_count summary, as_leaf_count = map_option gm_leaf_count metrics,
        as_root_count = map_option gm_root_count metrics,
        as_recursive_component_count = map_option gm_recursive_component_count metrics,
        as_unresolved_caller_count = map_option gm_unresolved_caller_count metrics \<rparr>)"

definition compose_atlas ::
  "ProgramSummary \<Rightarrow> CallGraphOut \<Rightarrow> FunctionListOut \<Rightarrow> int \<Rightarrow> int \<Rightarrow> int \<Rightarrow> Xref list \<Rightarrow> int \<Rightarrow> bool \<Rightarrow> Atlas" where
  "compose_atlas summary graph functions max_nodes max_edges max_functions xrefs max_xrefs xrefs_truncated =
     \<lparr> ad_summary = atlas_summary summary,
       ad_nodes = map (\<lambda>n. \<lparr> an_address = cn_address n, an_name = tagged_name (cn_name n),
         an_is_external = cn_is_external n, an_has_unresolved_calls = cn_has_unresolved_calls n \<rparr>)
         (py_slice (cg_nodes graph) 0 max_nodes),
       ad_edges = map (\<lambda>e. \<lparr> ae_from = ce_from e, ae_to = ce_to e \<rparr>) (py_slice (cg_edges graph) 0 max_edges),
       ad_functions = map (\<lambda>f. \<lparr> af_address = fs_address f, af_name = tagged_name (fs_name f), af_size = fs_size f \<rparr>)
         (py_slice (fl_functions functions) 0 max_functions),
       ad_xrefs = map (\<lambda>x. \<lparr> ax_from = xr_from x, ax_to = xr_to x, ax_ref_type = xr_ref_type x \<rparr>) (py_slice xrefs 0 max_xrefs),
       ad_truncated = (cg_truncated graph \<or> fl_truncated functions \<or> int (length (cg_nodes graph)) > max_nodes \<or>
         int (length (cg_edges graph)) > max_edges \<or> int (length (fl_functions functions)) > max_functions \<or>
         int (length xrefs) > max_xrefs \<or> xrefs_truncated) \<rparr>"

subsection \<open>The HTML document\<close>

text \<open>\<open>html.escape(value, quote=True)\<close>: five replacements, the ampersand first.\<close>

definition replace_char :: "nat \<Rightarrow> pystr \<Rightarrow> pystr \<Rightarrow> pystr" where
  "replace_char c t s = concat (map (\<lambda>x. if x = c then t else [x]) s)"

definition html_escape :: "pystr \<Rightarrow> pystr" where
  "html_escape s =
     replace_char 39 (ascii ''&#x27;'') (replace_char 34 (ascii ''&quot;'') (replace_char 62 (ascii ''&gt;'')
       (replace_char 60 (ascii ''&lt;'') (replace_char 38 (ascii ''&amp;'') s))))"

abbreviation dash :: pystr where "dash \<equiv> [8212]"

definition or_dash :: "pystr \<Rightarrow> pystr" where
  "or_dash s = (if s = [] then dash else s)"

definition REPORT_CSP :: pystr where
  "REPORT_CSP =
     ascii ''default-src 'none'; script-src 'none'; connect-src 'none'; img-src 'self' data:; '' @
     ascii ''style-src 'unsafe-inline'; base-uri 'none'; form-action 'none'; frame-ancestors 'none'' @ [39]"

definition policy_meta :: pystr where
  "policy_meta = ascii ''<meta http-equiv=\"Content-Security-Policy\" content=\"'' @ REPORT_CSP @ ascii ''\">''"

definition STYLE :: pystr where
  "STYLE =
     ascii ''body{font:14px/1.5 system-ui,sans-serif;margin:0;padding:1.5rem;color:#111;background:#fff}'' @
     ascii ''@media(prefers-color-scheme:dark){body{color:#eee;background:#111}'' @
     ascii ''th{background:#222}td,th{border-color:#444}}'' @
     ascii ''h1{font-size:1.4rem}h2{font-size:1.1rem;margin-top:2rem}'' @
     ascii ''.note{border:1px solid #c80;background:#fff8e8;color:#333;padding:.6rem;border-radius:4px}'' @
     ascii ''@media(prefers-color-scheme:dark){.note{background:#332a10;color:#eee}}'' @
     ascii ''table{border-collapse:collapse;width:100%;margin-top:.5rem}'' @
     ascii ''td,th{border:1px solid #ccc;padding:.35rem .5rem;text-align:left;vertical-align:top}'' @
     ascii ''th{background:#f3f3f3}code{font-family:ui-monospace,monospace;word-break:break-all}'' @
     ascii ''.tag{font-size:.75rem;padding:.1rem .4rem;border-radius:3px;background:#eef;color:#224}'' @
     ascii ''@media(prefers-color-scheme:dark){.tag{background:#224;color:#cde}}'' @
     ascii ''dl{margin:.2rem 0}dt{font-weight:600}dd{margin:0 0 .4rem}''"

definition description_list :: "(string \<times> pystr) list \<Rightarrow> pystr" where
  "description_list rows =
     ascii ''<dl>'' @
     concat (map (\<lambda>(k, v). ascii ''<dt>'' @ html_escape (ascii k) @ ascii ''</dt><dd><code>'' @ html_escape v @ ascii ''</code></dd>'') rows) @
     ascii ''</dl>''"

definition manifest_html :: "ReportManifest \<Rightarrow> pystr" where
  "manifest_html m =
     description_list
       [(''Program SHA-256'', mf_program_sha256 m), (''Session'', mf_session_id m),
        (''Tool'', ascii (mf_tool m) @ ascii '' (rev '' @ ascii (mf_tool_revision m) @ ascii '')''),
        (''Composed from'', or_dash (join_with (ascii '', '') (map ascii (mf_generated_from m)))),
        (''Findings'', dec_nat (mf_finding_count m) @ (if mf_truncated m then ascii '' (truncated)'' else []))]"

definition finding_row :: "FindingRecord \<Rightarrow> pystr" where
  "finding_row f =
     (let obs = or_dash (join_with (ascii ''<br>'') (map (\<lambda>o'. html_escape (u_value o')) (fr_observation f)));
          inf = (case fr_inference f of Some i \<Rightarrow> html_escape (u_value i) | None \<Rightarrow> dash)
      in ascii ''<tr>'' @
         ascii ''<td><code>'' @ html_escape (u_value (fr_subject f)) @ ascii ''</code></td>'' @
         ascii ''<td>'' @ html_escape (ascii (fr_kind f)) @ ascii ''</td>'' @
         ascii ''<td><span class=\"tag\">'' @ html_escape (ascii (fr_confidence f)) @ ascii ''</span></td>'' @
         ascii ''<td>'' @ obs @ ascii ''</td>'' @
         ascii ''<td><code>'' @ inf @ ascii ''</code></td>'' @
         ascii ''</tr>'')"

definition yes_no :: "bool \<Rightarrow> pystr" where
  "yes_no flag = ascii (if flag then ''yes'' else ''no'')"

definition count_row :: "string \<Rightarrow> int option \<Rightarrow> (string \<times> pystr) list" where
  "count_row label value = (case value of None \<Rightarrow> [] | Some n \<Rightarrow> [(label, dec_int n)])"

definition summary_rows :: "AtlasSummary \<Rightarrow> (string \<times> pystr) list" where
  "summary_rows s =
     [(''Program SHA-256'', as_program_sha256 s), (''Format'', as_format s), (''Architecture'', as_architecture s),
      (''Endianness'', as_endianness s), (''Size (bytes)'', dec_int (as_size_bytes s)),
      (''Entry point'', case as_entry_point s of None \<Rightarrow> dash | Some e \<Rightarrow> or_dash e),
      (''Compiler'', case as_compiler s of None \<Rightarrow> dash | Some c \<Rightarrow> u_value c),
      (''Functions'', dec_int (as_function_count s)), (''Imports'', dec_int (as_import_count s)),
      (''Exports'', dec_int (as_export_count s)), (''Strings'', dec_int (as_string_count s))] @
     count_row ''Leaf functions'' (as_leaf_count s) @ count_row ''Root functions'' (as_root_count s) @
     count_row ''Recursive components'' (as_recursive_component_count s) @
     count_row ''Unresolved callers'' (as_unresolved_caller_count s)"

text \<open>A table with fixed column heads, or a fixed sentence in its place.\<close>

definition table_or :: "string \<Rightarrow> string \<Rightarrow> ('a \<Rightarrow> pystr) \<Rightarrow> 'a list \<Rightarrow> pystr" where
  "table_or heads sentence row xs =
     (if xs \<noteq> []
      then ascii ''<table><thead><tr>'' @ ascii heads @ ascii ''</tr></thead><tbody>'' @ concat (map row xs) @ ascii ''</tbody></table>''
      else ascii sentence)"

definition node_row :: "AtlasNode \<Rightarrow> pystr" where
  "node_row n =
     ascii ''<tr>'' @ ascii ''<td><code>'' @ html_escape (an_address n) @ ascii ''</code></td>'' @
     ascii ''<td><code>'' @ html_escape (u_value (an_name n)) @ ascii ''</code></td>'' @
     ascii ''<td>'' @ yes_no (an_is_external n) @ ascii ''</td><td>'' @ yes_no (an_has_unresolved_calls n) @ ascii ''</td>'' @ ascii ''</tr>''"

definition edge_row :: "AtlasEdge \<Rightarrow> pystr" where
  "edge_row e =
     ascii ''<tr><td><code>'' @ html_escape (ae_from e) @ ascii ''</code></td>'' @
     ascii ''<td><code>'' @ html_escape (ae_to e) @ ascii ''</code></td></tr>''"

definition function_row :: "AtlasFunction \<Rightarrow> pystr" where
  "function_row f =
     ascii ''<tr>'' @ ascii ''<td><code>'' @ html_escape (af_address f) @ ascii ''</code></td>'' @
     ascii ''<td><code>'' @ html_escape (u_value (af_name f)) @ ascii ''</code></td>'' @
     ascii ''<td>'' @ dec_int (af_size f) @ ascii ''</td>'' @ ascii ''</tr>''"

definition xref_row :: "AtlasXref \<Rightarrow> pystr" where
  "xref_row x =
     ascii ''<tr>'' @ ascii ''<td><code>'' @ html_escape (ax_from x) @ ascii ''</code></td>'' @
     ascii ''<td><code>'' @ html_escape (ax_to x) @ ascii ''</code></td>'' @
     ascii ''<td>'' @ html_escape (ax_ref_type x) @ ascii ''</td>'' @ ascii ''</tr>''"

definition atlas_html :: "Atlas \<Rightarrow> pystr" where
  "atlas_html atlas =
     ascii ''<section aria-labelledby=\"atlas-sum\"><h2 id=\"atlas-sum\">Program</h2>'' @
     (if ad_truncated atlas
      then ascii ''<p class=\"note\" role=\"note\">Atlas truncated to fit caps '' @ dash @ ascii '' partial view.</p>'' else []) @
     description_list (summary_rows (ad_summary atlas)) @ ascii ''</section>'' @
     ascii ''<section aria-labelledby=\"atlas-graph\"><h2 id=\"atlas-graph\">Call graph</h2>'' @
     ascii ''<h3>Nodes</h3>'' @
     table_or (''<th scope=\"col\">Address</th><th scope=\"col\">Name</th>'' @
         ''<th scope=\"col\">External</th><th scope=\"col\">Unresolved calls</th>'')
       ''<p>No call-graph nodes.</p>'' node_row (ad_nodes atlas) @
     ascii ''<h3>Edges</h3>'' @
     table_or ''<th scope=\"col\">From</th><th scope=\"col\">To</th>'' ''<p>No call edges.</p>'' edge_row (ad_edges atlas) @
     ascii ''</section>'' @
     ascii ''<section aria-labelledby=\"atlas-fns\"><h2 id=\"atlas-fns\">Functions</h2>'' @
     table_or ''<th scope=\"col\">Address</th><th scope=\"col\">Name</th><th scope=\"col\">Size</th>''
       ''<p>No functions.</p>'' function_row (ad_functions atlas) @ ascii ''</section>'' @
     ascii ''<section aria-labelledby=\"atlas-xrefs\"><h2 id=\"atlas-xrefs\">Cross-references</h2>'' @
     ascii ''<p>References to the most-referenced (top fan-in) functions.</p>'' @
     table_or ''<th scope=\"col\">From</th><th scope=\"col\">To</th><th scope=\"col\">Type</th>''
       ''<p>No cross-references in scope.</p>'' xref_row (ad_xrefs atlas) @ ascii ''</section>''"

definition nav_html :: "bool \<Rightarrow> pystr" where
  "nav_html has_atlas =
     (let items = [''<a href=\"#prov\">Provenance</a>'', ''<a href=\"#find\">Findings</a>''] @
        (if has_atlas then [''<a href=\"#atlas-sum\">Program</a>'', ''<a href=\"#atlas-graph\">Call graph</a>'',
           ''<a href=\"#atlas-fns\">Functions</a>'', ''<a href=\"#atlas-xrefs\">Cross-references</a>''] else [])
      in ascii ''<nav aria-label=\"Contents\">'' @ join_with [32, 183, 32] (map ascii items) @ ascii ''</nav>'')"

definition DEFAULT_TITLE :: pystr where
  "DEFAULT_TITLE = ascii ''Vivarium target report''"

definition render_report_html :: "pystr \<Rightarrow> ReportManifest \<Rightarrow> FindingRecord list \<Rightarrow> Atlas option \<Rightarrow> pystr" where
  "render_report_html heading m findings atlas =
     (let safe_title = (if heading = [] then DEFAULT_TITLE else html_escape heading) in
      ascii ''<!doctype html>'' @
      ascii ''<html lang=\"en\"><head><meta charset=\"utf-8\">'' @
      policy_meta @
      ascii ''<meta name=\"viewport\" content=\"width=device-width, initial-scale=1\">'' @
      ascii ''<title>'' @ safe_title @ ascii ''</title><style>'' @ STYLE @ ascii ''</style></head>'' @
      ascii ''<body>'' @
      ascii ''<header><h1>'' @ safe_title @ ascii ''</h1></header>'' @
      ascii ''<main>'' @
      ascii ''<p class=\"note\" role=\"note\">This report renders content derived from an analyzed binary. '' @
      ascii ''All values are allow-list-projected and inert; do not execute or follow anything here.</p>'' @
      nav_html (atlas \<noteq> None) @
      ascii ''<section aria-labelledby=\"prov\"><h2 id=\"prov\">Provenance</h2>'' @
      manifest_html m @ ascii ''</section>'' @
      ascii ''<section aria-labelledby=\"find\"><h2 id=\"find\">Findings</h2>'' @
      table_or (''<th scope=\"col\">Subject</th><th scope=\"col\">Kind</th>'' @
          ''<th scope=\"col\">Confidence</th><th scope=\"col\">Observations</th>'' @ ''<th scope=\"col\">Inference</th>'')
        ''<p>No findings in scope.</p>'' finding_row findings @ ascii ''</section>'' @
      (case atlas of None \<Rightarrow> [] | Some a \<Rightarrow> atlas_html a) @
      ascii ''</main></body></html>'')"

subsection \<open>The report\<close>

abbreviation MAX_REPORT_FINDINGS :: int where "MAX_REPORT_FINDINGS \<equiv> 2000"
abbreviation MAX_ATLAS_NODES :: int where "MAX_ATLAS_NODES \<equiv> 2000"
abbreviation MAX_ATLAS_EDGES :: int where "MAX_ATLAS_EDGES \<equiv> 8000"
abbreviation MAX_ATLAS_FUNCTIONS :: int where "MAX_ATLAS_FUNCTIONS \<equiv> 2000"
abbreviation ATLAS_XREF_TARGETS :: nat where "ATLAS_XREF_TARGETS \<equiv> 16"
abbreviation ATLAS_XREFS :: nat where "ATLAS_XREFS \<equiv> 1000"

definition REPORT_TOOL_REVISION :: string where
  "REPORT_TOOL_REVISION = ''tier0.1''"

text \<open>
  What the sibling handlers answered: summary, graph, functions, and for a target the page of its
  references with the flag that it was cut.
\<close>

record atlas_inputs =
  ai_summary :: ProgramSummary
  ai_graph :: CallGraphOut
  ai_functions :: FunctionListOut
  ai_xrefs_to :: "pystr \<Rightarrow> Xref list \<times> bool"

fun drill_down :: "(pystr \<Rightarrow> Xref list \<times> bool) \<Rightarrow> FanRanking list \<Rightarrow> Xref list \<Rightarrow> bool \<Rightarrow> Xref list \<times> bool" where
  "drill_down answer [] xrefs partial = (xrefs, partial)"
| "drill_down answer (ranking # rankings) xrefs partial =
     (if length xrefs \<ge> ATLAS_XREFS then (xrefs, True)
      else (case answer (rk_address ranking) of (page, hot) \<Rightarrow>
        drill_down answer rankings (xrefs @ take (ATLAS_XREFS - length xrefs) page) (partial \<or> hot)))"

definition report_atlas :: "atlas_inputs \<Rightarrow> Atlas \<times> bool" where
  "report_atlas inputs =
     (let metrics = su_call_graph_metrics (ai_summary inputs);
          (xrefs, partial) = (case metrics of
            None \<Rightarrow> ([], False)
          | Some m \<Rightarrow> drill_down (ai_xrefs_to inputs) (take ATLAS_XREF_TARGETS (gm_top_fan_in m)) []
              (length (gm_top_fan_in m) > ATLAS_XREF_TARGETS))
      in (compose_atlas (ai_summary inputs) (ai_graph inputs) (ai_functions inputs) MAX_ATLAS_NODES MAX_ATLAS_EDGES
            MAX_ATLAS_FUNCTIONS xrefs (int ATLAS_XREFS) partial, metrics \<noteq> None))"

record GeneratedReport =
  rp_manifest :: ReportManifest
  rp_findings :: "FindingRecord list"
  rp_html :: "pystr option"
  rp_atlas :: "Atlas option"

definition report_title :: "pystr option \<Rightarrow> pystr" where
  "report_title given = (case given of
     None \<Rightarrow> DEFAULT_TITLE
   | Some t \<Rightarrow> if t = [] then DEFAULT_TITLE
               else ps_preview (project_string (TextSource t) MAX_PREVIEW_CHARS MAX_HEX_BYTES))"

definition generate_report ::
  "scan_lib \<Rightarrow> SessionGenerateReportIn \<Rightarrow> ExportedAnnotationDocument \<Rightarrow> atlas_inputs \<Rightarrow> GeneratedReport" where
  "generate_report lib args document inputs =
     (let (findings, truncated) = compose_findings lib document (gr_scope args) MAX_REPORT_FINDINGS;
          atlas = (if gr_atlas args then Some (fst (report_atlas inputs)) else None);
          m = \<lparr> mf_program_sha256 = eb_sha256 (ea_binary document), mf_session_id = gr_session_id args,
            mf_tool = ''session_generate_report'', mf_tool_revision = REPORT_TOOL_REVISION,
            mf_generated_from = ''session_export_annotations'' #
              (if gr_atlas args then [''program_summary'', ''call_graph'', ''list_functions''] @
                 (if snd (report_atlas inputs) then [''xrefs_to''] else []) else []),
            mf_finding_count = length findings,
            mf_truncated = (truncated \<or> (case atlas of None \<Rightarrow> False | Some a \<Rightarrow> ad_truncated a)) \<rparr>
      in \<lparr> rp_manifest = m, rp_findings = findings,
           rp_html = (if gr_include_html args
             then Some (render_report_html (report_title (gr_title args)) m findings atlas) else None),
           rp_atlas = atlas \<rparr>)"

end
