(* ===== verification/Report_Props.thy ===== *)
theory Report_Props
  imports Report
begin

text \<open>
  What a generated report guarantees: the findings are exactly the entries in scope, every leaf of a
  finding is inert and a comment with a secret is redacted; the tags of the HTML document are those of
  the template whatever the texts are.
\<close>

subsection \<open>Inert leaves\<close>

definition inert_char :: "nat \<Rightarrow> bool" where
  "inert_char c \<longleftrightarrow> PROJECTION_NAME_CHARSET c \<or> PROJECTION_PREVIEW_SAFE c \<or> c = 92"

text \<open>The phrases of the server add round and square brackets.\<close>

definition phrase_char :: "nat \<Rightarrow> bool" where
  "phrase_char c \<longleftrightarrow> inert_char c \<or> c \<in> {40, 41, 91, 93}"

definition finding_inert :: "FindingRecord \<Rightarrow> bool" where
  "finding_inert f \<longleftrightarrow>
     list_all phrase_char (u_value (fr_subject f)) \<and>
     list_all (\<lambda>u. list_all phrase_char (u_value u)) (fr_observation f) \<and>
     (case fr_inference f of None \<Rightarrow> True | Some u \<Rightarrow> list_all inert_char (u_value u))"

lemma inert_phrase: "inert_char c \<Longrightarrow> phrase_char c"
  by (simp add: phrase_char_def)

lemma phrase_printable: "phrase_char c \<Longrightarrow> 32 \<le> c \<and> c < 127"
  by (auto simp: phrase_char_def inert_char_def write_name_rest_def write_name_lead_def PROJECTION_PREVIEW_SAFE_def)

lemma normalize_printable: "list_all (\<lambda>c. 32 \<le> c \<and> c < 127) s \<Longrightarrow> normalize_loop s = (s, [])"
  by (induction s) (auto simp: printable_safe)

lemma tagged_phrase: "list_all phrase_char s \<Longrightarrow> u_value (tagged s) = s"
proof -
  assume "list_all phrase_char s"
  then have "normalize_loop s = (s, [])" by (intro normalize_printable) (auto simp: list_all_iff dest: phrase_printable)
  then show ?thesis by (simp add: tagged_def wrap_def normalize_value_def normalize_text_def str_of_def Let_def)
qed

lemma inert_list: "list_all inert_char s \<Longrightarrow> list_all phrase_char s"
  by (auto simp: list_all_iff inert_phrase)

lemma digit_inert: "lower_hex_digit c \<Longrightarrow> inert_char c"
  by (simp add: inert_char_def digit_safe)

lemma identity_inert: "list_all inert_char (identity_text raw)"
  using project_identifier_chars [of raw MAX_NAME_CHARS] by (auto simp: identity_text_def list_all_iff inert_char_def)

lemma preview_inert: "list_all inert_char (ps_preview (project_string raw mp mh))"
  using preview_chars by (auto simp: project_string_def preview_of_def hex_dump_def Let_def list_all_iff inert_char_def)

lemma category_inert:
  "category \<in> set CATEGORIES \<Longrightarrow>
     list_all inert_char (ascii (map (\<lambda>c. if c = CHR ''_'' then CHR ''-'' else c) category)) \<and> length category \<le> 20"
  by (auto simp: CATEGORIES_def ascii_def inert_char_def PROJECTION_PREVIEW_SAFE_def)

lemma marker_inert: "list_all inert_char (ascii ''redacted-secret '' @ [32])"
  by (simp add: ascii_def inert_char_def PROJECTION_PREVIEW_SAFE_def)

lemma free_text_inert:
  assumes "\<And>bs. list_all lower_hex_digit (sha256_hex lib bs)"
  shows "list_all inert_char (free_text lib raw)"
proof (cases "scan_secrets lib [(None, raw)] None 4")
  case (Cons hit hits)
  then have "redacted lib hit" using scan_secrets_redacted [of hit lib "[(None, raw)]" None 4] by simp
  then obtain v where hit: "sh_category hit \<in> set CATEGORIES" "sh_preview_hash hit = preview_hash lib v"
    unfolding redacted_def by blast
  have "list_all inert_char (preview_hash lib v)"
    using assms by (auto simp: preview_hash_def list_all_iff intro: digit_inert dest: in_set_takeD)
  then show ?thesis using Cons hit category_inert marker_inert by (simp add: free_text_def)
qed (simp add: free_text_def preview_inert)

lemma redacted_text:
  assumes "tell_tale lib raw"
  shows "take 16 (free_text lib raw) = ascii ''redacted-secret '' \<and> length (free_text lib raw) \<le> 49"
proof -
  obtain hit hits where scan: "scan_secrets lib [(None, raw)] None 4 = hit # hits"
    using tell_tale_found [OF assms, of None 4] by (cases "scan_secrets lib [(None, raw)] None 4") auto
  then have "redacted lib hit" using scan_secrets_redacted [of hit lib "[(None, raw)]" None 4] by simp
  then have "length (sh_category hit) \<le> 20" "length (sh_preview_hash hit) \<le> 12"
    using category_inert by (auto simp: redacted_def preview_hash_def)
  then show ?thesis using scan by (simp add: free_text_def)
qed

lemma digits_inert: "list_all inert_char (dec_nat n)"
proof (induction n rule: dec_nat.induct)
  case (1 n)
  have "inert_char (48 + d)" if "d < 10" for d :: nat
    using that by (simp add: inert_char_def PROJECTION_PREVIEW_SAFE_def)
  then show ?case using 1 by (subst dec_nat.simps) simp
qed

lemma joined_inert:
  assumes "list_all inert_char sep" "\<And>s. s \<in> set ss \<Longrightarrow> list_all inert_char s"
  shows "list_all inert_char (join_with sep ss)"
  using assms by (induction sep ss rule: join_with.induct) auto

text \<open>A record made by \<open>inferred\<close> from phrases is inert, and its leaves are the phrases.\<close>

lemma inferred_inert:
  assumes "list_all phrase_char subject" "list_all (list_all phrase_char) observation"
    "\<And>s. inference = Some s \<Longrightarrow> list_all inert_char s"
  shows "finding_inert (inferred kind subject observation inference)"
  using assms tagged_phrase inert_list
  by (cases inference) (auto simp: finding_inert_def inferred_def list_all_iff tagged_phrase inert_list)

lemmas phrase_parts =
  identity_inert digits_inert preview_inert inert_list [OF identity_inert] inert_list [OF digits_inert]

lemma phrase_literal:
  "list_all phrase_char (ascii ''function renamed in session'')" "list_all phrase_char (ascii ''symbol renamed in session'')"
  "list_all phrase_char (ascii ''local variable '')" "list_all phrase_char (ascii '' renamed'')"
  "list_all phrase_char (ascii ''parameter '')" "list_all phrase_char (ascii ''comment slot '')"
  "list_all phrase_char (ascii '' parameter(s)'')" "list_all phrase_char (ascii ''calling convention '')"
  "list_all phrase_char (ascii ''data type applied'')" "list_all phrase_char (ascii ''struct, '')"
  "list_all phrase_char (ascii '' field(s)'')" "list_all phrase_char (ascii ''packed='')"
  "list_all phrase_char (ascii ''True'')" "list_all phrase_char (ascii ''False'')"
  "list_all phrase_char (ascii ''union, '')" "list_all phrase_char (ascii ''define_types['')" "list_all phrase_char (ascii '']'')"
  "list_all phrase_char (ascii ''composite batch, '')" "list_all phrase_char (ascii '' type(s)'')"
  by (simp_all add: ascii_def phrase_char_def inert_char_def PROJECTION_PREVIEW_SAFE_def write_name_rest_def write_name_lead_def)

lemma names_inert: "list_all inert_char (join_with (ascii '', '') (map (\<lambda>c. identity_text (u_value (ec_name c))) cs))"
proof (rule joined_inert)
  show "list_all inert_char (ascii '', '')" by (simp add: ascii_def inert_char_def PROJECTION_PREVIEW_SAFE_def)
qed (auto simp: identity_inert)

lemma compose_entry_inert:
  assumes "\<And>bs. list_all lower_hex_digit (sha256_hex lib bs)"
  shows "finding_inert (compose_entry lib e)"
  unfolding compose_entry_def Let_def
  by (cases e)
     (auto intro!: inferred_inert simp: phrase_parts phrase_literal names_inert free_text_inert [OF assms] count_text_def
        named_text_def split: option.splits if_splits)

lemma comment_inference:
  "fr_inference (compose_entry lib (ExportedSetCommentEntry a slot txt)) = Some (tagged (free_text lib (u_value txt)))"
  by (simp add: compose_entry_def inferred_def)

subsection \<open>The findings\<close>

lemma findings_loop_kept:
  "findings_loop lib scope mx es out =
    (let kept = filter (\<lambda>f. match_scope scope (u_value (fr_subject f))) (map (compose_entry lib) es);
         room = nat (mx - int (length out))
     in (out @ take room kept, room < length kept))"
proof (induction es arbitrary: out)
  case (Cons e es)
  show ?case
  proof (cases "match_scope scope (u_value (fr_subject (compose_entry lib e))) \<and> int (length out) < mx")
    case True
    have "nat (i - j) = Suc (nat (i - (1 + j)))" if "j < i" for i j :: int using that by arith
    from this [of "int (length out)" mx] True show ?thesis by (simp add: Cons Let_def)
  next
    case False
    then show ?thesis by (cases "match_scope scope (u_value (fr_subject (compose_entry lib e)))") (simp_all add: Cons Let_def)
  qed
qed simp

text \<open>
  C32: The findings of a report are exact, inert and redacted. They are the records of the entries in
  scope, in order, up to the cap, and the flag says whether one was left out. No leaf of a record has any
  character but those of write names, plain punctuation and the backslash, a phrase of the server
  also brackets, so no markup survives; and a comment whose scanned part has a key marker or the word
  of a credential appears only as a marker of at most 49 characters. The digest prints hexadecimal digits.
\<close>

theorem findings_exact_inert_redacted:
  assumes "\<And>bs. list_all lower_hex_digit (sha256_hex lib bs)"
  shows "let kept = filter (\<lambda>f. match_scope (map identity_text scope) (u_value (fr_subject f)))
               (map (compose_entry lib) (ea_entries document)) in
    compose_findings lib document scope mx = (take (nat mx) kept, nat mx < length kept) \<and>
    list_all finding_inert kept \<and>
    (\<forall>a slot txt. tell_tale lib (u_value txt) \<longrightarrow>
       (\<exists>u. fr_inference (compose_entry lib (ExportedSetCommentEntry a slot txt)) = Some u \<and>
          take 16 (u_value u) = ascii ''redacted-secret '' \<and> length (u_value u) \<le> 49))"
proof -
  have "u_value (tagged (free_text lib raw)) = free_text lib raw" for raw
    by (intro tagged_phrase inert_list free_text_inert assms)
  then show ?thesis using compose_entry_inert [OF assms] redacted_text
    by (auto simp add: compose_findings_def findings_loop_kept Let_def comment_inference list_all_iff)
qed

definition demo_scan :: scan_lib where
  "demo_scan = \<lparr> lower_text = id, secret_name_match = (\<lambda>_. False), blob_search = (\<lambda>_. None),
     shannon_entropy = (\<lambda>_. 0), sha256_hex = (\<lambda>_. ascii ''00'') \<rparr>"

theorem findings_exact_inert_redacted_witness:
  "\<exists>u. fr_inference (compose_entry demo_scan (ExportedSetCommentEntry (ascii ''10'') (ascii ''EOL'')
       (tagged (ascii ''my pwd'')))) = Some u \<and> take 16 (u_value u) = ascii ''redacted-secret ''"
proof -
  have "list_all lower_hex_digit (sha256_hex demo_scan bs)" for bs
    by (simp add: demo_scan_def ascii_def lower_hex_digit_def)
  moreover have "u_value (tagged (ascii ''my pwd'')) = ascii ''my pwd''"
    by (rule tagged_phrase) (simp add: ascii_def phrase_char_def inert_char_def PROJECTION_PREVIEW_SAFE_def)
  moreover have "tell_tale demo_scan (ascii ''my pwd'')"
    by (simp add: tell_tale_def demo_scan_def CREDENTIAL_KEYWORDS_def ascii_def)
  ultimately have "tell_tale demo_scan (u_value (tagged (ascii ''my pwd'')))"
    and "\<And>scope document mx. \<forall>a slot txt. tell_tale demo_scan (u_value txt) \<longrightarrow>
      (\<exists>u. fr_inference (compose_entry demo_scan (ExportedSetCommentEntry a slot txt)) = Some u \<and>
         take 16 (u_value u) = ascii ''redacted-secret '' \<and> length (u_value u) \<le> 49)"
    using findings_exact_inert_redacted [of demo_scan] by (simp_all add: Let_def)
  then show ?thesis by blast
qed

subsection \<open>Scanning markup\<close>

text \<open>
  The tags of a text, and the tag left open at its end: what stands between \<open><\<close> and the next \<open>>\<close>.
\<close>

fun html_scan :: "pystr option \<Rightarrow> pystr \<Rightarrow> pystr list \<times> pystr option" where
  "html_scan st [] = ([], st)"
| "html_scan None (c # s) = (if c = 60 then html_scan (Some []) s else html_scan None s)"
| "html_scan (Some t) (c # s) =
     (if c = 62 then (case html_scan None s of (ts, e) \<Rightarrow> (t # ts, e)) else html_scan (Some (t @ [c])) s)"

text \<open>Closed markup with these tags.\<close>

definition markup :: "pystr \<Rightarrow> pystr list \<Rightarrow> bool" where
  "markup s ts \<longleftrightarrow> html_scan None s = (ts, None)"

lemma html_scan_append:
  "html_scan st (a @ b) = (case html_scan st a of (ts, e) \<Rightarrow> case html_scan e b of (us, e') \<Rightarrow> (ts @ us, e'))"
  by (induction st a rule: html_scan.induct) (auto split: prod.splits)

lemma html_scan_inside: "62 \<notin> set s \<Longrightarrow> html_scan (Some t) s = ([], Some (t @ s))"
  by (induction s arbitrary: t) auto

lemma markup_append [intro]: "markup a ts \<Longrightarrow> markup b us \<Longrightarrow> markup (a @ b) (ts @ us)"
  by (simp add: markup_def html_scan_append)

lemma markup_text: "60 \<notin> set s \<Longrightarrow> markup s []"
  by (induction s) (auto simp: markup_def)

lemma markup_nil: "markup [] []"
  by (simp add: markup_def)

lemma markup_concat: "(\<And>x. markup (f x) (g x)) \<Longrightarrow> markup (concat (map f xs)) (concat (map g xs))"
  by (induction xs) (auto simp: markup_nil)

lemma markup_join:
  "markup sep ts \<Longrightarrow> (\<And>s. s \<in> set ss \<Longrightarrow> markup s []) \<Longrightarrow> markup (join_with sep ss) (concat (replicate (length ss - 1) ts))"
proof (induction sep ss rule: join_with.induct)
  case (3 sep p q ps)
  have "markup (p @ sep @ join_with sep (q # ps)) ([] @ ts @ concat (replicate (length (q # ps) - 1) ts))"
    using 3 by (intro markup_append) auto
  then show ?case by simp
qed (auto simp: markup_nil)

lemma markup_escape: "markup (html_escape s) []"
  by (rule markup_text) (auto simp: html_escape_def replace_char_def ascii_def split: if_splits)

lemma markup_digits: "markup (dec_nat n) []" and markup_int: "markup (dec_int i) []"
proof -
  have digits: "60 \<notin> set (dec_nat n)" for n
    using digits_inert [of n] by (auto simp: list_all_iff inert_char_def write_name_rest_def write_name_lead_def PROJECTION_PREVIEW_SAFE_def)
  then show "markup (dec_nat n) []" by (rule markup_text)
  show "markup (dec_int i) []" by (rule markup_text) (simp add: dec_int_def digits)
qed

lemma markup_dash: "markup dash []" and markup_or_dash: "markup s ts \<Longrightarrow> markup (or_dash s) ts"
  by (auto simp: markup_def or_dash_def)

lemma markup_style: "markup STYLE []"
  by (rule markup_text) (simp add: STYLE_def ascii_def)

lemma csp_attribute: "62 \<notin> set REPORT_CSP"
  by (simp add: REPORT_CSP_def ascii_def)

subsection \<open>The tags of the template\<close>

definition TAG_NAMES :: "string list" where
  "TAG_NAMES =
      [''!doctype html'', ''html lang=\"en\"'', ''head'', ''meta charset=\"utf-8\"'',
       ''meta name=\"viewport\" content=\"width=device-width, initial-scale=1\"'', ''title'', ''/title'', ''style'', ''/style'',
       ''/head'', ''body'', ''header'', ''h1'', ''/h1'', ''/header'', ''main'', ''p class=\"note\" role=\"note\"'', ''p'', ''/p'',
       ''nav aria-label=\"Contents\"'', ''a href=\"#prov\"'', ''a href=\"#find\"'', ''a href=\"#atlas-sum\"'',
       ''a href=\"#atlas-graph\"'', ''a href=\"#atlas-fns\"'', ''a href=\"#atlas-xrefs\"'', ''/a'', ''/nav'',
       ''section aria-labelledby=\"prov\"'', ''section aria-labelledby=\"find\"'', ''section aria-labelledby=\"atlas-sum\"'',
       ''section aria-labelledby=\"atlas-graph\"'', ''section aria-labelledby=\"atlas-fns\"'',
       ''section aria-labelledby=\"atlas-xrefs\"'', ''/section'', ''h2 id=\"prov\"'', ''h2 id=\"find\"'', ''h2 id=\"atlas-sum\"'',
       ''h2 id=\"atlas-graph\"'', ''h2 id=\"atlas-fns\"'', ''h2 id=\"atlas-xrefs\"'', ''/h2'', ''h3'', ''/h3'', ''dl'', ''dt'', ''/dt'',
       ''dd'', ''/dd'', ''/dl'', ''code'', ''/code'', ''table'', ''thead'', ''/thead'', ''tbody'', ''/tbody'', ''/table'', ''tr'', ''/tr'',
       ''th scope=\"col\"'', ''/th'', ''td'', ''/td'', ''span class=\"tag\"'', ''/span'', ''br'', ''/main'', ''/body'', ''/html'']"

definition TEMPLATE_TAGS :: "pystr list" where
  "TEMPLATE_TAGS =
     (ascii ''meta http-equiv=\"Content-Security-Policy\" content=\"'' @ REPORT_CSP @ [34]) # map ascii TAG_NAMES"

text \<open>The scan of a literal, as a string.\<close>

fun string_scan :: "string option \<Rightarrow> string \<Rightarrow> string list \<times> string option" where
  "string_scan st [] = ([], st)"
| "string_scan None (c # s) = (if c = CHR ''<'' then string_scan (Some []) s else string_scan None s)"
| "string_scan (Some t) (c # s) =
     (if c = CHR ''>'' then (case string_scan None s of (ts, e) \<Rightarrow> (t # ts, e)) else string_scan (Some (t @ [c])) s)"

lemma html_scan_ascii:
  "html_scan (map_option ascii st) (ascii s) = (case string_scan st s of (ts, e) \<Rightarrow> (map ascii ts, map_option ascii e))"
proof -
  have eq: "of_char c = (60::nat) \<longleftrightarrow> c = CHR ''<''" "of_char c = (62::nat) \<longleftrightarrow> c = CHR ''>''" for c
    using of_char_eq_iff [of c "CHR ''<''", where 'a = nat] of_char_eq_iff [of c "CHR ''>''", where 'a = nat] by simp_all
  show ?thesis
    by (induction st s rule: string_scan.induct) (auto simp: ascii_def eq split: prod.splits)
qed

definition template :: "string \<Rightarrow> bool" where
  "template s \<longleftrightarrow> (case string_scan None s of (ts, e) \<Rightarrow> e = None \<and> list_all (\<lambda>t. t \<in> set TAG_NAMES) ts)"

text \<open>Two texts with the same tags, all of them of the template.\<close>

definition same_tags :: "pystr \<Rightarrow> pystr \<Rightarrow> bool" where
  "same_tags a b \<longleftrightarrow> (\<exists>ts. markup a ts \<and> markup b ts \<and> set ts \<subseteq> set TEMPLATE_TAGS)"

lemma same_append: "same_tags a b \<Longrightarrow> same_tags c d \<Longrightarrow> same_tags (a @ c) (b @ d)"
  unfolding same_tags_def by (metis Un_least markup_append set_append)

lemma same_text: "markup a [] \<Longrightarrow> markup b [] \<Longrightarrow> same_tags a b"
  unfolding same_tags_def by (intro exI [of _ "[]"]) simp

lemma same_literal: "template s \<Longrightarrow> same_tags (ascii s) (ascii s)"
proof -
  assume "template s"
  then obtain ts where "string_scan None s = (ts, None)" "set ts \<subseteq> set TAG_NAMES"
    unfolding template_def by (auto simp: list_all_iff split: prod.splits)
  then have "markup (ascii s) (map ascii ts)" "set (map ascii ts) \<subseteq> set TEMPLATE_TAGS"
    using html_scan_ascii [of None s] by (auto simp: markup_def TEMPLATE_TAGS_def)
  then show ?thesis unfolding same_tags_def by blast
qed

lemmas same_escape = same_text [OF markup_escape markup_escape]
lemmas same_int = same_text [OF markup_int markup_int]

lemma same_concat: "length xs = length ys \<Longrightarrow> (\<And>i. i < length xs \<Longrightarrow> same_tags (f (xs ! i)) (g (ys ! i))) \<Longrightarrow>
    same_tags (concat (map f xs)) (concat (map g ys))"
proof (induction xs ys rule: list_induct2)
  case Nil
  then show ?case by (simp add: same_text markup_nil)
next
  case (Cons x xs y ys)
  from Cons(2) Cons(3) [of "Suc _"] Cons(3) [of 0] show ?case by (simp add: same_append)
qed

lemma same_yes_no: "same_tags (yes_no a) (yes_no b)"
  by (rule same_text; rule markup_text; simp add: yes_no_def ascii_def)

lemma same_or_dash: "same_tags a b \<Longrightarrow> same_tags (or_dash a) (or_dash b)"
  unfolding same_tags_def by (blast intro: markup_or_dash)

subsection \<open>The parts of the document\<close>

lemmas same_parts = same_append same_escape same_int same_yes_no

lemma same_node: "same_tags (node_row n) (node_row n')"
  unfolding node_row_def by (intro same_parts; rule same_literal; simp add: template_def TAG_NAMES_def)

lemma same_edge: "same_tags (edge_row e) (edge_row e')"
  unfolding edge_row_def by (intro same_parts; rule same_literal; simp add: template_def TAG_NAMES_def)

lemma same_function: "same_tags (function_row f) (function_row f')"
  unfolding function_row_def by (intro same_parts; rule same_literal; simp add: template_def TAG_NAMES_def)

lemma same_xref: "same_tags (xref_row x) (xref_row x')"
  unfolding xref_row_def by (intro same_parts; rule same_literal; simp add: template_def TAG_NAMES_def)

lemma same_description:
  assumes "length rows = length rows'"
  shows "same_tags (description_list rows) (description_list rows')"
proof -
  have row: "same_tags (ascii ''<dt>'' @ html_escape k @ ascii ''</dt><dd><code>'' @ html_escape v @ ascii ''</code></dd>'')
      (ascii ''<dt>'' @ html_escape k' @ ascii ''</dt><dd><code>'' @ html_escape v' @ ascii ''</code></dd>'')" for k v k' v'
    by (intro same_parts; rule same_literal; simp add: template_def TAG_NAMES_def)
  show ?thesis unfolding description_list_def case_prod_beta
    by (intro same_append same_concat [OF assms] row; rule same_literal; simp add: template_def TAG_NAMES_def)
qed

lemma same_table:
  assumes "template heads" "template sentence" "length xs = length ys"
    and "\<And>i. i < length xs \<Longrightarrow> same_tags (row (xs ! i)) (row (ys ! i))"
  shows "same_tags (table_or heads sentence row xs) (table_or heads sentence row ys)"
proof (cases "xs = []")
  case True
  with assms(2,3) show ?thesis by (simp add: table_or_def same_literal)
next
  case False
  moreover have "ys \<noteq> []" using False assms(3) by auto
  moreover have "same_tags (ascii ''<table><thead><tr>'') (ascii ''<table><thead><tr>'')"
    "same_tags (ascii ''</tr></thead><tbody>'') (ascii ''</tr></thead><tbody>'')"
    "same_tags (ascii ''</tbody></table>'') (ascii ''</tbody></table>'')"
    by (rule same_literal; simp add: template_def TAG_NAMES_def)+
  ultimately show ?thesis unfolding table_or_def using assms same_literal [OF assms(1)]
    by (simp add: same_append same_concat)
qed

lemma same_join:
  assumes "same_tags sep sep" "length ss = length ts" "\<And>s. s \<in> set ss \<union> set ts \<Longrightarrow> markup s []"
  shows "same_tags (join_with sep ss) (join_with sep ts)"
proof -
  obtain us where us: "markup sep us" "set us \<subseteq> set TEMPLATE_TAGS" using assms(1) unfolding same_tags_def by blast
  then have "markup (join_with sep ss) (concat (replicate (length ss - 1) us))"
    "markup (join_with sep ts) (concat (replicate (length ss - 1) us))"
    using markup_join [of sep us ss] markup_join [of sep us ts] assms(2,3) by auto
  moreover have "set (concat (replicate (length ss - 1) us)) \<subseteq> set TEMPLATE_TAGS" using us(2) by auto
  ultimately show ?thesis unfolding same_tags_def by blast
qed

lemma same_finding:
  assumes "length (fr_observation f) = length (fr_observation f')"
  shows "same_tags (finding_row f) (finding_row f')"
proof -
  have "same_tags (ascii ''<br>'') (ascii ''<br>'')" by (rule same_literal) (simp add: template_def TAG_NAMES_def)
  from same_join [OF this, of "map (\<lambda>o'. html_escape (u_value o')) (fr_observation f)"
      "map (\<lambda>o'. html_escape (u_value o')) (fr_observation f')"]
  have obs: "same_tags (or_dash (join_with (ascii ''<br>'') (map (\<lambda>o'. html_escape (u_value o')) (fr_observation f))))
      (or_dash (join_with (ascii ''<br>'') (map (\<lambda>o'. html_escape (u_value o')) (fr_observation f'))))"
    using assms markup_escape by (intro same_or_dash) auto
  have inf: "markup (case fr_inference g of Some i \<Rightarrow> html_escape (u_value i) | None \<Rightarrow> dash) []" for g :: FindingRecord
    using markup_escape markup_dash by (simp split: option.split)
  show ?thesis unfolding finding_row_def Let_def
    by (intro same_parts obs same_text [OF inf inf]; rule same_literal; simp add: template_def TAG_NAMES_def)
qed

subsection \<open>Texts erased\<close>

definition blank :: "pystr Untrusted \<Rightarrow> pystr Untrusted" where
  "blank u = u\<lparr>u_value := []\<rparr>"

definition blank_finding :: "FindingRecord \<Rightarrow> FindingRecord" where
  "blank_finding f = \<lparr> fr_subject = blank (fr_subject f), fr_kind = [], fr_confidence = [],
     fr_observation = map blank (fr_observation f), fr_inference = map_option blank (fr_inference f) \<rparr>"

definition blank_manifest :: "ReportManifest \<Rightarrow> ReportManifest" where
  "blank_manifest m = \<lparr> mf_program_sha256 = [], mf_session_id = [], mf_tool = [], mf_tool_revision = [],
     mf_generated_from = [], mf_finding_count = 0, mf_truncated = False \<rparr>"

definition blank_summary :: "AtlasSummary \<Rightarrow> AtlasSummary" where
  "blank_summary s = \<lparr> as_program_sha256 = [], as_format = [], as_architecture = [], as_endianness = [], as_size_bytes = 0,
     as_entry_point = None, as_compiler = None, as_function_count = 0, as_import_count = 0, as_export_count = 0,
     as_string_count = 0, as_leaf_count = map_option (\<lambda>_. 0) (as_leaf_count s),
     as_root_count = map_option (\<lambda>_. 0) (as_root_count s),
     as_recursive_component_count = map_option (\<lambda>_. 0) (as_recursive_component_count s),
     as_unresolved_caller_count = map_option (\<lambda>_. 0) (as_unresolved_caller_count s) \<rparr>"

definition blank_atlas :: "Atlas \<Rightarrow> Atlas" where
  "blank_atlas a = \<lparr> ad_summary = blank_summary (ad_summary a),
     ad_nodes = map (\<lambda>n. \<lparr> an_address = [], an_name = blank (an_name n), an_is_external = False,
       an_has_unresolved_calls = False \<rparr>) (ad_nodes a),
     ad_edges = map (\<lambda>_. \<lparr> ae_from = [], ae_to = [] \<rparr>) (ad_edges a),
     ad_functions = map (\<lambda>f. \<lparr> af_address = [], af_name = blank (af_name f), af_size = 0 \<rparr>) (ad_functions a),
     ad_xrefs = map (\<lambda>_. \<lparr> ax_from = [], ax_to = [], ax_ref_type = [] \<rparr>) (ad_xrefs a),
     ad_truncated = ad_truncated a \<rparr>"

subsection \<open>The document\<close>

lemma same_manifest: "same_tags (manifest_html m) (manifest_html m')"
  unfolding manifest_html_def by (rule same_description) simp

lemma same_summary: "same_tags (description_list (summary_rows s)) (description_list (summary_rows (blank_summary s)))"
  by (rule same_description) (simp add: summary_rows_def blank_summary_def count_row_def split: option.split)

lemma same_atlas: "same_tags (atlas_html a) (atlas_html (blank_atlas a))"
proof -
  have sentence: "same_tags (if ad_truncated a
        then ascii ''<p class=\"note\" role=\"note\">Atlas truncated to fit caps '' @ dash @ ascii '' partial view.</p>'' else [])
      (if ad_truncated (blank_atlas a)
        then ascii ''<p class=\"note\" role=\"note\">Atlas truncated to fit caps '' @ dash @ ascii '' partial view.</p>'' else [])"
  proof -
    have "markup (ascii ''<p class=\"note\" role=\"note\">Atlas truncated to fit caps '' @ dash @ ascii '' partial view.</p>'')
        [ascii ''p class=\"note\" role=\"note\"'', ascii ''/p'']"
      by (simp add: markup_def ascii_def)
    moreover have "{ascii ''p class=\"note\" role=\"note\"'', ascii ''/p''} \<subseteq> set TEMPLATE_TAGS"
      by (simp add: TEMPLATE_TAGS_def TAG_NAMES_def)
    ultimately show ?thesis by (auto simp: same_tags_def blank_atlas_def intro: markup_nil)
  qed
  have fields: "ad_summary (blank_atlas a) = blank_summary (ad_summary a)" "length (ad_nodes (blank_atlas a)) = length (ad_nodes a)"
    "length (ad_edges (blank_atlas a)) = length (ad_edges a)"
    "length (ad_functions (blank_atlas a)) = length (ad_functions a)" "length (ad_xrefs (blank_atlas a)) = length (ad_xrefs a)"
    by (simp_all add: blank_atlas_def)
  show ?thesis unfolding atlas_html_def fields(1)
    by (intro same_append sentence same_summary same_table same_node same_edge same_function same_xref fields(2-5) [symmetric];
        (rule same_literal)?; simp add: template_def TAG_NAMES_def)
qed

lemma same_items:
  assumes "\<forall>i \<in> set is. template i"
  shows "same_tags (join_with [32, 183, 32] (map ascii is)) (join_with [32, 183, 32] (map ascii is))"
proof -
  have sep: "same_tags [32, 183, 32] [32, 183, 32]" by (rule same_text; simp add: markup_def)
  show ?thesis using assms
  proof (induction "is" rule: induct_list012)
    case (3 i j js)
    then have "same_tags (ascii i @ [32, 183, 32] @ join_with [32, 183, 32] (map ascii (j # js)))
        (ascii i @ [32, 183, 32] @ join_with [32, 183, 32] (map ascii (j # js)))"
      by (intro same_append sep same_literal) auto
    then show ?case by simp
  qed (simp_all add: same_literal same_text markup_nil)
qed

lemma same_nav: "same_tags (nav_html b) (nav_html b)"
  by (cases b; simp only: nav_html_def Let_def if_True if_False append_Nil2;
      intro same_append same_items; (rule same_literal)?; simp add: template_def TAG_NAMES_def)

lemma same_policy: "same_tags policy_meta policy_meta"
proof -
  have "html_scan None (ascii ''<meta http-equiv=\"Content-Security-Policy\" content=\"'') =
      ([], Some (ascii ''meta http-equiv=\"Content-Security-Policy\" content=\"''))"
    by (simp add: ascii_def)
  then have "markup policy_meta [ascii ''meta http-equiv=\"Content-Security-Policy\" content=\"'' @ REPORT_CSP @ [34]]"
    unfolding policy_meta_def
    by (simp only: markup_def html_scan_append html_scan_inside [OF csp_attribute] prod.case) (simp add: ascii_def)
  then show ?thesis unfolding same_tags_def by (intro exI conjI) (assumption, assumption, simp add: TEMPLATE_TAGS_def)
qed

text \<open>
  C31: The markup of a report is fixed. Whatever the title, the manifest, the findings and the atlas
  contain, every tag of the HTML document is closed and is one of the tags of the template, none of
  which has a script, an event handler or an address other than an anchor in the document; and the sequence of tags is that of the same document with every
  text erased: no text of a binary, an analyst or a client has any influence on the markup.
\<close>

theorem report_markup_fixed:
  "\<exists>tags. html_scan None (render_report_html heading m findings atlas) = (tags, None) \<and>
     set tags \<subseteq> set TEMPLATE_TAGS \<and>
     html_scan None (render_report_html [] (blank_manifest m) (map blank_finding findings) (map_option blank_atlas atlas)) = (tags, None)"
proof -
  have titles: "markup (if h = [] then DEFAULT_TITLE else html_escape h) []" for h
    using markup_escape by (auto simp: DEFAULT_TITLE_def intro: markup_text) (simp add: markup_def ascii_def)
  have rows: "same_tags (finding_row (findings ! i)) (finding_row (map blank_finding findings ! i))" if "i < length findings" for i
    using that by (intro same_finding) (simp add: blank_finding_def)
  have atlases: "same_tags (case atlas of None \<Rightarrow> [] | Some a \<Rightarrow> atlas_html a)
      (case map_option blank_atlas atlas of None \<Rightarrow> [] | Some a \<Rightarrow> atlas_html a)"
    using same_atlas same_text [OF markup_nil markup_nil] by (cases atlas) simp_all
  have nav: "same_tags (nav_html (atlas \<noteq> None)) (nav_html (map_option blank_atlas atlas \<noteq> None))" by (simp add: same_nav)
  have "same_tags (render_report_html heading m findings atlas)
      (render_report_html [] (blank_manifest m) (map blank_finding findings) (map_option blank_atlas atlas))"
    unfolding render_report_html_def Let_def
    by (intro same_append same_policy nav same_manifest atlases same_table rows
          same_text [OF titles titles] same_text [OF markup_style markup_style];
        (rule same_literal)?; simp add: template_def TAG_NAMES_def)
  then show ?thesis unfolding same_tags_def markup_def by blast
qed

end
