(* ===== verification/Spec2Isabelle.thy ===== *)
theory Spec2Isabelle
  imports Composition Validation_Props Container Rpc_Stream_Props Registry_Calls Startup Naming_Props Graph_Props Report_Props
begin

text \<open>
  A verification development for vivarium, an MCP server that lets clients reverse-engineer hostile
  binaries in a sandboxed Ghidra worker. All paths below are relative to \<open>src/src/vivarium/\<close> unless
  they start with \<open>worker/\<close>.

  \<^bold>\<open>The program.\<close> A client opens a session (\<open>sessions/manager.py\<close>), owned by one principal and bounded
  by capacity, idle and lifetime limits; a worker container is started for it on demand. Tools
  validate their arguments (\<open>core/validation.py\<close>), run in the worker and return binary-derived data in
  an envelope that neutralises dangerous characters (\<open>core/envelope.py\<close>). Long decompilations are
  streaming jobs (\<open>jobs/streaming.py\<close>), analysis reports are projected to inert text (\<open>report/projection.py\<close>, \<open>core/secretscan.py\<close>), composed and
  rendered (\<open>report/findings.py\<close>, \<open>report/atlas.py\<close>, \<open>report/render.py\<close>) and kept per session (\<open>report/store.py\<close>), and
  the composition root (\<open>server/app.py\<close>) wires the eviction of a session to the disposal of its jobs and
  reports. Over HTTP a request passes a stack of middleware (\<open>server/http_middleware.py\<close>) that checks size and
  rate and authenticates its principal (\<open>server/auth.py\<close>); a tool call passes the registry's chokepoint
  (\<open>tools/registry.py\<close>): capability, schema, worker guard, then the handler, which authorizes against the
  session manager before it asks the worker. Server and worker speak length-prefixed JSON over a socket (\<open>ghidra/rpc_framing.py\<close>, the server's
  end in \<open>ghidra/rpc_client.py\<close>, the worker's in \<open>worker/dispatch.py\<close>). Limits are resolved fail-closed (\<open>security/limits.py\<close>), failures are envelopes of fixed
  categories (\<open>core/errors.py\<close>, \<open>ghidra/_errors.py\<close>). In the worker, firmware containers are parsed and
  unwrapped (\<open>core/cpio.py\<close>, \<open>core/lz4legacy.py\<close>, \<open>core/androidboot.py\<close>, \<open>core/uimage.py\<close>,
  \<open>core/debuglink.py\<close>, parts of \<open>ghidra/_jvm_bridge.py\<close>).
  The process starts from its environment (\<open>config.py\<close>), which either gives a configuration that meets every
  fail-closed rule or stops the start. Two batch programs use the tools as a client does: the naming loop
  (\<open>naming/loop.py\<close>) walks the call graph callees first (\<open>core/callgraph.py\<close>) and asks a namer about one function
  after the other, the graph export (\<open>graph_export/\<close>) gathers what is known of a program, maps it to nodes and
  edges and pushes them to a store.

  \<^bold>\<open>The theories.\<close> Each component theory keeps the source's names; a class is a record, an operation a
  function from the state (and an environment with clock, fresh identifiers and the outcome of outside
  calls) to a result and the new state; a raise is the \<open>Inl\<close> of a sum.
  \<^item> \<open>Prelude\<close>: dictionaries as association lists, Python slices, byte strings and fixed-width integers,
    the bounded-window contract.  \<open>Pyval\<close>: dynamically typed values.  \<open>Py_Codec\<close>: \<open>str.strip\<close>,
    \<open>int(s, 16)\<close>, UTF-8 decoding with replacement.
  \<^item> \<open>Errors\<close>: categories, envelopes with their field constraints, the factories, sequencing of
    statements that may raise.  \<open>Resource_Limits\<close>: defaults, hard ceilings, resolvers.
    \<open>Envelope\<close>: classification, normalisation and \<open>wrap\<close>.
  \<^item> \<open>Sessions\<close>: every method of the session manager.  \<open>Session_Props\<close>: the locale \<open>owner_scoped\<close>, the
    contract of every operation that goes through the ownership check, with an interpretation per
    operation.  \<open>Session_Machine\<close>: the operations as one step function, runs and reachable states.
  \<^item> \<open>Streaming\<close>: one job (buffer, pump, drain, replay window).  \<open>Streaming_Props\<close>: runs of client calls
    against a producer.  \<open>Streaming_Manager\<close>: the job table; the session manager meets its locale
    \<open>job_authorizer\<close>.  \<open>Report_Store\<close>: the per-session report buckets.
  \<^item> \<open>Composition\<close>: the wired system, its hooks and its reachable states.
  \<^item> \<open>Validation\<close>, \<open>Validation_Props\<close>: every boundary validator; the iterative by-value cycle search is
    related to acyclicity of the type graph by an invariant on stack and colours.
  \<^item> \<open>Firmware\<close>, \<open>Firmware_Props\<close>: the five container parsers, with reference encoders.  \<open>Container\<close>:
    unwrapping under the zip-bomb cap; the locale \<open>chunk_reader\<close> is the contract of a reader, met by the
    file reader, the legacy lz4 reader and their union.
  \<^item> \<open>Py_Json\<close>: the JSON printer and parser and strict UTF-8 of the standard library; what is printed is
    read back.  \<open>Framing\<close>: frames, requests, responses and the three notifications; the locale
    \<open>notification\<close> is their contract.  \<open>Wire\<close>: both readers over a script of socket events; the locale
    \<open>exact_reader\<close> says that a reader gets the pending bytes whatever the segments.
  \<^item> \<open>Rpc_Client\<close>, \<open>Rpc_Client_Props\<close>: worker life cycle, calls, the generator of a decompile stream,
    cancellation.  \<open>Worker_Errors\<close>, \<open>Worker\<close>: the worker's codes, dispatch, emitters, cancel poll and serve
    loop over an arbitrary backend.  \<open>Rpc_End_To_End\<close>, \<open>Rpc_Stream_Props\<close>: the two ends together.
  \<^item> \<open>Auth\<close>: the authenticators and their construction.  \<open>Http_Edge\<close>: the middleware layers as functions
    on requests and the state they keep, composed as \<open>build_http_asgi_app\<close> does.  \<open>Http_Props\<close>: default
    deny, the bound of the token bucket.
  \<^item> \<open>Registry\<close>: the 81 tool handlers, their table, the chokepoint, the error boundary. A handler is a
    computation on the session manager, the reports and a log; between its steps other threads may do
    anything to the session table (\<open>others\<close>), and the port answers anything (\<open>port_answer\<close>).  \<open>Registry_Props\<close>: a
    small logic, \<open>mediates\<close>, in which every handler is proved to ask before it calls; the locale
    \<open>tool_table\<close> is what the chokepoint needs of a table, met by \<open>HANDLERS\<close>.  \<open>Registry_Calls\<close>: the import of
    annotations, and tools before an import.
  \<^item> \<open>Py_Text\<close>: blank-stripping, splitting and the decimal digits of \<open>str\<close>.  \<open>Config\<close>: the readers, checks and
    rules of the environment; \<open>Config_Props\<close>: what a loaded configuration guarantees and how loading fails.
    \<open>Startup\<close>: \<open>run_http\<close>, from a configuration to the authenticator, the middleware stack and the listener.
  \<^item> \<open>Callgraph\<close>: normalisation and the iterative Tarjan search, one loop turn as \<open>tarjan_step\<close> over the stack
    of frames; \<open>Callgraph_Props\<close>: its invariant, its end and the order it returns.  \<open>Schemas\<close>: the records of
    tool results.  \<open>Naming\<close>, \<open>Naming_Props\<close>: the analysis order of an extracted graph and the naming loop over it.
  \<^item> \<open>Projection\<close>: the three projections and the readers that give back what they projected.  \<open>Secret_Scan\<close>: the
    scanner and its redaction.  \<open>Report\<close>: findings, atlas, the HTML document and the report put together;
    \<open>Report_Props\<close>: inert leaves, and a scan of the document's tags.
  \<^item> \<open>Graph_Mapper\<close>: nodes, edges, the batch builder and the mapping of the gathered sources, with the corpus
    links.  \<open>Graph_Driver\<close>: gathering, pushing and the whole export, as computations on a log of calls;
    tools and store answer or raise anything (\<open>ports\<close>).  \<open>Graph_Props\<close>: the builder's invariant and what a run did.

  \<^bold>\<open>What is shown.\<close> Sessions: capacity and well-formedness in every reachable state, isolation of
  principals, the consent gate, exact effects of reaping, closing and shutdown. Streaming: complete,
  ordered, gap-free, bounded delivery, honest end, faithful replay, mediated access. Composition: no
  job and no report outlives its session. Boundary: exact acceptance of documents, batches, addresses
  and ranges, and that only client-fault envelopes leave it; neutralisation; fail-closed limits.
  Firmware: exact acceptance of legacy lz4 frames, round trips of cpio archives, the output cap for
  arbitrary decompressors, faithful streaming, exact kernel windows, confined staging. Connection: a call
  returns what the handler returned, a stream delivers what the backend selected, both for every cut of
  the bytes; a call fails closed and a stream ends whatever the worker sends. Edge: nothing reaches the
  application without a verified credential, a client is let through no more often than its bucket
  allows. Tools: no call of any tool reaches the worker unmediated, an annotation import is bound to its
  binary. Start: a configuration that loads is safe, one that does not fails with a startup error or a
  \<open>ValueError\<close> of an odd text, and a server on a network address is default-deny. Reports: projection
  is inert and loses nothing but what its caps cut, findings are exact and redacted, and no text has any
  influence on the markup of a report. Batch programs: the analysis order is the strongly connected components, callees first; the naming loop shows the names of
  callees already named; the export ends, closes its session, is bounded, never fabricates an edge,
  and maps to a well-formed graph. Some theorems show defects:
  a stale cancel that breaks the one-job rule, a late cancel that kills a healthy worker, two tools
  missing from the worker's allow-list, three tools that announce to work before an import and are refused,
  a rate limit that eviction of a bucket resets, principals that collide, cancelled jobs that accumulate, a late report that outlives its
  session, cpio members of negative size, digits that only \<open>isdigit\<close> takes for a number.

  \<^bold>\<open>Termination.\<close> Every loop is a total function with a termination proof, except the exhaustion of an
  arbitrary producer, which is a \<open>partial_function (option)\<close>; the pages of a tool's list
  (\<open>paginate_loop\<close>), also one, proved to end for page sizes of at least one; the search of the call graph
  (\<open>tarjan_loop\<close>), a \<open>while_option\<close> proved to end on every graph; and the JSON parser, which has fuel: twice the
  length of the text plus two, proved never to run out (\<open>loads_total\<close>).

  \<^bold>\<open>Not modelled.\<close> The JVM bridge beyond container unwrapping and the stream loop (it calls Ghidra's Java
  API), the container launcher, the JWT library and the CORS layer (arguments), the web server and the TLS handshake, the
  pydantic field constraints, the FastMCP registration, the dashboard,
  the scanners other than that for secrets and matchers (tables of regular expressions and floating-point scores), the
  sink of the graph export (HTTP calls), the evaluation harness of the naming loop, and maintenance scripts.
  The import gate and the tool methods of the adapter that only rename fields of a result are left out too:
  the registry's theorems hold for any answer of the port. Threads are modelled by
  their lock discipline: an operation that holds the manager's lock is one step.
\<close>

subsection \<open>Properties that span components\<close>


definition demo_system :: System where
  "demo_system = snd (sys_start_job demo_env (ascii ''j1'') demo_producer None (ascii ''s1'') (ascii ''alice'') None
     (sys_session demo_env (Create (ascii ''alice'')) (snd (build_app (new_manager True None 3600 600 2 None False) default_limits))))"

abbreviation demo_wired :: System where
  "demo_wired \<equiv> snd (build_app (new_manager True None 3600 600 2 None False) default_limits)"

lemma demo_created:
  "sys_session demo_env (Create (ascii ''alice'')) demo_wired =
    \<lparr> sys_sm = (new_manager True None 3600 600 2 None True)
        \<lparr>sessions := [(ascii ''s1'', new_session demo_env (ascii ''alice'') (new_manager True None 3600 600 2 None True))],
         effects := [MetricCreated]\<rparr>,
      sys_jm = new_job_manager (Some default_limits), sys_rs = new_report_store \<rparr>"
  by (simp add: sys_session_def run_hooks_def build_app_def set_evict_callback_def create_def new_manager_def
      new_session_def Let_def demo_env_def store_path_for_def)

lemma demo_created_reach: "sys_reach timely demo_wired (sys_session demo_env (Create (ascii ''alice'')) demo_wired)"
  by (rule sys_session [OF sys_start])
     (simp add: fresh_ok_def build_app_def set_evict_callback_def new_manager_def)

lemma demo_system_reach: "sys_reach timely demo_wired demo_system"
  unfolding demo_system_def
  by (rule sys_start_job [OF demo_created_reach], subst demo_created) (simp add: new_job_manager_def)

lemma demo_system_jobs: "dict_get (jobs (sys_jm demo_system)) (ascii ''j1'') = Some demo_job0"
  if "demo_job0 = fresh_job (ascii ''j1'') 10 (ascii ''s1'') demo_producer None (ascii ''alice'') None default_limits"
  for demo_job0
  unfolding demo_system_def that
  by (subst demo_created)
     (simp add: sys_start_job_def sys_authorize_def authorize_outcome_def on_jobs_def sys_session_def run_hooks_def
      authorize_def with_live_def get_live_locked_def is_expired_def ttl_expired_def new_session_def Let_def
      new_manager_def demo_env_def flush_evicted_def start_job_def new_job_manager_def case_prod_beta)



definition demo_reported :: System where
  "demo_reported = sys_put_report (ascii ''r1'') 1 (ascii ''s1'') PyNone [] None None
     (sys_session demo_env (Create (ascii ''alice'')) demo_wired)"

lemma demo_reported_reach: "sys_reach True demo_wired demo_reported"
  unfolding demo_reported_def
  by (rule sys_put [OF demo_created_reach], subst demo_created) (simp add: in_table_def)

lemma demo_reported_count: "report_count (ascii ''s1'') (sys_rs demo_reported) > 0"
  unfolding demo_reported_def
  by (subst demo_created) (simp add: sys_put_report_def put_report_def new_report_store_def report_count_def Let_def)


text \<open>
  A report stored late stays for good. The report handler checks ownership first and stores the
  document when it is composed; if the owner closes the session in between, the report is stored
  under an id no session has any more, and no eviction will ever discard it.
\<close>

theorem late_report_outlives_session:
  "\<exists>sys. sys_reach False (snd (build_app (new_manager True None 3600 600 2 None False) default_limits)) sys \<and>
     report_count (ascii ''s1'') (sys_rs sys) = 1 \<and> sessions (sys_sm sys) = []"
proof (intro exI conjI)
  let ?close = "CloseSession (ascii ''closed'') (ascii ''s1'') (ascii ''alice'')"
  let ?sys = "sys_session demo_env ?close (sys_session demo_env (Create (ascii ''alice'')) demo_wired)"
  have "sys_reach False demo_wired ?sys"
    by (rule sys_session [OF demo_created_reach]) (simp add: fresh_ok_def)
  then show "sys_reach False demo_wired (sys_put_report (ascii ''r1'') 1 (ascii ''s1'') PyNone [] None None ?sys)"
    by (rule sys_put) simp
  have closed: "?sys = \<lparr> sys_sm = (new_manager True None 3600 600 2 None True)
      \<lparr>effects := [MetricCreated, MetricEvicted (ascii ''closed''), OnEvict (ascii ''s1'')]\<rparr>,
    sys_jm = new_job_manager (Some default_limits), sys_rs = new_report_store \<rparr>"
    by (subst demo_created)
       (simp add: sys_session_def run_hooks_def evict_def get_live_locked_def is_expired_def ttl_expired_def
        new_session_def new_manager_def demo_env_def Let_def evict_locked_def detach_for_eviction_locked_def
        run_eviction_io_def flush_evicted_def store_path_for_def wipe_store_def
        discard_session_artifacts_def discard_session_def discard_reports_def new_job_manager_def new_report_store_def)
  show "report_count (ascii ''s1'') (sys_rs (sys_put_report (ascii ''r1'') 1 (ascii ''s1'') PyNone [] None None ?sys)) = 1"
    unfolding closed by (simp add: sys_put_report_def put_report_def new_report_store_def report_count_def Let_def)
  show "sessions (sys_sm (sys_put_report (ascii ''r1'') 1 (ascii ''s1'') PyNone [] None None ?sys)) = []"
    unfolding closed by (simp add: sys_put_report_def new_manager_def)
qed

end
